(* ===== verification/Prelude.thy ===== *)
theory Prelude
  imports Main "HOL-Library.Multiset" "HOL-Library.Char_ord"
begin

text \<open>
  Shared by every component: plain JavaScript objects used as dictionaries (their
  lookup, assignment, deletion and enumeration order), and a few list lemmas.

  A JavaScript object that the code uses as a \<^verbatim>\<open>Record<string, T>\<close> is an association list
  with distinct keys in the order of insertion (\<open>jsobj\<close>).  \<open>obj_entries\<close> is
  \<^verbatim>\<open>Object.entries\<close>: own keys that are array indices come first in ascending numeric order,
  the other keys follow in insertion order.  Keys are assumed not to be names
  inherited from \<^verbatim>\<open>Object.prototype\<close> (such as \<^verbatim>\<open>constructor\<close>), which a lookup on a plain object
  would find on the prototype.
\<close>

named_theorems obj_simps \<open>lookup and key laws of JavaScript objects\<close>

section \<open>Objects as dictionaries\<close>

type_synonym 'v jsobj = "(string \<times> 'v) list"

definition obj_ok :: "'v jsobj \<Rightarrow> bool" where
  "obj_ok ob \<longleftrightarrow> distinct (map fst ob)"

definition obj_get :: "'v jsobj \<Rightarrow> string \<Rightarrow> 'v option" where
  "obj_get ob k = map_of ob k"

fun obj_set :: "string \<Rightarrow> 'v \<Rightarrow> 'v jsobj \<Rightarrow> 'v jsobj" where
  "obj_set k v [] = [(k, v)]"
| "obj_set k v ((k', v') # ob) = (if k = k' then (k, v) # ob else (k', v') # obj_set k v ob)"

definition obj_delete :: "string \<Rightarrow> 'v jsobj \<Rightarrow> 'v jsobj" where
  "obj_delete k ob = filter (\<lambda>kv. fst kv \<noteq> k) ob"

text \<open>\<^verbatim>\<open>o[k] || d\<close> for a property whose values are never falsy when present.\<close>

definition obj_get_or :: "'v jsobj \<Rightarrow> string \<Rightarrow> 'v \<Rightarrow> 'v" where
  "obj_get_or ob k d = (case obj_get ob k of None \<Rightarrow> d | Some v \<Rightarrow> v)"

fun digits_value :: "nat \<Rightarrow> string \<Rightarrow> nat option" where
  "digits_value acc [] = Some acc"
| "digits_value acc (c # cs) =
     (if CHR ''0'' \<le> c \<and> c \<le> CHR ''9''
      then digits_value (10 * acc + (of_char c - of_char CHR ''0'')) cs else None)"

text \<open>Array indices: canonical decimal numerals below $2^{32} - 1$.\<close>

definition index_key :: "string \<Rightarrow> nat option" where
  "index_key k =
     (if k = [] \<or> (hd k = CHR ''0'' \<and> length k > 1) then None
      else case digits_value 0 k of
        None \<Rightarrow> None
      | Some n \<Rightarrow> if n < 4294967295 then Some n else None)"

definition index_of_key :: "string \<Rightarrow> nat" where
  "index_of_key k = (case index_key k of None \<Rightarrow> 0 | Some n \<Rightarrow> n)"

definition obj_entries :: "'v jsobj \<Rightarrow> (string \<times> 'v) list" where
  "obj_entries ob =
     sort_key (\<lambda>kv. index_of_key (fst kv)) (filter (\<lambda>kv. index_key (fst kv) \<noteq> None) ob)
     @ filter (\<lambda>kv. index_key (fst kv) = None) ob"

definition obj_keys :: "'v jsobj \<Rightarrow> string list" where
  "obj_keys ob = map fst (obj_entries ob)"

definition obj_values :: "'v jsobj \<Rightarrow> 'v list" where
  "obj_values ob = map snd (obj_entries ob)"

lemma obj_get_Nil [obj_simps, simp]: "obj_get [] k = None"
  by (simp add: obj_get_def)

lemma obj_get_Cons [simp]: "obj_get ((k', v) # ob) k = (if k = k' then Some v else obj_get ob k)"
  by (simp add: obj_get_def)

lemma obj_get_set [obj_simps, simp]:
  "obj_get (obj_set k v ob) k' = (if k' = k then Some v else obj_get ob k')"
  by (induction ob) auto

lemma obj_get_delete [obj_simps, simp]:
  "obj_get (obj_delete k ob) k' = (if k' = k then None else obj_get ob k')"
  by (induction ob) (auto simp: obj_delete_def)

lemma map_fst_obj_set:
  "map fst (obj_set k v ob) = (if k \<in> set (map fst ob) then map fst ob else map fst ob @ [k])"
  by (induction k v ob rule: obj_set.induct) auto

lemma fst_set_obj_set [simp]: "fst ` set (obj_set k v ob) = insert k (fst ` set ob)"
proof -
  have "set (map fst (obj_set k v ob)) = insert k (set (map fst ob))"
    by (auto simp only: map_fst_obj_set set_append split: if_splits) auto
  then show ?thesis by simp
qed

lemma obj_ok_Nil [simp]: "obj_ok []"
  by (simp add: obj_ok_def)

lemma obj_ok_set [simp]: "obj_ok ob \<Longrightarrow> obj_ok (obj_set k v ob)"
  by (simp add: obj_ok_def map_fst_obj_set del: set_map)

lemma obj_ok_delete [simp]: "obj_ok ob \<Longrightarrow> obj_ok (obj_delete k ob)"
  by (simp add: obj_ok_def obj_delete_def distinct_map_filter)

lemma obj_get_conv_set: "obj_ok ob \<Longrightarrow> obj_get ob k = Some v \<longleftrightarrow> (k, v) \<in> set ob"
  by (simp add: obj_ok_def obj_get_def)

lemma obj_get_SomeD: "obj_get ob k = Some v \<Longrightarrow> (k, v) \<in> set ob"
  by (simp add: obj_get_def map_of_SomeD)

lemma obj_get_eq_None: "obj_get ob k = None \<longleftrightarrow> k \<notin> fst ` set ob"
  by (simp add: obj_get_def map_of_eq_None_iff)

lemma mset_obj_entries [simp]: "mset (obj_entries ob) = mset ob"
proof -
  have "mset (obj_entries ob)
      = filter_mset (\<lambda>kv. index_key (fst kv) \<noteq> None) (mset ob)
        + filter_mset (\<lambda>kv. \<not> index_key (fst kv) \<noteq> None) (mset ob)"
    by (simp add: obj_entries_def)
  then show ?thesis by (simp only: multiset_partition [symmetric])
qed

lemma set_obj_entries [simp]: "set (obj_entries ob) = set ob"
  by (metis mset_obj_entries set_mset_mset)

lemma length_obj_entries [simp]: "length (obj_entries ob) = length ob"
  by (metis mset_obj_entries size_mset)

lemma mset_obj_keys: "mset (obj_keys ob) = mset (map fst ob)"
  by (simp add: obj_keys_def)

lemma set_obj_keys: "set (obj_keys ob) = fst ` set ob"
  by (simp add: obj_keys_def)

lemma in_obj_keys [obj_simps, simp]: "k \<in> set (obj_keys ob) \<longleftrightarrow> obj_get ob k \<noteq> None"
  by (simp add: set_obj_keys obj_get_eq_None)

lemma length_obj_keys [simp]: "length (obj_keys ob) = length ob"
  by (simp add: obj_keys_def)

lemma distinct_obj_keys [simp]: "distinct (obj_keys ob) \<longleftrightarrow> obj_ok ob"
  by (metis mset_obj_keys mset_eq_imp_distinct_iff obj_ok_def)

lemma set_obj_values: "set (obj_values ob) = snd ` set ob"
  by (simp add: obj_values_def)

lemma obj_get_entries [simp]: "obj_ok ob \<Longrightarrow> obj_get (obj_entries ob) k = obj_get ob k"
proof -
  assume ok: "obj_ok ob"
  then have "distinct (map fst (obj_entries ob))"
    using distinct_obj_keys [of ob] by (simp add: obj_keys_def)
  then have "obj_ok (obj_entries ob)" by (simp add: obj_ok_def)
  with ok have "obj_get (obj_entries ob) k = Some v \<longleftrightarrow> obj_get ob k = Some v" for v
    by (simp add: obj_get_conv_set)
  then show ?thesis by (metis option.exhaust)
qed

text \<open>Assigning a list of pairs: the last one of a key counts.\<close>

lemma obj_get_fold_set:
  "obj_get (fold (\<lambda>(k, v). obj_set k v) kvs ob) k
     = (case map_of (rev kvs) k of None \<Rightarrow> obj_get ob k | Some v \<Rightarrow> Some v)"
proof (induction kvs arbitrary: ob)
  case (Cons kv kvs)
  then show ?case by (cases kv) (simp add: map_add_def split: option.split)
qed simp

lemma obj_set_fresh: "k \<notin> fst ` set ob \<Longrightarrow> obj_set k v ob = ob @ [(k, v)]"
  by (induction k v ob rule: obj_set.induct) auto

lemma fold_set_fresh:
  "distinct (map fst kvs) \<Longrightarrow> fst ` set kvs \<inter> fst ` set ob = {} \<Longrightarrow> fold (\<lambda>(k, v). obj_set k v) kvs ob = ob @ kvs"
proof (induction kvs arbitrary: ob)
  case (Cons kv kvs)
  then have "obj_set (fst kv) (snd kv) ob = ob @ [kv]" by (subst obj_set_fresh) auto
  moreover have "fst ` set kvs \<inter> fst ` set (ob @ [kv]) = {}" using Cons.prems by auto
  ultimately show ?case using Cons by (simp add: case_prod_beta)
qed simp

text \<open>Keys that are not array indices are enumerated as they were inserted.\<close>

lemma obj_entries_plain: "(\<And>k. k \<in> fst ` set ob \<Longrightarrow> index_key k = None) \<Longrightarrow> obj_entries ob = ob"
  by (simp add: obj_entries_def filter_id_conv filter_empty_conv)

section \<open>The dictionary interface\<close>

text \<open>
  What the stores rely on: a lookup after an assignment or a deletion, and the keys
  being exactly the entries with a value.  A \<^verbatim>\<open>forEach\<close> that assigns one property per
  name is \<open>fold\<close> of the assignment.
\<close>

locale dictionary =
  fixes get :: "'o \<Rightarrow> string \<Rightarrow> 'v option"
    and put :: "string \<Rightarrow> 'v \<Rightarrow> 'o \<Rightarrow> 'o"
    and del :: "string \<Rightarrow> 'o \<Rightarrow> 'o"
    and keys :: "'o \<Rightarrow> string list"
  assumes get_put: "get (put k v ob) k' = (if k' = k then Some v else get ob k')"
    and get_del: "get (del k ob) k' = (if k' = k then None else get ob k')"
    and keys_get: "k \<in> set (keys ob) \<longleftrightarrow> get ob k \<noteq> None"
begin

lemma get_fold_put:
  "get (fold (\<lambda>k. put k (f k)) ks ob) k = (if k \<in> set ks then Some (f k) else get ob k)"
  by (induction ks arbitrary: ob) (auto simp: get_put)

lemma get_fold_del:
  "get (fold del ks ob) k = (if k \<in> set ks then None else get ob k)"
  by (induction ks arbitrary: ob) (auto simp: get_del)

lemma get_fold_put_if_absent:
  "get (fold (\<lambda>k o'. if get o' k = None then put k v o' else o') ks ob) k
     = (if k \<in> set ks \<and> get ob k = None then Some v else get ob k)"
  by (induction ks arbitrary: ob) (auto simp: get_put)

lemma keys_fold_del:
  "set (keys (fold del ks ob)) = set (keys ob) - set ks"
proof -
  have "x \<in> set (keys (fold del ks ob)) \<longleftrightarrow> x \<in> set (keys ob) - set ks" for x
    by (auto simp: keys_get get_fold_del split: if_splits)
  then show ?thesis by blast
qed

end

interpretation obj: dictionary obj_get obj_set obj_delete obj_keys
  by unfold_locales auto

section \<open>Lists\<close>

text \<open>\<^verbatim>\<open>Array.from(new Set(xs))\<close>: the first occurrence of every value, in order.\<close>

fun add_new :: "'a \<Rightarrow> 'a list \<Rightarrow> 'a list" where
  "add_new x xs = (if x \<in> set xs then xs else xs @ [x])"

definition set_of_list :: "'a list \<Rightarrow> 'a list" where
  "set_of_list xs = fold add_new xs []"

lemma set_fold_add_new [simp]: "set (fold add_new xs acc) = set xs \<union> set acc"
  by (induction xs arbitrary: acc) auto

lemma distinct_fold_add_new [simp]: "distinct acc \<Longrightarrow> distinct (fold add_new xs acc)"
  by (induction xs arbitrary: acc) auto

lemma set_set_of_list [simp]: "set (set_of_list xs) = set xs"
  by (simp add: set_of_list_def)

lemma distinct_set_of_list [simp]: "distinct (set_of_list xs)"
  by (simp add: set_of_list_def)

text \<open>\<^verbatim>\<open>xs.join(sep)\<close>.\<close>

fun join :: "string \<Rightarrow> string list \<Rightarrow> string" where
  "join sep [] = []"
| "join sep [x] = x"
| "join sep (x # xs) = x @ sep @ join sep xs"

lemma find_Some_in_set: "find P xs = Some x \<Longrightarrow> x \<in> set xs \<and> P x"
  by (auto simp: find_Some_iff)

text \<open>The index of the first occurrence of a value, the length of the list if there is none.\<close>

definition position :: "'a \<Rightarrow> 'a list \<Rightarrow> nat" where
  "position v xs = length (takeWhile (\<lambda>x. x \<noteq> v) xs)"

lemma position_append_notin [simp]: "v \<notin> set xs \<Longrightarrow> position v (xs @ v # ys) = length xs"
  by (induction xs) (auto simp: position_def)

lemma position_in_prefix: "u \<in> set xs \<Longrightarrow> position u (xs @ ys) < length xs"
  by (induction xs) (auto simp: position_def)

lemma map_of_rev_distinct: "distinct (map fst ps) \<Longrightarrow> map_of (rev ps) = map_of ps"
proof (rule ext)
  fix k assume d: "distinct (map fst ps)"
  then have "distinct (map fst (rev ps))" by (simp add: rev_map [symmetric])
  with d have "map_of (rev ps) k = Some v \<longleftrightarrow> map_of ps k = Some v" for v
    by (simp add: map_of_eq_Some_iff)
  then show "map_of (rev ps) k = map_of ps k" by (metis option.exhaust)
qed

lemma count_list_pos: "0 < count_list xs x \<longleftrightarrow> x \<in> set xs"
  by (induction xs) auto

section \<open>Primitive values\<close>

text \<open>
  The union \<^verbatim>\<open>string | number | boolean\<close> of variable values and filter values.  Numbers are
  integers of the range in which JavaScript prints them in plain decimal notation.
\<close>

datatype scalar = SStr string | SNum int | SBool bool

fun nat_str :: "nat \<Rightarrow> string" where
  "nat_str n =
     (if n < 10 then [char_of (48 + n)] else nat_str (n div 10) @ [char_of (48 + n mod 10)])"

declare nat_str.simps [simp del]

definition int_str :: "int \<Rightarrow> string" where
  "int_str i = (if i < 0 then CHR ''-'' # nat_str (nat (- i)) else nat_str (nat i))"

fun scalar_str :: "scalar \<Rightarrow> string" where
  "scalar_str (SStr s) = s"
| "scalar_str (SNum n) = int_str n"
| "scalar_str (SBool b) = (if b then ''true'' else ''false'')"

end
