(* ===== verification/DashboardVariable.thy ===== *)
theory DashboardVariable
  imports Prelude
begin

text \<open>
  The data of a dashboard variable: \<^verbatim>\<open>IDashboardVariable\<close> and its types from
  \<^verbatim>\<open>frontend/src/types/api/dashboard/getAll.ts\<close>, and the derived data of the stores from
  \<^verbatim>\<open>frontend/src/providers/Dashboard/store/dashboardVariables/dashboardVariablesStoreTypes.ts\<close>.
  An optional string that the code only tests for truth is a string, with the empty
  string for an absent one; \<^verbatim>\<open>order\<close> is an integer, as the settings page stores it.
\<close>

datatype TVariableQueryType = QUERY | TEXTBOX | CUSTOM | DYNAMIC

datatype selected_value = SVNull | SVOne scalar | SVMany "scalar list"

record IDashboardVariable =
  dv_id :: string
  dv_order :: int
  dv_name :: string
  dv_type :: TVariableQueryType
  dv_queryValue :: string
  dv_multiSelect :: bool
  dv_showALLOption :: bool
  dv_selectedValue :: selected_value
  dv_allSelected :: bool
  dv_defaultValue :: string
  dv_haveCustomValuesSelected :: bool
  dv_dynamicVariablesAttribute :: string

type_synonym IDashboardVariables = "IDashboardVariable jsobj"

type_synonym VariableGraph = "string list jsobj"

record IDependencyData =
  dd_order :: "string list"
  dd_graph :: VariableGraph
  dd_parentDependencyGraph :: VariableGraph
  dd_transitiveDescendants :: VariableGraph
  dd_hasCycle :: bool
  dd_cycleNodes :: "string list option"

end
