(* ===== verification/JsString.thy ===== *)
theory JsString
  imports Prelude "HOL-Library.List_Lexorder" "HOL-Library.Sublist"
begin

text \<open>
  The string operations of the standard library that the components use.  A string is
  a list of characters below U+0100; the list order is the code-unit order by which
  \<^verbatim>\<open>Array.prototype.sort\<close> compares.
\<close>

named_theorems js_simps \<open>computation on strings\<close>

definition is_space :: "char \<Rightarrow> bool" where
  "is_space c \<longleftrightarrow> of_char c \<in> {9, 10, 11, 12, 13, 32, 160 :: nat}"

definition js_trim :: "string \<Rightarrow> string" where
  "js_trim s = rev (dropWhile is_space (rev (dropWhile is_space s)))"

definition lower_char :: "char \<Rightarrow> char" where
  "lower_char c = (let n = of_char c :: nat in
     if (65 \<le> n \<and> n \<le> 90) \<or> (192 \<le> n \<and> n \<le> 222 \<and> n \<noteq> 215) then char_of (n + 32) else c)"

text \<open>The upper case of the three letters at 181, 223 and 255 is not a character below U+0100; they are kept.\<close>

definition upper_char :: "char \<Rightarrow> char" where
  "upper_char c = (let n = of_char c :: nat in
     if (97 \<le> n \<and> n \<le> 122) \<or> (224 \<le> n \<and> n \<le> 254 \<and> n \<noteq> 247) then char_of (n - 32) else c)"

definition toUpperCase :: "string \<Rightarrow> string" where
  "toUpperCase s = map upper_char s"

definition toLowerCase :: "string \<Rightarrow> string" where
  "toLowerCase s = map lower_char s"

text \<open>\<^verbatim>\<open>s.includes(t)\<close>, \<^verbatim>\<open>s.startsWith(t)\<close>, \<^verbatim>\<open>s.endsWith(t)\<close>.\<close>

fun starts_with :: "string \<Rightarrow> string \<Rightarrow> bool" where
  "starts_with s [] = True"
| "starts_with [] (y # ys) = False"
| "starts_with (x # xs) (y # ys) = (x = y \<and> starts_with xs ys)"

fun str_includes :: "string \<Rightarrow> string \<Rightarrow> bool" where
  "str_includes [] t = (t = [])"
| "str_includes (x # xs) t = (starts_with (x # xs) t \<or> str_includes xs t)"

definition ends_with :: "string \<Rightarrow> string \<Rightarrow> bool" where
  "ends_with s t = starts_with (rev s) (rev t)"

text \<open>\<^verbatim>\<open>s.split(c)\<close> for a separator of one character; \<^verbatim>\<open>''.split(c)\<close> is one empty string.\<close>

fun split_on :: "char \<Rightarrow> string \<Rightarrow> string list" where
  "split_on c [] = [[]]"
| "split_on c (x # xs) =
     (if x = c then [] # split_on c xs
      else case split_on c xs of [] \<Rightarrow> [[x]] | w # ws \<Rightarrow> (x # w) # ws)"

lemma starts_with_prefix: "starts_with s t \<longleftrightarrow> prefix t s"
  by (induction s t rule: starts_with.induct) auto

lemma includes_sublist: "str_includes s t \<longleftrightarrow> sublist t s"
  by (induction s t rule: str_includes.induct) (auto simp: starts_with_prefix sublist_Cons_right)

lemma split_on_not_Nil [simp]: "split_on c s \<noteq> []"
  by (induction s) (auto split: list.splits)

lemma split_on_notin [simp]: "c \<notin> set s \<Longrightarrow> split_on c s = [s]"
  by (induction s) auto

lemma split_on_append [simp]: "c \<notin> set w \<Longrightarrow> split_on c (w @ c # s) = w # split_on c s"
  by (induction w) auto

lemma split_on_join:
  "ws \<noteq> [] \<Longrightarrow> \<forall>w \<in> set ws. c \<notin> set w \<Longrightarrow> split_on c (join [c] ws) = ws"
  by (induction "[c]" ws rule: join.induct) auto

lemma dropWhile_hd: "s = [] \<or> \<not> P (hd s) \<Longrightarrow> dropWhile P s = s"
  by (cases s) auto

lemma js_trim_id: "s = [] \<or> (\<not> is_space (hd s) \<and> \<not> is_space (last s)) \<Longrightarrow> js_trim s = s"
  by (auto simp: js_trim_def dropWhile_hd hd_rev)

section \<open>Numeric strings\<close>

text \<open>
  Strings for which \<^verbatim>\<open>Number(val)\<close> is a finite number: white space, decimal literals with an optional
  sign, fraction and exponent, and hexadecimal, octal and binary literals.  Literals too large
  for a double, which become infinite, are outside the model.
\<close>

definition is_digit :: "char \<Rightarrow> bool" where
  "is_digit c \<longleftrightarrow> CHR ''0'' \<le> c \<and> c \<le> CHR ''9''"

definition digits1 :: "string \<Rightarrow> bool" where
  "digits1 s \<longleftrightarrow> s \<noteq> [] \<and> list_all is_digit s"

definition strip_sign :: "string \<Rightarrow> string" where
  "strip_sign s = (case s of [] \<Rightarrow> [] | c # cs \<Rightarrow> if c = CHR ''+'' \<or> c = CHR ''-'' then cs else s)"

definition is_mantissa :: "string \<Rightarrow> bool" where
  "is_mantissa s = (case split_on (CHR ''.'') s of
       [a] \<Rightarrow> digits1 a
     | [a, b] \<Rightarrow> list_all is_digit a \<and> list_all is_digit b \<and> (a \<noteq> [] \<or> b \<noteq> [])
     | _ \<Rightarrow> False)"

definition is_decimal :: "string \<Rightarrow> bool" where
  "is_decimal s = (case split_on (CHR ''e'') (map (\<lambda>c. if c = CHR ''E'' then CHR ''e'' else c) s) of
       [m] \<Rightarrow> is_mantissa m
     | [m, e] \<Rightarrow> is_mantissa m \<and> digits1 (strip_sign e)
     | _ \<Rightarrow> False)"

definition is_hex_digit :: "char \<Rightarrow> bool" where
  "is_hex_digit c \<longleftrightarrow> is_digit c \<or> (CHR ''a'' \<le> lower_char c \<and> lower_char c \<le> CHR ''f'')"

definition is_radix_literal :: "string \<Rightarrow> bool" where
  "is_radix_literal s = (case s of
       z # k # ds \<Rightarrow> z = CHR ''0'' \<and> ds \<noteq> [] \<and>
         ((k \<in> {CHR ''x'', CHR ''X''} \<and> list_all is_hex_digit ds)
        \<or> (k \<in> {CHR ''o'', CHR ''O''} \<and> list_all (\<lambda>c. CHR ''0'' \<le> c \<and> c \<le> CHR ''7'') ds)
        \<or> (k \<in> {CHR ''b'', CHR ''B''} \<and> list_all (\<lambda>c. c = CHR ''0'' \<or> c = CHR ''1'') ds))
     | _ \<Rightarrow> False)"

definition is_finite_number :: "string \<Rightarrow> bool" where
  "is_finite_number val =
     (let t = js_trim val in t = [] \<or> is_radix_literal t \<or> is_decimal (strip_sign t))"

text \<open>\<^verbatim>\<open>!Number.isNaN(Number(val))\<close>\<close>

definition is_number :: "string \<Rightarrow> bool" where
  "is_number val \<longleftrightarrow> is_finite_number val \<or> strip_sign (js_trim val) = ''Infinity''"

section \<open>Splitting by a string, and \<^verbatim>\<open>parseInt\<close>\<close>

text \<open>\<^verbatim>\<open>s.split(sep)\<close> for a separator that is not empty; \<open>acc\<close> is the part read so far.\<close>

function split_str :: "string \<Rightarrow> string \<Rightarrow> string \<Rightarrow> string list" where
  "split_str sep acc [] = [acc]"
| "split_str sep acc (c # cs) =
     (if sep \<noteq> [] \<and> starts_with (c # cs) sep
      then acc # split_str sep [] (drop (length sep - 1) cs)
      else split_str sep (acc @ [c]) cs)"
  by pat_completeness auto
termination
  by (relation "measure (\<lambda>(sep, acc, s). length s)") auto

text \<open>\<^verbatim>\<open>parseInt(s, 10)\<close>: the digits at the start, after white space and a sign; \<^verbatim>\<open>NaN\<close> is \<open>None\<close>.\<close>

definition parse_int :: "string \<Rightarrow> int option" where
  "parse_int s =
     (let t = dropWhile is_space s;
          ds = takeWhile is_digit (strip_sign t)
      in if ds = [] then None
         else map_option (\<lambda>n. if hd t = CHR ''-'' then - int n else int n) (digits_value 0 ds))"

lemma split_str_two:
  assumes "hd sep \<notin> set a" "hd sep \<notin> set b" "sep \<noteq> []"
  shows "split_str sep acc (a @ sep @ b) = [acc @ a, b]"
proof -
  have b: "split_str sep acc' b = [acc' @ b]" for acc'
    using assms(2)
  proof (induction b arbitrary: acc')
    case (Cons c cs)
    then have "\<not> starts_with (c # cs) sep" using assms(3) by (cases sep) auto
    then show ?case using Cons by simp
  qed simp
  show ?thesis using assms(1)
  proof (induction a arbitrary: acc)
    case Nil
    obtain c cs where "sep = c # cs" using assms(3) by (cases sep) auto
    then show ?case using b [of "[]"] by (simp add: starts_with_prefix)
  next
    case (Cons c cs)
    then have "\<not> starts_with ((c # cs) @ sep @ b) sep" using assms(3) by (cases sep) auto
    then show ?case using Cons by simp
  qed
qed

lemma digit_char:
  fixes m :: nat
  assumes "m < 10"
  shows "is_digit (char_of (48 + m))" and "of_char (char_of (48 + m)) - of_char CHR ''0'' = m"
proof -
  have "m \<in> {0, 1, 2, 3, 4, 5, 6, 7, 8, 9}" using assms by auto
  then show "is_digit (char_of (48 + m))" "of_char (char_of (48 + m)) - of_char CHR ''0'' = m"
    by (auto simp: is_digit_def less_eq_char_def)
qed

lemma digits_value_snoc:
  "digits_value acc (ds @ [c]) = (case digits_value acc ds of None \<Rightarrow> None | Some v \<Rightarrow> digits_value v [c])"
  by (induction acc ds rule: digits_value.induct) auto

lemma nat_str_digits: "list_all is_digit (nat_str n) \<and> nat_str n \<noteq> []"
proof (induction n rule: nat_str.induct)
  case (1 n)
  then show ?case by (subst (1 2) nat_str.simps) (auto simp: digit_char)
qed

lemma digits_value_nat_str: "digits_value 0 (nat_str n) = Some n"
proof (induction n rule: nat_str.induct)
  case (1 n)
  have d: "digits_value v [char_of (48 + m)] = Some (10 * v + m)" if "m < 10" for v m :: nat
    using digit_char [OF that] by (simp add: is_digit_def)
  show ?case
  proof (cases "n < 10")
    case True
    then show ?thesis using d [OF True, of 0] by (simp add: nat_str.simps)
  next
    case False
    then have "nat_str n = nat_str (n div 10) @ [char_of (48 + n mod 10)]"
      by (subst nat_str.simps) simp
    with 1 False show ?thesis by (simp add: digits_value_snoc d del: digits_value.simps)
  qed
qed

lemma digit_not_sign: "is_digit c \<Longrightarrow> c \<noteq> CHR ''-'' \<and> c \<noteq> CHR ''+'' \<and> \<not> is_space c \<and> c \<noteq> CHR ''|''"
  by (auto simp: is_digit_def less_eq_char_def is_space_def)

lemma parse_int_digits:
  assumes "list_all is_digit ds" "ds \<noteq> []"
  shows "parse_int ds = map_option int (digits_value 0 ds)"
    and "parse_int (CHR ''-'' # ds) = map_option (\<lambda>n. - int n) (digits_value 0 ds)"
proof -
  have tw: "takeWhile is_digit ds = ds" using assms(1) by (simp add: list_all_iff takeWhile_eq_all_conv)
  obtain c cs where ds: "ds = c # cs" using assms(2) by (cases ds) auto
  with assms(1) have "is_digit c" by simp
  note c = digit_not_sign [OF this]
  have "dropWhile is_space ds = ds" "strip_sign ds = ds" "hd ds \<noteq> CHR ''-''"
    using c by (simp_all add: ds strip_sign_def)
  then show "parse_int ds = map_option int (digits_value 0 ds)"
    using assms(2) by (simp only: parse_int_def Let_def tw if_False)
  have "\<not> is_space (CHR ''-'')" by (simp add: is_space_def)
  then have "dropWhile is_space (CHR ''-'' # ds) = CHR ''-'' # ds" "strip_sign (CHR ''-'' # ds) = ds"
    by (simp_all add: strip_sign_def)
  then show "parse_int (CHR ''-'' # ds) = map_option (\<lambda>n. - int n) (digits_value 0 ds)"
    using assms(2) by (simp only: parse_int_def Let_def tw list.sel if_False if_True refl)
qed

lemma parse_int_str: "parse_int (int_str i) = Some i"
  using nat_str_digits [of "nat i"] nat_str_digits [of "nat (- i)"]
  by (simp add: int_str_def parse_int_digits digits_value_nat_str)

lemma int_str_no_bar: "CHR ''|'' \<notin> set (int_str i)"
  using nat_str_digits [of "nat i"] nat_str_digits [of "nat (- i)"] digit_not_sign
  by (auto simp: int_str_def list_all_iff)

end
