(* ===== verification/VariableReference.thy ===== *)
theory VariableReference
  imports JsString
begin

text \<open>
  Which dashboard variables a query text refers to:
  \<^verbatim>\<open>frontend/src/lib/dashboardVariables/variableReference.ts\<close>.  The regular expression that
  \<^verbatim>\<open>buildVariableReferencePattern\<close> assembles is kept as a list of four alternatives over the
  few constructs it uses (literals, \<^verbatim>\<open>\s*\<close>, \<^verbatim>\<open>\b\<close>); \<open>re_search\<close> is \<^verbatim>\<open>RegExp.prototype.test\<close> for
  that fragment.  The variable name is spliced into the expression unescaped, so a dot in
  a name matches any character; names with other regular-expression metacharacters are
  outside the model.  The last lemmas characterise the search for names made of
  word characters.
\<close>

section \<open>The regular-expression fragment\<close>

datatype re_item = Lit char | AnyChar | SpaceStar | WordBoundary

definition is_word :: "char \<Rightarrow> bool" where
  "is_word c \<longleftrightarrow>
     (CHR ''a'' \<le> c \<and> c \<le> CHR ''z'') \<or> (CHR ''A'' \<le> c \<and> c \<le> CHR ''Z'')
     \<or> (CHR ''0'' \<le> c \<and> c \<le> CHR ''9'') \<or> c = CHR ''_''"

definition is_line_end :: "char \<Rightarrow> bool" where
  "is_line_end c \<longleftrightarrow> of_char c \<in> {10, 13 :: nat}"

definition opt_word :: "char option \<Rightarrow> bool" where
  "opt_word x \<longleftrightarrow> (case x of None \<Rightarrow> False | Some c \<Rightarrow> is_word c)"

definition first_char :: "string \<Rightarrow> char option" where
  "first_char s = (case s of [] \<Rightarrow> None | c # _ \<Rightarrow> Some c)"

text \<open>Matching at one position; the character before the position is carried for \<^verbatim>\<open>\b\<close>.\<close>

fun re_match :: "re_item list \<Rightarrow> char option \<Rightarrow> string \<Rightarrow> bool" where
  "re_match [] prev s = True"
| "re_match (Lit c # r) prev [] = False"
| "re_match (Lit c # r) prev (x # s) = (x = c \<and> re_match r (Some x) s)"
| "re_match (AnyChar # r) prev [] = False"
| "re_match (AnyChar # r) prev (x # s) = (\<not> is_line_end x \<and> re_match r (Some x) s)"
| "re_match (SpaceStar # r) prev [] = re_match r prev []"
| "re_match (SpaceStar # r) prev (x # s) =
     (re_match r prev (x # s) \<or> is_space x \<and> re_match (SpaceStar # r) (Some x) s)"
| "re_match (WordBoundary # r) prev s =
     (opt_word prev \<noteq> opt_word (first_char s) \<and> re_match r prev s)"

text \<open>Searching at every position, from left to right.\<close>

fun re_search :: "re_item list \<Rightarrow> char option \<Rightarrow> string \<Rightarrow> bool" where
  "re_search r prev [] = re_match r prev []"
| "re_search r prev (x # s) = (re_match r prev (x # s) \<or> re_search r (Some x) s)"

section \<open>References to a variable\<close>

definition lits :: "string \<Rightarrow> re_item list" where
  "lits s = map Lit s"

definition name_items :: "string \<Rightarrow> re_item list" where
  "name_items name = map (\<lambda>c. if c = CHR ''.'' then AnyChar else Lit c) name"

definition buildVariableReferencePattern :: "string \<Rightarrow> re_item list list" where
  "buildVariableReferencePattern variableName =
     [ lits ''{{'' @ [SpaceStar, Lit (CHR ''.'')] @ name_items variableName
         @ [SpaceStar] @ lits ''}}'',
       lits ''{{'' @ [SpaceStar] @ name_items variableName @ [SpaceStar] @ lits ''}}'',
       lits ''$'' @ name_items variableName @ [WordBoundary],
       lits ''[['' @ [SpaceStar] @ name_items variableName @ [SpaceStar] @ lits '']]'' ]"

definition textContainsVariableReference :: "string \<Rightarrow> string \<Rightarrow> bool" where
  "textContainsVariableReference txt variableName =
     (if txt = [] \<or> variableName = [] then False
      else list_ex (\<lambda>alt. re_search alt None txt) (buildVariableReferencePattern variableName))"

section \<open>Texts of a widget query\<close>

datatype filter_value = FVOne scalar | FVMany "scalar list"

record builder_query_data =
  qd_items :: "filter_value list option"
  qd_expression :: "string option"

datatype EQueryType = QUERY_BUILDER | CLICKHOUSE | PROM

record widget_query =
  wq_type :: EQueryType
  wq_queryData :: "builder_query_data list option"
  wq_promql :: "string list option"
  wq_clickhouse_sql :: "string list option"

fun scalar_text :: "scalar \<Rightarrow> string list" where
  "scalar_text (SStr s) = [s]"
| "scalar_text _ = []"

fun filter_value_texts :: "filter_value \<Rightarrow> string list" where
  "filter_value_texts (FVMany vs) = concat (map scalar_text vs)"
| "filter_value_texts (FVOne v) = scalar_text v"

definition nonempty_text :: "string option \<Rightarrow> string list" where
  "nonempty_text t = (case t of None \<Rightarrow> [] | Some s \<Rightarrow> if s = [] then [] else [s])"

definition extractQueryBuilderTexts :: "widget_query \<Rightarrow> string list" where
  "extractQueryBuilderTexts query =
     (case wq_queryData query of None \<Rightarrow> []
      | Some qs \<Rightarrow> concat (map (\<lambda>qd.
          (case qd_items qd of None \<Rightarrow> [] | Some its \<Rightarrow> concat (map filter_value_texts its))
          @ nonempty_text (qd_expression qd)) qs))"

definition extractPromQLTexts :: "widget_query \<Rightarrow> string list" where
  "extractPromQLTexts query =
     (case wq_promql query of None \<Rightarrow> []
      | Some qs \<Rightarrow> concat (map (\<lambda>q. nonempty_text (Some q)) qs))"

definition extractClickhouseSQLTexts :: "widget_query \<Rightarrow> string list" where
  "extractClickhouseSQLTexts query =
     (case wq_clickhouse_sql query of None \<Rightarrow> []
      | Some qs \<Rightarrow> concat (map (\<lambda>q. nonempty_text (Some q)) qs))"

definition extractQueryTextStrings :: "widget_query \<Rightarrow> string list" where
  "extractQueryTextStrings query =
     (case wq_type query of
        QUERY_BUILDER \<Rightarrow> extractQueryBuilderTexts query
      | PROM \<Rightarrow> extractPromQLTexts query
      | CLICKHOUSE \<Rightarrow> extractClickhouseSQLTexts query)"

definition getVariableReferencesInQuery :: "widget_query \<Rightarrow> string list \<Rightarrow> string list" where
  "getVariableReferencesInQuery query variableNames =
     (let texts = extractQueryTextStrings query in
      if texts = [] then []
      else filter (\<lambda>name. list_ex (\<lambda>txt. textContainsVariableReference txt name) texts)
             variableNames)"

section \<open>What the search finds\<close>

lemma ex_append_Cons:
  "(\<exists>pre post. x # s = pre @ post \<and> Q pre post)
     \<longleftrightarrow> Q [] (x # s) \<or> (\<exists>pre post. s = pre @ post \<and> Q (x # pre) post)"
  by (auto simp: Cons_eq_append_conv)

lemma re_search_iff:
  "re_search r prev s \<longleftrightarrow>
     (\<exists>pre post. s = pre @ post \<and> re_match r (if pre = [] then prev else Some (last pre)) post)"
proof (induction s arbitrary: prev)
  case (Cons x s)
  let ?Q = "\<lambda>pre post. re_match r (if pre = [] then prev else Some (last pre)) post"
  have "re_search r prev (x # s) \<longleftrightarrow> ?Q [] (x # s)
      \<or> (\<exists>pre post. s = pre @ post \<and> re_match r (if pre = [] then Some x else Some (last pre)) post)"
    by (simp add: Cons.IH)
  also have "\<dots> \<longleftrightarrow> (\<exists>pre post. x # s = pre @ post \<and> ?Q pre post)"
    unfolding ex_append_Cons by (auto split: if_splits)
  finally show ?case .
qed simp

lemma re_match_lits:
  "re_match (map Lit w @ r) prev s \<longleftrightarrow>
     (\<exists>s'. s = w @ s' \<and> re_match r (if w = [] then prev else Some (last w)) s')"
proof (induction w arbitrary: prev s)
  case (Cons c w)
  show ?case by (cases s) (auto simp: Cons.IH split: if_splits)
qed simp

lemma re_match_spaces:
  "re_match (SpaceStar # r) prev s \<longleftrightarrow>
     (\<exists>ws s'. s = ws @ s' \<and> list_all is_space ws
        \<and> re_match r (if ws = [] then prev else Some (last ws)) s')"
proof (induction s arbitrary: prev)
  case (Cons x s)
  let ?Q = "\<lambda>ws s'. list_all is_space ws \<and> re_match r (if ws = [] then prev else Some (last ws)) s'"
  have "re_match (SpaceStar # r) prev (x # s) \<longleftrightarrow> ?Q [] (x # s)
      \<or> (\<exists>ws s'. s = ws @ s' \<and> is_space x \<and> list_all is_space ws
            \<and> re_match r (if ws = [] then Some x else Some (last ws)) s')"
    by (auto simp: Cons.IH)
  also have "\<dots> \<longleftrightarrow> (\<exists>ws s'. x # s = ws @ s' \<and> ?Q ws s')"
    unfolding ex_append_Cons by (auto split: if_splits)
  finally show ?case .
qed simp

text \<open>The syntax the comment of \<^verbatim>\<open>buildVariableReferencePattern\<close> promises, as a specification.\<close>

definition plain_name :: "string \<Rightarrow> bool" where
  "plain_name name \<longleftrightarrow> name \<noteq> [] \<and> list_all is_word name"

definition refers_to :: "string \<Rightarrow> string \<Rightarrow> bool" where
  "refers_to txt name \<longleftrightarrow>
     (\<exists>pre ws1 dot ws2 post. list_all is_space ws1 \<and> list_all is_space ws2
        \<and> (dot = [] \<or> dot = ''.'') \<and> txt = pre @ ''{{'' @ ws1 @ dot @ name @ ws2 @ ''}}'' @ post)
   \<or> (\<exists>pre post. txt = pre @ ''$'' @ name @ post \<and> \<not> opt_word (first_char post))
   \<or> (\<exists>pre ws1 ws2 post. list_all is_space ws1 \<and> list_all is_space ws2
        \<and> txt = pre @ ''[['' @ ws1 @ name @ ws2 @ '']]'' @ post)"

lemma name_items_plain: "plain_name name \<Longrightarrow> name_items name = map Lit name"
  by (auto simp: plain_name_def name_items_def list_all_iff is_word_def)

lemma plain_name_last: "plain_name name \<Longrightarrow> opt_word (Some (last name))"
  by (simp add: plain_name_def opt_word_def list_all_iff)

lemma re_match_lits0: "re_match (map Lit w) prev s \<longleftrightarrow> (\<exists>s'. s = w @ s')"
  using re_match_lits [of w "[]"] by simp

lemma search_braces:
  "re_search (lits opn @ [SpaceStar] @ map Lit w @ [SpaceStar] @ lits cls) None txt \<longleftrightarrow>
     (\<exists>pre ws1 ws2 post. list_all is_space ws1 \<and> list_all is_space ws2
        \<and> txt = pre @ opn @ ws1 @ w @ ws2 @ cls @ post)"
  unfolding re_search_iff lits_def append_Cons append_Nil
    re_match_lits0 re_match_spaces re_match_lits
  by (simp only: ex_simps [symmetric] conj_assoc) (rule iffI; elim exE conjE; hypsubst; blast)

lemma search_dollar:
  assumes "plain_name name"
  shows "re_search (lits ''$'' @ map Lit name @ [WordBoundary]) None txt \<longleftrightarrow>
     (\<exists>pre post. txt = pre @ ''$'' @ name @ post \<and> \<not> opt_word (first_char post))"
proof -
  have ne: "name \<noteq> []" using assms by (simp add: plain_name_def)
  then have b: "re_match [WordBoundary] (if name = [] then p else Some (last name)) s
      \<longleftrightarrow> \<not> opt_word (first_char s)" for p s
    using plain_name_last [OF assms] by simp
  show ?thesis
    unfolding re_search_iff lits_def re_match_lits b by blast
qed

lemma ex_dot:
  "(\<exists>pre ws1 dot ws2 post. P ws1 ws2 \<and> (dot = [] \<or> dot = d) \<and> Q pre ws1 dot ws2 post) \<longleftrightarrow>
     (\<exists>pre ws1 ws2 post. P ws1 ws2 \<and> Q pre ws1 d ws2 post)
   \<or> (\<exists>pre ws1 ws2 post. P ws1 ws2 \<and> Q pre ws1 [] ws2 post)"
  by blast

lemma refers_to_nonempty: "refers_to txt name \<Longrightarrow> txt \<noteq> []"
  unfolding refers_to_def by (elim disjE exE conjE) simp_all

lemma textContainsVariableReference_eq:
  assumes "plain_name name"
  shows "textContainsVariableReference txt name = refers_to txt name"
proof -
  let ?brace = "\<lambda>opn w cls. re_search (lits opn @ [SpaceStar] @ map Lit w @ [SpaceStar] @ lits cls) None txt"
  have dotted: "lits ''{{'' @ [SpaceStar, Lit (CHR ''.'')] @ map Lit name @ [SpaceStar] @ lits ''}}''
      = lits ''{{'' @ [SpaceStar] @ map Lit (''.'' @ name) @ [SpaceStar] @ lits ''}}''"
    by simp
  have "name \<noteq> []" using assms by (simp add: plain_name_def)
  then have "textContainsVariableReference txt name \<longleftrightarrow> txt \<noteq> [] \<and>
      (?brace ''{{'' (''.'' @ name) ''}}'' \<or> ?brace ''{{'' name ''}}''
       \<or> re_search (lits ''$'' @ map Lit name @ [WordBoundary]) None txt \<or> ?brace ''[['' name '']]'')"
    unfolding textContainsVariableReference_def buildVariableReferencePattern_def
      name_items_plain [OF assms] dotted list_ex_Cons_iff list_ex_Nil_iff by (simp only: if_False HOL.simp_thms split: if_splits) blast
  also have "\<dots> \<longleftrightarrow> txt \<noteq> [] \<and> refers_to txt name"
    unfolding refers_to_def ex_dot [where P = "\<lambda>ws1 ws2. list_all is_space ws1 \<and> list_all is_space ws2", unfolded conj_assoc]
      search_braces search_dollar [OF assms] append_assoc append_Nil by blast
  also have "\<dots> \<longleftrightarrow> refers_to txt name"
    using refers_to_nonempty by blast
  finally show ?thesis .
qed

end
