(* ===== verification/DependencyGraph.thy ===== *)
theory DependencyGraph
  imports DashboardVariable VariableReference
begin

text \<open>
  The dependency graph of the dashboard variables, from
  \<^verbatim>\<open>frontend/src/container/DashboardContainer/DashboardVariablesSelection/util.ts\<close>:
  \<^verbatim>\<open>buildDependencies\<close>, \<^verbatim>\<open>buildParentDependencyGraph\<close>, the depth-first \<^verbatim>\<open>detectCycle\<close> with
  \<^verbatim>\<open>collectCyclePath\<close>, and \<^verbatim>\<open>buildDependencyGraph\<close> with Kahn's topological sort and the
  transitive descendants.  The sets \<^verbatim>\<open>visited\<close> and \<^verbatim>\<open>recStack\<close> are lists; \<^verbatim>\<open>None\<close> as the
  result of a function in the \<open>option\<close> type stands for a call that never returns, which
  only the loop of \<^verbatim>\<open>collectCyclePath\<close> can cause.
\<close>

section \<open>Operations\<close>

abbreviation children_of :: "VariableGraph \<Rightarrow> string \<Rightarrow> string list" where
  "children_of g node \<equiv> obj_get_or g node []"

definition getDependentVariablesBasedOnVariableName ::
  "string \<Rightarrow> IDashboardVariable list \<Rightarrow> string list" where
  "getDependentVariablesBasedOnVariableName variableName variables =
     map dv_name (filter (\<lambda>v. dv_type v = QUERY
        \<and> textContainsVariableReference (dv_queryValue v) variableName) variables)"

definition buildDependencies :: "IDashboardVariable list \<Rightarrow> VariableGraph" where
  "buildDependencies variables =
     (let graph = fold (\<lambda>v g. if dv_name v \<noteq> [] then obj_set (dv_name v) [] g else g) variables []
      in fold (\<lambda>v g. if dv_name v \<noteq> []
            then obj_set (dv_name v)
                   (getDependentVariablesBasedOnVariableName (dv_name v) variables) g
            else g) variables graph)"

definition push_parent :: "string \<Rightarrow> string \<Rightarrow> VariableGraph \<Rightarrow> VariableGraph" where
  "push_parent node child pg = obj_set child (obj_get_or pg child [] @ [node]) pg"

definition buildParentDependencyGraph :: "VariableGraph \<Rightarrow> VariableGraph" where
  "buildParentDependencyGraph graph =
     fold (\<lambda>(node, children). fold (push_parent node) children) (obj_entries graph)
       (fold (\<lambda>node. obj_set node []) (obj_keys graph) [])"

subsection \<open>Cycle detection\<close>

definition findParent :: "VariableGraph \<Rightarrow> string \<Rightarrow> string option" where
  "findParent graph node = find (\<lambda>key. node \<in> set (children_of graph key)) (obj_keys graph)"

partial_function (option) collect_loop ::
  "VariableGraph \<Rightarrow> string \<Rightarrow> string \<Rightarrow> string list \<Rightarrow> string list option" where
  "collect_loop graph current end_node path =
     (if current = end_node then Some path
      else case findParent graph current of
        None \<Rightarrow> Some path
      | Some parent \<Rightarrow>
          if parent = [] then Some path
          else collect_loop graph parent end_node (path @ [parent]))"

definition collectCyclePath :: "VariableGraph \<Rightarrow> string \<Rightarrow> string \<Rightarrow> string list option" where
  "collectCyclePath graph start end_node =
     map_option (\<lambda>path. start # path) (collect_loop graph start end_node [])"

type_synonym dfs_result = "(string list option \<times> string list \<times> string list) option"

definition graph_nodes :: "VariableGraph \<Rightarrow> string set" where
  "graph_nodes g = fst ` set g \<union> (\<Union>kv \<in> set g. set (snd kv))"

text \<open>
  \<open>scan\<close> is the \<^verbatim>\<open>neighbors.some(...)\<close> loop of \<^verbatim>\<open>detectCycle\<close> at \<open>node\<close>, with the recursive call
  on an unvisited neighbour (its entry on both sets, its own loop, its removal from the
  recursion stack) unfolded into it.
\<close>

function scan ::
  "VariableGraph \<Rightarrow> string \<Rightarrow> string list \<Rightarrow> string list \<Rightarrow> string list \<Rightarrow> dfs_result" where
  "scan g node [] visited recStack = Some (None, visited, recStack)"
| "scan g node (n # ns) visited recStack =
     (if n \<notin> set visited then
        (case scan g n (children_of g n) (n # visited) (n # recStack) of
           None \<Rightarrow> None
         | Some (Some c, visited', recStack') \<Rightarrow> Some (Some c, visited', recStack')
         | Some (None, visited', recStack') \<Rightarrow>
             scan g node ns visited' (removeAll n recStack'))
      else if n \<in> set recStack then
        (case collectCyclePath g node n of
           None \<Rightarrow> None
         | Some c \<Rightarrow> Some (Some c, visited, recStack))
      else scan g node ns visited recStack)"
  by pat_completeness auto

lemma finite_graph_nodes [simp]: "finite (graph_nodes g)"
  by (simp add: graph_nodes_def)

lemma children_of_outside: "n \<notin> graph_nodes g \<Longrightarrow> children_of g n = []"
  by (force simp: obj_get_or_def graph_nodes_def dest: obj_get_SomeD split: option.splits)

lemma scan_visited_mono:
  "scan_dom (g, node, ns, visited, recStack) \<Longrightarrow>
   scan g node ns visited recStack = Some (c, visited', recStack') \<Longrightarrow> set visited \<subseteq> set visited'"
proof (induction g node ns visited recStack arbitrary: c visited' recStack' rule: scan.pinduct)
  case (2 g node n ns visited recStack)
  note eq = scan.psimps(2) [OF "2.hyps"]
  show ?case
  proof (cases "n \<notin> set visited")
    case True
    then obtain c1 v1 r1
      where s1: "scan g n (children_of g n) (n # visited) (n # recStack) = Some (c1, v1, r1)"
      using "2.prems" eq by (auto split: option.splits)
    have v1: "set visited \<subseteq> set v1" using "2.IH"(1) [OF True s1] by simp
    show ?thesis
    proof (cases c1)
      case None
      with True s1 eq "2.prems"
      have "scan g node ns v1 (removeAll n r1) = Some (c, visited', recStack')" by simp
      from "2.IH"(2) [OF True s1 refl None refl this] v1 show ?thesis by simp
    next
      case (Some cyc)
      with True s1 eq "2.prems" v1 show ?thesis by simp
    qed
  next
    case False
    then show ?thesis
      using "2.prems" eq "2.IH"(3) by (auto split: if_splits option.splits)
  qed
qed (simp add: scan.psimps)

termination scan
proof (relation "measures [\<lambda>(g, node, ns, visited, recStack). card (graph_nodes g - set visited),
    \<lambda>(g, node, ns, visited, recStack). length ns]", goal_cases)
  case (2 g node n ns visited recStack)
  have "card (graph_nodes g - insert n (set visited)) < card (graph_nodes g - set visited)"
    if "n \<in> graph_nodes g"
    using that 2 by (intro psubset_card_mono) auto
  moreover have "graph_nodes g - insert n (set visited) = graph_nodes g - set visited"
    if "n \<notin> graph_nodes g"
    using that by auto
  ultimately show ?case
    by (cases "n \<in> graph_nodes g") (simp_all add: children_of_outside)
next
  case (3 g node n ns visited recStack x a b x2 y)
  then have "set (n # visited) \<subseteq> set x2"
    using scan_visited_mono by blast
  then have "card (graph_nodes g - set x2) \<le> card (graph_nodes g - set visited)"
    by (intro card_mono) auto
  then show ?case by auto
qed auto

declare scan.simps [simp del]

definition detectCycle ::
  "VariableGraph \<Rightarrow> string \<Rightarrow> string list \<Rightarrow> string list \<Rightarrow> dfs_result" where
  "detectCycle g node visited recStack =
     (if node \<notin> set visited then
        (case scan g node (children_of g node) (node # visited) (node # recStack) of
           None \<Rightarrow> None
         | Some (Some c, visited', recStack') \<Rightarrow> Some (Some c, visited', recStack')
         | Some (None, visited', recStack') \<Rightarrow> Some (None, visited', removeAll node recStack'))
      else Some (None, visited, removeAll node recStack))"

text \<open>The \<^verbatim>\<open>Object.keys(dependencies).some(...)\<close> loop around \<^verbatim>\<open>detectCycle\<close>.\<close>

fun find_cycle :: "VariableGraph \<Rightarrow> string list \<Rightarrow> string list \<Rightarrow> string list \<Rightarrow> dfs_result" where
  "find_cycle g [] visited recStack = Some (None, visited, recStack)"
| "find_cycle g (node # nodes) visited recStack =
     (if node \<notin> set visited then
        (case detectCycle g node visited recStack of
           None \<Rightarrow> None
         | Some (Some c, visited', recStack') \<Rightarrow> Some (Some c, visited', recStack')
         | Some (None, visited', recStack') \<Rightarrow> find_cycle g nodes visited' recStack')
      else find_cycle g nodes visited recStack)"

subsection \<open>In-degrees and Kahn's algorithm\<close>

definition count_edge ::
  "string \<Rightarrow> string \<Rightarrow> int jsobj \<times> VariableGraph \<Rightarrow> int jsobj \<times> VariableGraph" where
  "count_edge node child = (\<lambda>(inDegree, adjList).
     (obj_set child (obj_get_or inDegree child 0 + 1) inDegree,
      obj_set node (children_of adjList node @ [child]) adjList))"

lemma count_edge_pair:
  "count_edge node child (inDegree, adjList) =
     (obj_set child (obj_get_or inDegree child 0 + 1) inDegree,
      obj_set node (children_of adjList node @ [child]) adjList)"
  by (simp add: count_edge_def)

definition count_node ::
  "VariableGraph \<Rightarrow> string \<Rightarrow> int jsobj \<times> VariableGraph \<Rightarrow> int jsobj \<times> VariableGraph" where
  "count_node dependencies node = (\<lambda>(inDegree, adjList).
     let inDegree' = (if obj_get_or inDegree node 0 = 0 then obj_set node 0 inDegree else inDegree);
         adjList' = (if obj_get adjList node = None then obj_set node [] adjList else adjList)
     in fold (count_edge node) (children_of dependencies node) (inDegree', adjList'))"

definition init_degrees :: "VariableGraph \<Rightarrow> int jsobj \<times> VariableGraph" where
  "init_degrees dependencies = fold (count_node dependencies) (obj_keys dependencies) ([], [])"

text \<open>
  \<^verbatim>\<open>inDegree[neighbor]--\<close> and the push when it reaches zero.  Every neighbour has an
  in-degree (\<open>init_degrees\<close> puts one on every child); for a missing one the code would
  store \<^verbatim>\<open>NaN\<close>, which never equals zero, so nothing is pushed.
\<close>

definition relax :: "string \<Rightarrow> int jsobj \<times> string list \<Rightarrow> int jsobj \<times> string list" where
  "relax neighbor = (\<lambda>(inDegree, queue).
     case obj_get inDegree neighbor of
       None \<Rightarrow> (inDegree, queue)
     | Some d \<Rightarrow> (obj_set neighbor (d - 1) inDegree,
                  if d - 1 = 0 then queue @ [neighbor] else queue))"

definition pending :: "int jsobj \<Rightarrow> nat" where
  "pending inDegree = length (filter (\<lambda>kv. 0 < snd kv) inDegree)"

lemma pending_set:
  "obj_get ind n = Some d \<Longrightarrow>
   pending (obj_set n d' ind) + (if 0 < d then 1 else 0) = pending ind + (if 0 < d' then 1 else 0)"
  by (induction n d' ind rule: obj_set.induct) (auto simp: pending_def split: if_splits)

lemma relax_size:
  "relax n (ind, q) = (ind', q') \<Longrightarrow> length q' + pending ind' \<le> length q + pending ind"
proof (cases "obj_get ind n")
  case (Some d)
  assume "relax n (ind, q) = (ind', q')"
  with Some pending_set [OF Some, of "d - 1"] show ?thesis
    by (auto simp: relax_def split: if_splits)
qed (simp add: relax_def)

lemma fold_relax_size:
  "fold relax ns (ind, q) = (ind', q') \<Longrightarrow> length q' + pending ind' \<le> length q + pending ind"
proof (induction ns arbitrary: ind q)
  case (Cons n ns)
  obtain ind1 q1 where r: "relax n (ind, q) = (ind1, q1)" by fastforce
  with Cons.prems have "fold relax ns (ind1, q1) = (ind', q')" by simp
  from Cons.IH [OF this] relax_size [OF r] show ?case by simp
qed simp

function kahn :: "VariableGraph \<Rightarrow> int jsobj \<Rightarrow> string list \<Rightarrow> string list \<Rightarrow> string list" where
  "kahn adjList inDegree [] order = order"
| "kahn adjList inDegree (current # queue) order =
     (case fold relax (children_of adjList current) (inDegree, queue) of
        (inDegree', queue') \<Rightarrow> kahn adjList inDegree' queue' (order @ [current]))"
  by pat_completeness auto
termination
  by (relation "measure (\<lambda>(adjList, inDegree, queue, order). length queue + pending inDegree)")
    (auto dest!: fold_relax_size [OF sym])

declare kahn.simps(2) [simp del]

subsection \<open>Transitive descendants\<close>

definition node_descendants :: "VariableGraph \<Rightarrow> VariableGraph \<Rightarrow> string \<Rightarrow> string list" where
  "node_descendants adjList td node =
     fold (\<lambda>child desc. fold add_new (children_of td child) (add_new child desc))
       (children_of adjList node) []"

definition collect_descendants :: "VariableGraph \<Rightarrow> string list \<Rightarrow> VariableGraph" where
  "collect_descendants adjList order =
     fold (\<lambda>node td. obj_set node (node_descendants adjList td node) td) (rev order) []"

definition buildDependencyGraph :: "VariableGraph \<Rightarrow> IDependencyData option" where
  "buildDependencyGraph dependencies =
     (case init_degrees dependencies of (inDegree, adjList) \<Rightarrow>
      case find_cycle dependencies (obj_keys dependencies) [] [] of
        None \<Rightarrow> None
      | Some (cycleNodes, visited, recStack) \<Rightarrow>
          let queue = filter (\<lambda>node. obj_get inDegree node = Some 0) (obj_keys inDegree);
              topologicalOrder = kahn adjList inDegree queue []
          in Some \<lparr> dd_order = topologicalOrder,
                    dd_graph = adjList,
                    dd_parentDependencyGraph = buildParentDependencyGraph adjList,
                    dd_transitiveDescendants = collect_descendants adjList topologicalOrder,
                    dd_hasCycle = (length topologicalOrder \<noteq> length (obj_keys dependencies)),
                    dd_cycleNodes = cycleNodes \<rparr>)"

text \<open>The nodes on which \<^verbatim>\<open>onUpdateVariableNode\<close> calls its callback, in order.\<close>

definition visit_node ::
  "VariableGraph \<Rightarrow> string \<Rightarrow> string \<Rightarrow> string list \<times> string list \<Rightarrow> string list \<times> string list" where
  "visit_node graph nodeToUpdate node = (\<lambda>(visited, called).
     if node = nodeToUpdate \<or> node \<in> set visited
     then (fold add_new (children_of graph node) (add_new node visited), called @ [node])
     else (visited, called))"

definition onUpdateVariableNode :: "string \<Rightarrow> VariableGraph \<Rightarrow> string list \<Rightarrow> string list" where
  "onUpdateVariableNode nodeToUpdate graph topologicalOrder =
     (let visited = (if nodeToUpdate \<notin> set topologicalOrder
                     then fold add_new (children_of graph nodeToUpdate) [] else [])
      in snd (fold (visit_node graph nodeToUpdate) topologicalOrder (visited, [])))"

end
