(* ===== verification/DependencyOrder.thy ===== *)
theory DependencyOrder
  imports DependencyGraph
begin

text \<open>
  What \<^verbatim>\<open>buildDependencyGraph\<close> computes: the in-degrees and the adjacency copy, the order
  of Kahn's algorithm (distinct, every predecessor before its successors, complete
  exactly for acyclic graphs), and the transitive descendants.
\<close>

named_theorems graph_simps \<open>lookups in the graphs built by buildDependencyGraph\<close>

section \<open>Edges and in-degrees\<close>

definition edges :: "VariableGraph \<Rightarrow> (string \<times> string) set" where
  "edges g = {(u, v). v \<in> set (children_of g u)}"

definition closed_graph :: "VariableGraph \<Rightarrow> bool" where
  "closed_graph g \<longleftrightarrow> obj_ok g \<and> (\<forall>u. set (children_of g u) \<subseteq> set (obj_keys g))"

definition indeg :: "VariableGraph \<Rightarrow> string list \<Rightarrow> string \<Rightarrow> nat" where
  "indeg g us v = sum_list (map (\<lambda>u. count_list (children_of g u) v) us)"

lemma indeg_simps [simp]:
  "indeg g [] v = 0"
  "indeg g (u # us) v = count_list (children_of g u) v + indeg g us v"
  "indeg g (us @ ws) v = indeg g us v + indeg g ws v"
  by (simp_all add: indeg_def)

lemma indeg_pos: "0 < indeg g us v \<longleftrightarrow> (\<exists>u \<in> set us. (u, v) \<in> edges g)"
  by (induction us) (auto simp: edges_def count_list_pos [symmetric])

lemma children_of_nonkey: "u \<notin> set (obj_keys g) \<Longrightarrow> children_of g u = []"
  by (simp add: obj_get_or_def)

lemma edges_key: "(u, v) \<in> edges g \<Longrightarrow> u \<in> set (obj_keys g)"
  unfolding edges_def using children_of_nonkey [of u g] by fastforce

lemma closed_graph_edge: "closed_graph g \<Longrightarrow> (u, v) \<in> edges g \<Longrightarrow> v \<in> set (obj_keys g)"
  unfolding closed_graph_def edges_def by blast

lemma finite_edges: "closed_graph g \<Longrightarrow> finite (edges g)"
proof -
  assume g: "closed_graph g"
  have "edges g \<subseteq> set (obj_keys g) \<times> set (obj_keys g)"
    using edges_key closed_graph_edge [OF g] by (auto simp del: in_obj_keys)
  then show ?thesis by (rule finite_subset) simp
qed

lemma fold_count_edge_fst:
  "obj_get (fst (fold (count_edge node) cs (ind, adj))) v =
     (if v \<in> set cs then Some (obj_get_or ind v 0 + int (count_list cs v)) else obj_get ind v)"
  by (induction cs arbitrary: ind adj)
    (auto simp: count_edge_def obj_get_or_def count_list_0_iff)

lemma fold_count_edge_snd:
  "obj_get (snd (fold (count_edge node) cs (ind, adj))) k =
     (if k = node \<and> cs \<noteq> [] then Some (children_of adj node @ cs) else obj_get adj k)"
  by (induction cs arbitrary: ind adj) (auto simp: count_edge_def obj_get_or_def)

definition degrees_ok :: "VariableGraph \<Rightarrow> string list \<Rightarrow> int jsobj \<times> VariableGraph \<Rightarrow> bool" where
  "degrees_ok g ks s \<longleftrightarrow>
     (\<forall>v. obj_get (fst s) v =
        (if v \<in> set ks \<or> 0 < indeg g ks v then Some (int (indeg g ks v)) else None))
   \<and> (\<forall>k. obj_get (snd s) k = (if k \<in> set ks then Some (children_of g k) else None))"

lemma count_node_ok:
  assumes "degrees_ok g ks (ind, adj)" "k \<notin> set ks"
  shows "degrees_ok g (ks @ [k]) (count_node g k (ind, adj))"
proof -
  let ?ind = "if obj_get_or ind k 0 = 0 then obj_set k 0 ind else ind"
  let ?adj = "if obj_get adj k = None then obj_set k [] adj else adj"
  from assms have ind: "obj_get ind v =
      (if v \<in> set ks \<or> 0 < indeg g ks v then Some (int (indeg g ks v)) else None)"
    and adj: "obj_get adj v = (if v \<in> set ks then Some (children_of g v) else None)" for v
    by (simp_all add: degrees_ok_def)
  have ind': "obj_get ?ind v =
      (if v \<in> set ks \<or> v = k \<or> 0 < indeg g ks v then Some (int (indeg g ks v)) else None)" for v
    using ind [of v] ind [of k] assms(2) by (auto simp: obj_get_or_def)
  have adj': "obj_get ?adj v = (if v = k then Some [] else obj_get adj v)" for v
    using adj [of k] assms(2) by auto
  have "obj_get (fst (count_node g k (ind, adj))) v =
      (if v \<in> set (ks @ [k]) \<or> 0 < indeg g (ks @ [k]) v
       then Some (int (indeg g (ks @ [k]) v)) else None)" for v
    unfolding count_node_def Let_def prod.case fold_count_edge_fst obj_get_or_def [of ?ind] ind'
    using count_list_pos [of "children_of g k" v] by (auto simp: count_list_0_iff)
  moreover have "obj_get (snd (count_node g k (ind, adj))) v =
      (if v \<in> set (ks @ [k]) then Some (children_of g v) else None)" for v
    unfolding count_node_def Let_def prod.case fold_count_edge_snd obj_get_or_def [of ?adj] adj'
    using adj [of v] by (cases "children_of g k = []") auto
  ultimately show ?thesis by (simp add: degrees_ok_def)
qed

lemma fold_count_node_ok:
  "distinct ks \<Longrightarrow> degrees_ok g ks (fold (count_node g) ks ([], []))"
proof (induction ks rule: rev_induct)
  case Nil
  then show ?case by (simp add: degrees_ok_def)
next
  case (snoc k ks)
  obtain ind adj where s: "fold (count_node g) ks ([], []) = (ind, adj)" by fastforce
  with snoc count_node_ok [of g ks ind adj k] show ?case by simp
qed

lemma init_degrees_ok:
  "obj_ok g \<Longrightarrow> init_degrees g = (ind, adj) \<Longrightarrow> degrees_ok g (obj_keys g) (ind, adj)"
  using fold_count_node_ok [of "obj_keys g" g] by (simp add: init_degrees_def)

lemma init_adj_get [graph_simps]:
  assumes "obj_ok g" "init_degrees g = (ind, adj)"
  shows "obj_get adj k = obj_get g k"
  using init_degrees_ok [OF assms] by (auto simp: degrees_ok_def obj_get_or_def split: option.splits)

lemma init_adj_children [graph_simps]:
  "obj_ok g \<Longrightarrow> init_degrees g = (ind, adj) \<Longrightarrow> children_of adj k = children_of g k"
  by (simp add: obj_get_or_def init_adj_get)

lemma init_ind_get:
  assumes "obj_ok g" "init_degrees g = (ind, adj)"
  shows "obj_get ind v = (if v \<in> set (obj_keys g) \<or> (\<exists>u. (u, v) \<in> edges g)
           then Some (int (indeg g (obj_keys g) v)) else None)"
proof -
  have "0 < indeg g (obj_keys g) v \<longleftrightarrow> (\<exists>u. (u, v) \<in> edges g)"
    using edges_key by (auto simp: indeg_pos simp del: in_obj_keys)
  then show ?thesis
    using init_degrees_ok [OF assms] by (simp add: degrees_ok_def del: in_obj_keys)
qed

lemma obj_ok_count_edges:
  "obj_ok ind \<Longrightarrow> obj_ok adj \<Longrightarrow> fold (count_edge node) cs (ind, adj) = (ind', adj') \<Longrightarrow>
   obj_ok ind' \<and> obj_ok adj'"
proof (induction cs arbitrary: ind adj)
  case (Cons c cs)
  from Cons.prems(3) have
    "fold (count_edge node) cs (obj_set c (obj_get_or ind c 0 + 1) ind,
       obj_set node (children_of adj node @ [c]) adj) = (ind', adj')"
    by (simp add: count_edge_pair)
  from Cons.IH [OF _ _ this] Cons.prems(1,2) show ?case by simp
qed simp

lemma obj_ok_count_nodes:
  "obj_ok ind \<Longrightarrow> obj_ok adj \<Longrightarrow> fold (count_node g) ks (ind, adj) = (ind', adj') \<Longrightarrow>
   obj_ok ind' \<and> obj_ok adj'"
proof (induction ks arbitrary: ind adj)
  case (Cons k ks)
  obtain ind1 adj1 where k: "count_node g k (ind, adj) = (ind1, adj1)" by fastforce
  have "obj_ok ind1 \<and> obj_ok adj1"
    using Cons.prems(1,2) k
    by (intro obj_ok_count_edges [where ind = "if obj_get_or ind k 0 = 0 then obj_set k 0 ind else ind"
          and adj = "if obj_get adj k = None then obj_set k [] adj else adj"])
      (auto simp: count_node_def Let_def)
  with Cons.IH [of ind1 adj1] Cons.prems(3) k show ?case by simp
qed simp

lemma init_degrees_obj_ok:
  "init_degrees g = (ind, adj) \<Longrightarrow> obj_ok ind \<and> obj_ok adj"
  using obj_ok_count_nodes [of "[]" "[]" g "obj_keys g" ind adj] by (simp add: init_degrees_def)

section \<open>The topological order\<close>

definition rem :: "VariableGraph \<Rightarrow> string list \<Rightarrow> string \<Rightarrow> nat" where
  "rem g order v = indeg g (filter (\<lambda>u. u \<notin> set order) (obj_keys g)) v"

lemma rem_Nil: "rem g [] v = indeg g (obj_keys g) v"
  by (simp add: rem_def)

lemma rem_eq_0: "rem g order v = 0 \<longleftrightarrow> (\<forall>u. (u, v) \<in> edges g \<longrightarrow> u \<in> set order)"
proof -
  have "0 < rem g order v \<longleftrightarrow> (\<exists>u. (u, v) \<in> edges g \<and> u \<notin> set order)"
    unfolding rem_def indeg_pos using edges_key by (auto simp del: in_obj_keys)
  then show ?thesis by auto
qed

lemma rem_snoc:
  assumes "obj_ok g" "c \<in> set (obj_keys g)" "c \<notin> set order"
  shows "rem g (order @ [c]) v + count_list (children_of g c) v = rem g order v"
proof -
  have "indeg g (filter (\<lambda>u. u \<notin> set (order @ [c])) ks) v + count_list (children_of g c) v
      = indeg g (filter (\<lambda>u. u \<notin> set order) ks) v"
    if "distinct ks" "c \<in> set ks" for ks
    using that
  proof (induction ks)
    case (Cons k ks)
    show ?case
    proof (cases "k = c")
      case True
      with Cons.prems have "c \<notin> set ks" by simp
      then have "filter (\<lambda>u. u \<notin> set order \<and> u \<noteq> c) ks = filter (\<lambda>u. u \<notin> set order) ks"
        by (intro filter_cong) auto
      with True assms(3) show ?thesis by (simp add: conj_commute)
    next
      case False
      with Cons show ?thesis by auto
    qed
  qed simp
  with assms(1,2) show ?thesis by (simp add: rem_def)
qed

lemma fold_relax:
  assumes "\<forall>v \<in> set ns. \<exists>d. obj_get ind v = Some d \<and> int (count_list ns v) \<le> d"
  shows "\<exists>ind' L. fold relax ns (ind, q) = (ind', q @ L)
     \<and> (\<forall>v. obj_get ind' v = map_option (\<lambda>d. d - int (count_list ns v)) (obj_get ind v))
     \<and> distinct L \<and> set L = {v \<in> set ns. obj_get ind v = Some (int (count_list ns v))}"
  using assms
proof (induction ns arbitrary: ind q)
  case Nil
  then show ?case by (auto simp: option.map_ident)
next
  case (Cons n ns)
  from Cons.prems obtain d where d: "obj_get ind n = Some d" "int (count_list ns n) < d"
    by force
  let ?ind = "obj_set n (d - 1) ind" and ?q = "if d - 1 = 0 then q @ [n] else q"
  have step: "relax n (ind, q) = (?ind, ?q)" by (simp add: relax_def d(1))
  have "\<forall>v \<in> set ns. \<exists>e. obj_get ?ind v = Some e \<and> int (count_list ns v) \<le> e"
    using Cons.prems d by (auto split: if_splits)
  from Cons.IH [OF this, of ?q] obtain ind' L where IH:
    "fold relax ns (?ind, ?q) = (ind', ?q @ L)"
    "\<forall>v. obj_get ind' v = map_option (\<lambda>d. d - int (count_list ns v)) (obj_get ?ind v)"
    "distinct L" "set L = {v \<in> set ns. obj_get ?ind v = Some (int (count_list ns v))}"
    by blast
  let ?L = "(if d - 1 = 0 then [n] else []) @ L"
  have "fold relax (n # ns) (ind, q) = (ind', q @ ?L)"
    using step IH(1) by simp
  moreover have "obj_get ind' v = map_option (\<lambda>d. d - int (count_list (n # ns) v)) (obj_get ind v)" for v
    using IH(2) d(1) by simp
  moreover have "distinct ?L \<and>
      set ?L = {v \<in> set (n # ns). obj_get ind v = Some (int (count_list (n # ns) v))}"
  proof (cases "d - 1 = 0")
    case True
    with d(2) have n: "n \<notin> set ns" "count_list ns n = 0" "d = 1"
      using count_list_pos [of ns n] by simp_all
    have "v \<in> set ?L \<longleftrightarrow> v \<in> set (n # ns) \<and> obj_get ind v = Some (int (count_list (n # ns) v))" for v
      using n d(1) by (cases "v = n") (simp_all add: IH(4))
    then have "set ?L = {v \<in> set (n # ns). obj_get ind v = Some (int (count_list (n # ns) v))}"
      by blast
    moreover have "distinct ?L" using n(1) IH(3) by (simp add: IH(4))
    ultimately show ?thesis by blast
  next
    case False
    have "v \<in> set L \<longleftrightarrow> v \<in> set (n # ns) \<and> obj_get ind v = Some (int (count_list (n # ns) v))" for v
    proof (cases "v = n")
      case True
      with False d(1) count_list_pos [of ns n] show ?thesis by (auto simp add: IH(4))
    next
      case v: False
      then show ?thesis by (simp add: IH(4))
    qed
    then have "set L = {v \<in> set (n # ns). obj_get ind v = Some (int (count_list (n # ns) v))}"
      by blast
    moreover have "?L = L" using False by simp
    ultimately show ?thesis using IH(3) by (simp only: simp_thms)
  qed
  ultimately show ?case by blast
qed

definition precedes_all :: "VariableGraph \<Rightarrow> string list \<Rightarrow> bool" where
  "precedes_all g order \<longleftrightarrow>
     (\<forall>xs v ys. order = xs @ v # ys \<longrightarrow> (\<forall>u. (u, v) \<in> edges g \<longrightarrow> u \<in> set xs))"

definition kahn_inv :: "VariableGraph \<Rightarrow> string list \<Rightarrow> string list \<Rightarrow> int jsobj \<Rightarrow> bool" where
  "kahn_inv g order queue ind \<longleftrightarrow>
     distinct (order @ queue) \<and> set (order @ queue) \<subseteq> set (obj_keys g)
   \<and> (\<forall>v \<in> set (obj_keys g). obj_get ind v = Some (int (rem g order v)))
   \<and> (\<forall>v \<in> set (obj_keys g). v \<in> set (order @ queue) \<longleftrightarrow> rem g order v = 0)
   \<and> precedes_all g order"

lemma precedes_all_snoc:
  assumes "precedes_all g order" "rem g order c = 0"
  shows "precedes_all g (order @ [c])"
  unfolding precedes_all_def
proof (intro allI impI)
  fix xs v ys u
  assume split: "order @ [c] = xs @ v # ys" and uv: "(u, v) \<in> edges g"
  show "u \<in> set xs"
  proof (cases ys rule: rev_exhaust)
    case Nil
    with split uv assms(2) show ?thesis by (simp add: rem_eq_0)
  next
    case (snoc zs z)
    with split have "order = xs @ v # zs" by simp
    with uv assms(1) show ?thesis by (auto simp: precedes_all_def)
  qed
qed

lemma kahn_step:
  assumes g: "closed_graph g" and inv: "kahn_inv g order (c # queue) ind"
    and r: "fold relax (children_of g c) (ind, queue) = (ind', queue')"
  shows "kahn_inv g (order @ [c]) queue' ind'"
proof -
  let ?cs = "children_of g c"
  from inv have c: "c \<in> set (obj_keys g)" "c \<notin> set order" "rem g order c = 0"
    and ind: "\<And>v. v \<in> set (obj_keys g) \<Longrightarrow> obj_get ind v = Some (int (rem g order v))"
    and zero: "\<And>v. v \<in> set (obj_keys g) \<Longrightarrow> v \<in> set (order @ c # queue) \<longleftrightarrow> rem g order v = 0"
    by (auto simp: kahn_inv_def simp del: in_obj_keys)
  have cs: "set ?cs \<subseteq> set (obj_keys g)" using g by (simp add: closed_graph_def)
  have snoc: "rem g (order @ [c]) v + count_list ?cs v = rem g order v" for v
    using rem_snoc [of g c order v] g c by (simp add: closed_graph_def del: in_obj_keys)
  have pre: "\<forall>v \<in> set ?cs. \<exists>d. obj_get ind v = Some d \<and> int (count_list ?cs v) \<le> d"
  proof
    fix v assume "v \<in> set ?cs"
    with cs have "obj_get ind v = Some (int (rem g order v))" by (intro ind) blast
    with snoc [of v] show "\<exists>d. obj_get ind v = Some d \<and> int (count_list ?cs v) \<le> d" by simp
  qed
  from fold_relax [OF pre, of queue] r obtain L where L: "queue' = queue @ L" "distinct L"
    "set L = {v \<in> set ?cs. obj_get ind v = Some (int (count_list ?cs v))}"
    and ind': "\<And>v. obj_get ind' v = map_option (\<lambda>d. d - int (count_list ?cs v)) (obj_get ind v)"
    by auto
  have inL: "v \<in> set L \<longleftrightarrow> v \<in> set ?cs \<and> rem g (order @ [c]) v = 0"
    if "v \<in> set (obj_keys g)" for v
    using snoc [of v] ind [OF that] by (auto simp: L(3))
  have notcs: "v \<notin> set ?cs \<Longrightarrow> rem g (order @ [c]) v = rem g order v" for v
    using snoc [of v] by (simp add: count_notin)
  have incs: "rem g order v \<noteq> 0" if "v \<in> set ?cs" for v
    using snoc [of v] that count_list_pos [of ?cs v] by simp
  have LK: "set L \<subseteq> set (obj_keys g)" using cs by (auto simp: L(3) simp del: in_obj_keys)
  have disj: "v \<notin> set (order @ c # queue)" if "v \<in> set L" for v
  proof -
    from that have "v \<in> set ?cs" by (simp add: L(3))
    with LK that zero [of v] incs [of v] show ?thesis by blast
  qed
  have "distinct ((order @ [c]) @ queue')"
    using inv disj L(1,2) by (auto simp: kahn_inv_def)
  moreover have "set ((order @ [c]) @ queue') \<subseteq> set (obj_keys g)"
    using inv LK L(1) by (auto simp: kahn_inv_def simp del: in_obj_keys)
  moreover have "obj_get ind' v = Some (int (rem g (order @ [c]) v))"
    if "v \<in> set (obj_keys g)" for v
    using ind' [of v] ind [OF that] snoc [of v] by simp
  moreover have "v \<in> set ((order @ [c]) @ queue') \<longleftrightarrow> rem g (order @ [c]) v = 0"
    if "v \<in> set (obj_keys g)" for v
    using zero [OF that] inL [OF that] notcs [of v] incs [of v] snoc [of v] L(1) by auto
  moreover have "precedes_all g (order @ [c])"
    using inv c(3) by (intro precedes_all_snoc) (simp_all add: kahn_inv_def)
  ultimately show ?thesis by (simp add: kahn_inv_def del: in_obj_keys)
qed

definition topo_ok :: "VariableGraph \<Rightarrow> string list \<Rightarrow> bool" where
  "topo_ok g order \<longleftrightarrow>
     distinct order \<and> set order \<subseteq> set (obj_keys g) \<and> precedes_all g order
   \<and> (\<forall>v \<in> set (obj_keys g). (\<forall>u. (u, v) \<in> edges g \<longrightarrow> u \<in> set order) \<longrightarrow> v \<in> set order)"

lemma kahn_inv_finished: "kahn_inv g order [] ind \<Longrightarrow> topo_ok g order"
  by (simp add: kahn_inv_def topo_ok_def rem_eq_0 [symmetric] del: in_obj_keys)

lemma kahn_topo:
  assumes "closed_graph g"
  shows "(\<And>k. children_of adj k = children_of g k) \<Longrightarrow> kahn_inv g order queue ind
    \<Longrightarrow> topo_ok g (kahn adj ind queue order)"
proof (induction adj ind queue order rule: kahn.induct)
  case (1 adj ind order)
  then show ?case by (simp add: kahn_inv_finished)
next
  case (2 adj ind current queue order)
  obtain ind' queue' where r: "fold relax (children_of adj current) (ind, queue) = (ind', queue')"
    by fastforce
  with "2.prems" have "kahn_inv g (order @ [current]) queue' ind'"
    by (intro kahn_step [OF assms, of order current queue ind]) simp_all
  from "2.IH" [OF r [symmetric] "2.prems"(1) this] r show ?case
    by (simp add: kahn.simps(2))
qed

lemma kahn_inv_init:
  assumes g: "closed_graph g" and i: "init_degrees g = (ind, adj)"
  shows "kahn_inv g [] (filter (\<lambda>v. obj_get ind v = Some 0) (obj_keys ind)) ind"
proof -
  have ok: "obj_ok g" using g by (simp add: closed_graph_def)
  have get: "obj_get ind v =
      (if v \<in> set (obj_keys g) then Some (int (rem g [] v)) else None)" for v
    unfolding init_ind_get [OF ok i] rem_Nil using closed_graph_edge [OF g] by metis
  then have "set (obj_keys ind) = set (obj_keys g)"
    by (auto split: if_splits)
  with get init_degrees_obj_ok [OF i] show ?thesis
    by (auto simp: kahn_inv_def precedes_all_def simp del: in_obj_keys)
qed

lemma buildDependencyGraph_SomeD:
  assumes "buildDependencyGraph g = Some d"
  obtains ind adj cyc visited recStack where "init_degrees g = (ind, adj)"
    "find_cycle g (obj_keys g) [] [] = Some (cyc, visited, recStack)"
    "dd_order d = kahn adj ind (filter (\<lambda>v. obj_get ind v = Some 0) (obj_keys ind)) []"
    "dd_graph d = adj" "dd_parentDependencyGraph d = buildParentDependencyGraph adj"
    "dd_transitiveDescendants d = collect_descendants adj (dd_order d)"
    "dd_hasCycle d = (length (dd_order d) \<noteq> length (obj_keys g))" "dd_cycleNodes d = cyc"
  using assms unfolding buildDependencyGraph_def
  by (auto simp: Let_def split: prod.splits option.splits)

lemma dd_order_topo:
  assumes "closed_graph g" "buildDependencyGraph g = Some d"
  shows "topo_ok g (dd_order d)"
  using assms(2)
proof (rule buildDependencyGraph_SomeD)
  fix ind adj
  assume i: "init_degrees g = (ind, adj)"
    and o: "dd_order d = kahn adj ind (filter (\<lambda>v. obj_get ind v = Some 0) (obj_keys ind)) []"
  have "obj_ok g" using assms(1) by (simp add: closed_graph_def)
  with i show ?thesis
    unfolding o by (intro kahn_topo [OF assms(1)] kahn_inv_init [OF assms(1) i] init_adj_children)
qed

text \<open>Completeness of the order decides acyclicity.\<close>

lemma topo_acyclic_complete:
  assumes g: "closed_graph g" and t: "topo_ok g order" and ac: "acyclic (edges g)"
  shows "set order = set (obj_keys g)"
proof (rule ccontr)
  assume "set order \<noteq> set (obj_keys g)"
  with t obtain w where w: "w \<in> set (obj_keys g) - set order"
    by (auto simp: topo_ok_def simp del: in_obj_keys)
  have "wf (edges g)" using finite_edges [OF g] ac by (rule finite_acyclic_wf)
  then obtain z where z: "z \<in> set (obj_keys g) - set order"
    and least: "\<And>y. (y, z) \<in> edges g \<Longrightarrow> y \<notin> set (obj_keys g) - set order"
    using wfE_min [OF \<open>wf (edges g)\<close> w] by blast
  have "y \<in> set order" if "(y, z) \<in> edges g" for y
    using least [OF that] edges_key [OF that] by blast
  with z t show False by (auto simp: topo_ok_def simp del: in_obj_keys)
qed

lemma topo_complete_acyclic:
  assumes g: "closed_graph g" and t: "topo_ok g order" and c: "set order = set (obj_keys g)"
  shows "acyclic (edges g)"
proof -
  have "edges g \<subseteq> measure (\<lambda>v. position v order)"
  proof clarify
    fix u v assume uv: "(u, v) \<in> edges g"
    then have "v \<in> set order" using closed_graph_edge [OF g] c by blast
    then obtain xs ys where o: "order = xs @ v # ys" "v \<notin> set xs"
      by (meson split_list_first)
    have "u \<in> set xs" using t uv o(1) unfolding topo_ok_def precedes_all_def by blast
    with o position_in_prefix [of u xs "v # ys"]
    show "(u, v) \<in> measure (\<lambda>v. position v order)" by simp
  qed
  then show ?thesis
    by (meson acyclic_subset wf_acyclic wf_measure)
qed

lemma dd_hasCycle_iff:
  assumes g: "closed_graph g" and d: "buildDependencyGraph g = Some d"
  shows "dd_hasCycle d \<longleftrightarrow> \<not> acyclic (edges g)"
proof -
  have t: "topo_ok g (dd_order d)" using g d by (rule dd_order_topo)
  have "distinct (obj_keys g)" using g by (simp add: closed_graph_def)
  with t have "length (dd_order d) = length (obj_keys g) \<longleftrightarrow> set (dd_order d) = set (obj_keys g)"
    unfolding topo_ok_def by (metis card_subset_eq distinct_card finite_set)
  moreover from d have "dd_hasCycle d \<longleftrightarrow> length (dd_order d) \<noteq> length (obj_keys g)"
    by (rule buildDependencyGraph_SomeD)
  ultimately have "dd_hasCycle d \<longleftrightarrow> set (dd_order d) \<noteq> set (obj_keys g)"
    by simp
  with topo_acyclic_complete [OF g t] topo_complete_acyclic [OF g t] show ?thesis by blast
qed

section \<open>Transitive descendants and parents\<close>

lemma set_node_descendants:
  "set (node_descendants adj td node)
     = set (children_of adj node) \<union> (\<Union>c \<in> set (children_of adj node). set (children_of td c))"
proof -
  have "set (fold (\<lambda>child desc. fold add_new (children_of td child) (add_new child desc)) cs acc)
      = set acc \<union> set cs \<union> (\<Union>c \<in> set cs. set (children_of td c))" for cs acc
    by (induction cs arbitrary: acc) auto
  from this [of "children_of adj node" "[]"] show ?thesis
    by (simp add: node_descendants_def)
qed

lemma distinct_node_descendants: "distinct (node_descendants adj td node)"
proof -
  have "distinct acc \<Longrightarrow>
      distinct (fold (\<lambda>child desc. fold add_new (children_of td child) (add_new child desc)) cs acc)"
    for cs acc
    by (induction cs arbitrary: acc) auto
  then show ?thesis by (simp add: node_descendants_def)
qed

lemma collect_descendants_Cons:
  "collect_descendants adj (y # ys) =
     obj_set y (node_descendants adj (collect_descendants adj ys) y) (collect_descendants adj ys)"
  by (simp add: collect_descendants_def)

lemma collect_descendants_dom:
  "obj_get (collect_descendants adj ys) v = None \<longleftrightarrow> v \<notin> set ys"
  by (induction ys) (auto simp: collect_descendants_Cons, simp add: collect_descendants_def)

lemma collect_descendants_distinct:
  "distinct (children_of (collect_descendants adj ys) v)"
  by (induction ys)
    (auto simp: collect_descendants_Cons obj_get_or_def distinct_node_descendants
      split: option.splits, simp add: collect_descendants_def)

lemma trancl_children:
  "(edges g)\<^sup>+ `` {v} = set (children_of g v) \<union> (\<Union>c \<in> set (children_of g v). (edges g)\<^sup>+ `` {c})"
  by (auto simp: edges_def dest: tranclD intro: trancl_into_trancl2)
    (metis (mono_tags, lifting) case_prodD mem_Collect_eq rtranclD tranclD)

lemma collect_descendants_trancl:
  assumes adj: "\<And>k. children_of adj k = children_of g k"
    and o: "distinct order" "precedes_all g order"
    and closed: "\<And>u v. u \<in> set order \<Longrightarrow> (u, v) \<in> edges g \<Longrightarrow> v \<in> set order"
  shows "order = xs @ ys \<Longrightarrow> v \<in> set ys \<Longrightarrow>
    set (children_of (collect_descendants adj ys) v) = (edges g)\<^sup>+ `` {v}"
proof (induction ys arbitrary: xs v)
  case (Cons y ys)
  have rest: "set (children_of (collect_descendants adj ys) w) = (edges g)\<^sup>+ `` {w}"
    if "w \<in> set ys" for w
    using Cons.IH [of "xs @ [y]" w] Cons.prems(1) that by simp
  show ?case
  proof (cases "v = y")
    case True
    have later: "c \<in> set ys" if c: "c \<in> set (children_of g y)" for c
    proof -
      have e: "(y, c) \<in> edges g" using c by (simp add: edges_def)
      then have "c \<in> set order" by (rule closed [rotated]) (simp add: Cons.prems(1))
      then obtain as bs where "order = as @ c # bs" "c \<notin> set as" by (meson split_list_first)
      moreover from this(1) e o(2) have "y \<in> set as" by (auto simp: precedes_all_def)
      ultimately show ?thesis
        using Cons.prems(1) o(1)
        by (auto simp: append_eq_append_conv2 Cons_eq_append_conv append_eq_Cons_conv)
    qed
    have "set (children_of (collect_descendants adj (y # ys)) v)
        = set (children_of g y) \<union>
          (\<Union>c \<in> set (children_of g y). set (children_of (collect_descendants adj ys) c))"
      using True set_node_descendants [of adj "collect_descendants adj ys" y]
      by (simp add: collect_descendants_Cons obj_get_or_def [of "obj_set _ _ _"] adj)
    also have "\<dots> = (edges g)\<^sup>+ `` {y}"
      using later rest by (simp add: trancl_children [of g y])
    finally show ?thesis using True by simp
  next
    case False
    with Cons.prems rest show ?thesis
      by (simp add: collect_descendants_Cons obj_get_or_def)
  qed
qed simp

lemma dd_transitiveDescendants_trancl:
  assumes g: "closed_graph g" and d: "buildDependencyGraph g = Some d" and ac: "acyclic (edges g)"
    and v: "v \<in> set (obj_keys g)"
  shows "set (children_of (dd_transitiveDescendants d) v) = (edges g)\<^sup>+ `` {v}"
proof -
  have t: "topo_ok g (dd_order d)" using g d by (rule dd_order_topo)
  with ac have o: "set (dd_order d) = set (obj_keys g)" by (intro topo_acyclic_complete [OF g])
  from d show ?thesis
  proof (rule buildDependencyGraph_SomeD)
    fix ind adj
    assume "init_degrees g = (ind, adj)"
      and td: "dd_transitiveDescendants d = collect_descendants adj (dd_order d)"
    with g have adj: "children_of adj k = children_of g k" for k
      by (intro init_adj_children) (auto simp: closed_graph_def)
    show ?thesis
      unfolding td
    proof (rule collect_descendants_trancl [OF adj])
      show "distinct (dd_order d)" "precedes_all g (dd_order d)"
        using t by (auto simp: topo_ok_def)
      show "y \<in> set (dd_order d)" if "(x, y) \<in> edges g" for x y
        using closed_graph_edge [OF g that] o by simp
      show "dd_order d = [] @ dd_order d" "v \<in> set (dd_order d)" using v o by simp_all
    qed
  qed
qed

lemma children_fold_push:
  "set (children_of (fold (push_parent node) cs pg) c)
     = set (children_of pg c) \<union> (if c \<in> set cs then {node} else {})"
  by (induction cs arbitrary: pg) (auto simp: push_parent_def obj_get_or_def)

lemma parents_of_entries:
  "set (children_of (fold (\<lambda>(node, cs). fold (push_parent node) cs) es pg) c)
     = set (children_of pg c) \<union> {node. \<exists>cs. (node, cs) \<in> set es \<and> c \<in> set cs}"
  by (induction es arbitrary: pg) (auto simp: children_fold_push split: if_splits)

lemma buildParentDependencyGraph_set:
  assumes "obj_ok g"
  shows "set (children_of (buildParentDependencyGraph g) c) = {u. (u, c) \<in> edges g}"
proof -
  have "children_of (fold (\<lambda>node. obj_set node []) (obj_keys g) []) c = []"
    by (simp add: obj_get_or_def obj.get_fold_put [where f = "\<lambda>_. []"])
  moreover have "(\<exists>cs. (u, cs) \<in> set g \<and> c \<in> set cs) \<longleftrightarrow> (u, c) \<in> edges g" for u
    using assms by (auto simp: edges_def obj_get_or_def obj_get_conv_set [symmetric]
        split: option.splits) (metis option.inject)+
  ultimately show ?thesis
    by (simp add: buildParentDependencyGraph_def parents_of_entries)
qed

lemma dd_parents_set:
  assumes "closed_graph g" "buildDependencyGraph g = Some d"
  shows "set (children_of (dd_parentDependencyGraph d) c) = {u. (u, c) \<in> edges g}"
  using assms(2)
proof (rule buildDependencyGraph_SomeD)
  fix ind adj
  assume i: "init_degrees g = (ind, adj)"
    and p: "dd_parentDependencyGraph d = buildParentDependencyGraph adj"
  have "edges adj = edges g"
    using assms(1) init_adj_children [OF _ i] by (simp add: edges_def closed_graph_def)
  with init_degrees_obj_ok [OF i] show ?thesis
    by (simp add: p buildParentDependencyGraph_set)
qed

lemma dd_graph_children:
  assumes "closed_graph g" "buildDependencyGraph g = Some d"
  shows "children_of (dd_graph d) k = children_of g k"
  using assms(2)
  by (rule buildDependencyGraph_SomeD)
    (use assms(1) in \<open>simp add: init_adj_children closed_graph_def\<close>)

end
