(* ===== verification/DependencyCycles.thy ===== *)
theory DependencyCycles
  imports DependencyOrder
begin

text \<open>
  The depth-first cycle detector: it reports nothing exactly on acyclic graphs, and so
  agrees with the count of Kahn's algorithm; and the back-walk of \<^verbatim>\<open>collectCyclePath\<close>, which
  can run for ever.  The nodes that are visited and no longer on the recursion stack are
  called finished.
\<close>

section \<open>Soundness\<close>

lemma removeAll_top:
  "n \<notin> set visited \<Longrightarrow> set recStack \<subseteq> set visited \<Longrightarrow> removeAll n (n # recStack) = recStack"
proof -
  assume "n \<notin> set visited" and "set recStack \<subseteq> set visited"
  then have "n \<notin> set recStack" by blast
  then show ?thesis by simp
qed

lemma scan_frame:
  "scan g node ns visited recStack = Some (None, visited', recStack') \<Longrightarrow>
   set recStack \<subseteq> set visited \<Longrightarrow> recStack' = recStack \<and> set visited \<subseteq> set visited'"
proof (induction g node ns visited recStack arbitrary: visited' recStack' rule: scan.induct)
  case (2 g node n ns visited recStack)
  show ?case
  proof (cases "n \<notin> set visited")
    case True
    with "2.prems"(1) obtain v1 r1
      where s1: "scan g n (children_of g n) (n # visited) (n # recStack) = Some (None, v1, r1)"
        and s2: "scan g node ns v1 (removeAll n r1) = Some (None, visited', recStack')"
      by (auto simp: scan.simps split: option.splits)
    from "2.IH"(1) [OF True s1] "2.prems"(2)
    have r1: "r1 = n # recStack" "set (n # visited) \<subseteq> set v1" by auto
    with True "2.prems"(2) have "removeAll n r1 = recStack" by (simp only: removeAll_top)
    with "2.IH"(2) [OF True s1 refl refl refl s2] r1(2) "2.prems"(2) show ?thesis by auto
  next
    case False
    with "2.prems" "2.IH"(3) show ?thesis
      by (auto simp: scan.simps split: if_splits option.splits)
  qed
qed (simp add: scan.simps)

lemma scan_acyclic:
  "acyclic (edges g) \<Longrightarrow> set ns \<subseteq> set (children_of g node) \<Longrightarrow> set recStack \<subseteq> set visited \<Longrightarrow>
   (\<And>x. x \<in> set recStack \<Longrightarrow> (x, node) \<in> (edges g)\<^sup>*) \<Longrightarrow>
   \<exists>visited'. scan g node ns visited recStack = Some (None, visited', recStack)"
proof (induction g node ns visited recStack rule: scan.induct)
  case (2 g node n ns visited recStack)
  have e: "(node, n) \<in> edges g" using "2.prems"(2) by (simp add: edges_def)
  show ?case
  proof (cases "n \<notin> set visited")
    case True
    have "(x, n) \<in> (edges g)\<^sup>*" if "x \<in> set (n # recStack)" for x
      using that "2.prems"(4) e by (auto intro: rtrancl_into_rtrancl)
    with "2.IH"(1) [OF True "2.prems"(1)] "2.prems"(3) obtain v1
      where s1: "scan g n (children_of g n) (n # visited) (n # recStack)
        = Some (None, v1, n # recStack)" by auto
    from scan_frame [OF s1] "2.prems"(3) have v1: "set (n # visited) \<subseteq> set v1" by auto
    from True "2.prems"(3) have rm: "removeAll n (n # recStack) = recStack" by (rule removeAll_top)
    have "\<exists>visited'. scan g node ns v1 recStack = Some (None, visited', recStack)"
      using "2.IH"(2) [OF True s1 refl refl refl "2.prems"(1)] "2.prems" v1 unfolding rm by auto
    with True s1 rm show ?thesis by (simp add: scan.simps(2) del: removeAll.simps)
  next
    case False
    have "n \<notin> set recStack"
    proof
      assume "n \<in> set recStack"
      with "2.prems"(4) e have "(n, n) \<in> (edges g)\<^sup>+" by (meson rtrancl_into_trancl1)
      with "2.prems"(1) show False by (simp add: acyclic_def)
    qed
    with False "2.IH"(3) [OF False _ "2.prems"(1)] "2.prems" show ?thesis
      by (simp add: scan.simps(2))
  qed
qed (simp add: scan.simps)

section \<open>Completeness\<close>

definition finished_ok :: "VariableGraph \<Rightarrow> string set \<Rightarrow> bool" where
  "finished_ok g F \<longleftrightarrow>
     (\<forall>x \<in> F. set (children_of g x) \<subseteq> F) \<and> (\<forall>x \<in> F. (x, x) \<notin> (edges g)\<^sup>+)"

lemma finished_ok_closed: "finished_ok g F \<Longrightarrow> x \<in> F \<Longrightarrow> (x, y) \<in> (edges g)\<^sup>* \<Longrightarrow> y \<in> F"
  by (rotate_tac 2, induction rule: rtrancl_induct) (auto simp: finished_ok_def edges_def)

lemma finished_ok_insert:
  assumes "finished_ok g F" "set (children_of g n) \<subseteq> F" "n \<notin> F"
  shows "finished_ok g (insert n F)"
proof -
  have "(n, n) \<notin> (edges g)\<^sup>+"
  proof
    assume "(n, n) \<in> (edges g)\<^sup>+"
    then obtain c where "(n, c) \<in> edges g" "(c, n) \<in> (edges g)\<^sup>*" by (meson tranclD)
    with assms finished_ok_closed [OF assms(1), of c n] show False by (auto simp: edges_def)
  qed
  with assms show ?thesis by (auto simp: finished_ok_def)
qed

lemma scan_finished:
  "scan g node ns visited recStack = Some (None, visited', recStack') \<Longrightarrow>
   set recStack \<subseteq> set visited \<Longrightarrow> finished_ok g (set visited - set recStack) \<Longrightarrow>
   finished_ok g (set visited' - set recStack') \<and> set ns \<subseteq> set visited' - set recStack'"
proof (induction g node ns visited recStack arbitrary: visited' recStack' rule: scan.induct)
  case (2 g node n ns visited recStack)
  show ?case
  proof (cases "n \<notin> set visited")
    case True
    with "2.prems"(1) obtain v1 r1
      where s1: "scan g n (children_of g n) (n # visited) (n # recStack) = Some (None, v1, r1)"
        and s2: "scan g node ns v1 (removeAll n r1) = Some (None, visited', recStack')"
      by (auto simp: scan.simps split: option.splits)
    from scan_frame [OF s1] "2.prems"(2)
    have r1: "r1 = n # recStack" "set (n # visited) \<subseteq> set v1" by auto
    with True "2.prems"(2) have rm: "removeAll n r1 = recStack" by (simp only: removeAll_top)
    have "set (n # visited) - set (n # recStack) = set visited - set recStack"
      using True by auto
    with "2.IH"(1) [OF True s1] "2.prems"(2,3) r1(1)
    have F1: "finished_ok g (set v1 - set (n # recStack))"
      "set (children_of g n) \<subseteq> set v1 - set (n # recStack)" by auto
    have "insert n (set v1 - set (n # recStack)) = set v1 - set recStack"
      using r1(2) True "2.prems"(2) by auto
    with finished_ok_insert [OF F1] have F2: "finished_ok g (set v1 - set recStack)" by simp
    have sub: "set recStack \<subseteq> set v1" using r1(2) "2.prems"(2) by auto
    from "2.IH"(2) [OF True s1 refl refl refl s2] sub F2
    have F3: "finished_ok g (set visited' - set recStack')" "set ns \<subseteq> set visited' - set recStack'"
      unfolding rm by auto
    from scan_frame [OF s2] sub have "recStack' = recStack" "set v1 \<subseteq> set visited'"
      unfolding rm by auto
    with r1(2) True "2.prems"(2) F3 show ?thesis by auto
  next
    case False
    with "2.prems"(1) have n: "n \<notin> set recStack"
      and s: "scan g node ns visited recStack = Some (None, visited', recStack')"
      by (auto simp: scan.simps split: if_splits option.splits)
    from "2.IH"(3) [OF False n s] scan_frame [OF s] "2.prems"(2,3) n False
    show ?thesis by auto
  qed
qed (simp add: scan.simps)

section \<open>The detector as a whole\<close>

lemma detectCycle_None:
  assumes "detectCycle g node visited [] = Some (None, visited', recStack')"
    and "finished_ok g (set visited)"
  shows "recStack' = [] \<and> finished_ok g (set visited') \<and> set visited \<subseteq> set visited' \<and> node \<in> set visited'"
proof (cases "node \<in> set visited")
  case True
  with assms show ?thesis by (auto simp: detectCycle_def)
next
  case False
  with assms(1) obtain v1 r1 where
    s: "scan g node (children_of g node) (node # visited) [node] = Some (None, v1, r1)"
    and v: "visited' = v1" "recStack' = removeAll node r1"
    by (auto simp: detectCycle_def split: option.splits)
  from scan_frame [OF s] have r1: "r1 = [node]" "set (node # visited) \<subseteq> set v1" by auto
  have "set (node # visited) - set [node] = set visited" using False by auto
  with scan_finished [OF s] assms(2) r1(1)
  have "finished_ok g (set v1 - {node})" "set (children_of g node) \<subseteq> set v1 - {node}" by auto
  then have "finished_ok g (insert node (set v1 - {node}))" by (rule finished_ok_insert) simp
  moreover have "insert node (set v1 - {node}) = set v1" using r1(2) by auto
  ultimately show ?thesis using v r1 by auto
qed

lemma find_cycle_None:
  "find_cycle g nodes visited [] = Some (None, visited', recStack') \<Longrightarrow> finished_ok g (set visited) \<Longrightarrow>
   finished_ok g (set visited') \<and> set visited \<subseteq> set visited' \<and> set nodes \<subseteq> set visited'"
proof (induction nodes arbitrary: visited)
  case (Cons node nodes)
  show ?case
  proof (cases "node \<in> set visited")
    case True
    with Cons show ?thesis by auto
  next
    case False
    with Cons.prems(1) obtain v1 r1 where
      s: "detectCycle g node visited [] = Some (None, v1, r1)"
      and f: "find_cycle g nodes v1 r1 = Some (None, visited', recStack')"
      by (auto split: option.splits)
    from detectCycle_None [OF s Cons.prems(2)] Cons.IH [of v1] f show ?thesis by auto
  qed
qed simp

lemma find_cycle_acyclic:
  assumes "acyclic (edges g)"
  shows "\<exists>visited'. find_cycle g nodes visited [] = Some (None, visited', [])"
proof (induction nodes arbitrary: visited)
  case (Cons node nodes)
  have "\<exists>v. detectCycle g node visited [] = Some (None, v, [])" if "node \<notin> set visited"
    using scan_acyclic [OF assms, of "children_of g node" node "[node]" "node # visited"] that
    by (auto simp: detectCycle_def)
  with Cons show ?case by fastforce
qed simp

lemma buildDependencyGraph_acyclic_returns:
  "acyclic (edges g) \<Longrightarrow> \<exists>d. buildDependencyGraph g = Some d"
  using find_cycle_acyclic [of g "obj_keys g" "[]"]
  by (auto simp: buildDependencyGraph_def Let_def split: prod.splits)

lemma dd_cycleNodes_iff:
  assumes d: "buildDependencyGraph g = Some d"
  shows "dd_cycleNodes d = None \<longleftrightarrow> acyclic (edges g)"
  using d
proof (rule buildDependencyGraph_SomeD)
  fix cyc visited recStack
  assume f: "find_cycle g (obj_keys g) [] [] = Some (cyc, visited, recStack)"
    and c: "dd_cycleNodes d = cyc"
  show ?thesis
  proof
    assume "dd_cycleNodes d = None"
    with f c have "finished_ok g (set visited)" "set (obj_keys g) \<subseteq> set visited"
      using find_cycle_None [of g "obj_keys g" "[]" visited recStack] by (auto simp: finished_ok_def)
    then have "(x, x) \<notin> (edges g)\<^sup>+" for x
      using edges_key unfolding finished_ok_def by (meson subsetD tranclD)
    then show "acyclic (edges g)" by (simp add: acyclic_def)
  next
    assume "acyclic (edges g)"
    with f c find_cycle_acyclic [of g "obj_keys g" "[]"] show "dd_cycleNodes d = None" by auto
  qed
qed

section \<open>The back-walk\<close>

lemma collect_loop_diverges:
  assumes "\<And>x. x \<in> S \<Longrightarrow> \<exists>y \<in> S. findParent g x = Some y \<and> y \<noteq> []"
    and "end_node \<notin> S" and "current \<in> S"
  shows "collect_loop g current end_node path = None"
proof (rule ccontr)
  assume "collect_loop g current end_node path \<noteq> None"
  then obtain r where "collect_loop g current end_node path = Some r" by blast
  then have "g = g \<longrightarrow> end_node = end_node \<longrightarrow> current \<notin> S"
  proof (rule collect_loop.raw_induct
      [where P = "\<lambda>g' current e path r. g' = g \<longrightarrow> e = end_node \<longrightarrow> current \<notin> S", rotated])
    fix loop g' current e path r
    assume IH: "\<And>g' current e path r. loop g' current e path = Some r \<Longrightarrow>
        g' = g \<longrightarrow> e = end_node \<longrightarrow> current \<notin> S"
      and eq: "(if current = e then Some path else case findParent g' current of
          None \<Rightarrow> Some path | Some parent \<Rightarrow>
            if parent = [] then Some path else loop g' parent e (path @ [parent])) = Some r"
    show "g' = g \<longrightarrow> e = end_node \<longrightarrow> current \<notin> S"
    proof (intro impI notI)
      assume "g' = g" "e = end_node" "current \<in> S"
      with assms(1) [of current] assms(2) eq IH show False
        by (auto split: if_splits)
    qed
  qed
  with assms(3) show False by simp
qed

text \<open>References in which no variable has two parents, or refers to a variable without a name.\<close>

definition single_parents :: "VariableGraph \<Rightarrow> bool" where
  "single_parents g \<longleftrightarrow> (\<forall>u u' x. (u, x) \<in> edges g \<and> (u', x) \<in> edges g \<longrightarrow> u = u')
     \<and> (\<forall>u x. (u, x) \<in> edges g \<longrightarrow> u \<noteq> [])"

lemma findParent_single:
  assumes one: "single_parents g" and e: "(u, x) \<in> edges g"
  shows "findParent g x = Some u \<and> u \<noteq> []"
proof -
  have "u \<in> set (obj_keys g)" using e by (rule edges_key)
  with e have "findParent g x \<noteq> None" by (auto simp: findParent_def find_None_iff edges_def)
  then obtain v where v: "findParent g x = Some v" by blast
  then have "(v, x) \<in> edges g" by (auto simp: findParent_def find_Some_iff edges_def)
  with one e have "v = u" "u \<noteq> []" unfolding single_parents_def by blast+
  with v show ?thesis by simp
qed

lemma collect_loop_returns:
  assumes one: "single_parents g" and path: "(end_node, current) \<in> (edges g)\<^sup>*"
  shows "\<exists>r. collect_loop g current end_node p = Some r"
  using path
proof (induction arbitrary: p rule: rtrancl_induct)
  case (step u x)
  with findParent_single [OF one step.hyps(2)] show ?case by (subst collect_loop.simps) auto
qed (subst collect_loop.simps, simp)

lemma scan_returns:
  "single_parents g \<Longrightarrow> set ns \<subseteq> set (children_of g node) \<Longrightarrow> set recStack \<subseteq> set visited \<Longrightarrow>
   (\<And>x. x \<in> set recStack \<Longrightarrow> (x, node) \<in> (edges g)\<^sup>*) \<Longrightarrow> scan g node ns visited recStack \<noteq> None"
proof (induction g node ns visited recStack rule: scan.induct)
  case (2 g node n ns visited recStack)
  have e: "(node, n) \<in> edges g" using "2.prems"(2) by (simp add: edges_def)
  show ?case
  proof (cases "n \<notin> set visited")
    case True
    have "(x, n) \<in> (edges g)\<^sup>*" if "x \<in> set (n # recStack)" for x
      using that "2.prems"(4) e by (auto intro: rtrancl_into_rtrancl)
    with "2.IH"(1) [OF True "2.prems"(1)] "2.prems"(3) obtain c v1 r1
      where s1: "scan g n (children_of g n) (n # visited) (n # recStack) = Some (c, v1, r1)" by fastforce
    show ?thesis
    proof (cases c)
      case None
      from scan_frame [OF s1 [unfolded None]] "2.prems"(3)
      have r: "r1 = n # recStack" "set (n # visited) \<subseteq> set v1" by auto
      from True "2.prems"(3) have rm: "removeAll n r1 = recStack" unfolding r(1) by (rule removeAll_top)
      have "scan g node ns v1 recStack \<noteq> None"
        using "2.IH"(2) [OF True s1 refl None refl "2.prems"(1)] "2.prems" r(2)
        unfolding rm by auto
      with True s1 None rm show ?thesis by (simp add: scan.simps(2) del: removeAll.simps)
    qed (use True s1 in \<open>simp add: scan.simps(2)\<close>)
  next
    case False
    have "\<exists>c. collectCyclePath g node n = Some c" if "n \<in> set recStack"
      using collect_loop_returns [OF "2.prems"(1) "2.prems"(4) [OF that]]
      by (auto simp: collectCyclePath_def)
    with False "2.IH"(3) [OF False _ "2.prems"(1)] "2.prems" show ?thesis
      by (auto simp: scan.simps(2) split: option.splits)
  qed
qed (simp add: scan.simps)

lemma buildDependencyGraph_single_returns:
  assumes one: "single_parents g"
  shows "\<exists>d. buildDependencyGraph g = Some d"
proof -
  have "find_cycle g nodes visited [] \<noteq> None" for nodes visited
  proof (induction nodes arbitrary: visited)
    case (Cons node nodes)
    have "scan g node (children_of g node) (node # visited) [node] \<noteq> None"
      by (rule scan_returns [OF one]) auto
    moreover have "recStack' = [node]"
      if "scan g node (children_of g node) (node # visited) [node] = Some (None, visited', recStack')"
      for visited' recStack' using scan_frame [OF that] by simp
    ultimately show ?case using Cons by (auto simp: detectCycle_def split: option.splits)
  qed simp
  from this [of "obj_keys g" "[]"] show ?thesis
    by (auto simp: buildDependencyGraph_def Let_def split: prod.splits)
qed

end
