(* ===== verification/DependencyProperties.thy ===== *)
theory DependencyProperties
  imports DependencyCycles
begin

text \<open>
  What the dependency data of a dashboard promises its clients, stated for the graph that
  \<^verbatim>\<open>buildDependencies\<close> makes of a list of variables and for the result of
  \<^verbatim>\<open>buildDependencyGraph\<close>.
\<close>

section \<open>The graph of a list of variables\<close>

definition all_named :: "IDashboardVariable list \<Rightarrow> bool" where
  "all_named vs \<longleftrightarrow> list_all (\<lambda>v. dv_name v \<noteq> []) vs"

lemma fold_named_get:
  "obj_get (fold (\<lambda>v g. if dv_name v \<noteq> [] then obj_set (dv_name v) (f (dv_name v)) g else g) vs g) k =
     (if k \<noteq> [] \<and> k \<in> dv_name ` set vs then Some (f k) else obj_get g k)"
  by (induction vs arbitrary: g) auto

lemma fold_named_ok:
  "obj_ok g \<Longrightarrow> obj_ok (fold (\<lambda>v g. if dv_name v \<noteq> [] then obj_set (dv_name v) (f v) g else g) vs g)"
  by (induction vs arbitrary: g) auto

lemma buildDependencies_get:
  "obj_get (buildDependencies vs) k =
     (if k \<noteq> [] \<and> k \<in> dv_name ` set vs
      then Some (getDependentVariablesBasedOnVariableName k vs) else None)"
  using fold_named_get [of "\<lambda>k. getDependentVariablesBasedOnVariableName k vs" vs
      "fold (\<lambda>v g. if dv_name v \<noteq> [] then obj_set (dv_name v) [] g else g) vs []" k]
    fold_named_get [of "\<lambda>_. []" vs "[]" k]
  by (auto simp add: buildDependencies_def Let_def split: if_splits)

lemma buildDependencies_ok: "obj_ok (buildDependencies vs)"
  by (simp add: buildDependencies_def Let_def fold_named_ok)

lemma buildDependencies_keys: "set (obj_keys (buildDependencies vs)) = dv_name ` set vs - {[]}"
proof -
  have "k \<in> set (obj_keys (buildDependencies vs)) \<longleftrightarrow> k \<in> dv_name ` set vs - {[]}" for k
    by (auto simp: buildDependencies_get)
  then show ?thesis by blast
qed

lemma buildDependencies_edge:
  "(u, w) \<in> edges (buildDependencies vs) \<longleftrightarrow>
     u \<noteq> [] \<and> u \<in> dv_name ` set vs \<and>
     (\<exists>v \<in> set vs. dv_name v = w \<and> dv_type v = QUERY \<and> textContainsVariableReference (dv_queryValue v) u)"
  by (auto simp: edges_def obj_get_or_def buildDependencies_get getDependentVariablesBasedOnVariableName_def)

lemma buildDependencies_closed:
  assumes "all_named vs"
  shows "closed_graph (buildDependencies vs)"
proof -
  have "w \<in> dv_name ` set vs - {[]}" if "(u, w) \<in> edges (buildDependencies vs)" for u w
    using that assms by (auto simp: buildDependencies_edge all_named_def list_all_iff)
  then show ?thesis
    unfolding closed_graph_def buildDependencies_keys
    by (auto simp: buildDependencies_ok edges_def)
qed


section \<open>The update order of a variable\<close>

text \<open>
  The nodes of a topological order that a change of \<open>n\<close> reaches.  After a prefix of the order, the
  visited set of \<^verbatim>\<open>onUpdateVariableNode\<close> holds the reached nodes of the prefix and their children.
\<close>

definition reached_by :: "VariableGraph \<Rightarrow> string \<Rightarrow> string \<Rightarrow> bool" where
  "reached_by g n x \<longleftrightarrow> x = n \<or> (n, x) \<in> (edges g)\<^sup>+"

definition visit_inv :: "VariableGraph \<Rightarrow> string \<Rightarrow> bool \<Rightarrow> string list \<Rightarrow> string list \<times> string list \<Rightarrow> bool" where
  "visit_inv g n out xs = (\<lambda>(visited, called). called = filter (reached_by g n) xs
     \<and> set visited = {x. \<exists>y \<in> set (filter (reached_by g n) xs). x = y \<or> (y, x) \<in> edges g}
         \<union> (if out then set (children_of g n) else {}))"

lemma visit_inv_sound:
  assumes "visit_inv g n out xs (visited, called)" "x \<in> set visited"
  shows "reached_by g n x"
  using assms by (auto simp: visit_inv_def reached_by_def edges_def intro: trancl_into_trancl split: if_splits)

lemma visit_inv_step:
  assumes inv: "visit_inv g n (n \<notin> set order) xs (visited, called)"
    and order: "order = xs @ v # ys"
    and prec: "\<And>u. u \<in> set order \<Longrightarrow> (u, v) \<in> edges g \<Longrightarrow> u \<in> set xs"
    and closed: "(edges g)\<^sup>+ `` {n} \<subseteq> set order"
  shows "visit_inv g n (n \<notin> set order) (xs @ [v]) (visit_node g n v (visited, called))"
proof -
  have "v \<in> set visited" if r: "reached_by g n v" "v \<noteq> n"
  proof -
    from r have "(n, v) \<in> (edges g)\<^sup>+" by (simp add: reached_by_def)
    then obtain u where u: "(n, u) \<in> (edges g)\<^sup>*" "(u, v) \<in> edges g" by (meson tranclD2)
    show ?thesis
    proof (cases "u = n \<and> n \<notin> set order")
      case True
      with u(2) inv show ?thesis by (simp add: visit_inv_def edges_def)
    next
      case False
      with u(1) closed have "u \<in> set order" "reached_by g n u"
        by (auto simp: reached_by_def rtrancl_eq_or_trancl)
      with prec u(2) have "u \<in> set (filter (reached_by g n) xs)" by simp
      with u(2) inv show ?thesis by (auto simp: visit_inv_def)
    qed
  qed
  then have "v = n \<or> v \<in> set visited \<longleftrightarrow> reached_by g n v"
    using visit_inv_sound [OF inv] by (auto simp: reached_by_def)
  moreover have "set (fold add_new (children_of g v) (add_new v visited)) = {x. x = v \<or> (v, x) \<in> edges g} \<union> set visited"
    by (auto simp: edges_def)
  ultimately show ?thesis
    using inv by (auto simp: visit_inv_def visit_node_def simp del: add_new.simps)
qed

lemma visit_inv_fold:
  assumes "visit_inv g n (n \<notin> set order) xs st" and "order = xs @ ys"
    and prec: "\<And>xs v ys u. order = xs @ v # ys \<Longrightarrow> u \<in> set order \<Longrightarrow> (u, v) \<in> edges g \<Longrightarrow> u \<in> set xs"
    and closed: "(edges g)\<^sup>+ `` {n} \<subseteq> set order"
  shows "visit_inv g n (n \<notin> set order) order (fold (visit_node g n) ys st)"
  using assms(1,2)
proof (induction ys arbitrary: xs st)
  case (Cons v ys)
  obtain visited called where st: "st = (visited, called)" by fastforce
  have "visit_inv g n (n \<notin> set order) (xs @ [v]) (visit_node g n v st)"
    using visit_inv_step [OF Cons.prems(1) [unfolded st] Cons.prems(2) prec [OF Cons.prems(2)] closed] st
    by simp
  from Cons.IH [OF this] Cons.prems(2) show ?case by simp
qed simp

lemma onUpdateVariableNode_eq:
  assumes prec: "\<And>xs v ys u. order = xs @ v # ys \<Longrightarrow> u \<in> set order \<Longrightarrow> (u, v) \<in> edges g \<Longrightarrow> u \<in> set xs"
    and closed: "(edges g)\<^sup>+ `` {n} \<subseteq> set order"
  shows "onUpdateVariableNode n g order = filter (reached_by g n) order"
proof -
  let ?visited = "if n \<notin> set order then fold add_new (children_of g n) [] else []"
  have "visit_inv g n (n \<notin> set order) [] (?visited, [])"
    by (simp add: visit_inv_def)
  then have "visit_inv g n (n \<notin> set order) order (fold (visit_node g n) order (?visited, []))"
    by (rule visit_inv_fold) (use prec closed in auto)
  then show ?thesis
    by (auto simp: onUpdateVariableNode_def visit_inv_def Let_def split: prod.splits)
qed

section \<open>An example used by the witnesses\<close>

definition query_var :: "string \<Rightarrow> string \<Rightarrow> IDashboardVariable" where
  "query_var name query = \<lparr> dv_id = name, dv_order = 0, dv_name = name, dv_type = QUERY,
     dv_queryValue = query, dv_multiSelect = False, dv_showALLOption = False,
     dv_selectedValue = SVNull, dv_allSelected = False, dv_defaultValue = [],
     dv_haveCustomValuesSelected = False, dv_dynamicVariablesAttribute = [] \<rparr>"

definition chain_vars :: "IDashboardVariable list" where
  "chain_vars = [query_var ''a'' ''q'', query_var ''b'' ''$a'',
     query_var ''c'' ''{{.b}}'']"

definition chain_graph :: VariableGraph where
  "chain_graph = [(''a'', [''b'']), (''b'', [''c'']), (''c'', [])]"

lemma chain_graph_eq: "buildDependencies chain_vars = chain_graph"
  by code_simp

lemma chain_closed: "closed_graph chain_graph"
  using buildDependencies_closed [of chain_vars]
  by (simp add: chain_graph_eq) (simp add: all_named_def chain_vars_def query_var_def)

lemma chain_edges: "edges chain_graph = {(''a'', ''b''), (''b'', ''c'')}"
  by (auto simp: edges_def chain_graph_def obj_get_or_def split: if_splits)

lemma chain_acyclic: "acyclic (edges chain_graph)"
  by (simp add: chain_edges acyclic_insert rtrancl_insert) (simp add: acyclic_def)


lemma chain_named: "all_named chain_vars"
  by (simp add: all_named_def chain_vars_def query_var_def)

definition chain_data :: IDependencyData where
  "chain_data = \<lparr> dd_order = [''a'', ''b'', ''c''], dd_graph = chain_graph,
     dd_parentDependencyGraph = [(''a'', []), (''b'', [''a'']), (''c'', [''b''])],
     dd_transitiveDescendants = [(''c'', []), (''b'', [''c'']), (''a'', [''b'', ''c''])],
     dd_hasCycle = False, dd_cycleNodes = None \<rparr>"

lemma chain_data_eq: "buildDependencyGraph (buildDependencies chain_vars) = Some chain_data"
  unfolding chain_graph_eq by code_simp

text \<open>Two variables that refer to each other, and a third that refers to one of them.\<close>

definition cyclic_vars :: "IDashboardVariable list" where
  "cyclic_vars = [query_var ''a'' ''$b'', query_var ''b'' ''$a'', query_var ''c'' ''$b'']"

lemma cyclic_graph_eq:
  "buildDependencies cyclic_vars = [(''a'', [''b'']), (''b'', [''a'', ''c'']), (''c'', [])]"
  by code_simp

section \<open>Properties\<close>

text \<open>For a name made of word characters, \<^verbatim>\<open>textContainsVariableReference\<close> accepts a text
  exactly when one of the four documented forms of a reference occurs in it: the name in
  double braces with optional spaces and an optional dot, the name after a dollar sign and not
  followed by a word character, or the name in double square brackets with optional spaces.\<close>

theorem textContainsVariableReference_iff:
  assumes "plain_name name"
  shows "textContainsVariableReference txt name \<longleftrightarrow> refers_to txt name"
  using assms by (rule textContainsVariableReference_eq)

theorem textContainsVariableReference_iff_witness:
  "textContainsVariableReference ''x{{ .ab }}'' ''ab'' \<and> \<not> textContainsVariableReference ''$abc'' ''ab''"
proof
  have n: "plain_name ''ab''" by code_simp
  have "refers_to ''x{{ .ab }}'' ''ab''"
    unfolding refers_to_def
    by (rule disjI1, rule exI [of _ "''x''"], rule exI [of _ "'' ''"], rule exI [of _ "''.''"],
        rule exI [of _ "'' ''"], rule exI [of _ "[]"]) (simp add: is_space_def)
  then show "textContainsVariableReference ''x{{ .ab }}'' ''ab''"
    unfolding textContainsVariableReference_iff [OF n] .
  show "\<not> textContainsVariableReference ''$abc'' ''ab''" by code_simp
qed

text \<open>\<^verbatim>\<open>buildDependencies\<close> has an edge from a variable to exactly the query variables whose
  query text refers to it, whatever the order of the list.\<close>

theorem buildDependencies_edges:
  "(u, w) \<in> edges (buildDependencies vs) \<longleftrightarrow>
     u \<noteq> [] \<and> u \<in> dv_name ` set vs \<and>
     (\<exists>v \<in> set vs. dv_name v = w \<and> dv_type v = QUERY \<and> textContainsVariableReference (dv_queryValue v) u)"
  by (rule buildDependencies_edge)

text \<open>C3: The order of \<^verbatim>\<open>buildDependencyGraph\<close> lists variables at most once, each one after all
  the variables it depends on; it lists every variable when the references are acyclic.\<close>

theorem dependency_order_topological:
  assumes "all_named vs" "buildDependencyGraph (buildDependencies vs) = Some d"
  shows "distinct (dd_order d) \<and> set (dd_order d) \<subseteq> dv_name ` set vs
     \<and> precedes_all (buildDependencies vs) (dd_order d)
     \<and> (acyclic (edges (buildDependencies vs)) \<longrightarrow> set (dd_order d) = dv_name ` set vs)"
proof -
  let ?g = "buildDependencies vs"
  have g: "closed_graph ?g" using assms(1) by (rule buildDependencies_closed)
  have k: "set (obj_keys ?g) = dv_name ` set vs"
    using assms(1) unfolding buildDependencies_keys by (auto simp: all_named_def list_all_iff)
  show ?thesis
    using dd_order_topo [OF g assms(2)] topo_acyclic_complete [OF g]
    unfolding topo_ok_def k by blast
qed

theorem dependency_order_topological_witness:
  "precedes_all (buildDependencies chain_vars) (dd_order chain_data)
   \<and> set (dd_order chain_data) = dv_name ` set chain_vars"
  using dependency_order_topological [OF chain_named chain_data_eq] chain_acyclic
  by (simp add: chain_graph_eq)

text \<open>C15: When \<^verbatim>\<open>buildDependencyGraph\<close> does not return, the references have a cycle.  When it
  returns, its two checks, the depth-first search and the length of the topological order,
  both say exactly whether the references have a cycle.  It returns on all acyclic references,
  and on cyclic ones at least when no variable refers to more than one other or itself.\<close>

theorem dependency_cycle_detection:
  assumes "all_named vs"
  shows "(case buildDependencyGraph (buildDependencies vs) of
        None \<Rightarrow> \<not> acyclic (edges (buildDependencies vs))
      | Some d \<Rightarrow> (dd_hasCycle d \<longleftrightarrow> \<not> acyclic (edges (buildDependencies vs)))
          \<and> (dd_cycleNodes d \<noteq> None \<longleftrightarrow> \<not> acyclic (edges (buildDependencies vs))))
    \<and> ((\<forall>u u' w. (u, w) \<in> edges (buildDependencies vs) \<and> (u', w) \<in> edges (buildDependencies vs) \<longrightarrow> u = u')
       \<longrightarrow> buildDependencyGraph (buildDependencies vs) \<noteq> None)"
    (is "?checks \<and> (?single \<longrightarrow> ?returns)")
proof
  show ?checks
  proof (cases "buildDependencyGraph (buildDependencies vs)")
    case None
    with buildDependencyGraph_acyclic_returns [of "buildDependencies vs"] show ?thesis by auto
  next
    case (Some d)
    with dd_hasCycle_iff [OF buildDependencies_closed [OF assms] Some] dd_cycleNodes_iff [OF Some]
    show ?thesis by simp
  qed
  show "?single \<longrightarrow> ?returns"
  proof
    assume ?single
    moreover have "\<forall>u x. (u, x) \<in> edges (buildDependencies vs) \<longrightarrow> u \<noteq> []"
      by (simp add: buildDependencies_edge)
    ultimately have "single_parents (buildDependencies vs)"
      unfolding single_parents_def by (rule conjI)
    then show ?returns using buildDependencyGraph_single_returns by simp
  qed
qed

theorem dependency_cycle_detection_witness:
  "\<exists>d. buildDependencyGraph (buildDependencies cyclic_vars) = Some d \<and> dd_hasCycle d \<and> dd_cycleNodes d \<noteq> None"
proof -
  have named: "all_named cyclic_vars" by code_simp
  have e: "edges (buildDependencies cyclic_vars) = {(''b'', ''a''), (''a'', ''b''), (''b'', ''c'')}"
    unfolding cyclic_graph_eq by (auto simp: edges_def obj_get_or_def split: if_splits)
  then have "(''a'', ''b'') \<in> edges (buildDependencies cyclic_vars)"
    "(''b'', ''a'') \<in> edges (buildDependencies cyclic_vars)" by simp_all
  then have "(''a'', ''a'') \<in> (edges (buildDependencies cyclic_vars))\<^sup>+"
    by (rule trancl_trans [OF r_into_trancl r_into_trancl])
  then have cyclic: "\<not> acyclic (edges (buildDependencies cyclic_vars))"
    by (auto simp: acyclic_def)
  have "\<forall>u u' w. (u, w) \<in> edges (buildDependencies cyclic_vars)
      \<and> (u', w) \<in> edges (buildDependencies cyclic_vars) \<longrightarrow> u = u'" by (auto simp: e)
  then obtain d where d: "buildDependencyGraph (buildDependencies cyclic_vars) = Some d"
    using dependency_cycle_detection [OF named] by blast
  with dependency_cycle_detection [OF named] cyclic show ?thesis by simp
qed

text \<open>On acyclic references \<^verbatim>\<open>buildDependencyGraph\<close> returns, and reports no cycle.\<close>

theorem dependency_graph_returns:
  assumes "all_named vs" "acyclic (edges (buildDependencies vs))"
  shows "\<exists>d. buildDependencyGraph (buildDependencies vs) = Some d
     \<and> \<not> dd_hasCycle d \<and> dd_cycleNodes d = None"
  using buildDependencyGraph_acyclic_returns [OF assms(2)]
    dd_hasCycle_iff [OF buildDependencies_closed [OF assms(1)]] dd_cycleNodes_iff assms(2)
  by blast

theorem dependency_graph_returns_witness:
  "\<exists>d. buildDependencyGraph (buildDependencies chain_vars) = Some d \<and> \<not> dd_hasCycle d"
  using dependency_graph_returns [OF chain_named] chain_acyclic
  unfolding chain_graph_eq by blast

text \<open>C16: On acyclic references the transitive descendants of a variable are the variables
  reachable from it by one or more references, each listed once; its parents are the variables
  it refers to.\<close>

theorem dependency_descendants:
  assumes "all_named vs" "buildDependencyGraph (buildDependencies vs) = Some d"
    and "acyclic (edges (buildDependencies vs))" "v \<in> dv_name ` set vs"
  shows "set (children_of (dd_transitiveDescendants d) v) = (edges (buildDependencies vs))\<^sup>+ `` {v}
     \<and> distinct (children_of (dd_transitiveDescendants d) v)
     \<and> set (children_of (dd_parentDependencyGraph d) v) = {u. (u, v) \<in> edges (buildDependencies vs)}"
proof -
  let ?g = "buildDependencies vs"
  have g: "closed_graph ?g" using assms(1) by (rule buildDependencies_closed)
  have k: "v \<in> set (obj_keys ?g)"
    using assms(1,4) unfolding buildDependencies_keys by (auto simp: all_named_def list_all_iff)
  have "distinct (children_of (dd_transitiveDescendants d) v)"
    using assms(2) by (rule buildDependencyGraph_SomeD) (simp add: collect_descendants_distinct)
  then show ?thesis
    using dd_transitiveDescendants_trancl [OF g assms(2,3) k] dd_parents_set [OF g assms(2)] by blast
qed

theorem dependency_descendants_witness:
  "set [''b'', ''c''] = (edges (buildDependencies chain_vars))\<^sup>+ `` {''a''}"
proof -
  have "''a'' \<in> dv_name ` set chain_vars" by (simp add: chain_vars_def query_var_def)
  from dependency_descendants [OF chain_named chain_data_eq _ this] chain_acyclic
  show ?thesis by (simp add: chain_graph_eq chain_data_def obj_get_or_def)
qed


definition looping_vars :: "IDashboardVariable list" where
  "looping_vars = [query_var ''a'' ''$b'', query_var ''b'' ''$b$c'', query_var ''c'' ''$a'']"

definition looping_graph :: VariableGraph where
  "looping_graph = [(''a'', [''c'']), (''b'', [''a'', ''b'']), (''c'', [''b''])]"

lemma looping_graph_eq: "buildDependencies looping_vars = looping_graph"
  by code_simp

lemma looping_collect: "collectCyclePath looping_graph ''b'' ''a'' = None"
proof -
  have "findParent looping_graph ''b'' = Some ''b''" by code_simp
  then show ?thesis
    using collect_loop_diverges [of "{''b''}" looping_graph "''a''" "''b''" "[]"]
    by (simp add: collectCyclePath_def)
qed

lemma looping_children:
  "children_of looping_graph ''a'' = [''c'']" "children_of looping_graph ''b'' = [''a'', ''b'']"
  "children_of looping_graph ''c'' = [''b'']" "obj_keys looping_graph = [''a'', ''b'', ''c'']"
  by code_simp+

text \<open>On cyclic references the search for the cycle path can walk back for ever: with three
  query variables that refer to each other, one of them also to itself, \<^verbatim>\<open>buildDependencyGraph\<close>
  never returns.\<close>

theorem dependency_graph_hangs:
  "buildDependencyGraph (buildDependencies looping_vars) = None"
proof -
  have "find_cycle looping_graph (obj_keys looping_graph) [] [] = None"
    unfolding looping_children
    by (simp add: detectCycle_def scan.simps looping_children looping_collect)
  then show ?thesis
    by (simp add: looping_graph_eq buildDependencyGraph_def split: prod.splits)
qed


text \<open>With the order of the dependency data of an acyclic list of variables,
  \<^verbatim>\<open>onUpdateVariableNode\<close> calls back for the changed variable and for the variables that depend
  on it, directly or not, each once and in topological order.\<close>

theorem onUpdateVariableNode_reaches:
  assumes "all_named vs" "buildDependencyGraph (buildDependencies vs) = Some d"
    and "acyclic (edges (buildDependencies vs))"
  shows "onUpdateVariableNode n (dd_graph d) (dd_order d)
     = filter (reached_by (buildDependencies vs) n) (dd_order d)"
proof -
  let ?g = "buildDependencies vs"
  have g: "closed_graph ?g" using assms(1) by (rule buildDependencies_closed)
  have t: "topo_ok ?g (dd_order d)" using g assms(2) by (rule dd_order_topo)
  have e: "edges (dd_graph d) = edges ?g" by (simp add: edges_def dd_graph_children [OF g assms(2)])
  have "w \<in> set (dd_order d)" if "(u, w) \<in> (edges ?g)\<^sup>+" for u w
    using that topo_acyclic_complete [OF g t assms(3)] closed_graph_edge [OF g] tranclD2 by metis
  then have "onUpdateVariableNode n (dd_graph d) (dd_order d) = filter (reached_by (dd_graph d) n) (dd_order d)"
    by (intro onUpdateVariableNode_eq) (use t e in \<open>auto simp: topo_ok_def precedes_all_def\<close>)
  then show ?thesis by (simp add: reached_by_def [abs_def] e)
qed

theorem onUpdateVariableNode_reaches_witness:
  "filter (reached_by (buildDependencies chain_vars) ''b'') (dd_order chain_data) = [''b'', ''c'']"
proof -
  have "onUpdateVariableNode ''b'' (dd_graph chain_data) (dd_order chain_data) = [''b'', ''c'']"
    by code_simp
  moreover have "acyclic (edges (buildDependencies chain_vars))"
    using chain_acyclic by (simp only: chain_graph_eq)
  ultimately show ?thesis
    using onUpdateVariableNode_reaches [OF chain_named chain_data_eq, of "''b''"] by simp
qed

end
