(* ===== verification/DashboardVariablesStore.thy ===== *)
theory DashboardVariablesStore
  imports DependencyProperties
begin

text \<open>
  The store of the dashboard variables:
  \<^verbatim>\<open>frontend/src/providers/Dashboard/store/dashboardVariables/dashboardVariablesStore.ts\<close> and its
  \<^verbatim>\<open>dashboardVariablesStoreUtils.ts\<close>.  Every write recomputes the derived fields.  An operation
  that builds the dependency data has an \<open>option\<close> result, where \<open>None\<close> means that the call never
  returns (see the theory on the dependency graph); the derived field \<^verbatim>\<open>dependencyData\<close> is an
  option of its own for \<^verbatim>\<open>null\<close>.
\<close>

section \<open>Derived values\<close>

definition buildSortedVariablesArray :: "IDashboardVariables \<Rightarrow> IDashboardVariable list" where
  "buildSortedVariablesArray variables = sort_key dv_order (obj_values variables)"

definition is_query_name :: "IDashboardVariable list \<Rightarrow> string \<Rightarrow> bool" where
  "is_query_name vs variable = (case find (\<lambda>v. dv_name v = variable) vs of
     None \<Rightarrow> False | Some v \<Rightarrow> dv_type v = QUERY)"

definition buildDependencyData :: "IDashboardVariable list \<Rightarrow> IDependencyData option option" where
  "buildDependencyData sortedVariablesArray =
     (if sortedVariablesArray = [] then Some None
      else case buildDependencyGraph (buildDependencies sortedVariablesArray) of
        None \<Rightarrow> None
      | Some d \<Rightarrow> Some (Some (d\<lparr> dd_order := filter (is_query_name sortedVariablesArray) (dd_order d) \<rparr>)))"

definition buildVariableTypesMap :: "IDashboardVariable list \<Rightarrow> TVariableQueryType jsobj" where
  "buildVariableTypesMap sortedVariablesArray =
     fold (\<lambda>v types. if dv_name v \<noteq> [] then obj_set (dv_name v) (dv_type v) types else types)
       sortedVariablesArray []"

definition buildDynamicVariableOrder :: "IDashboardVariable list \<Rightarrow> string list" where
  "buildDynamicVariableOrder sortedVariablesArray =
     map dv_name (filter (\<lambda>v. dv_type v = DYNAMIC \<and> dv_name v \<noteq> []) sortedVariablesArray)"

section \<open>The store\<close>

record IDashboardVariablesStoreState =
  vs_dashboardId :: string
  vs_variables :: IDashboardVariables
  vs_sortedVariablesArray :: "IDashboardVariable list"
  vs_dependencyData :: "IDependencyData option"
  vs_variableTypes :: "TVariableQueryType jsobj"
  vs_dynamicVariableOrder :: "string list"

definition variables_initialState :: IDashboardVariablesStoreState where
  "variables_initialState = \<lparr> vs_dashboardId = [], vs_variables = [], vs_sortedVariablesArray = [],
     vs_dependencyData = None, vs_variableTypes = [], vs_dynamicVariableOrder = [] \<rparr>"

definition computeDerivedValues :: "IDashboardVariables \<Rightarrow>
    (IDashboardVariable list \<times> IDependencyData option \<times> TVariableQueryType jsobj \<times> string list) option" where
  "computeDerivedValues variables =
     (let sortedVariablesArray = buildSortedVariablesArray variables in
      case buildDependencyData sortedVariablesArray of
        None \<Rightarrow> None
      | Some dependencyData \<Rightarrow> Some (sortedVariablesArray, dependencyData,
          buildVariableTypesMap sortedVariablesArray, buildDynamicVariableOrder sortedVariablesArray))"

definition updateDerivedValues ::
  "IDashboardVariablesStoreState \<Rightarrow> IDashboardVariablesStoreState option" where
  "updateDerivedValues draft =
     (let draft1 = draft\<lparr> vs_sortedVariablesArray := buildSortedVariablesArray (vs_variables draft) \<rparr> in
      case buildDependencyData (vs_sortedVariablesArray draft1) of
        None \<Rightarrow> None
      | Some dependencyData \<Rightarrow> Some (draft1
          \<lparr> vs_dependencyData := dependencyData,
            vs_variableTypes := buildVariableTypesMap (vs_sortedVariablesArray draft1),
            vs_dynamicVariableOrder := buildDynamicVariableOrder (vs_sortedVariablesArray draft1) \<rparr>))"

definition setDashboardVariablesStore ::
  "string \<Rightarrow> IDashboardVariables \<Rightarrow> IDashboardVariablesStoreState \<Rightarrow> IDashboardVariablesStoreState option" where
  "setDashboardVariablesStore dashboardId variables state =
     (case computeDerivedValues variables of
        None \<Rightarrow> None
      | Some (sortedArr, dependencyData, types, dynamicOrder) \<Rightarrow>
          Some \<lparr> vs_dashboardId = dashboardId, vs_variables = variables,
                 vs_sortedVariablesArray = sortedArr, vs_dependencyData = dependencyData,
                 vs_variableTypes = types, vs_dynamicVariableOrder = dynamicOrder \<rparr>)"

definition updateDashboardVariablesStore ::
  "string \<Rightarrow> IDashboardVariables \<Rightarrow> IDashboardVariablesStoreState \<Rightarrow> IDashboardVariablesStoreState option" where
  "updateDashboardVariablesStore dashboardId variables draft =
     (let draft1 = (if vs_dashboardId draft \<noteq> dashboardId
                    then draft\<lparr> vs_dashboardId := dashboardId \<rparr> else draft);
          draft2 = draft1\<lparr> vs_variables := variables \<rparr>
      in updateDerivedValues draft2)"

record VariableFetchContext =
  fc_doAllQueryVariablesHaveValuesSelected :: bool
  fc_variableTypes :: "TVariableQueryType jsobj"
  fc_dynamicVariableOrder :: "string list"
  fc_dependencyData :: "IDependencyData option"

definition has_value_selected :: "IDashboardVariable \<Rightarrow> bool" where
  "has_value_selected variable =
     (if dv_type variable \<noteq> QUERY then True
      else case dv_selectedValue variable of
        SVNull \<Rightarrow> False
      | SVMany vals \<Rightarrow> length vals > 0
      | SVOne _ \<Rightarrow> True)"

definition getVariableDependencyContext ::
  "IDashboardVariablesStoreState \<Rightarrow> VariableFetchContext" where
  "getVariableDependencyContext state =
     \<lparr> fc_doAllQueryVariablesHaveValuesSelected = list_all has_value_selected (obj_values (vs_variables state)),
       fc_variableTypes = vs_variableTypes state,
       fc_dynamicVariableOrder = vs_dynamicVariableOrder state,
       fc_dependencyData = vs_dependencyData state \<rparr>"

section \<open>The store writes agree\<close>

text \<open>
  The two ways of writing the store give the same derived data; and what is stored is
  a function of the variables alone (no derived field is stale).
\<close>

definition derived_consistent :: "IDashboardVariablesStoreState \<Rightarrow> bool" where
  "derived_consistent st \<longleftrightarrow>
     vs_sortedVariablesArray st = buildSortedVariablesArray (vs_variables st)
   \<and> buildDependencyData (vs_sortedVariablesArray st) = Some (vs_dependencyData st)
   \<and> vs_variableTypes st = buildVariableTypesMap (vs_sortedVariablesArray st)
   \<and> vs_dynamicVariableOrder st = buildDynamicVariableOrder (vs_sortedVariablesArray st)"

lemma update_eq_set:
  "updateDashboardVariablesStore i vs st = setDashboardVariablesStore i vs st'"
  by (simp add: updateDashboardVariablesStore_def setDashboardVariablesStore_def
      updateDerivedValues_def computeDerivedValues_def Let_def split: option.splits)

lemma initial_consistent: "derived_consistent variables_initialState"
  by (simp add: derived_consistent_def variables_initialState_def buildSortedVariablesArray_def
      buildDependencyData_def buildVariableTypesMap_def buildDynamicVariableOrder_def
      obj_values_def obj_entries_def)

lemma set_consistent:
  "setDashboardVariablesStore i vs st = Some st' \<Longrightarrow>
   derived_consistent st' \<and> vs_dashboardId st' = i \<and> vs_variables st' = vs"
  by (auto simp: setDashboardVariablesStore_def computeDerivedValues_def derived_consistent_def Let_def
      split: option.splits)

lemma update_consistent:
  "updateDashboardVariablesStore i vs st = Some st' \<Longrightarrow>
   derived_consistent st' \<and> vs_dashboardId st' = i \<and> vs_variables st' = vs"
  unfolding update_eq_set [where st' = st] by (rule set_consistent)

section \<open>What the context tells the fetch store\<close>

lemma types_get:
  "obj_get (fold (\<lambda>v types. if dv_name v \<noteq> [] then obj_set (dv_name v) (dv_type v) types else types) vs acc) k =
     (if k \<noteq> [] \<and> k \<in> dv_name ` set vs
      then map_option dv_type (find (\<lambda>v. dv_name v = k) (rev vs)) else obj_get acc k)"
proof (induction vs rule: rev_induct)
  case (snoc v vs)
  then show ?case by auto
qed simp

lemma buildVariableTypesMap_get:
  "obj_get (buildVariableTypesMap vs) k =
     (if k \<noteq> [] \<and> k \<in> dv_name ` set vs
      then map_option dv_type (find (\<lambda>v. dv_name v = k) (rev vs)) else None)"
  by (simp add: buildVariableTypesMap_def types_get)

lemma find_distinct:
  assumes "distinct (map f vs)" "v \<in> set vs"
  shows "find (\<lambda>x. f x = f v) vs = Some v"
  using assms by (induction vs) (auto simp: image_iff)

lemma types_distinct:
  assumes "distinct (map dv_name vs)" "v \<in> set vs" "dv_name v \<noteq> []"
  shows "obj_get (buildVariableTypesMap vs) (dv_name v) = Some (dv_type v)"
  using assms find_distinct [of dv_name "rev vs" v]
  by (simp add: buildVariableTypesMap_get rev_map [symmetric])

lemma types_SomeD:
  assumes "distinct (map dv_name vs)" "obj_get (buildVariableTypesMap vs) k = Some t"
  obtains v where "v \<in> set vs" "dv_name v = k" "dv_type v = t" "k \<noteq> []"
  using assms(2)
  by (auto simp: buildVariableTypesMap_get split: if_splits dest!: find_Some_in_set)

lemma is_query_name_iff:
  assumes "distinct (map dv_name vs)" "k \<noteq> []"
  shows "is_query_name vs k \<longleftrightarrow> obj_get (buildVariableTypesMap vs) k = Some QUERY"
proof (cases "find (\<lambda>v. dv_name v = k) vs")
  case None
  then have "k \<notin> dv_name ` set vs" by (auto simp: find_None_iff)
  with None show ?thesis by (simp add: is_query_name_def buildVariableTypesMap_get)
next
  case (Some v)
  then have v: "v \<in> set vs" "dv_name v = k" by (auto dest: find_Some_in_set)
  with types_distinct [OF assms(1) v(1)] assms(2) Some show ?thesis
    by (simp add: is_query_name_def)
qed

end
