(* ===== verification/VariableFetchStore.thy ===== *)
theory VariableFetchStore
  imports DashboardVariablesStore
begin

text \<open>
  The fetch state of every dashboard variable and the actions on it:
  \<^verbatim>\<open>frontend/src/providers/Dashboard/store/variableFetchStore.ts\<close> with
  \<^verbatim>\<open>variableFetchStoreUtils.ts\<close>, \<^verbatim>\<open>settleVariableFetch\<close> from the \<^verbatim>\<open>util.ts\<close> of the variable
  selection, and the values that \<^verbatim>\<open>hooks/dashboard/useVariableFetchState.ts\<close> derives for the user
  interface.  An action takes the context that \<^verbatim>\<open>getVariableDependencyContext\<close> returns and the
  draft of the store; \<^verbatim>\<open>Date.now()\<close> is an argument.
\<close>

datatype VariableFetchState = Idle | Loading | Revalidating | Waiting | Error

record IVariableFetchStoreState =
  fs_states :: "VariableFetchState jsobj"
  fs_lastUpdated :: "int jsobj"
  fs_cycleIds :: "int jsobj"

definition fetch_initialState :: IVariableFetchStoreState where
  "fetch_initialState = \<lparr> fs_states = [], fs_lastUpdated = [], fs_cycleIds = [] \<rparr>"

section \<open>Helpers of the store\<close>

definition isSettled :: "VariableFetchState option \<Rightarrow> bool" where
  "isSettled state \<longleftrightarrow> state = Some Idle \<or> state = Some Error"

definition resolveFetchState :: "IVariableFetchStoreState \<Rightarrow> string \<Rightarrow> VariableFetchState" where
  "resolveFetchState draft name =
     (if obj_get_or (fs_lastUpdated draft) name 0 > 0 then Revalidating else Loading)"

definition areAllQueryVariablesSettled ::
  "VariableFetchState jsobj \<Rightarrow> TVariableQueryType jsobj \<Rightarrow> bool" where
  "areAllQueryVariablesSettled states variableTypes =
     list_all (\<lambda>(name, _). isSettled (obj_get states name))
       (filter (\<lambda>(_, type). type = QUERY) (obj_entries variableTypes))"

definition set_state :: "string \<Rightarrow> VariableFetchState \<Rightarrow> IVariableFetchStoreState \<Rightarrow> IVariableFetchStoreState" where
  "set_state name s draft = draft\<lparr> fs_states := obj_set name s (fs_states draft) \<rparr>"

definition bump_cycle :: "string \<Rightarrow> IVariableFetchStoreState \<Rightarrow> IVariableFetchStoreState" where
  "bump_cycle name draft =
     draft\<lparr> fs_cycleIds := obj_set name (obj_get_or (fs_cycleIds draft) name 0 + 1) (fs_cycleIds draft) \<rparr>"

definition unlockWaitingDynamicVariables ::
  "string list \<Rightarrow> IVariableFetchStoreState \<Rightarrow> IVariableFetchStoreState" where
  "unlockWaitingDynamicVariables dynamicVariableOrder draft =
     fold (\<lambda>dynName draft.
         if obj_get (fs_states draft) dynName = Some Waiting
         then set_state dynName (resolveFetchState draft dynName) draft else draft)
       dynamicVariableOrder draft"

section \<open>Actions\<close>

definition initializeVariableFetchStore ::
  "string list \<Rightarrow> IVariableFetchStoreState \<Rightarrow> IVariableFetchStoreState" where
  "initializeVariableFetchStore variableNames draft =
     (let draft1 = fold (\<lambda>name draft.
            if obj_get (fs_states draft) name = None then set_state name Idle draft else draft)
            variableNames draft
      in fold (\<lambda>name draft.
            if name \<notin> set variableNames
            then \<lparr> fs_states = obj_delete name (fs_states draft),
                   fs_lastUpdated = obj_delete name (fs_lastUpdated draft),
                   fs_cycleIds = obj_delete name (fs_cycleIds draft) \<rparr>
            else draft)
          (obj_keys (fs_states draft1)) draft1)"

definition enqueue_query :: "VariableFetchContext \<Rightarrow> IDependencyData \<Rightarrow> string \<Rightarrow>
    IVariableFetchStoreState \<Rightarrow> IVariableFetchStoreState" where
  "enqueue_query ctx dd name draft =
     (let draft1 = bump_cycle name draft;
          parents = children_of (dd_parentDependencyGraph dd) name;
          hasQueryParents = list_ex (\<lambda>p. obj_get (fc_variableTypes ctx) p = Some QUERY) parents
      in if hasQueryParents then set_state name Waiting draft1
         else set_state name (resolveFetchState draft1 name) draft1)"

definition enqueue_dynamic :: "VariableFetchContext \<Rightarrow> string \<Rightarrow>
    IVariableFetchStoreState \<Rightarrow> IVariableFetchStoreState" where
  "enqueue_dynamic ctx name draft =
     (let draft1 = bump_cycle name draft
      in set_state name (if fc_doAllQueryVariablesHaveValuesSelected ctx
           then resolveFetchState draft1 name else Waiting) draft1)"

definition enqueueFetchOfAllVariables ::
  "VariableFetchContext \<Rightarrow> IVariableFetchStoreState \<Rightarrow> IVariableFetchStoreState" where
  "enqueueFetchOfAllVariables ctx draft =
     (case fc_dependencyData ctx of
        None \<Rightarrow> draft
      | Some dd \<Rightarrow>
          fold (enqueue_dynamic ctx) (fc_dynamicVariableOrder ctx)
            (fold (enqueue_query ctx dd) (dd_order dd) draft))"

definition unblock_child :: "VariableFetchContext \<Rightarrow> string \<Rightarrow>
    IVariableFetchStoreState \<Rightarrow> IVariableFetchStoreState" where
  "unblock_child ctx child draft =
     (if obj_get (fc_variableTypes ctx) child = Some QUERY
         \<and> obj_get (fs_states draft) child = Some Waiting
      then set_state child (resolveFetchState draft child) draft else draft)"

definition unlock_if_settled :: "VariableFetchContext \<Rightarrow> string \<Rightarrow>
    IVariableFetchStoreState \<Rightarrow> IVariableFetchStoreState" where
  "unlock_if_settled ctx name draft =
     (if obj_get (fc_variableTypes ctx) name = Some QUERY
         \<and> areAllQueryVariablesSettled (fs_states draft) (fc_variableTypes ctx)
      then unlockWaitingDynamicVariables (fc_dynamicVariableOrder ctx) draft else draft)"

definition onVariableFetchComplete :: "VariableFetchContext \<Rightarrow> int \<Rightarrow> string \<Rightarrow>
    IVariableFetchStoreState \<Rightarrow> IVariableFetchStoreState" where
  "onVariableFetchComplete ctx now name draft =
     (let draft1 = set_state name Idle draft;
          draft2 = draft1\<lparr> fs_lastUpdated := obj_set name now (fs_lastUpdated draft1) \<rparr>
      in case fc_dependencyData ctx of
           None \<Rightarrow> draft2
         | Some dd \<Rightarrow>
             unlock_if_settled ctx name
               (fold (unblock_child ctx) (children_of (dd_graph dd) name) draft2))"

definition settle_descendant :: "VariableFetchContext \<Rightarrow> string \<Rightarrow>
    IVariableFetchStoreState \<Rightarrow> IVariableFetchStoreState" where
  "settle_descendant ctx desc draft =
     (if obj_get (fc_variableTypes ctx) desc = Some QUERY then set_state desc Idle draft else draft)"

definition onVariableFetchFailure :: "VariableFetchContext \<Rightarrow> string \<Rightarrow>
    IVariableFetchStoreState \<Rightarrow> IVariableFetchStoreState" where
  "onVariableFetchFailure ctx name draft =
     (let draft1 = set_state name Error draft
      in case fc_dependencyData ctx of
           None \<Rightarrow> draft1
         | Some dd \<Rightarrow>
             unlock_if_settled ctx name
               (fold (settle_descendant ctx) (children_of (dd_transitiveDescendants dd) name) draft1))"

definition enqueue_descendant :: "IDependencyData \<Rightarrow> string \<Rightarrow>
    IVariableFetchStoreState \<Rightarrow> IVariableFetchStoreState" where
  "enqueue_descendant dd desc draft =
     (let draft1 = bump_cycle desc draft;
          parents = children_of (dd_parentDependencyGraph dd) desc;
          allParentsSettled = list_all (\<lambda>p. isSettled (obj_get (fs_states draft1) p)) parents
      in set_state desc (if allParentsSettled then resolveFetchState draft1 desc else Waiting) draft1)"

definition enqueue_dynamic_descendant :: "VariableFetchContext \<Rightarrow> string \<Rightarrow>
    IVariableFetchStoreState \<Rightarrow> IVariableFetchStoreState" where
  "enqueue_dynamic_descendant ctx dynName draft =
     (let draft1 = bump_cycle dynName draft
      in set_state dynName (if areAllQueryVariablesSettled (fs_states draft1) (fc_variableTypes ctx)
           then resolveFetchState draft1 dynName else Waiting) draft1)"

definition enqueueDescendantsOfVariable :: "VariableFetchContext \<Rightarrow> string \<Rightarrow>
    IVariableFetchStoreState \<Rightarrow> IVariableFetchStoreState" where
  "enqueueDescendantsOfVariable ctx name draft =
     (case fc_dependencyData ctx of
        None \<Rightarrow> draft
      | Some dd \<Rightarrow>
          let queryDescendants = filter (\<lambda>desc. obj_get (fc_variableTypes ctx) desc = Some QUERY)
                (children_of (dd_transitiveDescendants dd) name)
          in fold (enqueue_dynamic_descendant ctx) (fc_dynamicVariableOrder ctx)
               (fold (enqueue_descendant dd) queryDescendants draft))"

section \<open>The guard of the user interface\<close>

datatype outcome = Complete | Failure

definition isVariableInActiveFetchState :: "VariableFetchState option \<Rightarrow> bool" where
  "isVariableInActiveFetchState state \<longleftrightarrow> state = Some Loading \<or> state = Some Revalidating"

definition settleVariableFetch :: "VariableFetchContext \<Rightarrow> int \<Rightarrow> string \<Rightarrow> outcome \<Rightarrow>
    IVariableFetchStoreState \<Rightarrow> IVariableFetchStoreState" where
  "settleVariableFetch ctx now name res draft =
     (if name = [] then draft
      else if \<not> isVariableInActiveFetchState (obj_get (fs_states draft) name) then draft
      else case res of
        Complete \<Rightarrow> onVariableFetchComplete ctx now name draft
      | Failure \<Rightarrow> onVariableFetchFailure ctx name draft)"

section \<open>Values derived for the user interface\<close>

record UseVariableFetchStateReturn =
  uv_variableFetchState :: VariableFetchState
  uv_isVariableSettled :: bool
  uv_isVariableWaitingForDependencies :: bool
  uv_variableDependencyWaitMessage :: "string option"
  uv_isVariableFetching :: bool
  uv_hasVariableFetchedOnce :: bool
  uv_variableFetchCycleId :: int

definition unsettled_parents :: "IVariableFetchStoreState \<Rightarrow> VariableFetchContext \<Rightarrow> string \<Rightarrow> string list" where
  "unsettled_parents st ctx variableName =
     filter (\<lambda>p. obj_get_or (fs_states st) p Idle \<noteq> Idle)
       (case fc_dependencyData ctx of None \<Rightarrow> []
        | Some dd \<Rightarrow> children_of (dd_parentDependencyGraph dd) variableName)"

definition quote_name :: "string \<Rightarrow> string" where
  "quote_name p = [CHR 0x22] @ p @ [CHR 0x22]"

definition wait_message ::
  "VariableFetchState \<Rightarrow> TVariableQueryType option \<Rightarrow> string list \<Rightarrow> string option" where
  "wait_message state type unsettledParents =
     (if state \<noteq> Waiting then None
      else if type = Some DYNAMIC then Some ''Waiting for all query variable options to load.''
      else if length unsettledParents = 0 then None
      else
        let quoted = map quote_name unsettledParents;
            names = (if length quoted > 1
                     then join '', '' (butlast quoted) @ '' and '' @ last quoted
                     else hd quoted)
        in Some (''Waiting for options of '' @ names @ '' to load.''))"

definition useVariableFetchState ::
  "IVariableFetchStoreState \<Rightarrow> VariableFetchContext \<Rightarrow> string \<Rightarrow> UseVariableFetchStateReturn" where
  "useVariableFetchState st ctx variableName =
     (let state = obj_get_or (fs_states st) variableName Idle;
          lastUpdated = obj_get_or (fs_lastUpdated st) variableName 0;
          unsettledParents = unsettled_parents st ctx variableName
      in \<lparr> uv_variableFetchState = state,
           uv_isVariableSettled = (state = Idle),
           uv_isVariableWaitingForDependencies = (length unsettledParents > 0),
           uv_variableDependencyWaitMessage =
             wait_message state (obj_get (fc_variableTypes ctx) variableName) unsettledParents,
           uv_isVariableFetching = (state = Loading \<or> state = Revalidating),
           uv_hasVariableFetchedOnce = (lastUpdated > 0),
           uv_variableFetchCycleId = obj_get_or (fs_cycleIds st) variableName 0 \<rparr>)"

text \<open>lodash \<^verbatim>\<open>isEmpty\<close>: true of every number and boolean.\<close>

fun isEmpty_value :: "selected_value \<Rightarrow> bool" where
  "isEmpty_value SVNull = True"
| "isEmpty_value (SVOne (SStr s)) = (s = [])"
| "isEmpty_value (SVOne _) = True"
| "isEmpty_value (SVMany vals) = (vals = [])"

definition useIsPanelWaitingOnVariable ::
  "IVariableFetchStoreState \<Rightarrow> IDashboardVariables \<Rightarrow> string list \<Rightarrow> bool" where
  "useIsPanelWaitingOnVariable st dashboardVariables variableNames =
     list_ex (\<lambda>name.
        let state = obj_get (fs_states st) name;
            selected = (case find (\<lambda>v. dv_name v = name) (obj_values dashboardVariables) of
              None \<Rightarrow> SVNull | Some v \<Rightarrow> dv_selectedValue v)
        in if isEmpty_value selected
           then state = Some Loading \<or> state = Some Revalidating \<or> state = Some Waiting
           else False) variableNames"

end
