(* ===== verification/FetchContext.thy ===== *)
theory FetchContext
  imports VariableFetchStore
begin

text \<open>
  The interface between the two stores: what the fetch actions rely on in the context
  that \<^verbatim>\<open>getVariableDependencyContext\<close> hands them, as a locale, and its interpretation on the
  contexts that the variables store builds.  The effect of every fetch action on the state
  of a variable is computed here once.
\<close>

named_theorems fetch_simps \<open>the state of a variable after an action\<close>

section \<open>The interface\<close>

definition is_query :: "VariableFetchContext \<Rightarrow> string \<Rightarrow> bool" where
  "is_query c v \<longleftrightarrow> obj_get (fc_variableTypes c) v = Some QUERY"

definition is_dynamic :: "VariableFetchContext \<Rightarrow> string \<Rightarrow> bool" where
  "is_dynamic c v \<longleftrightarrow> obj_get (fc_variableTypes c) v = Some DYNAMIC"

definition known :: "VariableFetchContext \<Rightarrow> string \<Rightarrow> bool" where
  "known c v \<longleftrightarrow> obj_get (fc_variableTypes c) v \<noteq> None"

definition dep_edges :: "VariableFetchContext \<Rightarrow> (string \<times> string) set" where
  "dep_edges c = (case fc_dependencyData c of None \<Rightarrow> {} | Some dd \<Rightarrow> edges (dd_graph dd))"

locale dependency_context =
  fixes ok :: "VariableFetchContext \<Rightarrow> bool"
  assumes data: "ok c \<Longrightarrow> \<exists>dd. fc_dependencyData c = Some dd"
    and order_queries: "ok c \<Longrightarrow> fc_dependencyData c = Some dd \<Longrightarrow> v \<in> set (dd_order dd) \<longleftrightarrow> is_query c v"
    and child_query: "ok c \<Longrightarrow> (p, v) \<in> dep_edges c \<Longrightarrow> is_query c v"
    and parent_known: "ok c \<Longrightarrow> (p, v) \<in> dep_edges c \<Longrightarrow> known c p"
    and parents: "ok c \<Longrightarrow> fc_dependencyData c = Some dd \<Longrightarrow>
        p \<in> set (children_of (dd_parentDependencyGraph dd) v) \<longleftrightarrow> (p, v) \<in> dep_edges c"
    and descendants: "ok c \<Longrightarrow> fc_dependencyData c = Some dd \<Longrightarrow> known c v \<Longrightarrow>
        w \<in> set (children_of (dd_transitiveDescendants dd) v) \<longleftrightarrow> (v, w) \<in> (dep_edges c)\<^sup>+"
    and wf_edges: "ok c \<Longrightarrow> wf (dep_edges c)"
    and dynamics: "ok c \<Longrightarrow> v \<in> set (fc_dynamicVariableOrder c) \<longleftrightarrow> is_dynamic c v"
    and types_ok: "ok c \<Longrightarrow> obj_ok (fc_variableTypes c)"

section \<open>The contexts of the variables store\<close>

definition context_of :: "bool \<Rightarrow> IDependencyData option \<Rightarrow> IDashboardVariable list \<Rightarrow> VariableFetchContext" where
  "context_of flag dd vs = \<lparr> fc_doAllQueryVariablesHaveValuesSelected = flag,
     fc_variableTypes = buildVariableTypesMap vs,
     fc_dynamicVariableOrder = buildDynamicVariableOrder vs, fc_dependencyData = dd \<rparr>"

definition well_named :: "IDashboardVariable list \<Rightarrow> bool" where
  "well_named vs \<longleftrightarrow> vs \<noteq> [] \<and> all_named vs \<and> distinct (map dv_name vs)"

definition valid_context :: "VariableFetchContext \<Rightarrow> bool" where
  "valid_context c \<longleftrightarrow> (\<exists>flag dd vs. c = context_of flag (Some dd) vs \<and> well_named vs
     \<and> acyclic (edges (buildDependencies vs)) \<and> buildDependencyData vs = Some (Some dd))"

lemma obj_ok_types: "obj_ok (buildVariableTypesMap vs)"
proof -
  have "obj_ok (fold (\<lambda>v types. if dv_name v \<noteq> [] then obj_set (dv_name v) (dv_type v) types else types) vs acc)"
    if "obj_ok acc" for acc
    using that by (induction vs arbitrary: acc) auto
  then show ?thesis by (simp add: buildVariableTypesMap_def)
qed

lemma buildDependencyData_SomeD:
  assumes "buildDependencyData vs = Some (Some dd)"
  obtains d where "buildDependencyGraph (buildDependencies vs) = Some d"
    "dd_order dd = filter (is_query_name vs) (dd_order d)" "dd_graph dd = dd_graph d"
    "dd_parentDependencyGraph dd = dd_parentDependencyGraph d"
    "dd_transitiveDescendants dd = dd_transitiveDescendants d"
  using assms by (auto simp: buildDependencyData_def split: if_splits option.splits)

lemma well_named_type:
  "well_named vs \<Longrightarrow> v \<in> set vs \<Longrightarrow> obj_get (buildVariableTypesMap vs) (dv_name v) = Some (dv_type v)"
  by (rule types_distinct) (auto simp: well_named_def all_named_def list_all_iff)

lemma well_named_keys: "well_named vs \<Longrightarrow> obj_get (buildVariableTypesMap vs) k \<noteq> None \<longleftrightarrow> k \<in> dv_name ` set vs"
proof
  assume "obj_get (buildVariableTypesMap vs) k \<noteq> None"
  then show "k \<in> dv_name ` set vs" by (simp add: buildVariableTypesMap_get split: if_splits)
next
  assume "well_named vs" "k \<in> dv_name ` set vs"
  then show "obj_get (buildVariableTypesMap vs) k \<noteq> None" using well_named_type by fastforce
qed

lemma dynamic_order_mem:
  assumes "well_named vs"
  shows "v \<in> set (buildDynamicVariableOrder vs) \<longleftrightarrow> obj_get (buildVariableTypesMap vs) v = Some DYNAMIC"
proof
  assume "v \<in> set (buildDynamicVariableOrder vs)"
  then show "obj_get (buildVariableTypesMap vs) v = Some DYNAMIC"
    using well_named_type [OF assms] by (auto simp: buildDynamicVariableOrder_def)
next
  assume "obj_get (buildVariableTypesMap vs) v = Some DYNAMIC"
  with assms show "v \<in> set (buildDynamicVariableOrder vs)"
    by (auto simp: buildDynamicVariableOrder_def well_named_def elim!: types_SomeD)
qed

text \<open>The laws, for one valid context.\<close>

lemma valid_context_laws:
  assumes c: "c = context_of flag (Some dd) vs" and wn: "well_named vs"
    and ac: "acyclic (edges (buildDependencies vs))" and dd: "buildDependencyData vs = Some (Some dd)"
  shows "dep_edges c = edges (buildDependencies vs)"
    and "v \<in> set (dd_order dd) \<longleftrightarrow> is_query c v"
    and "p \<in> set (children_of (dd_parentDependencyGraph dd) v) \<longleftrightarrow> (p, v) \<in> edges (buildDependencies vs)"
    and "known c v \<Longrightarrow> w \<in> set (children_of (dd_transitiveDescendants dd) v)
           \<longleftrightarrow> (v, w) \<in> (edges (buildDependencies vs))\<^sup>+"
proof -
  let ?g = "buildDependencies vs"
  have g: "closed_graph ?g" using wn by (intro buildDependencies_closed) (simp add: well_named_def)
  from dd obtain d where d: "buildDependencyGraph ?g = Some d"
    and o: "dd_order dd = filter (is_query_name vs) (dd_order d)"
    and f: "dd_graph dd = dd_graph d" "dd_parentDependencyGraph dd = dd_parentDependencyGraph d"
      "dd_transitiveDescendants dd = dd_transitiveDescendants d"
    by (rule buildDependencyData_SomeD)
  show "dep_edges c = edges ?g"
    by (simp add: c dep_edges_def context_of_def f edges_def dd_graph_children [OF g d])
  have keys: "set (obj_keys ?g) = dv_name ` set vs"
    using wn unfolding buildDependencies_keys by (auto simp: well_named_def all_named_def list_all_iff)
  have od: "set (dd_order d) = dv_name ` set vs"
    using topo_acyclic_complete [OF g dd_order_topo [OF g d] ac] keys by simp
  have q: "is_query_name vs v \<longleftrightarrow> is_query c v" if "v \<in> dv_name ` set vs" for v
    using that wn by (subst is_query_name_iff)
      (auto simp: c is_query_def context_of_def well_named_def all_named_def list_all_iff)
  have "is_query c v \<Longrightarrow> v \<in> dv_name ` set vs"
    using well_named_keys [OF wn, of v] by (simp add: c is_query_def context_of_def)
  with q od o show "v \<in> set (dd_order dd) \<longleftrightarrow> is_query c v" by auto
  show "p \<in> set (children_of (dd_parentDependencyGraph dd) v) \<longleftrightarrow> (p, v) \<in> edges ?g"
    using dd_parents_set [OF g d] by (simp add: f)
  show "w \<in> set (children_of (dd_transitiveDescendants dd) v) \<longleftrightarrow> (v, w) \<in> (edges ?g)\<^sup>+" if "known c v"
    using that well_named_keys [OF wn, of v] keys dd_transitiveDescendants_trancl [OF g d ac, of v]
    by (simp add: c f known_def context_of_def del: in_obj_keys)
qed

interpretation stores: dependency_context valid_context
proof
  fix c assume v: "valid_context c"
  then obtain flag dd vs where c: "c = context_of flag (Some dd) vs" and wn: "well_named vs"
    and ac: "acyclic (edges (buildDependencies vs))" and dd: "buildDependencyData vs = Some (Some dd)"
    by (auto simp: valid_context_def)
  note laws = valid_context_laws [OF c wn ac dd]
  have data: "fc_dependencyData c = Some dd" by (simp add: c context_of_def)
  have closed: "closed_graph (buildDependencies vs)"
    using wn by (intro buildDependencies_closed) (simp add: well_named_def)
  show "\<exists>dd. fc_dependencyData c = Some dd" using data by blast
  show "v \<in> set (dd_order d) \<longleftrightarrow> is_query c v" if "fc_dependencyData c = Some d" for d v
    using that data laws(2) by simp
  show "is_query c v" if "(p, v) \<in> dep_edges c" for p v
    using that well_named_type [OF wn] unfolding laws(1) buildDependencies_edge
    by (auto simp: c is_query_def context_of_def)
  show "known c p" if "(p, v) \<in> dep_edges c" for p v
    using that well_named_keys [OF wn, of p] unfolding laws(1) buildDependencies_edge
    by (simp add: c known_def context_of_def)
  show "p \<in> set (children_of (dd_parentDependencyGraph d) v) \<longleftrightarrow> (p, v) \<in> dep_edges c"
    if "fc_dependencyData c = Some d" for d p v
    using that data laws(1,3) by simp
  show "w \<in> set (children_of (dd_transitiveDescendants d) v) \<longleftrightarrow> (v, w) \<in> (dep_edges c)\<^sup>+"
    if "fc_dependencyData c = Some d" "known c v" for d v w
    using that data laws(1,4) by simp
  show "wf (dep_edges c)"
    unfolding laws(1) using finite_edges [OF closed] ac by (rule finite_acyclic_wf)
  show "v \<in> set (fc_dynamicVariableOrder c) \<longleftrightarrow> is_dynamic c v" for v
    using dynamic_order_mem [OF wn] by (simp add: c is_dynamic_def context_of_def)
  show "obj_ok (fc_variableTypes c)" by (simp add: c context_of_def obj_ok_types)
qed

end
