(* ===== verification/FetchMachine.thy ===== *)
theory FetchMachine
  imports FetchContext
begin

text \<open>
  The fetch store as a state machine.  A step is a response for a variable that is being
  fetched, a value change by the user, or a new fetch cycle; the context stays fixed
  but for the flag that says whether the query variables have values.  The invariant says that
  a waiting query variable has an unsettled parent and that a waiting dynamic variable
  has an unsettled query variable to wait for.
\<close>

section \<open>The state of a variable after an action\<close>

abbreviation state_of :: "IVariableFetchStoreState \<Rightarrow> string \<Rightarrow> VariableFetchState option" where
  "state_of st v \<equiv> obj_get (fs_states st) v"

definition unsettled :: "IVariableFetchStoreState \<Rightarrow> string \<Rightarrow> bool" where
  "unsettled st v \<longleftrightarrow> (\<exists>s. state_of st v = Some s \<and> \<not> isSettled (Some s))"

definition active :: "IVariableFetchStoreState \<Rightarrow> string \<Rightarrow> bool" where
  "active st v \<longleftrightarrow> isVariableInActiveFetchState (state_of st v)"

lemma isSettled_simps [simp]:
  "isSettled None = False" "isSettled (Some Idle)" "isSettled (Some Error)"
  "isSettled (Some Waiting) = False" "isSettled (Some Loading) = False"
  "isSettled (Some Revalidating) = False"
  by (simp_all add: isSettled_def)

lemma set_state_sel [fetch_simps]:
  "state_of (set_state n s st) v = (if v = n then Some s else state_of st v)"
  "fs_lastUpdated (set_state n s st) = fs_lastUpdated st"
  "fs_cycleIds (set_state n s st) = fs_cycleIds st"
  by (simp_all add: set_state_def)

lemma bump_cycle_sel [fetch_simps]:
  "fs_states (bump_cycle n st) = fs_states st"
  "fs_lastUpdated (bump_cycle n st) = fs_lastUpdated st"
  by (simp_all add: bump_cycle_def)

lemma resolve_cases: "resolveFetchState st v = Loading \<or> resolveFetchState st v = Revalidating"
  by (simp add: resolveFetchState_def)

lemma resolve_simps [simp]:
  "isSettled (Some (resolveFetchState st v)) = False" "resolveFetchState st v \<noteq> Waiting"
  "resolveFetchState st v \<noteq> Idle" "resolveFetchState st v \<noteq> Error"
  "isVariableInActiveFetchState (Some (resolveFetchState st v))"
  by (simp_all add: resolveFetchState_def isVariableInActiveFetchState_def)

text \<open>
  Every loop of the actions goes over names and changes, for each, the state of that name only.
  The new state is settled never, or the same as before.
\<close>

definition touches :: "(string \<Rightarrow> IVariableFetchStoreState \<Rightarrow> IVariableFetchStoreState) \<Rightarrow> bool" where
  "touches step \<longleftrightarrow> (\<forall>n st v. v \<noteq> n \<longrightarrow> state_of (step n st) v = state_of st v)"

definition rouses :: "(string \<Rightarrow> IVariableFetchStoreState \<Rightarrow> IVariableFetchStoreState) \<Rightarrow> bool" where
  "rouses step \<longleftrightarrow> touches step \<and> (\<forall>n st. state_of (step n st) n \<noteq> state_of st n \<longrightarrow> unsettled (step n st) n)"

lemma touches_fold: "touches step \<Longrightarrow> v \<notin> set ns \<Longrightarrow> state_of (fold step ns st) v = state_of st v"
  by (induction ns arbitrary: st) (auto simp: touches_def)

lemma rouses_step: "rouses step \<Longrightarrow> unsettled st v \<Longrightarrow> unsettled (step n st) v"
  unfolding rouses_def touches_def unsettled_def by (cases "v = n") metis+

lemma rouses_fold: "rouses step \<Longrightarrow> unsettled st v \<Longrightarrow> unsettled (fold step ns st) v"
  by (induction ns arbitrary: st) (auto intro: rouses_step)

lemma rouses_touches: "rouses step \<Longrightarrow> touches step"
  by (simp add: rouses_def)

lemma rouses_known: "rouses step \<Longrightarrow> state_of st v \<noteq> None \<Longrightarrow> state_of (step n st) v \<noteq> None"
  unfolding rouses_def touches_def unsettled_def by (cases "v = n") (metis option.distinct(1))+

lemma rouses_fold_known: "rouses step \<Longrightarrow> state_of st v \<noteq> None \<Longrightarrow> state_of (fold step ns st) v \<noteq> None"
proof (induction ns arbitrary: st)
  case (Cons n ns)
  then show ?case using rouses_known [of step st v n] Cons.IH [of "step n st"] by simp
qed simp

lemma rouses_fold_unsettled:
  assumes "rouses step" "v \<in> set ns" "\<And>n st. unsettled (step n st) n"
  shows "unsettled (fold step ns st) v"
  using assms(2)
proof (induction ns arbitrary: st)
  case (Cons n ns)
  then show ?case
    using rouses_fold [OF assms(1) assms(3)] by (cases "v = n") auto
qed simp

definition unlock_dynamic :: "string \<Rightarrow> IVariableFetchStoreState \<Rightarrow> IVariableFetchStoreState" where
  "unlock_dynamic n st =
     (if state_of st n = Some Waiting then set_state n (resolveFetchState st n) st else st)"

lemma unlock_fold: "unlockWaitingDynamicVariables ns st = fold unlock_dynamic ns st"
  by (simp add: unlockWaitingDynamicVariables_def unlock_dynamic_def [abs_def])

lemma rouses_steps [fetch_simps]:
  "rouses unlock_dynamic" "rouses (unblock_child c)" "rouses (enqueue_query c dd)"
  "rouses (enqueue_dynamic c)" "rouses (enqueue_descendant dd)" "rouses (enqueue_dynamic_descendant c)"
  by (auto simp: rouses_def touches_def unsettled_def unlock_dynamic_def unblock_child_def
      enqueue_query_def enqueue_dynamic_def enqueue_descendant_def enqueue_dynamic_descendant_def
      Let_def fetch_simps)

lemma unsettled_steps [fetch_simps]:
  "unsettled (enqueue_query c dd n st) n" "unsettled (enqueue_dynamic c n st) n"
  "unsettled (enqueue_descendant dd n st) n" "unsettled (enqueue_dynamic_descendant c n st) n"
  by (auto simp: unsettled_def enqueue_query_def enqueue_dynamic_def enqueue_descendant_def
      enqueue_dynamic_descendant_def Let_def fetch_simps)

lemma unlock_state:
  "state_of (fold unlock_dynamic ns st) v =
     (if v \<in> set ns \<and> state_of st v = Some Waiting then Some (resolveFetchState st v) else state_of st v)"
  by (induction ns arbitrary: st) (auto simp: unlock_dynamic_def fetch_simps resolveFetchState_def)

lemma unblock_state:
  "state_of (fold (unblock_child c) ns st) v =
     (if v \<in> set ns \<and> is_query c v \<and> state_of st v = Some Waiting
      then Some (resolveFetchState st v) else state_of st v)"
  by (induction ns arbitrary: st) (auto simp: unblock_child_def is_query_def fetch_simps resolveFetchState_def)

lemma settle_state:
  "state_of (fold (settle_descendant c) ns st) v =
     (if v \<in> set ns \<and> is_query c v then Some Idle else state_of st v)"
  by (induction ns arbitrary: st) (auto simp: settle_descendant_def is_query_def fetch_simps)

lemma initialize_state:
  "state_of (initializeVariableFetchStore ns st) v =
     (if v \<in> set ns then Some (case state_of st v of None \<Rightarrow> Idle | Some s \<Rightarrow> s) else None)"
proof -
  have 1: "state_of (fold (\<lambda>name draft. if state_of draft name = None then set_state name Idle draft else draft) ks st) v
      = (if v \<in> set ks \<and> state_of st v = None then Some Idle else state_of st v)" for ks st v
    by (induction ks arbitrary: st) (auto simp: fetch_simps)
  have 2: "state_of (fold (\<lambda>name draft. if name \<notin> set ns
        then \<lparr> fs_states = obj_delete name (fs_states draft), fs_lastUpdated = obj_delete name (fs_lastUpdated draft),
               fs_cycleIds = obj_delete name (fs_cycleIds draft) \<rparr> else draft) ks st) v
      = (if v \<in> set ks \<and> v \<notin> set ns then None else state_of st v)" for ks st v
    by (induction ks arbitrary: st) auto
  show ?thesis
    by (auto simp: initializeVariableFetchStore_def Let_def 1 2 split: option.splits)
qed

lemma all_settled_iff:
  assumes "obj_ok (fc_variableTypes c)"
  shows "areAllQueryVariablesSettled (fs_states st) (fc_variableTypes c) \<longleftrightarrow>
     (\<forall>q. is_query c q \<longrightarrow> isSettled (state_of st q))"
  using obj_get_conv_set [OF assms]
  by (auto simp: areAllQueryVariablesSettled_def is_query_def list_all_iff)


section \<open>The machine\<close>

definition with_flag :: "bool \<Rightarrow> VariableFetchContext \<Rightarrow> VariableFetchContext" where
  "with_flag b c = c\<lparr> fc_doAllQueryVariablesHaveValuesSelected := b \<rparr>"

text \<open>
  A new cycle initialises the store with the names of all variables.  The flag can be
  false only if there is a query variable (without a value).
\<close>

definition new_cycle :: "VariableFetchContext \<Rightarrow> bool \<Rightarrow> string list \<Rightarrow>
    IVariableFetchStoreState \<Rightarrow> IVariableFetchStoreState" where
  "new_cycle c b names st = enqueueFetchOfAllVariables (with_flag b c) (initializeVariableFetchStore names st)"

definition cycle_allowed :: "VariableFetchContext \<Rightarrow> bool \<Rightarrow> string list \<Rightarrow> bool" where
  "cycle_allowed c b names \<longleftrightarrow> (\<forall>v. v \<in> set names \<longleftrightarrow> known c v) \<and> (b \<or> (\<exists>q. is_query c q))"

inductive fetch_step :: "VariableFetchContext \<Rightarrow> IVariableFetchStoreState \<Rightarrow> IVariableFetchStoreState \<Rightarrow> bool"
  for c where
  settle: "active st n \<Longrightarrow> fetch_step c st (settleVariableFetch c now n res st)"
| change: "known c n \<Longrightarrow> fetch_step c st (enqueueDescendantsOfVariable c n st)"
| cycle: "cycle_allowed c b names \<Longrightarrow> fetch_step c st (new_cycle c b names st)"

inductive_cases fetch_stepE: "fetch_step c st st'"

inductive reachable :: "VariableFetchContext \<Rightarrow> IVariableFetchStoreState \<Rightarrow> bool" for c where
  start: "cycle_allowed c b names \<Longrightarrow> reachable c (new_cycle c b names fetch_initialState)"
| step: "reachable c st \<Longrightarrow> fetch_step c st st' \<Longrightarrow> reachable c st'"

text \<open>The parts of the invariant.\<close>

definition covers :: "VariableFetchContext \<Rightarrow> IVariableFetchStoreState \<Rightarrow> bool" where
  "covers c st \<longleftrightarrow> (\<forall>v. known c v \<longleftrightarrow> state_of st v \<noteq> None)"

definition plain_settled :: "VariableFetchContext \<Rightarrow> IVariableFetchStoreState \<Rightarrow> bool" where
  "plain_settled c st \<longleftrightarrow>
     (\<forall>v. known c v \<and> \<not> is_query c v \<and> \<not> is_dynamic c v \<longrightarrow> isSettled (state_of st v))"

definition queries_justified :: "VariableFetchContext \<Rightarrow> IVariableFetchStoreState \<Rightarrow> bool" where
  "queries_justified c st \<longleftrightarrow>
     (\<forall>v. is_query c v \<and> state_of st v = Some Waiting \<longrightarrow> (\<exists>p. (p, v) \<in> dep_edges c \<and> unsettled st p))"

definition dynamics_justified :: "VariableFetchContext \<Rightarrow> IVariableFetchStoreState \<Rightarrow> bool" where
  "dynamics_justified c st \<longleftrightarrow>
     (\<forall>v. is_dynamic c v \<and> state_of st v = Some Waiting \<longrightarrow>
        (\<exists>q. is_query c q \<and> unsettled st q) \<and> (\<forall>d. is_dynamic c d \<longrightarrow> state_of st d = Some Waiting))"

definition fetch_inv :: "VariableFetchContext \<Rightarrow> IVariableFetchStoreState \<Rightarrow> bool" where
  "fetch_inv c st \<longleftrightarrow>
     covers c st \<and> plain_settled c st \<and> queries_justified c st \<and> dynamics_justified c st"

lemma query_known: "is_query c v \<Longrightarrow> known c v"
  by (simp add: is_query_def known_def)

lemma dynamic_known: "is_dynamic c v \<Longrightarrow> known c v"
  by (simp add: is_dynamic_def known_def)

lemma query_not_dynamic: "is_query c v \<Longrightarrow> \<not> is_dynamic c v"
  by (simp add: is_query_def is_dynamic_def)

lemma covers_unsettled: "covers c st \<Longrightarrow> known c v \<Longrightarrow> \<not> isSettled (state_of st v) \<Longrightarrow> unsettled st v"
  by (auto simp: covers_def unsettled_def)

lemma covers_fold:
  assumes "covers c st" "rouses step" "\<forall>n \<in> set ns. known c n"
  shows "covers c (fold step ns st)"
  unfolding covers_def
proof
  fix v
  show "known c v \<longleftrightarrow> state_of (fold step ns st) v \<noteq> None"
    using assms rouses_fold_known [OF assms(2), of st v ns]
      touches_fold [OF rouses_touches [OF assms(2)], of v ns st]
    unfolding covers_def by (cases "v \<in> set ns") auto
qed

lemma plain_fold:
  assumes "plain_settled c st" "rouses step" "\<forall>n \<in> set ns. is_query c n \<or> is_dynamic c n"
  shows "plain_settled c (fold step ns st)"
  using assms touches_fold [OF rouses_touches [OF assms(2)]] unfolding plain_settled_def by metis

lemma justified_fold:
  assumes "queries_justified c st" "rouses step" "\<forall>n \<in> set ns. \<not> is_query c n"
  shows "queries_justified c (fold step ns st)"
  using assms touches_fold [OF rouses_touches [OF assms(2)]] rouses_fold [OF assms(2)]
  unfolding queries_justified_def by metis

lemma dynamics_unlocked:
  "\<forall>d. is_dynamic c d \<longrightarrow> d \<in> set ns \<Longrightarrow> dynamics_justified c (fold unlock_dynamic ns st)"
  by (auto simp: dynamics_justified_def unlock_state)

text \<open>The dynamic variables are queued together.\<close>

lemma queued_together:
  assumes "\<forall>n \<in> set ns. \<forall>st. R st \<longrightarrow> state_of (step n st) n \<noteq> Some Waiting"
    and "\<forall>n \<in> set ns. \<forall>st. R st \<longrightarrow> R (step n st)" "touches step" "R st" "v \<in> set ns"
  shows "state_of (fold step ns st) v \<noteq> Some Waiting"
  using assms(1,2,4,5)
proof (induction ns arbitrary: st)
  case (Cons n ns)
  show ?case
  proof (cases "v \<in> set ns")
    case True
    with Cons show ?thesis by simp
  next
    case False
    with Cons.prems touches_fold [OF assms(3) False, of "step n st"] show ?thesis by simp
  qed
qed simp

lemma waiting_together:
  assumes "\<forall>n \<in> set ns. \<forall>st. R st \<longrightarrow> state_of (step n st) n = Some Waiting"
    and "\<forall>n \<in> set ns. \<forall>st. R st \<longrightarrow> R (step n st)" "touches step" "R st" "v \<in> set ns"
  shows "state_of (fold step ns st) v = Some Waiting"
  using assms(1,2,4,5)
proof (induction ns arbitrary: st)
  case (Cons n ns)
  show ?case
  proof (cases "v \<in> set ns")
    case True
    with Cons show ?thesis by simp
  next
    case False
    with Cons.prems touches_fold [OF assms(3) False, of "step n st"] show ?thesis by simp
  qed
qed simp

section \<open>Every step preserves the invariant\<close>

context dependency_context
begin

lemma child_edge: "ok c \<Longrightarrow> fc_dependencyData c = Some dd \<Longrightarrow> v \<in> set (children_of (dd_graph dd) n) \<longleftrightarrow> (n, v) \<in> dep_edges c"
  by (simp add: dep_edges_def edges_def)

lemma dynamic_names: "ok c \<Longrightarrow> \<forall>n \<in> set (fc_dynamicVariableOrder c). is_dynamic c n \<and> \<not> is_query c n \<and> known c n"
  using dynamics query_not_dynamic dynamic_known by blast

lemma justified_enqueue_descendant:
  assumes ok: "ok c" and dd: "fc_dependencyData c = Some dd" and cov: "covers c st"
    and just: "queries_justified c st"
  shows "queries_justified c (enqueue_descendant dd n st)"
  unfolding queries_justified_def
proof (intro allI impI)
  fix v assume v: "is_query c v \<and> state_of (enqueue_descendant dd n st) v = Some Waiting"
  have "\<exists>p. (p, v) \<in> dep_edges c \<and> unsettled st p"
  proof (cases "v = n")
    case True
    with v obtain p where "p \<in> set (children_of (dd_parentDependencyGraph dd) v)" "\<not> isSettled (state_of st p)"
      by (auto simp: enqueue_descendant_def Let_def fetch_simps list_all_iff split: if_splits)
    then have "(p, v) \<in> dep_edges c" "unsettled st p"
      using parents [OF ok dd] covers_unsettled [OF cov] parent_known [OF ok] by auto
    then show ?thesis by blast
  next
    case False
    with v have "state_of st v = Some Waiting"
      using rouses_touches [OF rouses_steps(5)] by (simp add: touches_def)
    with v just show ?thesis by (simp add: queries_justified_def)
  qed
  then show "\<exists>p. (p, v) \<in> dep_edges c \<and> unsettled (enqueue_descendant dd n st) p"
    using rouses_step [OF rouses_steps(5)] by blast
qed

lemma justified_enqueue_descendants:
  assumes ok: "ok c" and dd: "fc_dependencyData c = Some dd"
  shows "covers c st \<Longrightarrow> queries_justified c st \<Longrightarrow> \<forall>n \<in> set ns. is_query c n \<Longrightarrow>
    queries_justified c (fold (enqueue_descendant dd) ns st)"
proof (induction ns arbitrary: st)
  case (Cons n ns)
  then show ?case
    using covers_fold [OF Cons.prems(1) rouses_steps(5), of "[n]"]
      justified_enqueue_descendant [OF ok dd Cons.prems(1,2)] query_known by simp
qed simp

lemma all_settled: "ok c \<Longrightarrow> areAllQueryVariablesSettled (fs_states st) (fc_variableTypes c) \<longleftrightarrow>
    (\<forall>q. is_query c q \<longrightarrow> isSettled (state_of st q))"
  by (rule all_settled_iff [OF types_ok])

lemma dynamics_enqueue_descendant:
  assumes ok: "ok c" and cov: "covers c st"
  shows "dynamics_justified c (fold (enqueue_dynamic_descendant c) (fc_dynamicVariableOrder c) st)"
proof -
  let ?step = "enqueue_dynamic_descendant c" and ?ns = "fc_dynamicVariableOrder c"
  let ?S = "\<lambda>st. areAllQueryVariablesSettled (fs_states st) (fc_variableTypes c)"
  have t: "touches ?step" by (rule rouses_touches [OF rouses_steps(6)])
  have same: "?S (?step n st) \<longleftrightarrow> ?S st" if "n \<in> set ?ns" for n st
    using t dynamic_names [OF ok] that unfolding all_settled [OF ok] touches_def by metis
  have v: "v \<in> set ?ns" if "is_dynamic c v" for v using that dynamics [OF ok] by blast
  show ?thesis
  proof (cases "?S st")
    case True
    have q: "\<forall>n \<in> set ?ns. \<forall>st. ?S st \<longrightarrow> state_of (?step n st) n \<noteq> Some Waiting"
      by (simp add: enqueue_dynamic_descendant_def Let_def fetch_simps)
    have r: "\<forall>n \<in> set ?ns. \<forall>st. ?S st \<longrightarrow> ?S (?step n st)" using same by blast
    have "state_of (fold ?step ?ns st) v \<noteq> Some Waiting" if "is_dynamic c v" for v
      by (rule queued_together [where R = ?S, OF q r t True v [OF that]])
    then show ?thesis by (auto simp: dynamics_justified_def)
  next
    case False
    have q: "\<forall>n \<in> set ?ns. \<forall>st. \<not> ?S st \<longrightarrow> state_of (?step n st) n = Some Waiting"
      by (simp add: enqueue_dynamic_descendant_def Let_def fetch_simps)
    have r: "\<forall>n \<in> set ?ns. \<forall>st. \<not> ?S st \<longrightarrow> \<not> ?S (?step n st)" using same by blast
    have "state_of (fold ?step ?ns st) v = Some Waiting" if "is_dynamic c v" for v
      by (rule waiting_together [where R = "\<lambda>st. \<not> ?S st", OF q r t False v [OF that]])
    moreover obtain q where "is_query c q" "unsettled st q"
      using False covers_unsettled [OF cov] query_known unfolding all_settled [OF ok] by blast
    ultimately show ?thesis
      using rouses_fold [OF rouses_steps(6)] unfolding dynamics_justified_def by blast
  qed
qed

lemma inv_dynamic_fold:
  assumes ok: "ok c" and "covers c st" "plain_settled c st" "queries_justified c st"
    and r: "rouses step" and "dynamics_justified c (fold step (fc_dynamicVariableOrder c) st)"
  shows "fetch_inv c (fold step (fc_dynamicVariableOrder c) st)"
  using assms covers_fold [OF assms(2) r] plain_fold [OF assms(3) r] justified_fold [OF assms(4) r]
    dynamic_names [OF ok]
  unfolding fetch_inv_def by blast

lemma inv_change:
  assumes ok: "ok c" and inv: "fetch_inv c st" and n: "known c n"
  shows "fetch_inv c (enqueueDescendantsOfVariable c n st)"
proof -
  from data [OF ok] obtain dd where dd: "fc_dependencyData c = Some dd" by blast
  define ds where "ds = filter (\<lambda>d. obj_get (fc_variableTypes c) d = Some QUERY)
      (children_of (dd_transitiveDescendants dd) n)"
  let ?st1 = "fold (enqueue_descendant dd) ds st"
  from inv have i: "covers c st" "plain_settled c st" "queries_justified c st" by (simp_all add: fetch_inv_def)
  have ds: "\<forall>d \<in> set ds. is_query c d" by (simp add: is_query_def ds_def)
  have cov: "covers c ?st1"
    using covers_fold [OF i(1) rouses_steps(5)] ds query_known by blast
  have "plain_settled c ?st1"
    using plain_fold [OF i(2) rouses_steps(5)] ds by blast
  then have "fetch_inv c (fold (enqueue_dynamic_descendant c) (fc_dynamicVariableOrder c) ?st1)"
    using justified_enqueue_descendants [OF ok dd i(1,3) ds] cov
    by (intro inv_dynamic_fold ok rouses_steps dynamics_enqueue_descendant)
  then show ?thesis by (simp add: enqueueDescendantsOfVariable_def dd ds_def)
qed

lemma inv_cycle:
  assumes ok: "ok c" and a: "cycle_allowed c b names"
    and plain: "\<forall>v. known c v \<and> \<not> is_query c v \<and> \<not> is_dynamic c v \<longrightarrow>
        state_of st v = None \<or> isSettled (state_of st v)"
  shows "fetch_inv c (new_cycle c b names st)"
proof -
  from data [OF ok] obtain dd where dd: "fc_dependencyData c = Some dd" by blast
  define st0 where "st0 = initializeVariableFetchStore names st"
  let ?c = "with_flag b c"
  define st1 where "st1 = fold (enqueue_query ?c dd) (dd_order dd) st0"
  have order: "\<forall>n \<in> set (dd_order dd). is_query c n" using order_queries [OF ok dd] by blast
  have "covers c st0"
    using a by (auto simp: covers_def cycle_allowed_def st0_def initialize_state)
  then have cov: "covers c st1"
    unfolding st1_def using covers_fold [OF _ rouses_steps(3)] order query_known by blast
  have "plain_settled c st0"
    using a plain unfolding plain_settled_def st0_def initialize_state cycle_allowed_def
    by (fastforce split: option.splits)
  then have plain: "plain_settled c st1"
    unfolding st1_def using plain_fold [OF _ rouses_steps(3)] order by blast
  have uns: "unsettled st1 q" if "is_query c q" for q
    unfolding st1_def
    using rouses_fold_unsettled [OF rouses_steps(3)] unsettled_steps(1) that order_queries [OF ok dd]
    by blast
  have "state_of (fold (enqueue_query ?c dd) ns st) v = Some Waiting \<Longrightarrow> v \<in> set ns \<Longrightarrow>
      \<exists>p \<in> set (children_of (dd_parentDependencyGraph dd) v). is_query c p" for ns st v
  proof (induction ns arbitrary: st)
    case (Cons n ns)
    show ?case
    proof (cases "v \<in> set ns")
      case False
      with Cons.prems touches_fold [OF rouses_touches [OF rouses_steps(3)] False, of ?c dd "enqueue_query ?c dd n st"]
      have "v = n" "state_of (enqueue_query ?c dd n st) n = Some Waiting" by simp_all
      then show ?thesis
        by (auto simp: enqueue_query_def Let_def fetch_simps with_flag_def is_query_def list_ex_iff split: if_splits)
    qed (use Cons in simp)
  qed simp
  then have just: "queries_justified c st1"
    unfolding queries_justified_def st1_def
    using parents [OF ok dd] order_queries [OF ok dd] uns [unfolded st1_def] by blast
  have "dynamics_justified c (fold (enqueue_dynamic ?c) (fc_dynamicVariableOrder c) st1)"
  proof (cases b)
    case True
    then have "state_of (fold (enqueue_dynamic ?c) (fc_dynamicVariableOrder c) st1) v \<noteq> Some Waiting"
      if "is_dynamic c v" for v
      using that dynamics [OF ok] rouses_touches [OF rouses_steps(4)]
      by (intro queued_together [where R = "\<lambda>_. True"])
        (auto simp: enqueue_dynamic_def with_flag_def Let_def fetch_simps)
    then show ?thesis by (auto simp: dynamics_justified_def)
  next
    case False
    then have "state_of (fold (enqueue_dynamic ?c) (fc_dynamicVariableOrder c) st1) v = Some Waiting"
      if "is_dynamic c v" for v
      using that dynamics [OF ok] rouses_touches [OF rouses_steps(4)]
      by (intro waiting_together [where R = "\<lambda>_. True"])
        (auto simp: enqueue_dynamic_def with_flag_def Let_def fetch_simps)
    moreover obtain q where "is_query c q" using False a by (auto simp: cycle_allowed_def)
    ultimately show ?thesis
      using rouses_fold [OF rouses_steps(4)] uns unfolding dynamics_justified_def by blast
  qed
  then have "fetch_inv c (fold (enqueue_dynamic ?c) (fc_dynamicVariableOrder c) st1)"
    using cov plain just by (intro inv_dynamic_fold ok rouses_steps)
  then show ?thesis
    by (simp add: new_cycle_def enqueueFetchOfAllVariables_def with_flag_def dd st1_def st0_def)
qed

lemma inv_settled_step:
  assumes ok: "ok c" and dd: "fc_dependencyData c = Some dd"
    and cov: "covers c st" and plain: "plain_settled c st" and just: "queries_justified c st"
    and dyn: "\<not> is_query c n \<Longrightarrow> dynamics_justified c st"
    and together: "\<And>v. is_query c n \<Longrightarrow> is_dynamic c v \<Longrightarrow> state_of st v = Some Waiting \<Longrightarrow>
        \<forall>d. is_dynamic c d \<longrightarrow> state_of st d = Some Waiting"
  shows "fetch_inv c (unlock_if_settled c n st)"
proof (cases "is_query c n \<and> (\<forall>q. is_query c q \<longrightarrow> isSettled (state_of st q))")
  case True
  then have "unlock_if_settled c n st = fold unlock_dynamic (fc_dynamicVariableOrder c) st"
    by (simp add: unlock_if_settled_def unlock_fold all_settled [OF ok] is_query_def)
  then show ?thesis
    using inv_dynamic_fold [OF ok cov plain just rouses_steps(1)] dynamics_unlocked dynamics [OF ok] by simp
next
  case False
  then have same: "unlock_if_settled c n st = st"
    by (auto simp: unlock_if_settled_def all_settled [OF ok] is_query_def)
  have "dynamics_justified c st"
  proof (cases "is_query c n")
    case True
    with False covers_unsettled [OF cov] query_known have "\<exists>q. is_query c q \<and> unsettled st q" by blast
    with together [OF True] show ?thesis unfolding dynamics_justified_def by blast
  qed (use dyn in simp)
  then show ?thesis using same cov plain just by (simp add: fetch_inv_def)
qed

lemma active_kind:
  assumes "fetch_inv c st" "active st n"
  shows "known c n \<and> (is_query c n \<or> is_dynamic c n) \<and> (is_dynamic c n \<longrightarrow>
     (\<forall>d. is_dynamic c d \<longrightarrow> state_of st d \<noteq> Some Waiting))"
proof -
  from assms(2) have s: "state_of st n \<noteq> None" "\<not> isSettled (state_of st n)" "state_of st n \<noteq> Some Waiting"
    by (auto simp: active_def isVariableInActiveFetchState_def)
  have "known c n" using assms(1) s(1) by (simp add: fetch_inv_def covers_def)
  moreover have "is_query c n \<or> is_dynamic c n"
    using assms(1) s(2) calculation by (auto simp: fetch_inv_def plain_settled_def)
  moreover have "state_of st d \<noteq> Some Waiting" if "is_dynamic c n" "is_dynamic c d" for d
    using assms(1) s(3) that unfolding fetch_inv_def dynamics_justified_def by blast
  ultimately show ?thesis by blast
qed

lemma inv_complete:
  assumes ok: "ok c" and inv: "fetch_inv c st" and act: "active st n"
  shows "fetch_inv c (onVariableFetchComplete c now n st)"
proof -
  from data [OF ok] obtain dd where dd: "fc_dependencyData c = Some dd" by blast
  note kind = active_kind [OF inv act]
  define st1 where "st1 = (set_state n Idle st)\<lparr> fs_lastUpdated := obj_set n now (fs_lastUpdated st) \<rparr>"
  have s1: "state_of st1 v = (if v = n then Some Idle else state_of st v)" for v
    by (simp add: st1_def fetch_simps)
  define st2 where "st2 = fold (unblock_child c) (children_of (dd_graph dd) n) st1"
  have s2: "state_of st2 v = (if (n, v) \<in> dep_edges c \<and> state_of st1 v = Some Waiting
      then Some (resolveFetchState st1 v) else state_of st1 v)" for v
    using child_edge [OF ok dd] child_query [OF ok] by (auto simp: st2_def unblock_state)
  have u2: "unsettled st2 v" if "unsettled st v" "v \<noteq> n" for v
    using that by (simp add: unsettled_def s1 s2)
  have w2: "state_of st v = Some Waiting \<and> v \<noteq> n \<and> (n, v) \<notin> dep_edges c" if "state_of st2 v = Some Waiting" for v
    using that by (auto simp: s1 s2 split: if_splits)
  have cov: "covers c st2"
    using inv kind unfolding fetch_inv_def covers_def s2 s1 by auto
  moreover have "plain_settled c st2"
    using inv child_query [OF ok] unfolding fetch_inv_def plain_settled_def s2 s1 by auto
  moreover have "queries_justified c st2"
    using inv u2 w2 unfolding fetch_inv_def queries_justified_def by metis
  moreover have "dynamics_justified c st2" if "\<not> is_query c n"
    using that kind w2 unfolding dynamics_justified_def by blast
  moreover have "\<forall>d. is_dynamic c d \<longrightarrow> state_of st2 d = Some Waiting"
    if q: "is_query c n" and v: "is_dynamic c v" "state_of st2 v = Some Waiting" for v
  proof (intro allI impI)
    fix d assume d: "is_dynamic c d"
    with v w2 inv have "state_of st d = Some Waiting" unfolding fetch_inv_def dynamics_justified_def by blast
    then show "state_of st2 d = Some Waiting"
      using d q query_not_dynamic child_query [OF ok] by (auto simp: s1 s2)
  qed
  ultimately have "fetch_inv c (unlock_if_settled c n st2)"
    by (rule inv_settled_step [OF ok dd])
  then show ?thesis
    by (simp add: onVariableFetchComplete_def dd Let_def st1_def st2_def set_state_sel)
qed

lemma inv_failure:
  assumes ok: "ok c" and inv: "fetch_inv c st" and act: "active st n"
  shows "fetch_inv c (onVariableFetchFailure c n st)"
proof -
  from data [OF ok] obtain dd where dd: "fc_dependencyData c = Some dd" by blast
  note kind = active_kind [OF inv act]
  define st1 where "st1 = set_state n Error st"
  have s1: "state_of st1 v = (if v = n then Some Error else state_of st v)" for v
    by (simp add: st1_def fetch_simps)
  define st2 where "st2 = fold (settle_descendant c) (children_of (dd_transitiveDescendants dd) n) st1"
  have desc_query: "is_query c v" if "(n, v) \<in> (dep_edges c)\<^sup>+" for v
    using that child_query [OF ok] by (meson tranclD2)
  have s2: "state_of st2 v = (if (n, v) \<in> (dep_edges c)\<^sup>+ then Some Idle else state_of st1 v)" for v
    using descendants [OF ok dd, of n v] kind desc_query by (auto simp: st2_def settle_state)
  have w2: "state_of st v = Some Waiting \<and> v \<noteq> n \<and> (n, v) \<notin> (dep_edges c)\<^sup>+" if "state_of st2 v = Some Waiting" for v
    using that by (auto simp: s1 s2 split: if_splits)
  have cov: "covers c st2"
    using inv kind desc_query query_known unfolding fetch_inv_def covers_def s2 s1 by auto
  moreover have "plain_settled c st2"
    using inv unfolding fetch_inv_def plain_settled_def s2 s1 by auto
  moreover have "queries_justified c st2"
    unfolding queries_justified_def
  proof (intro allI impI)
    fix v assume v: "is_query c v \<and> state_of st2 v = Some Waiting"
    with w2 [of v] inv obtain p where p: "(p, v) \<in> dep_edges c" "unsettled st p"
      unfolding fetch_inv_def queries_justified_def by blast
    with w2 [of v] v have "p \<noteq> n" "(n, p) \<notin> (dep_edges c)\<^sup>+"
      by (auto intro: trancl_into_trancl)
    with p(2) have "unsettled st2 p" by (simp add: unsettled_def s1 s2)
    with p(1) show "\<exists>p. (p, v) \<in> dep_edges c \<and> unsettled st2 p" by blast
  qed
  moreover have "dynamics_justified c st2" if "\<not> is_query c n"
    using that kind w2 unfolding dynamics_justified_def by blast
  moreover have "\<forall>d. is_dynamic c d \<longrightarrow> state_of st2 d = Some Waiting"
    if q: "is_query c n" and v: "is_dynamic c v" "state_of st2 v = Some Waiting" for v
  proof (intro allI impI)
    fix d assume d: "is_dynamic c d"
    with v w2 inv have "state_of st d = Some Waiting" unfolding fetch_inv_def dynamics_justified_def by blast
    then show "state_of st2 d = Some Waiting"
      using d q query_not_dynamic desc_query by (auto simp: s1 s2)
  qed
  ultimately have "fetch_inv c (unlock_if_settled c n st2)"
    by (rule inv_settled_step [OF ok dd])
  then show ?thesis
    by (simp add: onVariableFetchFailure_def dd Let_def st1_def st2_def)
qed

lemma inv_step:
  assumes ok: "ok c" and inv: "fetch_inv c st" and st: "fetch_step c st st'"
  shows "fetch_inv c st'"
  using st
proof cases
  case (settle n now res)
  then show ?thesis
    using inv_complete [OF ok inv] inv_failure [OF ok inv] inv
    by (auto simp: settleVariableFetch_def split: outcome.split)
next
  case (change n)
  then show ?thesis using inv_change [OF ok inv] by simp
next
  case (cycle b names)
  from inv have "\<forall>v. known c v \<and> \<not> is_query c v \<and> \<not> is_dynamic c v \<longrightarrow>
      state_of st v = None \<or> isSettled (state_of st v)"
    by (simp add: fetch_inv_def plain_settled_def)
  with cycle show ?thesis using inv_cycle [OF ok cycle(2)] by blast
qed

lemma reachable_inv:
  assumes ok: "ok c"
  shows "reachable c st \<Longrightarrow> fetch_inv c st"
proof (induction rule: reachable.induct)
  case (start b names)
  then show ?case by (intro inv_cycle [OF ok]) (simp_all add: fetch_initialState_def)
qed (rule inv_step [OF ok])

section \<open>Progress\<close>

text \<open>Following unsettled parents of waiting query variables ends at one that is being fetched.\<close>

lemma waiting_has_active:
  assumes ok: "ok c" and inv: "fetch_inv c st"
    and nodyn: "\<forall>(p, v) \<in> dep_edges c. \<not> is_dynamic c p"
    and v: "is_query c v" "state_of st v = Some Waiting"
  shows "\<exists>a. is_query c a \<and> active st a"
proof (rule ccontr)
  assume none: "\<nexists>a. is_query c a \<and> active st a"
  let ?W = "{v. is_query c v \<and> state_of st v = Some Waiting}"
  from v have "v \<in> ?W" by simp
  with wf_edges [OF ok] obtain m where m: "m \<in> ?W" "\<And>y. (y, m) \<in> dep_edges c \<Longrightarrow> y \<notin> ?W"
    by (rule wfE_min) blast
  from m(1) inv obtain p where p: "(p, m) \<in> dep_edges c" "unsettled st p"
    unfolding fetch_inv_def queries_justified_def by blast
  have "is_query c p"
    using p nodyn parent_known [OF ok p(1)] inv
    by (auto simp: fetch_inv_def plain_settled_def unsettled_def)
  moreover have "state_of st p = Some Waiting"
  proof -
    from p(2) obtain x where x: "state_of st p = Some x" "\<not> isSettled (Some x)"
      by (auto simp: unsettled_def)
    with none calculation show ?thesis
      by (cases x) (auto simp: active_def isVariableInActiveFetchState_def)
  qed
  ultimately show False using m(2) [OF p(1)] by simp
qed

lemma no_deadlock:
  assumes ok: "ok c" and inv: "fetch_inv c st"
    and nodyn: "\<forall>(p, v) \<in> dep_edges c. \<not> is_dynamic c p"
    and v: "unsettled st v"
  shows "\<exists>a. active st a"
proof -
  from v obtain x where x: "state_of st v = Some x" "\<not> isSettled (Some x)" by (auto simp: unsettled_def)
  show ?thesis
  proof (cases "x = Waiting")
    case False
    with x have "active st v" by (cases x) (simp_all add: active_def isVariableInActiveFetchState_def)
    then show ?thesis by blast
  next
    case True
    from x(1) inv have "known c v" by (simp add: fetch_inv_def covers_def)
    with x True inv have "is_query c v \<or> is_dynamic c v"
      by (auto simp: fetch_inv_def plain_settled_def)
    then obtain q where q: "is_query c q" "unsettled st q"
      using inv v x(1) True unfolding fetch_inv_def dynamics_justified_def by blast
    then obtain y where y: "state_of st q = Some y" "\<not> isSettled (Some y)" by (auto simp: unsettled_def)
    show ?thesis
    proof (cases "y = Waiting")
      case True
      then show ?thesis using waiting_has_active [OF ok inv nodyn q(1)] y by blast
    next
      case False
      with y have "active st q" by (cases y) (simp_all add: active_def isVariableInActiveFetchState_def)
      then show ?thesis by blast
    qed
  qed
qed

end

section \<open>Every response settles something\<close>

definition unsettled_count :: "IVariableFetchStoreState \<Rightarrow> nat" where
  "unsettled_count st = length (filter (\<lambda>kv. \<not> isSettled (Some (snd kv))) (fs_states st))"

lemma count_set:
  "obj_get ob n = Some s \<Longrightarrow>
   length (filter (\<lambda>kv. \<not> isSettled (Some (snd kv))) (obj_set n s' ob)) + (if isSettled (Some s) then 0 else 1)
   = length (filter (\<lambda>kv. \<not> isSettled (Some (snd kv))) ob) + (if isSettled (Some s') then 0 else 1)"
  by (induction n s' ob rule: obj_set.induct) (auto split: if_splits)

lemma count_set_settled:
  "isSettled (Some s') \<Longrightarrow> length (filter (\<lambda>kv. \<not> isSettled (Some (snd kv))) (obj_set n s' ob))
     \<le> length (filter (\<lambda>kv. \<not> isSettled (Some (snd kv))) ob)"
  by (induction n s' ob rule: obj_set.induct) auto

lemma count_set_state:
  "state_of st n = Some Waiting \<Longrightarrow> unsettled_count (set_state n (resolveFetchState st n) st) = unsettled_count st"
  using count_set [of "fs_states st" n Waiting "resolveFetchState st n"]
  by (simp add: unsettled_count_def set_state_def)

lemma count_fold: "(\<And>n st. unsettled_count (step n st) \<le> unsettled_count st) \<Longrightarrow>
    unsettled_count (fold step ns st) \<le> unsettled_count st"
proof (induction ns arbitrary: st)
  case (Cons n ns)
  then show ?case using le_trans [OF Cons.IH [OF Cons.prems] Cons.prems, of n st] by simp
qed simp

lemma count_unlock: "unsettled_count (fold unlock_dynamic ns st) \<le> unsettled_count st"
  by (rule count_fold) (simp add: unlock_dynamic_def count_set_state)

lemma count_unblock: "unsettled_count (fold (unblock_child c) ns st) \<le> unsettled_count st"
  by (rule count_fold) (simp add: unblock_child_def count_set_state)

lemma count_settle: "unsettled_count (fold (settle_descendant c) ns st) \<le> unsettled_count st"
  by (rule count_fold)
    (simp add: settle_descendant_def unsettled_count_def set_state_def count_set_settled)

lemma count_unlock_if: "unsettled_count (unlock_if_settled c n st) \<le> unsettled_count st"
  using count_unlock by (simp add: unlock_if_settled_def unlock_fold)

lemma count_settled:
  assumes "active st n" "isSettled (Some s)"
  shows "unsettled_count (set_state n s st) < unsettled_count st"
proof -
  from assms(1) obtain x where x: "state_of st n = Some x" "\<not> isSettled (Some x)"
    by (auto simp: active_def isVariableInActiveFetchState_def)
  with count_set [OF x(1), of s] assms(2) show ?thesis by (simp add: unsettled_count_def set_state_def)
qed

lemma settle_decreases:
  assumes "active st n" "n \<noteq> []"
  shows "unsettled_count (settleVariableFetch c now n res st) < unsettled_count st"
proof -
  have lu: "unsettled_count (st'\<lparr> fs_lastUpdated := l \<rparr>) = unsettled_count st'" for st' l
    by (simp add: unsettled_count_def)
  note 1 = count_settled [OF assms(1), of Idle, simplified] count_settled [OF assms(1), of Error, simplified]
  show ?thesis
  proof (cases res)
    case Complete
    then show ?thesis
      using assms 1(1) lu le_less_trans [OF count_unlock_if] le_less_trans [OF count_unblock]
      by (auto simp: settleVariableFetch_def active_def onVariableFetchComplete_def Let_def split: option.splits)
  next
    case Failure
    then show ?thesis
      using assms 1(2) le_less_trans [OF count_unlock_if] le_less_trans [OF count_settle]
      by (auto simp: settleVariableFetch_def active_def onVariableFetchFailure_def Let_def split: option.splits)
  qed
qed

end
