(* ===== verification/FetchProperties.thy ===== *)
theory FetchProperties
  imports FetchMachine
begin

text \<open>
  What the two stores achieve together, for the contexts that the variables store builds
  from well-named variables without reference cycles, and three concrete schedules.
\<close>

section \<open>The context of a store\<close>

lemma sorted_same: "set (buildSortedVariablesArray vars) = snd ` set vars"
  by (simp add: buildSortedVariablesArray_def set_obj_values)

lemma context_data:
  assumes "derived_consistent st" "well_named (vs_sortedVariablesArray st)"
  shows "\<exists>dd flag. buildDependencyData (vs_sortedVariablesArray st) = Some (Some dd)
     \<and> getVariableDependencyContext st = context_of flag (Some dd) (vs_sortedVariablesArray st)"
proof -
  have "vs_dependencyData st \<noteq> None"
  proof
    assume "vs_dependencyData st = None"
    with assms(1) have "buildDependencyData (vs_sortedVariablesArray st) = Some None"
      unfolding derived_consistent_def by metis
    with assms(2) show False
      by (auto simp: well_named_def buildDependencyData_def split: option.splits)
  qed
  then show ?thesis
    using assms by (auto simp: context_of_def getVariableDependencyContext_def derived_consistent_def)
qed

lemma context_valid:
  assumes "derived_consistent st" "well_named (vs_sortedVariablesArray st)"
    and "acyclic (edges (buildDependencies (vs_sortedVariablesArray st)))"
  shows "valid_context (getVariableDependencyContext st)"
  using context_data [OF assms(1,2)] assms(2,3) unfolding valid_context_def by blast

lemma context_cycle_allowed:
  assumes c: "derived_consistent st" and wn: "well_named (vs_sortedVariablesArray st)"
  shows "cycle_allowed (getVariableDependencyContext st)
      (fc_doAllQueryVariablesHaveValuesSelected (getVariableDependencyContext st))
      (map dv_name (vs_sortedVariablesArray st))"
proof -
  let ?vs = "vs_sortedVariablesArray st"
  have t: "fc_variableTypes (getVariableDependencyContext st) = buildVariableTypesMap ?vs"
    using c by (simp add: getVariableDependencyContext_def derived_consistent_def)
  have "\<exists>q. is_query (getVariableDependencyContext st) q"
    if "\<not> fc_doAllQueryVariablesHaveValuesSelected (getVariableDependencyContext st)"
  proof -
    from that obtain v where v: "v \<in> set (obj_values (vs_variables st))" "\<not> has_value_selected v"
      by (auto simp: getVariableDependencyContext_def list_all_iff)
    then have "v \<in> set ?vs" "dv_type v = QUERY"
      using c by (auto simp: derived_consistent_def buildSortedVariablesArray_def has_value_selected_def
          split: if_splits)
    with well_named_type [OF wn, of v] show ?thesis
      by (intro exI [of _ "dv_name v"]) (simp add: is_query_def t)
  qed
  then show ?thesis
    using well_named_keys [OF wn] by (auto simp: cycle_allowed_def known_def t)
qed

lemma valid_context_named: "valid_context c \<Longrightarrow> known c n \<Longrightarrow> n \<noteq> []"
  by (auto simp: valid_context_def known_def context_of_def buildVariableTypesMap_get split: if_splits)

text \<open>The references among the variables of a store: from a variable to the query variables
  whose text refers to it.\<close>

definition store_refs :: "IDashboardVariables \<Rightarrow> (string \<times> string) set" where
  "store_refs vars = {(p, v). p \<in> dv_name ` set (obj_values vars) \<and>
     (\<exists>x \<in> set (obj_values vars). dv_name x = v \<and> dv_type x = QUERY
        \<and> textContainsVariableReference (dv_queryValue x) p)}"

definition value_selected :: "selected_value \<Rightarrow> bool" where
  "value_selected s \<longleftrightarrow> s \<noteq> SVNull \<and> s \<noteq> SVMany []"

lemma store_context_flag:
  "vs_variables st = vars \<Longrightarrow>
   fc_doAllQueryVariablesHaveValuesSelected (getVariableDependencyContext st)
     \<longleftrightarrow> (\<forall>x \<in> set (obj_values vars). dv_type x = QUERY \<longrightarrow> value_selected (dv_selectedValue x))"
  by (auto simp: getVariableDependencyContext_def list_all_iff has_value_selected_def value_selected_def
      split: selected_value.splits)

lemma store_refs_edges:
  assumes "set vs = set (obj_values vars)" "all_named vs"
  shows "store_refs vars = edges (buildDependencies vs)"
proof -
  have "(p, v) \<in> store_refs vars \<longleftrightarrow> (p, v) \<in> edges (buildDependencies vs)" for p v
    using assms(2) unfolding buildDependencies_edge
    by (auto simp: store_refs_def assms(1) [symmetric] all_named_def list_all_iff)
  then show ?thesis by auto
qed

lemma filter_split:
  "filter P order = xs @ v # ys \<Longrightarrow> \<exists>as bs. order = as @ v # bs \<and> filter P as = xs"
proof (induction order arbitrary: xs)
  case (Cons a order)
  show ?case
  proof (cases "P a \<and> xs = []")
    case True
    with Cons.prems show ?thesis by (auto intro: exI [of _ "[]"])
  next
    case False
    with Cons.prems obtain zs where z: "filter P order = zs @ v # ys" "xs = (if P a then a # zs else zs)"
      by (cases xs) (auto split: if_splits)
    from Cons.IH [OF z(1)] obtain as bs where "order = as @ v # bs" "filter P as = zs" by blast
    with z(2) show ?thesis by (intro exI [of _ "a # as"] exI [of _ bs]) auto
  qed
qed simp

lemma filter_precedes:
  assumes "filter P order = xs @ v # ys" and p: "precedes_all g order"
    and e: "(u, v) \<in> edges g" and u: "u \<in> set (filter P order)"
  shows "u \<in> set xs"
proof -
  from assms(1) obtain as bs where s: "order = as @ v # bs" and f: "filter P as = xs"
    using filter_split [OF assms(1)] by blast
  from p s e have "u \<in> set as" unfolding precedes_all_def by blast
  with u f show ?thesis by auto
qed

lemma query_names:
  assumes "well_named vs"
  shows "is_query (context_of flag dd vs) v \<longleftrightarrow> (\<exists>x \<in> set vs. dv_name x = v \<and> dv_type x = QUERY)"
    and "is_dynamic (context_of flag dd vs) v \<longleftrightarrow> (\<exists>x \<in> set vs. dv_name x = v \<and> dv_type x = DYNAMIC)"
  using assms well_named_type [OF assms]
  by (auto simp: is_query_def is_dynamic_def context_of_def well_named_def elim!: types_SomeD)

lemma store_context_laws:
  assumes st: "derived_consistent st" "vs_variables st = vars"
    and n: "vars \<noteq> []" "\<forall>x \<in> set (obj_values vars). dv_name x \<noteq> []" "distinct (map dv_name (obj_values vars))"
    and a: "acyclic (store_refs vars)"
  shows "\<exists>dd. fc_dependencyData (getVariableDependencyContext st) = Some dd
    \<and> distinct (dd_order dd)
    \<and> set (dd_order dd) = {dv_name x | x. x \<in> set (obj_values vars) \<and> dv_type x = QUERY}
    \<and> (\<forall>xs v ys u. dd_order dd = xs @ v # ys \<and> (u, v) \<in> store_refs vars \<and> u \<in> set (dd_order dd) \<longrightarrow> u \<in> set xs)
    \<and> (\<forall>p v. v \<in> set (children_of (dd_graph dd) p) \<longleftrightarrow> (p, v) \<in> store_refs vars)
    \<and> (\<forall>p v. p \<in> set (children_of (dd_parentDependencyGraph dd) v) \<longleftrightarrow> (p, v) \<in> store_refs vars)
    \<and> (\<forall>x \<in> set (obj_values vars).
         set (children_of (dd_transitiveDescendants dd) (dv_name x)) = (store_refs vars)\<^sup>+ `` {dv_name x}
       \<and> obj_get (fc_variableTypes (getVariableDependencyContext st)) (dv_name x) = Some (dv_type x))
    \<and> set (fc_dynamicVariableOrder (getVariableDependencyContext st))
        = {dv_name x | x. x \<in> set (obj_values vars) \<and> dv_type x = DYNAMIC}
    \<and> (fc_doAllQueryVariablesHaveValuesSelected (getVariableDependencyContext st)
        \<longleftrightarrow> (\<forall>x \<in> set (obj_values vars). dv_type x = QUERY \<longrightarrow> value_selected (dv_selectedValue x)))"
proof -
  let ?c = "getVariableDependencyContext st" and ?vs = "vs_sortedVariablesArray st"
  have s: "set ?vs = set (obj_values vars)" "mset ?vs = mset (obj_values vars)"
    using st by (simp_all add: derived_consistent_def buildSortedVariablesArray_def)
  have "?vs \<noteq> []" using s(1) n(1) by (cases vars) (auto simp: set_obj_values)
  moreover have "distinct (map dv_name ?vs)"
    using n(3) s(2) by (metis mset_map mset_eq_imp_distinct_iff)
  ultimately have wn: "well_named ?vs"
    using n(2) s(1) by (simp add: well_named_def all_named_def list_all_iff)
  then have g: "closed_graph (buildDependencies ?vs)" and named: "all_named ?vs"
    by (simp_all add: well_named_def buildDependencies_closed)
  have refs: "store_refs vars = edges (buildDependencies ?vs)" by (rule store_refs_edges [OF s(1) named])
  with a have ac: "acyclic (edges (buildDependencies ?vs))" by simp
  from context_data [OF st(1) wn] obtain dd flag
    where dd: "buildDependencyData ?vs = Some (Some dd)" and c: "?c = context_of flag (Some dd) ?vs"
    by blast
  note laws = valid_context_laws [OF c wn ac dd]
  note names = query_names [OF wn, of flag "Some dd", folded c]
  from dd obtain d where d: "buildDependencyGraph (buildDependencies ?vs) = Some d"
    and o: "dd_order dd = filter (is_query_name ?vs) (dd_order d)"
    by (rule buildDependencyData_SomeD)
  have t: "topo_ok (buildDependencies ?vs) (dd_order d)" using g d by (rule dd_order_topo)
  have f: "fc_dependencyData ?c = Some dd" by (simp add: c context_of_def)
  show ?thesis
  proof (intro exI [of _ dd] conjI allI ballI impI)
    show "fc_dependencyData ?c = Some dd" by (rule f)
    show "distinct (dd_order dd)" using t by (simp add: o topo_ok_def)
    show "set (dd_order dd) = {dv_name x | x. x \<in> set (obj_values vars) \<and> dv_type x = QUERY}"
      using laws(2) names(1) s(1) by auto
    show "u \<in> set xs" if "dd_order dd = xs @ v # ys \<and> (u, v) \<in> store_refs vars \<and> u \<in> set (dd_order dd)"
      for xs v ys u
      using filter_precedes [of "is_query_name ?vs" "dd_order d"] that t
      unfolding o refs topo_ok_def by blast
    show "v \<in> set (children_of (dd_graph dd) p) \<longleftrightarrow> (p, v) \<in> store_refs vars" for p v
      unfolding refs laws(1) [symmetric] by (simp add: dep_edges_def f edges_def)
    show "p \<in> set (children_of (dd_parentDependencyGraph dd) v) \<longleftrightarrow> (p, v) \<in> store_refs vars" for p v
      unfolding refs by (rule laws(3))
    fix x assume "x \<in> set (obj_values vars)"
    then show t: "obj_get (fc_variableTypes ?c) (dv_name x) = Some (dv_type x)"
      using well_named_type [OF wn] s(1) by (simp add: c context_of_def)
    with laws(4) show "set (children_of (dd_transitiveDescendants dd) (dv_name x)) = (store_refs vars)\<^sup>+ `` {dv_name x}"
      unfolding refs by (auto simp: known_def)
  next
    show "set (fc_dynamicVariableOrder ?c) = {dv_name x | x. x \<in> set (obj_values vars) \<and> dv_type x = DYNAMIC}"
      using stores.dynamics [OF context_valid [OF st(1) wn ac]] names(2) s(1) by auto
  qed (rule store_context_flag [OF st(2)])
qed

section \<open>Responses only\<close>

text \<open>Runs of the machine in which every step is a response for a variable being fetched.\<close>

inductive settle_run :: "VariableFetchContext \<Rightarrow> IVariableFetchStoreState \<Rightarrow> nat \<Rightarrow> IVariableFetchStoreState \<Rightarrow> bool"
  for c where
  stop: "settle_run c st 0 st"
| respond: "active st n \<Longrightarrow> settle_run c (settleVariableFetch c now n res st) k st' \<Longrightarrow> settle_run c st (Suc k) st'"

lemma settle_run_reachable: "settle_run c st k st' \<Longrightarrow> reachable c st \<Longrightarrow> reachable c st'"
  by (induction rule: settle_run.induct) (auto intro: reachable.step fetch_step.settle)

lemma settle_run_bound:
  assumes ok: "valid_context c"
  shows "settle_run c st k st' \<Longrightarrow> reachable c st \<Longrightarrow> unsettled_count st' + k \<le> unsettled_count st"
proof (induction rule: settle_run.induct)
  case (respond st n now res k st')
  have inv: "fetch_inv c st" using stores.reachable_inv [OF ok respond.prems] .
  have "n \<noteq> []" using stores.active_kind [OF inv respond.hyps(1)] valid_context_named [OF ok] by blast
  then have "unsettled_count (settleVariableFetch c now n res st) < unsettled_count st"
    by (rule settle_decreases [OF respond.hyps(1)])
  moreover have "reachable c (settleVariableFetch c now n res st)"
    using respond.prems fetch_step.settle [OF respond.hyps(1)] by (rule reachable.step)
  ultimately show ?case using respond.IH by simp
qed simp

section \<open>Example contexts\<close>

definition typed_var :: "TVariableQueryType \<Rightarrow> string \<Rightarrow> IDashboardVariable" where
  "typed_var t name = (query_var name '''')\<lparr> dv_type := t \<rparr>"

definition store_of :: "IDashboardVariable list \<Rightarrow> IDashboardVariablesStoreState" where
  "store_of vs = the (setDashboardVariablesStore ''id'' (map (\<lambda>v. (dv_name v, v)) vs) variables_initialState)"

definition context_of_vars :: "IDashboardVariable list \<Rightarrow> VariableFetchContext" where
  "context_of_vars vs = getVariableDependencyContext (store_of vs)"

definition chain_context :: VariableFetchContext where
  "chain_context = context_of_vars chain_vars"

lemma chain_store:
  "setDashboardVariablesStore ''id'' (map (\<lambda>v. (dv_name v, v)) chain_vars) variables_initialState
     = Some (store_of chain_vars)"
proof -
  have "\<not> Option.is_none (setDashboardVariablesStore ''id'' (map (\<lambda>v. (dv_name v, v)) chain_vars)
      variables_initialState)"
    by code_simp
  then show ?thesis by (auto simp: store_of_def Option.is_none_def)
qed

lemma valid_chain: "valid_context chain_context"
proof -
  have e: "chain_context = context_of False (Some chain_data) chain_vars"
    unfolding chain_context_def by code_simp
  have "well_named chain_vars" unfolding well_named_def
    by (simp add: chain_named) (simp add: chain_vars_def query_var_def)
  moreover have "buildDependencyData chain_vars = Some (Some chain_data)" by code_simp
  moreover have "acyclic (edges (buildDependencies chain_vars))"
    using chain_acyclic by (simp only: chain_graph_eq)
  ultimately show ?thesis unfolding valid_context_def using e by blast
qed


definition chain_start :: IVariableFetchStoreState where
  "chain_start = new_cycle chain_context False [''a'', ''b'', ''c''] fetch_initialState"

lemma chain_allowed: "cycle_allowed chain_context False [''a'', ''b'', ''c'']"
proof -
  have t: "fc_variableTypes chain_context = [(''a'', QUERY), (''b'', QUERY), (''c'', QUERY)]"
    unfolding chain_context_def by code_simp
  have "known chain_context v \<longleftrightarrow> v \<in> set [''a'', ''b'', ''c'']" for v
    unfolding known_def t by (simp add: obj_get_def)
  moreover have "is_query chain_context ''a''" unfolding is_query_def t by (simp add: obj_get_def)
  ultimately show ?thesis unfolding cycle_allowed_def by blast
qed

lemma chain_reachable: "reachable chain_context chain_start"
  unfolding chain_start_def by (rule reachable.start [OF chain_allowed])

lemma chain_states:
  "fs_states chain_start = [(''a'', Loading), (''b'', Waiting), (''c'', Waiting)]"
  unfolding chain_start_def by code_simp

lemma chain_no_dynamic: "\<forall>(p, v) \<in> dep_edges chain_context. \<not> is_dynamic chain_context p"
proof -
  have "fc_variableTypes chain_context = [(''a'', QUERY), (''b'', QUERY), (''c'', QUERY)]"
    unfolding chain_context_def by code_simp
  then show ?thesis by (auto simp: is_dynamic_def obj_get_def split: if_splits)
qed

section \<open>Properties\<close>

text \<open>C27: Both ways of writing the variables store replace the stored variables by the given ones (the update too, although
  its comment speaks of merging) and give the same store, in which every derived field is the one computed from the
  variables.\<close>

theorem variables_store_consistent:
  "updateDashboardVariablesStore i vars st = setDashboardVariablesStore i vars st'
   \<and> (\<forall>res. updateDashboardVariablesStore i vars st = Some res \<longrightarrow>
        derived_consistent res \<and> vs_dashboardId res = i \<and> vs_variables res = vars)"
  using update_eq_set [of i vars st st'] update_consistent [of i vars st] by auto

theorem variables_store_consistent_witness:
  "derived_consistent (store_of chain_vars) \<and> vs_dashboardId (store_of chain_vars) = ''id''"
  using variables_store_consistent [of "''id''" "map (\<lambda>v. (dv_name v, v)) chain_vars"
      variables_initialState variables_initialState] chain_store by simp

text \<open>C28: Write variables with different non-empty names and without reference cycles into the
  variables store, by \<^verbatim>\<open>setDashboardVariablesStore\<close> or \<^verbatim>\<open>updateDashboardVariablesStore\<close>.  Then the
  context that the fetch store reads has dependency data whose order lists exactly the query
  variables, each once and after the query variables it refers to; its children and parents
  are the references, its descendants their transitive closure; its types are those of the
  variables, its dynamic order lists exactly the dynamic ones, and its flag says whether every
  query variable has a value selected.\<close>

theorem store_context_valid:
  assumes w: "setDashboardVariablesStore i vars st0 = Some st \<or> updateDashboardVariablesStore i vars st0 = Some st"
    and n: "vars \<noteq> []" "\<forall>x \<in> set (obj_values vars). dv_name x \<noteq> []" "distinct (map dv_name (obj_values vars))"
    and a: "acyclic (store_refs vars)"
  shows "\<exists>dd. fc_dependencyData (getVariableDependencyContext st) = Some dd
    \<and> distinct (dd_order dd)
    \<and> set (dd_order dd) = {dv_name x | x. x \<in> set (obj_values vars) \<and> dv_type x = QUERY}
    \<and> (\<forall>xs v ys u. dd_order dd = xs @ v # ys \<and> (u, v) \<in> store_refs vars \<and> u \<in> set (dd_order dd) \<longrightarrow> u \<in> set xs)
    \<and> (\<forall>p v. v \<in> set (children_of (dd_graph dd) p) \<longleftrightarrow> (p, v) \<in> store_refs vars)
    \<and> (\<forall>p v. p \<in> set (children_of (dd_parentDependencyGraph dd) v) \<longleftrightarrow> (p, v) \<in> store_refs vars)
    \<and> (\<forall>x \<in> set (obj_values vars).
         set (children_of (dd_transitiveDescendants dd) (dv_name x)) = (store_refs vars)\<^sup>+ `` {dv_name x}
       \<and> obj_get (fc_variableTypes (getVariableDependencyContext st)) (dv_name x) = Some (dv_type x))
    \<and> set (fc_dynamicVariableOrder (getVariableDependencyContext st))
        = {dv_name x | x. x \<in> set (obj_values vars) \<and> dv_type x = DYNAMIC}
    \<and> (fc_doAllQueryVariablesHaveValuesSelected (getVariableDependencyContext st)
        \<longleftrightarrow> (\<forall>x \<in> set (obj_values vars). dv_type x = QUERY \<longrightarrow> value_selected (dv_selectedValue x)))"
proof -
  have st: "derived_consistent st" "vs_variables st = vars"
    using w set_consistent update_consistent by blast+
  show ?thesis by (rule store_context_laws [OF st n a])
qed

theorem store_context_valid_witness:
  "\<exists>dd. fc_dependencyData chain_context = Some dd \<and> set (dd_order dd) = {''a'', ''b'', ''c''}"
proof -
  let ?vars = "map (\<lambda>v. (dv_name v, v)) chain_vars"
  have v: "obj_values ?vars = chain_vars" by code_simp
  have refs: "store_refs ?vars = edges (buildDependencies chain_vars)"
    by (rule store_refs_edges) (simp_all add: v chain_named)
  have a: "acyclic (store_refs ?vars)" using chain_acyclic unfolding refs chain_graph_eq .
  have n: "?vars \<noteq> []" "\<forall>x \<in> set chain_vars. dv_name x \<noteq> []" "distinct (map dv_name chain_vars)"
    by (simp_all add: chain_vars_def query_var_def)
  obtain dd where "fc_dependencyData (getVariableDependencyContext (store_of chain_vars)) = Some dd"
    "set (dd_order dd) = {dv_name x | x. x \<in> set chain_vars \<and> dv_type x = QUERY}"
    using store_context_valid [OF disjI1 [OF chain_store], unfolded v, OF n a]
    by (elim exE conjE) (rule that)
  moreover have "{dv_name x | x. x \<in> set chain_vars \<and> dv_type x = QUERY}
      = dv_name ` set (filter (\<lambda>x. dv_type x = QUERY) chain_vars)" by auto
  moreover have "dv_name ` set (filter (\<lambda>x. dv_type x = QUERY) chain_vars) = {''a'', ''b'', ''c''}"
    by (simp add: chain_vars_def query_var_def)
  ultimately show ?thesis by (simp add: chain_context_def context_of_vars_def)
qed

text \<open>C2: In every reachable state a waiting query variable has a parent that is not settled, and
  a waiting dynamic variable has a query variable that is not settled.\<close>

theorem waiting_is_justified:
  assumes "valid_context c" "reachable c st" "state_of st v = Some Waiting"
  shows "(is_query c v \<and> (\<exists>p. (p, v) \<in> dep_edges c \<and> unsettled st p))
     \<or> (is_dynamic c v \<and> (\<exists>q. is_query c q \<and> unsettled st q))"
proof -
  have inv: "fetch_inv c st" using assms(1,2) by (rule stores.reachable_inv)
  have "is_query c v \<or> is_dynamic c v"
    using inv assms(3) unfolding fetch_inv_def covers_def plain_settled_def
    by (metis isSettled_simps(4) option.distinct(1))
  then show ?thesis
    using inv assms(3) unfolding fetch_inv_def queries_justified_def dynamics_justified_def by blast
qed

theorem waiting_is_justified_witness:
  "state_of chain_start ''b'' = Some Waiting \<and>
   (\<exists>p. (p, ''b'') \<in> dep_edges chain_context \<and> unsettled chain_start p)"
proof -
  have w: "state_of chain_start ''b'' = Some Waiting" by (simp add: chain_states)
  have "\<not> is_dynamic chain_context ''b''"
    unfolding chain_context_def by code_simp
  with waiting_is_justified [OF valid_chain chain_reachable w] w show ?thesis by blast
qed

text \<open>C1: If no query variable refers to a dynamic variable, the store never deadlocks: in every
  reachable state with an unsettled variable some variable is being fetched.\<close>

theorem fetch_no_deadlock:
  assumes "valid_context c" "reachable c st"
    and "\<forall>(p, v) \<in> dep_edges c. \<not> is_dynamic c p" "unsettled st v"
  shows "\<exists>a. active st a"
  using stores.no_deadlock [OF assms(1) stores.reachable_inv [OF assms(1,2)] assms(3,4)] .

theorem fetch_no_deadlock_witness: "\<exists>a. active chain_start a"
proof -
  have "unsettled chain_start ''c''" by (simp add: unsettled_def chain_states)
  with fetch_no_deadlock [OF valid_chain chain_reachable chain_no_dynamic] show ?thesis .
qed

text \<open>C14: In a valid context, between two user actions at most as many responses are processed as there are unsettled
  variables; and if no query variable refers to a dynamic one, all variables are settled when no fetch is left.  (A query
  variable that refers to a dynamic one can leave both waiting.)\<close>

theorem fetch_cycle_ends:
  assumes "valid_context c" "reachable c st" "settle_run c st k st'"
  shows "k \<le> unsettled_count st \<and>
     ((\<forall>(p, v) \<in> dep_edges c. \<not> is_dynamic c p) \<and> (\<forall>a. \<not> active st' a) \<longrightarrow> (\<forall>v. \<not> unsettled st' v))"
proof -
  have "reachable c st'" using assms(3,2) by (rule settle_run_reachable)
  then show ?thesis
    using settle_run_bound [OF assms(1,3,2)] stores.no_deadlock [OF assms(1) stores.reachable_inv [OF assms(1)]]
    by force
qed

theorem fetch_cycle_ends_witness: "1 \<le> unsettled_count chain_start"
proof -
  have "active chain_start ''a''"
    by (simp add: active_def chain_states isVariableInActiveFetchState_def)
  then have "settle_run chain_context chain_start 1
      (settleVariableFetch chain_context 5 ''a'' Complete chain_start)"
    using settle_run.respond [OF _ settle_run.stop] by fastforce
  with fetch_cycle_ends [OF valid_chain chain_reachable] show ?thesis by blast
qed


definition deadlock_vars :: "IDashboardVariable list" where
  "deadlock_vars = [typed_var TEXTBOX ''x'', typed_var DYNAMIC ''d'', query_var ''q'' ''$x$d'']"

definition deadlock_context :: VariableFetchContext where
  "deadlock_context = context_of_vars deadlock_vars"

definition deadlock_state :: IVariableFetchStoreState where
  "deadlock_state = enqueueDescendantsOfVariable deadlock_context ''x''
     (new_cycle deadlock_context False [''x'', ''d'', ''q''] fetch_initialState)"

lemma deadlock_types:
  "fc_variableTypes deadlock_context = [(''x'', TEXTBOX), (''d'', DYNAMIC), (''q'', QUERY)]"
  unfolding deadlock_context_def by code_simp

text \<open>A dashboard with a text box, a dynamic variable and a query variable that refers to both
  can deadlock: when the user edits the text box while the dynamic variable still waits
  for the query variable, the query variable starts to wait for the dynamic one; no
  fetch is left that could settle either.\<close>

theorem dynamic_parent_deadlock:
  "valid_context deadlock_context \<and> reachable deadlock_context deadlock_state
   \<and> state_of deadlock_state ''d'' = Some Waiting \<and> state_of deadlock_state ''q'' = Some Waiting
   \<and> (\<forall>v. \<not> active deadlock_state v)"
proof -
  have s: "fs_states deadlock_state = [(''x'', Idle), (''d'', Waiting), (''q'', Waiting)]"
    unfolding deadlock_state_def by code_simp
  have g: "buildDependencies deadlock_vars = [(''x'', [''q'']), (''d'', [''q'']), (''q'', [])]"
    by code_simp
  have e: "edges (buildDependencies deadlock_vars) = {(''x'', ''q''), (''d'', ''q'')}"
    unfolding g by (auto simp: edges_def obj_get_or_def split: if_splits)
  have "acyclic (edges (buildDependencies deadlock_vars))"
    unfolding e by (simp add: acyclic_insert rtrancl_insert) (simp add: acyclic_def)
  moreover have "well_named deadlock_vars"
    by (simp add: well_named_def all_named_def deadlock_vars_def typed_var_def query_var_def)
  moreover have "\<not> Option.is_none (setDashboardVariablesStore ''id''
      (map (\<lambda>v. (dv_name v, v)) deadlock_vars) variables_initialState)"
    by code_simp
  then have "setDashboardVariablesStore ''id'' (map (\<lambda>v. (dv_name v, v)) deadlock_vars)
      variables_initialState = Some (store_of deadlock_vars)"
    by (auto simp: store_of_def Option.is_none_def)
  from set_consistent [OF this] have "derived_consistent (store_of deadlock_vars)" by simp
  moreover have "vs_sortedVariablesArray (store_of deadlock_vars) = deadlock_vars" by code_simp
  ultimately have v: "valid_context deadlock_context"
    using context_valid [of "store_of deadlock_vars"]
    by (simp add: deadlock_context_def context_of_vars_def)
  have k: "known deadlock_context n \<longleftrightarrow> n \<in> set [''x'', ''d'', ''q'']" for n
    unfolding known_def deadlock_types by (simp add: obj_get_def)
  have "is_query deadlock_context ''q''"
    unfolding is_query_def deadlock_types by (simp add: obj_get_def)
  with k have "cycle_allowed deadlock_context False [''x'', ''d'', ''q'']"
    unfolding cycle_allowed_def by blast
  from reachable.step [OF reachable.start [OF this] fetch_step.change [of _ "''x''"]] k
  have "reachable deadlock_context deadlock_state" by (simp add: deadlock_state_def)
  moreover have "\<not> active deadlock_state v" for v
    by (simp add: active_def s isVariableInActiveFetchState_def)
  ultimately show ?thesis using v by (simp add: s)
qed

definition two_parents_context :: VariableFetchContext where
  "two_parents_context =
     context_of_vars [query_var ''a'' ''q'', query_var ''b'' ''q'', query_var ''c'' ''$a$b'']"

definition two_parents_start :: IVariableFetchStoreState where
  "two_parents_start = new_cycle two_parents_context False [''a'', ''b'', ''c''] fetch_initialState"

text \<open>A variable with two parents is fetched as soon as the first of them completes, while the
  other parent is still being fetched.\<close>

theorem child_starts_early:
  "fs_states two_parents_start = [(''a'', Loading), (''b'', Loading), (''c'', Waiting)]
   \<and> fs_states (settleVariableFetch two_parents_context 7 ''a'' Complete two_parents_start)
       = [(''a'', Idle), (''b'', Loading), (''c'', Loading)]
   \<and> (''b'', ''c'') \<in> dep_edges two_parents_context"
proof -
  have "fc_dependencyData two_parents_context \<noteq> None \<and>
      children_of (dd_graph (the (fc_dependencyData two_parents_context))) ''b'' = [''c'']"
    unfolding two_parents_context_def by (intro conjI) code_simp+
  then have "(''b'', ''c'') \<in> dep_edges two_parents_context"
    by (auto simp: dep_edges_def edges_def)
  moreover have "fs_states two_parents_start = [(''a'', Loading), (''b'', Loading), (''c'', Waiting)]"
    unfolding two_parents_start_def by code_simp
  moreover have "fs_states (settleVariableFetch two_parents_context 7 ''a'' Complete two_parents_start)
       = [(''a'', Idle), (''b'', Loading), (''c'', Loading)]"
    unfolding two_parents_start_def by code_simp
  ultimately show ?thesis by blast
qed

definition diamond_context :: VariableFetchContext where
  "diamond_context =
     context_of_vars [query_var ''a'' ''q'', query_var ''b'' ''$a$c'', query_var ''c'' ''$a'']"

definition diamond_idle :: IVariableFetchStoreState where
  "diamond_idle = \<lparr> fs_states = [(''a'', Idle), (''b'', Idle), (''c'', Idle)],
     fs_lastUpdated = [(''a'', 1), (''b'', 1), (''c'', 1)],
     fs_cycleIds = [(''a'', 1), (''b'', 1), (''c'', 1)] \<rparr>"

text \<open>The descendants are not visited in breadth-first or topological order: after a change of
  \<^verbatim>\<open>a\<close>, its descendant \<^verbatim>\<open>b\<close> is fetched at once although it also refers to \<^verbatim>\<open>c\<close>, another descendant of
  \<^verbatim>\<open>a\<close> that is refetched in the same update.\<close>

theorem descendants_start_together:
  "fs_states (enqueueDescendantsOfVariable diamond_context ''a'' diamond_idle)
     = [(''a'', Idle), (''b'', Revalidating), (''c'', Revalidating)]"
  unfolding diamond_context_def diamond_idle_def by code_simp

end
