(* ===== verification/VariableOptions.thy ===== *)
theory VariableOptions
  imports DashboardVariable JsString
begin

text \<open>
  The option lists of the variable drop-downs: \<^verbatim>\<open>frontend/src/components/NewSelect/utils.ts\<close>, and
  \<^verbatim>\<open>getOptionsForDynamicVariable\<close>, \<^verbatim>\<open>uniqueOptions\<close>, \<^verbatim>\<open>mergeUniqueStrings\<close> of the \<^verbatim>\<open>util.ts\<close> of the variable
  selection.  An option is a value with a label or a group of options; only the fields
  that the functions read are modelled.
\<close>

datatype OptionData =
  OptionData (od_label: string) (od_value: "string option") (od_options: "OptionData list option")

definition leaf_option :: "string \<Rightarrow> OptionData" where
  "leaf_option s = OptionData s (Some s) None"

section \<open>Operations\<close>

definition getOptionsForDynamicVariable :: "scalar list \<Rightarrow> string list \<Rightarrow> OptionData list" where
  "getOptionsForDynamicVariable normalizedValues relatedValues =
     (let allOptions = map (\<lambda>option. leaf_option (scalar_str option)) normalizedValues in
      if length relatedValues > 0 then
        [OptionData ''Related Values'' (Some ''relatedValues'') (Some (map leaf_option relatedValues)),
         OptionData ''All Values'' (Some ''allValues'') (Some allOptions)]
      else allOptions)"

definition value_or_empty :: "OptionData \<Rightarrow> string" where
  "value_or_empty od = (case od_value od of None \<Rightarrow> [] | Some v \<Rightarrow> v)"

fun unique_step :: "OptionData \<Rightarrow> OptionData list \<times> string list \<Rightarrow> OptionData list \<times> string list" where
  "unique_step od (uniqueOptions, seenValues) =
     (if value_or_empty od \<in> set seenValues then (uniqueOptions, seenValues)
      else (uniqueOptions @ [od], seenValues @ [value_or_empty od]))"

definition uniqueOptions :: "OptionData list \<Rightarrow> OptionData list" where
  "uniqueOptions options = fst (fold unique_step options ([], []))"

definition mergeUniqueStrings :: "scalar list list \<Rightarrow> string list" where
  "mergeUniqueStrings arrays = set_of_list (concat (map (map scalar_str) arrays))"

text \<open>\<^verbatim>\<open>subOption.value && values.includes(subOption.value)\<close>: an empty value is never included.\<close>

definition has_value :: "string list \<Rightarrow> OptionData \<Rightarrow> bool" where
  "has_value values od \<longleftrightarrow>
     (case od_value od of None \<Rightarrow> False | Some v \<Rightarrow> v \<noteq> [] \<and> v \<in> set values)"

text \<open>
  One round of the \<^verbatim>\<open>map\<close> of \<^verbatim>\<open>prioritizeOrAddOptionForSingleSelect\<close>: the rest of the option, if
  any, and the option found so far.
\<close>

definition single_step :: "string \<Rightarrow> OptionData \<Rightarrow> OptionData option \<times> OptionData list \<Rightarrow>
    OptionData option \<times> OptionData list" where
  "single_step value od = (\<lambda>(foundOption, filteredOptions).
     case od_options od of
       Some subs \<Rightarrow>
         let remaining = filter (\<lambda>s. od_value s \<noteq> Some value) subs;
             foundOption' = (case find (\<lambda>s. od_value s = Some value) subs of
               None \<Rightarrow> foundOption | Some e \<Rightarrow> Some e)
         in (foundOption', if length remaining > 0
              then filteredOptions @ [OptionData (od_label od) (od_value od) (Some remaining)]
              else filteredOptions)
     | None \<Rightarrow>
         if od_value od = Some value then (Some od, filteredOptions)
         else (foundOption, filteredOptions @ [od]))"

definition prioritizeOrAddOptionForSingleSelect ::
  "OptionData list \<Rightarrow> string \<Rightarrow> string option \<Rightarrow> OptionData list" where
  "prioritizeOrAddOptionForSingleSelect options value label =
     (case fold (single_step value) options (None, []) of (foundOption, filteredOptions) \<Rightarrow>
        (case foundOption of
           None \<Rightarrow> OptionData (case label of None \<Rightarrow> value | Some l \<Rightarrow> l) (Some value) None
         | Some od \<Rightarrow> od) # filteredOptions)"

definition multi_step :: "string list \<Rightarrow> OptionData \<Rightarrow> OptionData list \<times> OptionData list \<Rightarrow>
    OptionData list \<times> OptionData list" where
  "multi_step values od = (\<lambda>(foundOptions, filteredOptions).
     case od_options od of
       Some subs \<Rightarrow>
         let remaining = filter (\<lambda>s. od_value s \<noteq> None \<and> od_value s \<noteq> Some [] \<and> \<not> has_value values s) subs;
             extracted = filter (has_value values) subs
         in (foundOptions @ extracted,
             if length remaining > 0
             then filteredOptions @ [OptionData (od_label od) (od_value od) (Some remaining)]
             else filteredOptions)
     | None \<Rightarrow>
         if has_value values od then (foundOptions @ [od], filteredOptions)
         else (foundOptions, filteredOptions @ [od]))"

definition prioritizeOrAddOptionForMultiSelect ::
  "OptionData list \<Rightarrow> string list \<Rightarrow> string jsobj option \<Rightarrow> OptionData list" where
  "prioritizeOrAddOptionForMultiSelect options values labels =
     (case fold (multi_step values) options ([], []) of (foundOptions, filteredOptions) \<Rightarrow>
        let missingValues = filter (\<lambda>v. \<not> list_ex (\<lambda>od. od_value od = Some v) foundOptions) values;
            newOptions = map (\<lambda>v. OptionData
              (case labels of None \<Rightarrow> v | Some ls \<Rightarrow> obj_get_or ls v v) (Some v) None) missingValues
        in uniqueOptions (newOptions @ foundOptions) @ filteredOptions)"

definition label_matches :: "string \<Rightarrow> OptionData \<Rightarrow> bool" where
  "label_matches lowerSearchText od = str_includes (toLowerCase (od_label od)) lowerSearchText"

definition filter_option :: "string \<Rightarrow> OptionData \<Rightarrow> OptionData option" where
  "filter_option lowerSearchText od =
     (case od_options od of
        Some subs \<Rightarrow>
          let filtered = filter (label_matches lowerSearchText) subs
          in if length filtered > 0 then Some (OptionData (od_label od) (od_value od) (Some filtered)) else None
      | None \<Rightarrow> if label_matches lowerSearchText od then Some od else None)"

definition filterOptionsBySearch :: "OptionData list \<Rightarrow> string \<Rightarrow> OptionData list" where
  "filterOptionsBySearch options searchText =
     (if js_trim searchText = [] then options
      else List.map_filter (filter_option (toLowerCase searchText)) options)"

section \<open>The options inside the groups\<close>

definition flat :: "OptionData list \<Rightarrow> OptionData list" where
  "flat ods = concat (map (\<lambda>od. case od_options od of None \<Rightarrow> [od] | Some subs \<Rightarrow> subs) ods)"

lemma flat_simps [simp]:
  "flat [] = []" "flat (xs @ ys) = flat xs @ flat ys"
  "flat (OptionData l v None # xs) = OptionData l v None # flat xs"
  "flat (OptionData l v (Some subs) # xs) = subs @ flat xs"
  by (simp_all add: flat_def)

lemma single_step_flat:
  assumes "single_step value od (f, rest) = (f', rest')"
  shows "flat rest' = flat rest @ filter (\<lambda>s. od_value s \<noteq> Some value) (flat [od])"
    and "f' = f \<and> (\<forall>s \<in> set (flat [od]). od_value s \<noteq> Some value)
       \<or> (\<exists>e \<in> set (flat [od]). f' = Some e \<and> od_value e = Some value)"
proof -
  obtain l v os where od: "od = OptionData l v os" by (cases od)
  have "flat rest' = flat rest @ filter (\<lambda>s. od_value s \<noteq> Some value) (flat [od])
    \<and> (f' = f \<and> (\<forall>s \<in> set (flat [od]). od_value s \<noteq> Some value)
       \<or> (\<exists>e \<in> set (flat [od]). f' = Some e \<and> od_value e = Some value))"
  proof (cases os)
    case None
    with assms od show ?thesis by (auto simp: single_step_def split: if_splits)
  next
    case (Some subs)
    show ?thesis
    proof (cases "find (\<lambda>s. od_value s = Some value) subs")
      case None
      with assms od Some have "f' = f" "\<forall>s \<in> set subs. od_value s \<noteq> Some value"
        by (simp_all add: single_step_def Let_def find_None_iff split: if_splits)
      with assms od Some None show ?thesis by (auto simp add: single_step_def Let_def split: if_splits)
    next
      case e: (Some e)
      from find_Some_in_set [OF e] assms od Some e show ?thesis
        by (auto simp add: single_step_def Let_def split: if_splits)
    qed
  qed
  then show "flat rest' = flat rest @ filter (\<lambda>s. od_value s \<noteq> Some value) (flat [od])"
    and "f' = f \<and> (\<forall>s \<in> set (flat [od]). od_value s \<noteq> Some value)
       \<or> (\<exists>e \<in> set (flat [od]). f' = Some e \<and> od_value e = Some value)"
    by simp_all
qed

lemma single_fold:
  "fold (single_step value) ods (f, rest) = (f', rest') \<Longrightarrow>
     flat rest' = flat rest @ filter (\<lambda>s. od_value s \<noteq> Some value) (flat ods)
   \<and> (f' = f \<and> (\<forall>s \<in> set (flat ods). od_value s \<noteq> Some value)
      \<or> (\<exists>e \<in> set (flat ods). f' = Some e \<and> od_value e = Some value))"
proof (induction ods arbitrary: f rest)
  case (Cons od ods)
  obtain f1 r1 where s: "single_step value od (f, rest) = (f1, r1)" by fastforce
  with Cons.prems have "fold (single_step value) ods (f1, r1) = (f', rest')" by simp
  from Cons.IH [OF this] single_step_flat [OF s] show ?case
    using flat_simps(2) [of "[od]" ods] by auto
qed simp

lemma multi_step_flat:
  assumes "multi_step values od (fs, rest) = (fs', rest')"
    and "\<forall>s \<in> set (flat [od]). od_value s \<noteq> None \<and> od_value s \<noteq> Some []"
  shows "flat rest' = flat rest @ filter (\<lambda>s. \<not> has_value values s) (flat [od])"
    and "fs' = fs @ filter (has_value values) (flat [od])"
proof -
  obtain l v os where od: "od = OptionData l v os" by (cases od)
  have "flat rest' = flat rest @ filter (\<lambda>s. \<not> has_value values s) (flat [od])
    \<and> fs' = fs @ filter (has_value values) (flat [od])"
  proof (cases os)
    case None
    with assms(1) od show ?thesis by (auto simp add: multi_step_def split: if_splits)
  next
    case (Some subs)
    with assms(2) od have "filter (\<lambda>s. od_value s \<noteq> None \<and> od_value s \<noteq> Some [] \<and> \<not> has_value values s) subs
        = filter (\<lambda>s. \<not> has_value values s) subs"
      by (intro filter_cong) simp_all
    with assms(1) od Some show ?thesis by (auto simp add: multi_step_def Let_def split: if_splits)
  qed
  then show "flat rest' = flat rest @ filter (\<lambda>s. \<not> has_value values s) (flat [od])"
    and "fs' = fs @ filter (has_value values) (flat [od])"
    by simp_all
qed

lemma multi_fold:
  "fold (multi_step values) ods (fs, rest) = (fs', rest') \<Longrightarrow>
   \<forall>s \<in> set (flat ods). od_value s \<noteq> None \<and> od_value s \<noteq> Some [] \<Longrightarrow>
     flat rest' = flat rest @ filter (\<lambda>s. \<not> has_value values s) (flat ods)
   \<and> fs' = fs @ filter (has_value values) (flat ods)"
proof (induction ods arbitrary: fs rest)
  case (Cons od ods)
  obtain f1 r1 where s: "multi_step values od (fs, rest) = (f1, r1)" by fastforce
  with Cons.prems have f: "fold (multi_step values) ods (f1, r1) = (fs', rest')" by simp
  have m: "\<forall>s \<in> set (flat [od]). od_value s \<noteq> None \<and> od_value s \<noteq> Some []"
    "\<forall>s \<in> set (flat ods). od_value s \<noteq> None \<and> od_value s \<noteq> Some []"
    using Cons.prems(2) flat_simps(2) [of "[od]" ods] by auto
  from Cons.IH [OF f m(2)] multi_step_flat [OF s m(1)] show ?case
    using flat_simps(2) [of "[od]" ods] by simp
qed simp

lemma unique_fold:
  "fold unique_step ods (us, seen) = (us', seen') \<Longrightarrow> seen = map value_or_empty us \<Longrightarrow> distinct seen \<Longrightarrow>
   seen' = map value_or_empty us' \<and> distinct seen' \<and> set us' \<subseteq> set us \<union> set ods
   \<and> set seen' = set seen \<union> value_or_empty ` set ods"
proof (induction ods arbitrary: us seen)
  case (Cons od ods)
  show ?case
  proof (cases "value_or_empty od \<in> set seen")
    case True
    with Cons.prems(1) have "fold unique_step ods (us, seen) = (us', seen')" by simp
    from Cons.IH [OF this Cons.prems(2,3)] True show ?thesis by auto
  next
    case False
    with Cons.prems(1) have "fold unique_step ods (us @ [od], seen @ [value_or_empty od]) = (us', seen')"
      by simp
    from Cons.IH [OF this] Cons.prems(2,3) False show ?thesis by auto
  qed
qed auto

lemma uniqueOptions_distinct:
  "distinct (map value_or_empty (uniqueOptions ods)) \<and> set (uniqueOptions ods) \<subseteq> set ods
   \<and> value_or_empty ` set (uniqueOptions ods) = value_or_empty ` set ods"
proof -
  obtain us seen where f: "fold unique_step ods ([], []) = (us, seen)" by fastforce
  from unique_fold [OF f] f show ?thesis by (auto simp: uniqueOptions_def)
qed

section \<open>Properties\<close>

text \<open>\<^verbatim>\<open>prioritizeOrAddOptionForSingleSelect\<close> puts an option with the selected value first, one
  of the given options if there is one, and keeps exactly the options with another value, in order,
  inside their groups.\<close>

theorem single_select_prioritized:
  "\<exists>top rest. prioritizeOrAddOptionForSingleSelect ods v label = top # rest \<and> od_value top = Some v
   \<and> flat rest = filter (\<lambda>s. od_value s \<noteq> Some v) (flat ods)
   \<and> (top \<in> set (flat ods) \<or> (\<forall>s \<in> set (flat ods). od_value s \<noteq> Some v))"
proof -
  obtain f rest where f: "fold (single_step v) ods (None, []) = (f, rest)" by fastforce
  from single_fold [OF f] f show ?thesis
    by (cases f) (auto simp: prioritizeOrAddOptionForSingleSelect_def)
qed

theorem single_select_prioritized_witness:
  "\<exists>top rest. prioritizeOrAddOptionForSingleSelect [leaf_option ''a'', leaf_option ''b''] ''b'' None = top # rest
   \<and> flat rest = [leaf_option ''a'']"
  using single_select_prioritized [of "[leaf_option ''a'', leaf_option ''b'']" "''b''" None]
  by (auto simp: leaf_option_def)

text \<open>\<^verbatim>\<open>prioritizeOrAddOptionForMultiSelect\<close> puts one option for every selected value first, each value
  once, and then exactly the options that are not selected, in order, inside their groups.\<close>

theorem multi_select_prioritized:
  assumes "\<forall>s \<in> set (flat ods). od_value s \<noteq> None \<and> od_value s \<noteq> Some []" "[] \<notin> set values"
  shows "\<exists>top rest. prioritizeOrAddOptionForMultiSelect ods values labels = top @ rest
   \<and> distinct (map value_or_empty top) \<and> value_or_empty ` set top = set values
   \<and> flat rest = filter (\<lambda>s. \<not> has_value values s) (flat ods)"
proof -
  obtain fs rest where f: "fold (multi_step values) ods ([], []) = (fs, rest)" by fastforce
  from multi_fold [OF f assms(1)]
  have fr: "flat rest = filter (\<lambda>s. \<not> has_value values s) (flat ods)" "fs = filter (has_value values) (flat ods)"
    by simp_all
  let ?missing = "filter (\<lambda>v. \<not> list_ex (\<lambda>od. od_value od = Some v) fs) values"
  let ?new = "map (\<lambda>v. OptionData (case labels of None \<Rightarrow> v | Some ls \<Rightarrow> obj_get_or ls v v) (Some v) None) ?missing"
  have fs: "od_value od = Some (value_or_empty od) \<and> value_or_empty od \<in> set values" if "od \<in> set fs" for od
    using that by (auto simp: fr(2) has_value_def value_or_empty_def split: option.splits)
  have "value_or_empty ` set (?new @ fs) = set ?missing \<union> value_or_empty ` set fs"
    by (auto simp: value_or_empty_def image_Un image_image)
  also have "\<dots> = set values"
    using fs by (force simp: list_ex_iff)
  finally have "value_or_empty ` set (uniqueOptions (?new @ fs)) = set values"
    using uniqueOptions_distinct [of "?new @ fs"] by simp
  moreover have "prioritizeOrAddOptionForMultiSelect ods values labels = uniqueOptions (?new @ fs) @ rest"
    by (simp add: prioritizeOrAddOptionForMultiSelect_def f)
  ultimately show ?thesis
    using uniqueOptions_distinct [of "?new @ fs"] fr(1) by blast
qed

theorem multi_select_prioritized_witness:
  "\<exists>top rest. prioritizeOrAddOptionForMultiSelect [leaf_option ''a'', leaf_option ''b''] [''b'', ''z''] None = top @ rest
   \<and> value_or_empty ` set top = {''b'', ''z''} \<and> flat rest = [leaf_option ''a'']"
  using multi_select_prioritized [of "[leaf_option ''a'', leaf_option ''b'']" "[''b'', ''z'']" None]
  by (auto simp: leaf_option_def has_value_def)

end
