(* ===== verification/VariableSelect.thy ===== *)
theory VariableSelect
  imports VariableOptions
begin

text \<open>
  The drop-down of a variable: \<^verbatim>\<open>useDashboardVariableSelectHelper.ts\<close> with the two strategies of
  \<^verbatim>\<open>variableSelectStrategy\<close> and \<^verbatim>\<open>getSelectValue\<close>, \<^verbatim>\<open>areArraysEqual\<close> from \<^verbatim>\<open>util.ts\<close>, all under
  \<^verbatim>\<open>frontend/src/container/DashboardContainer/DashboardVariablesSelection\<close>.  A handler returns the
  new temporary selection and the call of \<^verbatim>\<open>onValueUpdate\<close> it makes, if any.
\<close>

section \<open>Comparing and converting values\<close>

datatype sel_value = SelStr string | SelArr "string list"

definition ALL_SELECT_VALUE :: string where
  "ALL_SELECT_VALUE = ''__ALL__''"

fun areArraysEqual :: "scalar list \<Rightarrow> scalar list \<Rightarrow> bool" where
  "areArraysEqual [] [] = True"
| "areArraysEqual (x # xs) (y # ys) = (x = y \<and> areArraysEqual xs ys)"
| "areArraysEqual _ _ = False"

definition areArraysEqualIgnoreOrder :: "scalar list \<Rightarrow> scalar list \<Rightarrow> bool" where
  "areArraysEqualIgnoreOrder a b =
     (if length a \<noteq> length b then False
      else sort_key scalar_str a = sort_key scalar_str b)"

fun uniqueValues :: "sel_value \<Rightarrow> sel_value" where
  "uniqueValues (SelArr vals) = SelArr (set_of_list vals)"
| "uniqueValues (SelStr s) = SelStr s"

fun getSelectValue :: "selected_value \<Rightarrow> IDashboardVariable \<Rightarrow> sel_value option" where
  "getSelectValue (SVMany vals) variableData =
     (if \<not> dv_multiSelect variableData \<and> length vals = 1 then Some (SelStr (scalar_str (hd vals)))
      else Some (SelArr (map scalar_str vals)))"
| "getSelectValue (SVOne v) variableData = Some (SelStr (scalar_str v))"
| "getSelectValue SVNull variableData = None"

fun is_empty_sel :: "sel_value \<Rightarrow> bool" where
  "is_empty_sel (SelStr s) = (s = [])"
| "is_empty_sel (SelArr vals) = (vals = [])"

fun as_selected :: "sel_value \<Rightarrow> selected_value" where
  "as_selected (SelStr s) = SVOne (SStr s)"
| "as_selected (SelArr vals) = SVMany (map SStr vals)"

section \<open>Strategies\<close>

record value_update =
  vu_name :: string
  vu_id :: string
  vu_value :: selected_value
  vu_allSelected :: bool
  vu_haveCustomValuesSelected :: "bool option"

definition defaultVariableSelectStrategy ::
  "sel_value \<Rightarrow> IDashboardVariable \<Rightarrow> scalar list \<Rightarrow> string list \<Rightarrow> value_update option" where
  "defaultVariableSelectStrategy value variableData optionsData allAvailableOptionStrings =
     (if dv_name variableData = [] then None
      else
        let isAllSelected = (case value of
              SelStr _ \<Rightarrow> False
            | SelArr vals \<Rightarrow> length vals > 0 \<and> list_all (\<lambda>od. scalar_str od \<in> set vals) optionsData)
        in if isAllSelected \<and> dv_showALLOption variableData
           then Some \<lparr> vu_name = dv_name variableData, vu_id = dv_id variableData,
                  vu_value = SVMany optionsData, vu_allSelected = True, vu_haveCustomValuesSelected = None \<rparr>
           else Some \<lparr> vu_name = dv_name variableData, vu_id = dv_id variableData,
                  vu_value = as_selected value, vu_allSelected = False, vu_haveCustomValuesSelected = None \<rparr>)"

text \<open>\<^verbatim>\<open>value.includes(v)\<close>: membership in an array, but a substring test on a string.\<close>

fun value_includes :: "sel_value \<Rightarrow> string \<Rightarrow> bool" where
  "value_includes (SelArr vals) v = (v \<in> set vals)"
| "value_includes (SelStr s) v = str_includes s v"

definition dynamicVariableSelectStrategy ::
  "sel_value \<Rightarrow> IDashboardVariable \<Rightarrow> scalar list \<Rightarrow> string list \<Rightarrow> value_update option" where
  "dynamicVariableSelectStrategy value variableData optionsData allAvailableOptionStrings =
     (if dv_name variableData = [] then None
      else if (case value of SelStr s \<Rightarrow> s = ALL_SELECT_VALUE | SelArr vals \<Rightarrow> ALL_SELECT_VALUE \<in> set vals)
      then Some \<lparr> vu_name = dv_name variableData, vu_id = dv_id variableData,
             vu_value = SVNull, vu_allSelected = True, vu_haveCustomValuesSelected = None \<rparr>
      else Some \<lparr> vu_name = dv_name variableData, vu_id = dv_id variableData,
             vu_value = as_selected value,
             vu_allSelected = list_all (value_includes value) allAvailableOptionStrings,
             vu_haveCustomValuesSelected = Some (case value of
                 SelStr _ \<Rightarrow> False
               | SelArr vals \<Rightarrow> \<not> list_all (\<lambda>v. v \<in> set allAvailableOptionStrings) vals) \<rparr>)"

type_synonym strategy = "sel_value \<Rightarrow> IDashboardVariable \<Rightarrow> scalar list \<Rightarrow> string list \<Rightarrow> value_update option"

section \<open>The helper\<close>

record select_helper =
  sh_variableData :: IDashboardVariable
  sh_optionsData :: "scalar list"
  sh_strategy :: strategy
  sh_allAvailableOptionStrings :: "string list option"

definition enableSelectAll :: "select_helper \<Rightarrow> bool" where
  "enableSelectAll h \<longleftrightarrow> dv_multiSelect (sh_variableData h) \<and> dv_showALLOption (sh_variableData h)"

definition effectiveAllAvailableOptionStrings :: "select_helper \<Rightarrow> string list" where
  "effectiveAllAvailableOptionStrings h =
     (case sh_allAvailableOptionStrings h of None \<Rightarrow> map scalar_str (sh_optionsData h) | Some xs \<Rightarrow> xs)"

definition selectValue :: "select_helper \<Rightarrow> sel_value option" where
  "selectValue h =
     (if dv_allSelected (sh_variableData h) \<and> enableSelectAll h then Some (SelStr ALL_SELECT_VALUE)
      else getSelectValue (dv_selectedValue (sh_variableData h)) (sh_variableData h))"

definition first_option :: "scalar list \<Rightarrow> sel_value option" where
  "first_option options = (case options of [] \<Rightarrow> None | o1 # _ \<Rightarrow> Some (SelStr (scalar_str o1)))"

definition getDefaultValue :: "select_helper \<Rightarrow> scalar list option \<Rightarrow> sel_value option" where
  "getDefaultValue h overrideOptions =
     (let vd = sh_variableData h;
          options = (case overrideOptions of None \<Rightarrow> sh_optionsData h | Some xs \<Rightarrow> xs)
      in if dv_defaultValue vd \<noteq> [] then Some (SelStr (dv_defaultValue vd))
         else if dv_multiSelect vd \<and> dv_showALLOption vd then Some (SelArr (map scalar_str options))
         else first_option options)"

text \<open>\<^verbatim>\<open>variableData.multiSelect && !inputValue ? [] : inputValue\<close>\<close>

definition normal_input :: "select_helper \<Rightarrow> sel_value \<Rightarrow> sel_value" where
  "normal_input h inputValue =
     (if dv_multiSelect (sh_variableData h) \<and> inputValue = SelStr [] then SelArr [] else inputValue)"

fun same_selection :: "(scalar list \<Rightarrow> scalar list \<Rightarrow> bool) \<Rightarrow> sel_value \<Rightarrow> selected_value \<Rightarrow> bool" where
  "same_selection eq (SelStr s) (SVOne v) = (v = SStr s)"
| "same_selection eq (SelArr vals) (SVMany cur) = eq (map SStr vals) cur"
| "same_selection eq _ _ = False"

definition handleChange :: "select_helper \<Rightarrow> sel_value \<Rightarrow> value_update option" where
  "handleChange h inputValue =
     (let value = normal_input h inputValue in
      if same_selection areArraysEqual value (dv_selectedValue (sh_variableData h)) then None
      else sh_strategy h value (sh_variableData h) (sh_optionsData h) (effectiveAllAvailableOptionStrings h))"

definition handleTempChange :: "select_helper \<Rightarrow> sel_value \<Rightarrow> sel_value option" where
  "handleTempChange h inputValue = Some (uniqueValues (normal_input h inputValue))"

definition handleSingleSelectChange :: "select_helper \<Rightarrow> sel_value \<Rightarrow> value_update option" where
  "handleSingleSelectChange h inputValue =
     (if is_empty_sel inputValue then
        (case getDefaultValue h None of None \<Rightarrow> None | Some d \<Rightarrow> handleChange h d)
      else handleChange h inputValue)"

definition onDropdownVisibleChange ::
  "select_helper \<Rightarrow> bool \<Rightarrow> sel_value option \<Rightarrow> sel_value option \<times> value_update option" where
  "onDropdownVisibleChange h visible tempSelection =
     (let vd = sh_variableData h; allAvailable = effectiveAllAvailableOptionStrings h in
      if visible then
        (if dv_allSelected vd \<and> enableSelectAll h then (Some (SelArr allAvailable), None)
         else (getSelectValue (dv_selectedValue vd) vd, None))
      else case tempSelection of
        None \<Rightarrow> (None, None)
      | Some temp \<Rightarrow>
          let wasAllSelected = enableSelectAll h \<and> dv_allSelected vd;
              isAllSelectedAfter = enableSelectAll h \<and> (case temp of
                  SelStr _ \<Rightarrow> False
                | SelArr vals \<Rightarrow> length vals = length allAvailable \<and> list_all (\<lambda>v. v \<in> set vals) allAvailable)
          in if wasAllSelected \<and> isAllSelectedAfter then (None, None)
             else
               let valueToApply = (if is_empty_sel temp
                     then (case getDefaultValue h None of None \<Rightarrow> temp | Some d \<Rightarrow> d) else temp);
                   hasChanged = (\<not> same_selection areArraysEqualIgnoreOrder valueToApply (dv_selectedValue vd))
               in (None, if hasChanged then handleChange h valueToApply else None))"

definition applyDefaultIfNeeded :: "select_helper \<Rightarrow> scalar list option \<Rightarrow> value_update option" where
  "applyDefaultIfNeeded h overrideOptions =
     (if (case selectValue h of None \<Rightarrow> True | Some v \<Rightarrow> is_empty_sel v) then
        (case getDefaultValue h overrideOptions of None \<Rightarrow> None | Some d \<Rightarrow> handleChange h d)
      else None)"

definition handleClear :: "select_helper \<Rightarrow> value_update option" where
  "handleClear h = handleChange h (SelArr [])"

definition shown_value :: "select_helper \<Rightarrow> sel_value option \<Rightarrow> sel_value option" where
  "shown_value h tempSelection =
     (if dv_multiSelect (sh_variableData h)
      then (case tempSelection of
              None \<Rightarrow> selectValue h
            | Some t \<Rightarrow> if t = SelStr [] then selectValue h else Some t)
      else selectValue h)"

section \<open>Lemmas\<close>

lemma areArraysEqual_iff: "areArraysEqual a b \<longleftrightarrow> a = b"
  by (induction a b rule: areArraysEqual.induct) auto

lemma insort_strings: "insort_key scalar_str (SStr x) (map SStr ys) = map SStr (insort x ys)"
  by (induction ys) auto

lemma sort_strings: "sort_key scalar_str (map SStr xs) = map SStr (sort xs)"
  by (induction xs) (simp_all add: insort_strings)

lemma ignore_order_strings:
  "areArraysEqualIgnoreOrder (map SStr xs) (map SStr ys) \<longleftrightarrow> mset xs = mset ys"
proof -
  have "map SStr (sort xs) = map SStr (sort ys) \<longleftrightarrow> sort xs = sort ys"
    by (simp add: inj_map_eq_map inj_def)
  also have "\<dots> \<longleftrightarrow> mset xs = mset ys"
    by (metis mset_sort properties_for_sort sorted_sort)
  finally show ?thesis
    using mset_eq_length [of xs ys] by (auto simp: areArraysEqualIgnoreOrder_def sort_strings)
qed

lemma close_same:
  assumes "dv_selectedValue (sh_variableData h) = SVMany (map SStr ys)"
    and "mset vals = mset ys" "vals \<noteq> []"
  shows "onDropdownVisibleChange h False (Some (SelArr vals)) = (None, None)"
proof -
  have "areArraysEqualIgnoreOrder (map SStr vals) (map SStr ys)"
    using assms(2) by (simp add: ignore_order_strings)
  then show ?thesis using assms by (simp add: onDropdownVisibleChange_def Let_def)
qed

section \<open>Properties\<close>

text \<open>Closing the drop-down of a multi-select with the values that were selected, in any order,
  makes no update and forgets the temporary selection.\<close>

theorem dropdown_close_same_selection:
  assumes "dv_selectedValue (sh_variableData h) = SVMany (map SStr ys)"
    and "mset vals = mset ys" "vals \<noteq> []"
  shows "onDropdownVisibleChange h False (Some (SelArr vals)) = (None, None)"
  using assms by (rule close_same)

definition sample_helper :: select_helper where
  "sample_helper = \<lparr> sh_variableData = \<lparr> dv_id = ''i'', dv_order = 0, dv_name = ''v'', dv_type = QUERY,
       dv_queryValue = [], dv_multiSelect = True, dv_showALLOption = True,
       dv_selectedValue = SVMany [SStr ''a'', SStr ''b''], dv_allSelected = False, dv_defaultValue = [],
       dv_haveCustomValuesSelected = False, dv_dynamicVariablesAttribute = [] \<rparr>,
     sh_optionsData = [SStr ''a'', SStr ''b'', SStr ''c''],
     sh_strategy = defaultVariableSelectStrategy, sh_allAvailableOptionStrings = None \<rparr>"

theorem dropdown_close_same_selection_witness:
  "onDropdownVisibleChange sample_helper False (Some (SelArr [''b'', ''a''])) = (None, None)"
  by (rule dropdown_close_same_selection [of _ "[''a'', ''b'']"])
    (simp_all add: sample_helper_def add_mset_commute)

text \<open>Opening the drop-down of a multi-select and closing it at once makes no update, whether all
  options are selected or some string values are.\<close>

theorem dropdown_open_close:
  assumes "dv_multiSelect (sh_variableData h)"
    and "dv_selectedValue (sh_variableData h) = SVMany (map SStr ys)" "ys \<noteq> []"
  shows "onDropdownVisibleChange h False (fst (onDropdownVisibleChange h True temp)) = (None, None)"
proof (cases "dv_allSelected (sh_variableData h) \<and> enableSelectAll h")
  case True
  then show ?thesis
    by (auto simp: onDropdownVisibleChange_def Let_def list_all_iff)
next
  case False
  then have "fst (onDropdownVisibleChange h True temp) = Some (SelArr ys)"
    using assms by (auto simp add: onDropdownVisibleChange_def Let_def comp_def)
  then show ?thesis using close_same [OF assms(2), of ys] assms(3) by simp
qed

theorem dropdown_open_close_witness:
  "onDropdownVisibleChange sample_helper False (fst (onDropdownVisibleChange sample_helper True None)) = (None, None)"
  by (rule dropdown_open_close [of _ "[''a'', ''b'']"]) (simp_all add: sample_helper_def)

text \<open>With the default strategy, closing with a changed non-empty selection of a named multi-select
  reports all options as selected exactly when every option is chosen and the variable
  offers ALL; otherwise it reports the chosen values.\<close>

theorem dropdown_close_changed:
  assumes "sh_strategy h = defaultVariableSelectStrategy" "dv_name (sh_variableData h) \<noteq> []"
    and "dv_selectedValue (sh_variableData h) = SVMany (map SStr ys)" "mset vals \<noteq> mset ys" "vals \<noteq> []"
    and "\<not> dv_allSelected (sh_variableData h)"
  shows "\<exists>u. onDropdownVisibleChange h False (Some (SelArr vals)) = (None, Some u)
     \<and> vu_allSelected u = (dv_showALLOption (sh_variableData h)
          \<and> (\<forall>od \<in> set (sh_optionsData h). scalar_str od \<in> set vals))
     \<and> vu_value u = (if vu_allSelected u then SVMany (sh_optionsData h) else SVMany (map SStr vals))"
proof -
  have "\<not> areArraysEqualIgnoreOrder (map SStr vals) (map SStr ys)"
    using assms(4) by (simp add: ignore_order_strings)
  moreover have "\<not> areArraysEqual (map SStr vals) (map SStr ys)"
    using assms(4) by (auto simp: areArraysEqual_iff inj_map_eq_map inj_def)
  ultimately show ?thesis
    using assms by (simp add: onDropdownVisibleChange_def handleChange_def normal_input_def
        defaultVariableSelectStrategy_def Let_def list_all_iff)
qed

theorem dropdown_close_changed_witness:
  "\<exists>u. onDropdownVisibleChange sample_helper False (Some (SelArr [''a'', ''b'', ''c''])) = (None, Some u)
     \<and> vu_allSelected u"
  using dropdown_close_changed [of sample_helper "[''a'', ''b'']" "[''a'', ''b'', ''c'']"]
  by (auto simp: sample_helper_def)

text \<open>The dynamic strategy tests a single selected string with \<^verbatim>\<open>includes\<close>, which is a substring
  test: a custom value that merely contains every available option is reported as ALL.\<close>

theorem dynamic_strategy_substring:
  "map_option vu_allSelected (dynamicVariableSelectStrategy (SelStr ''prod-eu'')
     (sh_variableData sample_helper) [] [''prod'']) = Some True"
  by code_simp

end
