(* ===== verification/VariableUpdate.thy ===== *)
theory VariableUpdate
  imports DashboardVariable JsString
begin

text \<open>
  Writing the variables of a dashboard: \<^verbatim>\<open>useDashboardVariableUpdate.ts\<close> (a value change, a new
  dynamic variable), \<^verbatim>\<open>convertVariablesToDbFormat\<close> and the filter query of
  \<^verbatim>\<open>buildExistingDynamicVariableQuery\<close> from \<^verbatim>\<open>util.ts\<close>, and the payloads of
  \<^verbatim>\<open>container/DashboardContainer/utils.ts\<close> and \<^verbatim>\<open>lib/dashboardVariables/getDashboardVariables.ts\<close>.
  The unique identifier and the time range are arguments.  Requests, local storage and the
  fields that only describe a variable are not modelled.
\<close>

section \<open>Values sent to the backend\<close>

definition variablePropsToPayloadVariables :: "IDashboardVariables \<Rightarrow> selected_value jsobj" where
  "variablePropsToPayloadVariables variables =
     fold (\<lambda>(_, v) payload.
         if dv_name v \<noteq> [] then obj_set (dv_name v) (dv_selectedValue v) payload else payload)
       (obj_entries variables) []"

definition getDashboardVariables ::
  "int \<Rightarrow> int \<Rightarrow> IDashboardVariables option \<Rightarrow> selected_value jsobj" where
  "getDashboardVariables start end_time variables =
     (case variables of
        None \<Rightarrow> []
      | Some vars \<Rightarrow>
          fold (\<lambda>(_, v) tuple.
              if dv_name v \<noteq> [] then
                obj_set (dv_name v)
                  (if dv_type v = DYNAMIC \<and> dv_allSelected v \<and> dv_showALLOption v \<and> dv_multiSelect v
                   then SVOne (SStr ''__all__'') else dv_selectedValue v) tuple
              else tuple)
            (obj_entries vars)
            [(''SIGNOZ_START_TIME'', SVOne (SNum (start * 1000))),
             (''SIGNOZ_END_TIME'', SVOne (SNum (end_time * 1000)))])"

section \<open>Updating the variables\<close>

definition convertVariablesToDbFormat :: "IDashboardVariable list \<Rightarrow> IDashboardVariables" where
  "convertVariablesToDbFormat variblesArr = fold (\<lambda>v result. obj_set (dv_id v) v result) variblesArr []"

definition assign_value :: "selected_value \<Rightarrow> bool \<Rightarrow> bool \<Rightarrow> string \<Rightarrow> IDashboardVariables \<Rightarrow> IDashboardVariables" where
  "assign_value value allSelected haveCustom key variables =
     (case obj_get variables key of
        None \<Rightarrow> variables
      | Some v \<Rightarrow> obj_set key (v\<lparr> dv_selectedValue := value, dv_allSelected := allSelected,
            dv_haveCustomValuesSelected := haveCustom \<rparr>) variables)"

definition onValueUpdate ::
  "string \<Rightarrow> string \<Rightarrow> selected_value \<Rightarrow> bool \<Rightarrow> bool \<Rightarrow> IDashboardVariables \<Rightarrow> IDashboardVariables" where
  "onValueUpdate name i value allSelected haveCustom variables =
     (if i = [] then variables
      else
        let updated = assign_value value allSelected haveCustom i variables
        in assign_value value allSelected haveCustom name updated)"

definition next_order :: "IDashboardVariable list \<Rightarrow> int" where
  "next_order vs =
     (let variableOrderArr = filter (\<lambda>n. n \<noteq> 0) (map dv_order vs)
      in if length variableOrderArr > 0 then foldl max (hd variableOrderArr) (tl variableOrderArr) + 1 else 0)"

text \<open>A row \<^verbatim>\<open>{ key, name: key, ...variable, id }\<close>: a missing name becomes the key.\<close>

definition table_row :: "string \<times> IDashboardVariable \<Rightarrow> IDashboardVariable" where
  "table_row kv = (if dv_name (snd kv) = [] then (snd kv)\<lparr> dv_name := fst kv \<rparr> else snd kv)"

definition new_variable :: "string \<Rightarrow> string \<Rightarrow> selected_value \<Rightarrow> int \<Rightarrow> IDashboardVariable" where
  "new_variable uuid name value ord = \<lparr> dv_id = uuid, dv_order = ord,
     dv_name = name, dv_type = DYNAMIC, dv_queryValue = [], dv_multiSelect = True,
     dv_showALLOption = True, dv_selectedValue = value, dv_allSelected = False,
     dv_defaultValue = [], dv_haveCustomValuesSelected = False,
     dv_dynamicVariablesAttribute = name \<rparr>"

definition createVariable :: "string \<Rightarrow> string \<Rightarrow> selected_value \<Rightarrow> IDashboardVariables \<Rightarrow> IDashboardVariables" where
  "createVariable uuid name value currentVariables =
     (let tableRowData = sort_key dv_order (map table_row (obj_entries currentVariables));
          newVariable = new_variable uuid name value (next_order (obj_values currentVariables))
      in convertVariablesToDbFormat (tableRowData @ [newVariable]))"

section \<open>The filter query of sibling variables\<close>

definition escape_quotes :: "string \<Rightarrow> string" where
  "escape_quotes val = concat (map (\<lambda>c. if c = CHR 0x27 then [CHR 0x5C, CHR 0x27] else [c]) val)"

definition formatQueryValue :: "string \<Rightarrow> string" where
  "formatQueryValue val =
     (if is_finite_number val then val else [CHR 0x27] @ escape_quotes val @ [CHR 0x27])"

definition buildQueryPart :: "string \<Rightarrow> string list \<Rightarrow> string" where
  "buildQueryPart attribute values =
     (let formatted = map formatQueryValue values in
      if length formatted = 1 then attribute @ '' = '' @ hd formatted
      else attribute @ '' IN ['' @ join '', '' formatted @ '']'')"

text \<open>\<^verbatim>\<open>!variable.selectedValue || isEmpty(variable.selectedValue)\<close>: numbers and booleans are empty.\<close>

fun is_blank_value :: "selected_value \<Rightarrow> bool" where
  "is_blank_value SVNull = True"
| "is_blank_value (SVOne (SStr s)) = (s = [])"
| "is_blank_value (SVOne _) = True"
| "is_blank_value (SVMany vals) = (vals = [])"

definition isEligibleFilterVariable :: "IDashboardVariable \<Rightarrow> string \<Rightarrow> bool" where
  "isEligibleFilterVariable variable currentVariableId =
     (if dv_id variable = currentVariableId then False
      else if dv_type variable \<noteq> DYNAMIC then False
      else if dv_dynamicVariablesAttribute variable = [] then False
      else if is_blank_value (dv_selectedValue variable) then False
      else \<not> (dv_showALLOption variable \<and> dv_allSelected variable))"

fun raw_values :: "selected_value \<Rightarrow> scalar list" where
  "raw_values SVNull = []"
| "raw_values (SVOne v) = [v]"
| "raw_values (SVMany vals) = vals"

definition query_parts :: "IDashboardVariable list \<Rightarrow> string \<Rightarrow> string list" where
  "query_parts variables currentVariableId =
     concat (map (\<lambda>v.
        if \<not> isEligibleFilterVariable v currentVariableId then []
        else
          let validValues = map scalar_str (filter (\<lambda>x. x \<noteq> SStr []) (raw_values (dv_selectedValue v)))
          in if length validValues > 0 \<and> dv_dynamicVariablesAttribute v \<noteq> []
             then [buildQueryPart (dv_dynamicVariablesAttribute v) validValues] else []) variables)"

definition buildExistingDynamicVariableQuery ::
  "IDashboardVariables option \<Rightarrow> string \<Rightarrow> bool \<Rightarrow> string" where
  "buildExistingDynamicVariableQuery existingVariables currentVariableId hasDynamicAttribute =
     (case existingVariables of
        None \<Rightarrow> []
      | Some vars \<Rightarrow> if \<not> hasDynamicAttribute then []
          else join '' AND '' (query_parts (obj_values vars) currentVariableId))"

section \<open>Reading a quoted value back\<close>

text \<open>A quoted literal ends at the first quote that no backslash precedes.\<close>

fun read_quoted :: "string \<Rightarrow> (string \<times> string) option" where
  "read_quoted [] = None"
| "read_quoted (c # s) =
     (if c = CHR 0x27 then Some ([], s)
      else if c = CHR 0x5C then
        (case s of [] \<Rightarrow> None
         | d # s' \<Rightarrow> map_option (\<lambda>(v, r). (d # v, r)) (read_quoted s'))
      else map_option (\<lambda>(v, r). (c # v, r)) (read_quoted s))"

lemma escape_Cons: "escape_quotes (c # s) = (if c = CHR 0x27 then [CHR 0x5C, CHR 0x27] else [c]) @ escape_quotes s"
  by (simp add: escape_quotes_def)

lemma read_escaped:
  "CHR 0x5C \<notin> set val \<Longrightarrow> read_quoted (escape_quotes val @ CHR 0x27 # rest) = Some (val, rest)"
proof (induction val)
  case Nil
  then show ?case by (simp add: escape_quotes_def)
next
  case (Cons c val)
  then show ?case by (auto simp: escape_Cons)
qed

lemma assign_value_get:
  "obj_get (assign_value x a h k vars) k' =
     (if k' = k then map_option (\<lambda>v. v\<lparr> dv_selectedValue := x, dv_allSelected := a, dv_haveCustomValuesSelected := h \<rparr>)
        (obj_get vars k) else obj_get vars k')"
  by (simp add: assign_value_def split: option.splits)

lemma convert_get:
  assumes "distinct (map dv_id vs)"
  shows "obj_get (convertVariablesToDbFormat vs) i = find (\<lambda>v. dv_id v = i) vs"
  using assms
proof (induction vs rule: rev_induct)
  case (snoc v vs)
  have "find (\<lambda>x. dv_id x = i) vs = None" if "dv_id v = i"
    using snoc.prems that by (auto simp: find_None_iff) (metis imageI)
  moreover have "find P (xs @ [y]) = (case find P xs of None \<Rightarrow> if P y then Some y else None | Some z \<Rightarrow> Some z)" for P xs and y :: IDashboardVariable
    by (induction xs) auto
  ultimately show ?case
    using snoc by (auto simp: convertVariablesToDbFormat_def split: option.splits)
qed (simp add: convertVariablesToDbFormat_def)

lemma foldl_max: "foldl max (a :: int) xs \<ge> a \<and> (\<forall>x \<in> set xs. x \<le> foldl max a xs)"
  by (induction xs arbitrary: a) (auto intro: order.trans [OF max.cobounded1] order.trans [OF max.cobounded2])

lemma next_order_above:
  assumes "dv_order w > 0" "w \<in> set vs" "v \<in> set vs"
  shows "dv_order v < next_order vs"
proof -
  let ?os = "filter (\<lambda>n. n \<noteq> 0) (map dv_order vs)"
  have w: "dv_order w \<in> set ?os" using assms by auto
  then obtain x xs where os: "?os = x # xs" by (cases ?os) auto
  then have n: "next_order vs = foldl max x xs + 1" by (simp add: next_order_def)
  have all: "y \<le> foldl max x xs" if "y \<in> set ?os" for y
    using that foldl_max [of x xs] unfolding os by auto
  show ?thesis
  proof (cases "dv_order v = 0")
    case True
    with all [OF w] assms(1) n show ?thesis by simp
  next
    case False
    with assms(3) have "dv_order v \<in> set ?os" by simp
    with all n show ?thesis by fastforce
  qed
qed


lemma table_row_id [simp]: "dv_id (table_row kv) = dv_id (snd kv)"
  by (simp add: table_row_def)

lemma find_own:
  "distinct (map f xs) \<Longrightarrow> w \<in> set xs \<Longrightarrow> find (\<lambda>x. f x = f w) xs = Some w"
  by (induction xs) (auto simp: image_iff)

lemma createVariable_get:
  assumes "distinct (map (dv_id \<circ> snd) vars)" "uuid \<notin> (dv_id \<circ> snd) ` set vars"
    and w: "w \<in> table_row ` set vars \<or> w = new_variable uuid name value (next_order (obj_values vars))"
  shows "obj_get (createVariable uuid name value vars) (dv_id w) = Some w"
proof -
  let ?rows = "sort_key dv_order (map table_row (obj_entries vars))"
    and ?new = "new_variable uuid name value (next_order (obj_values vars))"
  have "mset (map dv_id ?rows) = image_mset (dv_id \<circ> snd) (mset vars)"
    by (simp add: multiset.map_comp comp_def)
  then have "mset (map dv_id ?rows) = mset (map (dv_id \<circ> snd) vars)" by simp
  then have "distinct (map dv_id ?rows)" "set (map dv_id ?rows) = set (map (dv_id \<circ> snd) vars)"
    using assms(1) mset_eq_imp_distinct_iff mset_eq_setD by metis+
  then have d: "distinct (map dv_id (?rows @ [?new]))"
    using assms(2) by (simp add: new_variable_def)
  have "w \<in> set (?rows @ [?new])" using w by auto
  from find_own [OF d this] show ?thesis
    by (simp add: createVariable_def Let_def convert_get [OF d])
qed

section \<open>Properties\<close>

text \<open>C31: A value that is not a number and has no backslash is quoted so that reading the literal back
  gives the value, whatever quotes it contains and whatever follows.\<close>

theorem formatQueryValue_roundtrip:
  assumes "\<not> is_finite_number val" "CHR 0x5C \<notin> set val"
  shows "\<exists>lit. formatQueryValue val = CHR 0x27 # lit \<and> read_quoted (lit @ rest) = Some (val, rest)"
  using assms read_escaped [of val rest] by (simp add: formatQueryValue_def)

theorem formatQueryValue_roundtrip_witness:
  "\<exists>lit. formatQueryValue [CHR ''a'', CHR 0x27, CHR ''b''] = CHR 0x27 # lit
     \<and> read_quoted (lit @ '' AND x'') = Some ([CHR ''a'', CHR 0x27, CHR ''b''], '' AND x'')"
  by (rule formatQueryValue_roundtrip) code_simp+

text \<open>The backslash is not escaped: a value that ends in one swallows the closing quote of its literal.\<close>

theorem formatQueryValue_backslash:
  "formatQueryValue [CHR ''a'', CHR 0x5C] = [CHR 0x27, CHR ''a'', CHR 0x5C, CHR 0x27]
   \<and> read_quoted [CHR ''a'', CHR 0x5C, CHR 0x27] = None"
  by code_simp

text \<open>\<^verbatim>\<open>createVariable\<close> keeps every variable of the dashboard under its identifier and adds the new
  one; when some variable has a positive order, the new one comes after all of them.\<close>

theorem createVariable_adds:
  assumes "distinct (map (dv_id \<circ> snd) vars)" "uuid \<notin> (dv_id \<circ> snd) ` set vars"
  shows "(\<forall>kv \<in> set vars. obj_get (createVariable uuid name value vars) (dv_id (snd kv)) = Some (table_row kv))
   \<and> (\<exists>new. obj_get (createVariable uuid name value vars) uuid = Some new \<and> dv_name new = name
        \<and> ((\<exists>kv \<in> set vars. dv_order (snd kv) > 0) \<longrightarrow> (\<forall>kv \<in> set vars. dv_order (snd kv) < dv_order new)))"
proof -
  let ?new = "new_variable uuid name value (next_order (obj_values vars))"
  have "obj_get (createVariable uuid name value vars) uuid = Some ?new"
    using createVariable_get [OF assms, of ?new name "value"] by (simp add: new_variable_def)
  moreover have "dv_order (snd kv) < dv_order ?new"
    if "kv' \<in> set vars" "dv_order (snd kv') > 0" "kv \<in> set vars" for kv kv'
    using next_order_above [OF that(2)] that by (simp add: new_variable_def set_obj_values)
  ultimately show ?thesis
    using createVariable_get [OF assms, of "table_row _" name "value"] by (auto simp: new_variable_def)
qed

definition two_rows :: IDashboardVariables where
  "two_rows = [(''i'', new_variable ''i'' ''a'' SVNull 2), (''j'', new_variable ''j'' ''b'' SVNull 1)]"

theorem createVariable_adds_witness:
  "\<exists>new. obj_get (createVariable ''k'' ''c'' SVNull two_rows) ''k'' = Some new \<and> dv_order new > 2"
  using createVariable_adds [of two_rows "''k''" "''c''" SVNull]
  by (auto simp: two_rows_def new_variable_def)

text \<open>Orders of zero are skipped when the next order is computed, so variables created one after
  the other on a dashboard without variables all get the order zero.\<close>

theorem createVariable_order_zero:
  "map (\<lambda>(k, v). (k, dv_order v)) (createVariable ''j'' ''b'' SVNull (createVariable ''i'' ''a'' SVNull []))
     = [(''i'', 0), (''j'', 0)]"
  by code_simp

text \<open>A value change writes the value and the flags of the variable stored under the identifier or
  the name and of no other, and keeps everything else of it.\<close>

theorem onValueUpdate_get:
  "obj_get (onValueUpdate name i value allSel custom vars) k =
     (if i \<noteq> [] \<and> (k = i \<or> k = name)
      then map_option (\<lambda>v. v\<lparr> dv_selectedValue := value, dv_allSelected := allSel,
             dv_haveCustomValuesSelected := custom \<rparr>) (obj_get vars k)
      else obj_get vars k)"
  by (cases "obj_get vars k") (auto simp add: onValueUpdate_def Let_def assign_value_get)

end
