(* ===== verification/LogQL.thy ===== *)
theory LogQL
  imports JsString "HOL-Library.Word"
begin

text \<open>
  The query language of the logs page: \<^verbatim>\<open>splitter\<close>, \<^verbatim>\<open>parseQuery\<close>, \<^verbatim>\<open>reverseParser\<close> and the token checks of
  \<^verbatim>\<open>frontend/src/lib/logql\<close>, and the fields of the search form of
  \<^verbatim>\<open>frontend/src/container/LogsSearchFilter/SearchFields/utils.ts\<close>.  A loop over the characters of
  a string is a fold over its indices.  The two errors of the parser are a sum type; a result
  of \<^verbatim>\<open>None\<close> of \<^verbatim>\<open>reverseParser\<close> is a \<^verbatim>\<open>TypeError\<close>.
\<close>

section \<open>Tokens\<close>

datatype QueryType = QUERY_KEY | QUERY_OPERATOR | QUERY_VALUE | CONDITIONAL_OPERATOR

datatype field_value = VNull | VStr string | VList "string list"

record query_field =
  qf_type :: QueryType
  qf_value :: field_value

definition NumTypeQueryOperators :: "string list" where
  "NumTypeQueryOperators = [''GTE'', ''GT'', ''LTE'', ''LT'']"

definition StringTypeQueryOperators :: "string list" where
  "StringTypeQueryOperators = [''CONTAINS'', ''NCONTAINS'']"

definition QueryOperatorsSingleVal :: "string list" where
  "QueryOperatorsSingleVal = [''GTE'', ''GT'', ''LTE'', ''LT'', ''CONTAINS'', ''NCONTAINS'']"

definition QueryOperatorsMultiVal :: "string list" where
  "QueryOperatorsMultiVal = [''IN'', ''NIN'']"

definition ConditionalOperators :: "string list" where
  "ConditionalOperators = [''AND'', ''OR'']"

definition ValidTypeValue :: "string option \<Rightarrow> field_value \<Rightarrow> bool" where
  "ValidTypeValue oper value =
     (case oper of
        None \<Rightarrow> True
      | Some op' \<Rightarrow>
          if op' = [] then True
          else if op' \<in> set NumTypeQueryOperators then
            (case value of VList _ \<Rightarrow> False | VStr s \<Rightarrow> is_number s | VNull \<Rightarrow> True)
          else True)"

definition ValidTypeSequence :: "QueryType option \<Rightarrow> QueryType \<Rightarrow> QueryType option \<Rightarrow> bool" where
  "ValidTypeSequence prior current next_type =
     (case current of
        QUERY_KEY \<Rightarrow> (case prior of None \<Rightarrow> True | Some p \<Rightarrow> p = CONDITIONAL_OPERATOR)
      | QUERY_OPERATOR \<Rightarrow> prior = Some QUERY_KEY \<and> next_type = Some QUERY_VALUE
      | QUERY_VALUE \<Rightarrow> prior = Some QUERY_OPERATOR
      | CONDITIONAL_OPERATOR \<Rightarrow> next_type = Some QUERY_KEY)"

section \<open>The splitter\<close>

text \<open>\<^verbatim>\<open>s.slice(i, j)\<close> for indices that are not negative.\<close>

definition slice :: "string \<Rightarrow> nat \<Rightarrow> nat \<Rightarrow> string" where
  "slice s i j = take (j - i) (drop i s)"

record split_state =
  sp_parts :: "string list"
  sp_start :: nat
  sp_bracket :: bool
  sp_quote :: bool

definition pushPart :: "string \<Rightarrow> nat \<Rightarrow> split_state \<Rightarrow> split_state" where
  "pushPart q idx st = st\<lparr> sp_parts := sp_parts st @ [slice q (sp_start st) idx], sp_start := idx + 1 \<rparr>"

text \<open>\<^verbatim>\<open>queryString[idx - 1] !== '\\'\<close>: true at the first index.\<close>

definition not_escaped :: "string \<Rightarrow> nat \<Rightarrow> bool" where
  "not_escaped q idx \<longleftrightarrow> idx = 0 \<or> q ! (idx - 1) \<noteq> CHR 0x5C"

definition split_step :: "string \<Rightarrow> nat \<Rightarrow> split_state \<Rightarrow> split_state" where
  "split_step q idx st =
     (let currentChar = q ! idx in
      if currentChar = CHR '' '' then
        (if \<not> sp_bracket st \<and> \<not> sp_quote st then pushPart q idx st else st)
      else if currentChar = CHR ''('' then st\<lparr> sp_bracket := True \<rparr>
      else if currentChar = CHR '')'' then
        (let st1 = (if not_escaped q idx then (pushPart q (idx + 1) st)\<lparr> sp_bracket := False \<rparr> else st)
         in if sp_quote st1 then st1\<lparr> sp_quote := False \<rparr> else st1)
      else if currentChar = CHR 0x27 then
        (if sp_quote st then
           (if not_escaped q idx \<and> \<not> sp_bracket st
            then (pushPart q (idx + 1) st)\<lparr> sp_quote := False \<rparr> else st)
         else st\<lparr> sp_quote := True \<rparr>)
      else st)"

definition split_init :: split_state where
  "split_init = \<lparr> sp_parts = [], sp_start = 0, sp_bracket = False, sp_quote = False \<rparr>"

definition split_finish :: "string \<Rightarrow> split_state \<Rightarrow> string list" where
  "split_finish q st =
     (let st1 = (if sp_start st < length q then pushPart q (length q) st else st)
      in filter (\<lambda>s. s \<noteq> []) (sp_parts st1))"

definition splitter :: "string \<Rightarrow> string list" where
  "splitter queryString =
     split_finish queryString (fold (split_step queryString) [0..<length queryString] split_init)"

section \<open>The parser\<close>

datatype parse_error = ErrorInvalidQueryPair | ErrorConvertToFullText

text \<open>The loop of \<^verbatim>\<open>validateMultiValue\<close>: the values found, the start of the open one, the open flag.\<close>

definition multi_value_step :: "string \<Rightarrow> nat \<Rightarrow> string list \<times> nat \<times> bool \<Rightarrow> string list \<times> nat \<times> bool" where
  "multi_value_step q idx = (\<lambda>(queryValues, start, isQuoteStart).
     if q ! idx = CHR 0x27 then
       (if q ! (idx - 1) = CHR 0x5C then (queryValues, start, isQuoteStart)
        else if isQuoteStart then (queryValues @ [slice q start idx], start, False)
        else (queryValues, idx + 1, True))
     else (queryValues, start, isQuoteStart))"

definition validateMultiValue :: "string \<Rightarrow> string list option" where
  "validateMultiValue queryToken =
     (if queryToken \<noteq> [] \<and> hd queryToken = CHR ''('' \<and> last queryToken = CHR '')''
      then Some (fst (fold (multi_value_step queryToken) [1..<length queryToken - 1] ([], 0, False)))
      else None)"

definition is_one_of :: "string list \<Rightarrow> string \<Rightarrow> bool" where
  "is_one_of ops token \<longleftrightarrow> list_ex (\<lambda>oper. toLowerCase oper = toLowerCase token) ops"

definition text_of :: "field_value \<Rightarrow> string" where
  "text_of v = (case v of VStr s \<Rightarrow> s | _ \<Rightarrow> [])"

definition generateQuery :: "query_field list \<Rightarrow> string \<Rightarrow> parse_error + query_field list" where
  "generateQuery parsedRaw queryToken =
     (if parsedRaw = [] \<or> qf_type (last parsedRaw) = CONDITIONAL_OPERATOR then
        Inr (parsedRaw @ [\<lparr> qf_type = QUERY_KEY, qf_value = VStr queryToken \<rparr>])
      else case qf_type (last parsedRaw) of
        QUERY_KEY \<Rightarrow>
          if is_one_of (QueryOperatorsMultiVal @ QueryOperatorsSingleVal) queryToken
          then Inr (parsedRaw @ [\<lparr> qf_type = QUERY_OPERATOR, qf_value = VStr queryToken \<rparr>])
          else Inl ErrorInvalidQueryPair
      | QUERY_OPERATOR \<Rightarrow>
          if is_one_of QueryOperatorsMultiVal (text_of (qf_value (last parsedRaw))) then
            (case validateMultiValue queryToken of
               None \<Rightarrow> Inl ErrorConvertToFullText
             | Some vals \<Rightarrow> Inr (parsedRaw @ [\<lparr> qf_type = QUERY_VALUE, qf_value = VList vals \<rparr>]))
          else Inr (parsedRaw @ [\<lparr> qf_type = QUERY_VALUE, qf_value = VStr queryToken \<rparr>])
      | QUERY_VALUE \<Rightarrow>
          if is_one_of ConditionalOperators queryToken
          then Inr (parsedRaw @ [\<lparr> qf_type = CONDITIONAL_OPERATOR, qf_value = VStr queryToken \<rparr>])
          else Inl ErrorInvalidQueryPair
      | CONDITIONAL_OPERATOR \<Rightarrow> Inr parsedRaw)"

text \<open>The \<^verbatim>\<open>forEach\<close> under \<^verbatim>\<open>try\<close>: the tokens parsed so far, and the error that ended it, if any.\<close>

fun generate_all :: "query_field list \<Rightarrow> string list \<Rightarrow> query_field list \<times> parse_error option" where
  "generate_all parsedRaw [] = (parsedRaw, None)"
| "generate_all parsedRaw (q # qs) =
     (case generateQuery parsedRaw q of
        Inl e \<Rightarrow> (parsedRaw, Some e)
      | Inr parsedRaw' \<Rightarrow> generate_all parsedRaw' qs)"

definition full_text :: "string \<Rightarrow> query_field list" where
  "full_text queryString =
     [\<lparr> qf_type = QUERY_KEY, qf_value = VStr ''FULLTEXT'' \<rparr>,
      \<lparr> qf_type = QUERY_OPERATOR, qf_value = VStr ''CONTAINS'' \<rparr>,
      \<lparr> qf_type = QUERY_VALUE, qf_value = VStr queryString \<rparr>]"

definition parseQuery :: "string \<Rightarrow> query_field list" where
  "parseQuery queryString =
     (case generate_all [] (splitter queryString) of
        (parsedRaw, None) \<Rightarrow> parsedRaw
      | (parsedRaw, Some ErrorInvalidQueryPair) \<Rightarrow> parsedRaw
      | (parsedRaw, Some ErrorConvertToFullText) \<Rightarrow> full_text queryString)"

section \<open>The reverse parser\<close>

definition quoted :: "string \<Rightarrow> string" where
  "quoted val = [CHR 0x27] @ val @ [CHR 0x27]"

definition reverse_token :: "query_field option \<Rightarrow> query_field \<Rightarrow> string option" where
  "reverse_token lastToken query =
     (case qf_value query of
        VList (v # vs) \<Rightarrow> Some (''('' @ join '','' (map quoted (v # vs)) @ '')'')
      | value \<Rightarrow>
          if qf_type query = QUERY_VALUE then
            (case lastToken of
               None \<Rightarrow> None
             | Some l \<Rightarrow>
                 if qf_type l = QUERY_OPERATOR \<and> (\<exists>s \<in> set StringTypeQueryOperators. qf_value l = VStr s) then
                   (case value of
                      VStr s \<Rightarrow> Some (quoted (filter (\<lambda>c. c \<noteq> CHR 0x27) s))
                    | VNull \<Rightarrow> Some (quoted ''undefined'')
                    | VList _ \<Rightarrow> None)
                 else Some (case value of VStr s \<Rightarrow> s | VNull \<Rightarrow> ''null'' | VList _ \<Rightarrow> []))
          else Some (case value of VStr s \<Rightarrow> s | VNull \<Rightarrow> ''null'' | VList _ \<Rightarrow> []))"

fun reverse_loop :: "string \<Rightarrow> query_field option \<Rightarrow> query_field list \<Rightarrow> string option" where
  "reverse_loop queryString lastToken [] = Some queryString"
| "reverse_loop queryString lastToken (query # queries) =
     (let prefix = (if queryString \<noteq> [] then queryString @ '' '' else queryString) in
      case reverse_token lastToken query of
        None \<Rightarrow> None
      | Some s \<Rightarrow> reverse_loop (prefix @ s) (Some query) queries)"

definition reverseParser :: "query_field list \<Rightarrow> string option" where
  "reverseParser parserQueryArr = reverse_loop [] None parserQueryArr"

end
