(* ===== verification/LogQLProperties.thy ===== *)
theory LogQLProperties
  imports LogQL
begin

text \<open>
  The grammar of what \<^verbatim>\<open>parseQuery\<close> returns, and the round trip through \<^verbatim>\<open>reverseParser\<close> for queries
  made of three kinds of parts: plain words, quoted words and bracketed lists.
\<close>

section \<open>Running the splitter over one part\<close>

definition special :: "char set" where
  "special = {CHR '' '', CHR ''('', CHR '')'', CHR 0x27}"

definition plain_part :: "string \<Rightarrow> bool" where
  "plain_part w \<longleftrightarrow> set w \<inter> special = {}"

definition quoted_part :: "string \<Rightarrow> bool" where
  "quoted_part w \<longleftrightarrow> (\<exists>body. w = quoted body \<and> set body \<inter> {CHR ''('', CHR '')'', CHR 0x27} = {}
     \<and> (body = [] \<or> last body \<noteq> CHR 0x5C))"

definition bracket_part :: "string \<Rightarrow> bool" where
  "bracket_part w \<longleftrightarrow> (\<exists>body. w = ''('' @ body @ '')'' \<and> CHR '')'' \<notin> set body
     \<and> (body = [] \<or> last body \<noteq> CHR 0x5C))"

lemma upt_split: "a \<le> b \<Longrightarrow> b \<le> c \<Longrightarrow> [a..<c] = [a..<b] @ [b..<c]"
  using upt_add_eq_append [of a b "c - b"] by simp

lemma fold_same: "(\<And>i. i \<in> set is \<Longrightarrow> f i st = st) \<Longrightarrow> fold f is st = st"
  by (induction "is") auto

definition at_part :: "string \<Rightarrow> nat \<Rightarrow> string \<Rightarrow> bool" where
  "at_part q a w \<longleftrightarrow> a + length w \<le> length q \<and> slice q a (a + length w) = w"

lemma at_part_nth: "at_part q a w \<Longrightarrow> i < length w \<Longrightarrow> q ! (a + i) = w ! i"
  unfolding at_part_def slice_def
  by (metis add_diff_cancel_left' add_leD1 nth_drop nth_take)

lemma at_part_append: "at_part (pre @ w @ post) (length pre) w"
  by (simp add: at_part_def slice_def)

definition fresh :: "split_state \<Rightarrow> nat \<Rightarrow> bool" where
  "fresh st a \<longleftrightarrow> sp_start st = a \<and> \<not> sp_bracket st \<and> \<not> sp_quote st"

lemma run_plain:
  assumes "plain_part w" "at_part q a w"
  shows "fold (split_step q) [a..<a + length w] st = st"
proof (rule fold_same)
  fix i assume "i \<in> set [a..<a + length w]"
  then obtain j where j: "i = a + j" "j < length w" by (auto simp: le_iff_add)
  with at_part_nth [OF assms(2) j(2)] have "q ! i \<in> set w" by simp
  with assms(1) show "split_step q i st = st"
    by (auto simp: plain_part_def special_def split_step_def Let_def)
qed

text \<open>A part between an opening and a closing character.\<close>

lemma upt_ends: "[a..<a + length (x # body @ [y])] = a # [Suc a..<Suc a + length body] @ [Suc a + length body]"
proof -
  have "[a..<a + length (x # body @ [y])] = a # [Suc a..<Suc (Suc a + length body)]"
    by (simp add: upt_rec)
  then show ?thesis by simp
qed

lemma at_part_body:
  assumes "at_part q a (x # body @ [y])"
  shows "q ! a = x" and "q ! (Suc a + length body) = y"
    and "i \<in> set [Suc a..<Suc a + length body] \<Longrightarrow> q ! i \<in> set body"
    and "q ! (a + length body) = (if body = [] then x else last body)"
proof -
  note n = at_part_nth [OF assms]
  show "q ! a = x" using n [of 0] by simp
  show "q ! (Suc a + length body) = y" using n [of "Suc (length body)"] by (simp add: nth_append)
  show "q ! i \<in> set body" if i: "i \<in> set [Suc a..<Suc a + length body]"
  proof -
    obtain j where "i = a + Suc j" "j < length body" using i by (auto simp: le_iff_add)
    then show ?thesis using n [of "Suc j"] by (simp add: nth_append)
  qed
  show "q ! (a + length body) = (if body = [] then x else last body)"
    using n [of "length body"] by (cases body rule: rev_cases) (simp_all add: nth_append nth_Cons')
qed

definition closed_state :: "split_state \<Rightarrow> nat \<Rightarrow> string \<Rightarrow> split_state" where
  "closed_state st a w = st\<lparr> sp_parts := sp_parts st @ [w], sp_start := a + length w + 1 \<rparr>"

lemma run_quoted:
  assumes "quoted_part w" "at_part q a w" "fresh st a"
  shows "fold (split_step q) [a..<a + length w] st = closed_state st a w"
proof -
  from assms(1) obtain body where w: "w = CHR 0x27 # body @ [CHR 0x27]"
    and b: "set body \<inter> {CHR ''('', CHR '')'', CHR 0x27} = {}" "body = [] \<or> last body \<noteq> CHR 0x5C"
    by (auto simp: quoted_part_def quoted_def)
  note at = at_part_body [OF assms(2) [unfolded w]]
  let ?st = "st\<lparr> sp_quote := True \<rparr>"
  have first: "split_step q a st = ?st"
    using assms(3) at(1) by (simp add: split_step_def fresh_def)
  have mid: "fold (split_step q) [Suc a..<Suc a + length body] ?st = ?st"
  proof (rule fold_same)
    fix i assume "i \<in> set [Suc a..<Suc a + length body]"
    from at(3) [OF this] b(1) have "q ! i \<notin> {CHR ''('', CHR '')'', CHR 0x27}" by blast
    then show "split_step q i ?st = ?st" by (simp add: split_step_def Let_def)
  qed
  have "slice q a (a + length w) = w" using assms(2) by (simp add: at_part_def)
  then have "split_step q (Suc a + length body) ?st = closed_state st a w"
    using assms(3) at(2,4) b(2)
    by (auto simp: split_step_def fresh_def not_escaped_def pushPart_def closed_state_def w)
  then show ?thesis unfolding w upt_ends fold_append fold_simps comp_apply first mid by (simp add: w)
qed

lemma run_bracket:
  assumes "bracket_part w" "at_part q a w" "fresh st a"
  shows "fold (split_step q) [a..<a + length w] st = closed_state st a w"
proof -
  from assms(1) obtain body where w: "w = CHR ''('' # body @ [CHR '')'']"
    and b: "CHR '')'' \<notin> set body" "body = [] \<or> last body \<noteq> CHR 0x5C"
    by (auto simp: bracket_part_def)
  note at = at_part_body [OF assms(2) [unfolded w]]
  let ?st = "\<lambda>b. st\<lparr> sp_bracket := True, sp_quote := b \<rparr>"
  have first: "split_step q a st = ?st False"
    using assms(3) at(1) by (cases st) (simp add: split_step_def fresh_def)
  have step: "\<exists>b'. split_step q i (?st b) = ?st b'" if "q ! i \<noteq> CHR '')''" for i b
    using that by (cases st) (auto simp: split_step_def Let_def)
  have "\<forall>i \<in> set is. q ! i \<noteq> CHR '')'' \<Longrightarrow> \<exists>b'. fold (split_step q) is (?st b) = ?st b'" for "is" b
  proof (induction "is" arbitrary: b)
    case (Cons i "is")
    then obtain b1 where "split_step q i (?st b) = ?st b1" using step [of i b] by auto
    with Cons show ?case by simp
  qed auto
  then obtain b' where mid: "fold (split_step q) [Suc a..<Suc a + length body] (?st False) = ?st b'"
    using at(3) b(1) by metis
  have "slice q a (a + length w) = w" using assms(2) by (simp add: at_part_def)
  then have "split_step q (Suc a + length body) (?st b') = closed_state st a w"
    using assms(3) at(2,4) b(2)
    by (cases st) (auto simp: split_step_def fresh_def not_escaped_def pushPart_def closed_state_def w Let_def)
  then show ?thesis unfolding w upt_ends fold_append fold_simps comp_apply first mid by (simp add: w)
qed


section \<open>The splitter on a list of parts\<close>

definition good_part :: "string \<Rightarrow> bool" where
  "good_part w \<longleftrightarrow> w \<noteq> [] \<and> (plain_part w \<or> quoted_part w \<or> bracket_part w)"

definition non_empty :: "string list \<Rightarrow> string list" where
  "non_empty = filter (\<lambda>s. s \<noteq> [])"

lemma space_step:
  assumes "q ! i = CHR '' ''" "\<not> sp_bracket st" "\<not> sp_quote st"
  shows "split_step q i st = st\<lparr> sp_parts := sp_parts st @ [slice q (sp_start st) i], sp_start := i + 1 \<rparr>"
  using assms by (simp add: split_step_def pushPart_def)

text \<open>A part and the space after it add the part, and possibly an empty one.\<close>

lemma run_part:
  assumes "good_part w" "q = pre @ w @ '' '' @ post" "fresh st (length pre)"
  shows "\<exists>st'. fold (split_step q) [length pre..<length pre + length w + 1] st = st'
     \<and> fresh st' (length pre + length w + 1) \<and> non_empty (sp_parts st') = non_empty (sp_parts st) @ [w]"
proof -
  let ?a = "length pre"
  have at: "at_part q ?a w" unfolding assms(2) by (rule at_part_append)
  have sp: "q ! (?a + length w) = CHR '' ''" by (simp add: assms(2) nth_append)
  have u: "[?a..<?a + length w + 1] = [?a..<?a + length w] @ [?a + length w]" by simp
  show ?thesis
  proof (cases "plain_part w")
    case True
    have "slice q ?a (?a + length w) = w" using at by (simp add: at_part_def)
    then show ?thesis
      unfolding u fold_append comp_apply run_plain [OF True at] fold_simps
      using assms(1,3) space_step [OF sp]
      by (simp add: fresh_def good_part_def non_empty_def)
  next
    case False
    then have run: "fold (split_step q) [?a..<?a + length w] st = closed_state st ?a w"
      using assms(1) run_quoted [OF _ at assms(3)] run_bracket [OF _ at assms(3)]
      by (auto simp: good_part_def)
    have "\<not> sp_bracket (closed_state st ?a w)" "\<not> sp_quote (closed_state st ?a w)"
      "sp_start (closed_state st ?a w) = ?a + length w + 1"
      "sp_parts (closed_state st ?a w) = sp_parts st @ [w]"
      using assms(3) by (simp_all add: fresh_def closed_state_def)
    then show ?thesis
      unfolding u fold_append comp_apply run fold_simps
      using assms(1) space_step [OF sp, of "closed_state st ?a w"]
      by (simp add: fresh_def good_part_def non_empty_def slice_def)
  qed
qed

lemma run_last:
  assumes "good_part w" "q = pre @ w" "fresh st (length pre)"
  shows "split_finish q (fold (split_step q) [length pre..<length q] st) = non_empty (sp_parts st) @ [w]"
proof -
  let ?a = "length pre"
  have at: "at_part q ?a w" using at_part_append [of pre w "[]"] by (simp add: assms(2))
  have u: "[?a..<length q] = [?a..<?a + length w]" by (simp add: assms(2))
  show ?thesis
  proof (cases "plain_part w")
    case True
    have "slice q ?a (?a + length w) = w" using at by (simp add: at_part_def)
    then show ?thesis
      unfolding u run_plain [OF True at] using assms
      by (simp add: split_finish_def fresh_def pushPart_def non_empty_def good_part_def)
  next
    case False
    then have run: "fold (split_step q) [?a..<?a + length w] st = closed_state st ?a w"
      using assms(1) run_quoted [OF _ at assms(3)] run_bracket [OF _ at assms(3)]
      by (auto simp: good_part_def)
    show ?thesis
      unfolding u run using assms
      by (simp add: split_finish_def closed_state_def non_empty_def good_part_def)
  qed
qed

lemma splitter_run:
  assumes "ws \<noteq> []" "\<forall>w \<in> set ws. good_part w"
  shows "q = pre @ join '' '' ws \<Longrightarrow> fresh st (length pre) \<Longrightarrow>
    split_finish q (fold (split_step q) [length pre..<length q] st) = non_empty (sp_parts st) @ ws"
  using assms
proof (induction ws arbitrary: pre st rule: list_nonempty_induct)
  case (single w)
  then show ?case using run_last [of w q pre st] by simp
next
  case (cons w ws)
  then have q: "q = pre @ w @ '' '' @ join '' '' ws"
    by (cases ws) simp_all
  from cons.prems have "good_part w" by simp
  from run_part [OF this q cons.prems(2)] obtain st' where
    st': "fold (split_step q) [length pre..<length pre + length w + 1] st = st'"
    "fresh st' (length pre + length w + 1)" "non_empty (sp_parts st') = non_empty (sp_parts st) @ [w]"
    by blast
  have "q = (pre @ w @ '' '') @ join '' '' ws" using q by simp
  from cons.IH [OF this] st'(2) cons.prems cons.hyps
  have IH: "split_finish q (fold (split_step q) [length (pre @ w @ '' '')..<length q] st') = non_empty (sp_parts st') @ ws"
    by simp
  have "[length pre..<length q] = [length pre..<length pre + length w + 1] @ [length (pre @ w @ '' '')..<length q]"
    using upt_split [of "length pre" "length pre + length w + 1" "length q"] q by (simp del: upt_Suc)
  then show ?case using IH st' by (simp add: comp_def del: upt_Suc upt_rec)
qed

lemma splitter_parts:
  assumes "\<forall>w \<in> set ws. good_part w"
  shows "splitter (join '' '' ws) = ws"
proof (cases "ws = []")
  case True
  then show ?thesis by (simp add: splitter_def split_finish_def split_init_def)
next
  case False
  from splitter_run [OF False assms, of _ "[]" split_init] show ?thesis
    by (simp add: splitter_def fresh_def split_init_def non_empty_def)
qed


section \<open>The grammar of parsed queries\<close>

definition type_at :: "nat \<Rightarrow> QueryType" where
  "type_at i = [QUERY_KEY, QUERY_OPERATOR, QUERY_VALUE, CONDITIONAL_OPERATOR] ! (i mod 4)"

definition in_grammar :: "query_field list \<Rightarrow> bool" where
  "in_grammar ts \<longleftrightarrow> map qf_type ts = map type_at [0..<length ts]"

lemma in_grammar_snoc: "in_grammar (ts @ [t]) \<longleftrightarrow> in_grammar ts \<and> qf_type t = type_at (length ts)"
  by (auto simp: in_grammar_def)

lemma in_grammar_snoc2:
  "in_grammar (ts @ [t, t']) \<longleftrightarrow> in_grammar ts \<and> qf_type t = type_at (length ts) \<and> qf_type t' = type_at (Suc (length ts))"
  using in_grammar_snoc [of "ts @ [t]" t'] in_grammar_snoc [of ts t] by simp

lemma type_at_Suc:
  "type_at (Suc n) = (case type_at n of QUERY_KEY \<Rightarrow> QUERY_OPERATOR | QUERY_OPERATOR \<Rightarrow> QUERY_VALUE
     | QUERY_VALUE \<Rightarrow> CONDITIONAL_OPERATOR | CONDITIONAL_OPERATOR \<Rightarrow> QUERY_KEY)"
proof -
  have "n mod 4 = 0 \<or> n mod 4 = 1 \<or> n mod 4 = 2 \<or> n mod 4 = 3" by auto
  then show ?thesis by (auto simp: type_at_def mod_Suc)
qed

lemma type_at_0: "type_at 0 = QUERY_KEY"
  by (simp add: type_at_def)

lemma generate_grammar:
  assumes "in_grammar ts" "generateQuery ts w = Inr ts'"
  shows "in_grammar ts'"
proof (cases ts rule: rev_cases)
  case Nil
  with assms(2) show ?thesis by (auto simp: generateQuery_def in_grammar_def type_at_0)
next
  case (snoc xs x)
  with assms(1) have "qf_type x = type_at (length xs)" "in_grammar xs" by (simp_all add: in_grammar_snoc)
  with assms snoc show ?thesis
    by (auto simp: generateQuery_def in_grammar_snoc2 type_at_Suc split: QueryType.splits if_splits option.splits)
qed

lemma generate_all_grammar:
  "in_grammar ts \<Longrightarrow> generate_all ts ws = (ts', e) \<Longrightarrow> in_grammar ts'"
  by (induction ts ws rule: generate_all.induct) (auto split: sum.splits dest: generate_grammar)

lemma parse_grammar: "in_grammar (parseQuery q)"
proof -
  obtain ts e where g: "generate_all [] (splitter q) = (ts, e)" by fastforce
  have f: "in_grammar (full_text q)" by (simp add: in_grammar_def full_text_def type_at_def)
  have "in_grammar ts" using generate_all_grammar [OF _ g] by (simp add: in_grammar_def)
  with f g show ?thesis by (auto simp: parseQuery_def split: option.splits parse_error.splits)
qed

section \<open>Lists of values\<close>

definition plain_value :: "string \<Rightarrow> bool" where
  "plain_value v \<longleftrightarrow> CHR 0x27 \<notin> set v \<and> CHR '')'' \<notin> set v \<and> (v = [] \<or> last v \<noteq> CHR 0x5C)"

lemma run_value:
  assumes v: "plain_value v" and at: "at_part q a (quoted v)" and p: "q ! (a - 1) \<noteq> CHR 0x5C"
  shows "fold (multi_value_step q) [a..<a + length (quoted v)] (vals, i, False) = (vals @ [v], Suc a, False)"
proof -
  have w: "quoted v = CHR 0x27 # v @ [CHR 0x27]" by (simp add: quoted_def)
  note b = at_part_body [OF at [unfolded w]]
  have first: "multi_value_step q a (vals, i, False) = (vals, Suc a, True)"
    using b(1) p by (simp add: multi_value_step_def)
  have mid: "fold (multi_value_step q) [Suc a..<Suc a + length v] (vals, Suc a, True) = (vals, Suc a, True)"
    by (rule fold_same) (use b(3) v in \<open>fastforce simp: multi_value_step_def plain_value_def\<close>)
  have "slice q a (a + length (quoted v)) = quoted v" using at by (simp add: at_part_def)
  then have "drop a q = CHR 0x27 # v @ [CHR 0x27] @ drop (a + length (quoted v)) q"
    by (metis slice_def add_diff_cancel_left' append_take_drop_id drop_drop add.commute append_Cons append_assoc w)
  then have "slice q (Suc a) (Suc a + length v) = v"
    by (simp add: slice_def drop_Suc drop_tl)
  then have "multi_value_step q (Suc a + length v) (vals, Suc a, True) = (vals @ [v], Suc a, False)"
    using b(2,4) v by (auto simp: multi_value_step_def plain_value_def)
  then show ?thesis unfolding w upt_ends fold_append fold_simps comp_apply first mid by simp
qed

lemma run_values:
  assumes "vs \<noteq> []" "\<forall>v \<in> set vs. plain_value v"
  shows "q = pre @ join '','' (map quoted vs) @ post \<Longrightarrow> q ! (length pre - 1) \<noteq> CHR 0x5C \<Longrightarrow>
    \<exists>i'. fold (multi_value_step q) [length pre..<length pre + length (join '','' (map quoted vs))] (vals, i, False)
      = (vals @ vs, i', False)"
  using assms
proof (induction vs arbitrary: pre vals i rule: list_nonempty_induct)
  case (single v)
  have "at_part q (length pre) (quoted v)" using single.prems(1) at_part_append [of pre "quoted v"] by simp
  from run_value [OF _ this single.prems(2)] single.prems(3) show ?case by simp
next
  case (cons v vs)
  let ?a = "length pre" and ?rest = "join '','' (map quoted vs)"
  have q: "q = pre @ quoted v @ '','' @ ?rest @ post" using cons.prems(1) cons.hyps by (cases vs) simp_all
  have at: "at_part q ?a (quoted v)" unfolding q by (rule at_part_append)
  have v: "plain_value v" using cons.prems by simp
  have comma: "q ! (?a + length (quoted v)) = CHR '',''" by (simp add: q nth_append)
  let ?pre = "pre @ quoted v @ '',''"
  have e: "q = ?pre @ ?rest @ post" "q ! (length ?pre - 1) \<noteq> CHR 0x5C" using q comma by simp_all
  have "\<forall>v \<in> set vs. plain_value v" using cons.prems(3) by simp
  from cons.IH [OF e this, of "vals @ [v]" "Suc ?a"] obtain i' where
    IH: "fold (multi_value_step q) [length ?pre..<length ?pre + length ?rest] (vals @ [v], Suc ?a, False)
      = ((vals @ [v]) @ vs, i', False)" by blast
  have j: "join '','' (map quoted (v # vs)) = quoted v @ '','' @ ?rest" using cons.hyps by (cases vs) simp_all
  have u: "[?a..<?a + length (join '','' (map quoted (v # vs)))] =
      [?a..<?a + length (quoted v)] @ [?a + length (quoted v)] @ [length ?pre..<length ?pre + length ?rest]"
    unfolding j using upt_split [of ?a "?a + length (quoted v)" "length ?pre + length ?rest"]
    by (simp add: upt_rec [of "?a + length (quoted v)"] add.assoc del: upt_Suc)
  have "multi_value_step q (?a + length (quoted v)) st = st" for st
    by (cases st) (simp add: multi_value_step_def comma)
  then show ?case
    unfolding u fold_append comp_apply fold_simps run_value [OF v at cons.prems(2)] using IH by simp
qed

lemma validate_values:
  assumes "vs \<noteq> []" "\<forall>v \<in> set vs. plain_value v"
  shows "validateMultiValue (''('' @ join '','' (map quoted vs) @ '')'') = Some vs"
proof -
  let ?q = "''('' @ join '','' (map quoted vs) @ '')''"
  obtain i' where "fold (multi_value_step ?q) [1..<1 + length (join '','' (map quoted vs))] ([], 0, False) = (vs, i', False)"
    using run_values [OF assms, of ?q "''(''" "'')''" "[]" 0] by auto
  then show ?thesis by (simp add: validateMultiValue_def)
qed


section \<open>The round trip\<close>

definition token_text :: "query_field \<Rightarrow> string" where
  "token_text t = (case qf_value t of
     VStr s \<Rightarrow> s | VNull \<Rightarrow> [] | VList vs \<Rightarrow> ''('' @ join '','' (map quoted vs) @ '')'')"

definition good_clause :: "query_field \<Rightarrow> query_field \<Rightarrow> query_field \<Rightarrow> bool" where
  "good_clause k oper v \<longleftrightarrow>
     qf_type k = QUERY_KEY \<and> qf_type oper = QUERY_OPERATOR \<and> qf_type v = QUERY_VALUE
   \<and> (\<exists>s. qf_value k = VStr s \<and> good_part s)
   \<and> (\<exists>s. qf_value oper = VStr s \<and> good_part s \<and> is_one_of (QueryOperatorsMultiVal @ QueryOperatorsSingleVal) s
        \<and> (if is_one_of QueryOperatorsMultiVal s
           then \<exists>vs. qf_value v = VList vs \<and> vs \<noteq> [] \<and> (\<forall>x \<in> set vs. plain_value x)
           else \<exists>x. qf_value v = VStr x \<and> good_part x
              \<and> (s \<in> set StringTypeQueryOperators \<longrightarrow> quoted_part x)))"

definition good_condition :: "query_field \<Rightarrow> bool" where
  "good_condition c \<longleftrightarrow> qf_type c = CONDITIONAL_OPERATOR
     \<and> (\<exists>s. qf_value c = VStr s \<and> good_part s \<and> is_one_of ConditionalOperators s)"

inductive good_query :: "query_field list \<Rightarrow> bool" where
  clause: "good_clause k oper v \<Longrightarrow> good_query [k, oper, v]"
| and_also: "good_clause k oper v \<Longrightarrow> good_condition c \<Longrightarrow> good_query ts \<Longrightarrow> good_query (k # oper # v # c # ts)"

lemma plain_value_bracket:
  assumes "vs \<noteq> []" "\<forall>v \<in> set vs. plain_value v"
  shows "good_part (''('' @ join '','' (map quoted vs) @ '')'')"
proof -
  have "CHR '')'' \<notin> set (join '','' (map quoted vs)) \<and> join '','' (map quoted vs) \<noteq> []
      \<and> last (join '','' (map quoted vs)) = CHR 0x27"
    using assms
  proof (induction vs rule: list_nonempty_induct)
    case (cons v vs)
    then show ?case by (cases vs) (auto simp: quoted_def plain_value_def)
  qed (auto simp: quoted_def plain_value_def)
  then have "bracket_part (''('' @ join '','' (map quoted vs) @ '')'')"
    unfolding bracket_part_def by (intro exI [of _ "join '','' (map quoted vs)"]) auto
  then show ?thesis by (simp add: good_part_def)
qed

lemma good_clause_parts:
  "good_clause k oper v \<Longrightarrow> good_part (token_text k) \<and> good_part (token_text oper) \<and> good_part (token_text v)"
  using plain_value_bracket by (auto simp: good_clause_def token_text_def split: if_splits)

lemma good_query_parts: "good_query ts \<Longrightarrow> \<forall>t \<in> set ts. good_part (token_text t)"
  by (induction rule: good_query.induct)
    (use good_clause_parts in \<open>auto simp: good_condition_def token_text_def\<close>)

lemma quoted_filter: "quoted_part x \<Longrightarrow> quoted (filter (\<lambda>c. c \<noteq> CHR 0x27) x) = x"
proof -
  assume "quoted_part x"
  then obtain body where "x = quoted body" "CHR 0x27 \<notin> set body" by (auto simp: quoted_part_def)
  then have "filter (\<lambda>c. c \<noteq> CHR 0x27) body = body" by (auto simp add: filter_id_conv)
  then show ?thesis using \<open>x = quoted body\<close> by (simp add: quoted_def)
qed

lemma reverse_clause:
  assumes "good_clause k oper v"
  shows "reverse_token last_tok k = Some (token_text k)" "reverse_token (Some k) oper = Some (token_text oper)"
    "reverse_token (Some oper) v = Some (token_text v)"
proof -
  show "reverse_token last_tok k = Some (token_text k)" "reverse_token (Some k) oper = Some (token_text oper)"
    using assms by (auto simp: good_clause_def reverse_token_def token_text_def)
  show "reverse_token (Some oper) v = Some (token_text v)"
  proof (cases "qf_value v")
    case (VList vs)
    with assms show ?thesis
      by (cases vs) (auto simp: good_clause_def reverse_token_def token_text_def split: if_splits)
  next
    case (VStr x)
    with assms show ?thesis
      by (auto simp: good_clause_def reverse_token_def token_text_def quoted_filter split: if_splits)
  next
    case VNull
    with assms show ?thesis by (auto simp: good_clause_def split: if_splits)
  qed
qed

lemma reverse_loop_good:
  "good_query ts \<Longrightarrow> (case last_tok of None \<Rightarrow> acc = [] | Some t \<Rightarrow> acc \<noteq> []) \<Longrightarrow>
   reverse_loop acc last_tok ts = Some ((if acc = [] then [] else acc @ '' '') @ join '' '' (map token_text ts))"
proof (induction ts arbitrary: acc last_tok rule: good_query.induct)
  case (clause k oper v)
  note parts = good_clause_parts [OF clause(1)]
  with reverse_clause [OF clause(1)] show ?case by (auto simp: Let_def good_part_def)
next
  case (and_also k oper v c ts)
  note parts = good_clause_parts [OF and_also(1)]
  have c: "reverse_token (Some v) c = Some (token_text c)" "token_text c \<noteq> []"
    using and_also(2) by (auto simp: good_condition_def reverse_token_def token_text_def good_part_def)
  have "ts \<noteq> []" using and_also(3) by (cases rule: good_query.cases) auto
  then obtain t ts' where ts: "ts = t # ts'" by (cases ts) auto
  let ?acc = "(if acc = [] then [] else acc @ '' '') @ join '' '' (map token_text [k, oper, v, c])"
  have "reverse_loop acc last_tok (k # oper # v # c # ts) = reverse_loop ?acc (Some c) ts"
    using reverse_clause [OF and_also(1)] c parts by (auto simp: Let_def good_part_def)
  moreover have "?acc \<noteq> []" using parts by (auto simp: good_part_def)
  ultimately show ?case using and_also.IH [of ?acc "Some c"] by (simp add: ts)
qed

lemma generate_clause:
  assumes "good_clause k oper v" "acc = [] \<or> qf_type (last acc) = CONDITIONAL_OPERATOR"
  shows "generate_all acc (map token_text [k, oper, v] @ ws) = generate_all (acc @ [k, oper, v]) ws"
proof -
  have k: "generateQuery acc (token_text k) = Inr (acc @ [k])"
    using assms by (cases k) (auto simp: good_clause_def generateQuery_def token_text_def)
  have oper: "generateQuery (acc @ [k]) (token_text oper) = Inr (acc @ [k, oper])"
    using assms(1) by (cases oper) (auto simp: good_clause_def generateQuery_def token_text_def)
  have v: "generateQuery (acc @ [k, oper]) (token_text v) = Inr (acc @ [k, oper, v])"
    using assms(1) validate_values
    by (cases v) (auto simp: good_clause_def generateQuery_def token_text_def text_of_def split: if_splits)
  show ?thesis using k oper v by simp
qed

lemma generate_good:
  "good_query ts \<Longrightarrow> acc = [] \<or> qf_type (last acc) = CONDITIONAL_OPERATOR \<Longrightarrow>
   generate_all acc (map token_text ts) = (acc @ ts, None)"
proof (induction ts arbitrary: acc rule: good_query.induct)
  case (clause k oper v)
  from generate_clause [OF clause, of "[]"] show ?case by simp
next
  case (and_also k oper v c ts)
  have v: "qf_type v = QUERY_VALUE" using and_also(1) by (simp add: good_clause_def)
  have "generateQuery (acc @ [k, oper, v]) (token_text c) = Inr (acc @ [k, oper, v, c])"
    using and_also(2) v by (cases c) (auto simp: good_condition_def generateQuery_def token_text_def)
  then show ?case
    using generate_clause [OF and_also(1) and_also.prems, of "map token_text (c # ts)"]
      and_also.IH [of "acc @ [k, oper, v, c]"] and_also(2)
    by (simp add: good_condition_def)
qed

lemma reverse_good: "good_query ts \<Longrightarrow> reverseParser ts = Some (join '' '' (map token_text ts))"
  using reverse_loop_good [of ts "[]" None] by (simp add: reverseParser_def)

lemma parse_good:
  assumes "good_query ts"
  shows "parseQuery (join '' '' (map token_text ts)) = ts"
  using generate_good [OF assms, of "[]"] splitter_parts [of "map token_text ts"] good_query_parts [OF assms]
  by (simp add: parseQuery_def)

end
