(* ===== verification/SearchFields.thy ===== *)
theory SearchFields
  imports LogQLProperties
begin

text \<open>
  The search form of the logs page,
  \<^verbatim>\<open>frontend/src/container/LogsSearchFilter/SearchFields/utils.ts\<close>: the check of the fields, their
  grouping into rows, and the string hash that keys them; and the properties of the
  query language.
\<close>

section \<open>Operations\<close>

definition is_falsy_value :: "field_value \<Rightarrow> bool" where
  "is_falsy_value v \<longleftrightarrow> v = VNull \<or> v = VStr []"

definition field_ok :: "query_field option \<Rightarrow> query_field \<Rightarrow> query_field option \<Rightarrow> bool" where
  "field_ok lastOp q next_field \<longleftrightarrow>
     \<not> is_falsy_value (qf_value q)
   \<and> qf_value q \<noteq> VList []
   \<and> ValidTypeSequence (map_option qf_type lastOp) (qf_type q) (map_option qf_type next_field)
   \<and> ValidTypeValue (map_option (\<lambda>l. text_of (qf_value l)) lastOp) (qf_value q)"

fun fields_valid_from :: "query_field option \<Rightarrow> query_field list \<Rightarrow> bool" where
  "fields_valid_from lastOp [] = True"
| "fields_valid_from lastOp (q # qs) =
     (field_ok lastOp q (case qs of [] \<Rightarrow> None | n # _ \<Rightarrow> Some n) \<and> fields_valid_from (Some q) qs)"

definition fieldsQueryIsvalid :: "query_field list \<Rightarrow> bool" where
  "fieldsQueryIsvalid queryFields = fields_valid_from None queryFields"

definition initQueryKOVPair :: "field_value \<Rightarrow> field_value \<Rightarrow> field_value \<Rightarrow> query_field list" where
  "initQueryKOVPair name oper value =
     [\<lparr> qf_type = QUERY_KEY, qf_value = name \<rparr>, \<lparr> qf_type = QUERY_OPERATOR, qf_value = oper \<rparr>,
      \<lparr> qf_type = QUERY_VALUE, qf_value = value \<rparr>]"

definition queryKOVPair :: "query_field list" where
  "queryKOVPair = initQueryKOVPair VNull VNull VNull"

definition prepareConditionOperator :: "string \<Rightarrow> query_field" where
  "prepareConditionOperator oper = \<lparr> qf_type = CONDITIONAL_OPERATOR, qf_value = VStr oper \<rparr>"

datatype field_group = Group "query_field list" | Cond query_field

text \<open>
  An assignment \<^verbatim>\<open>arr[i] = x\<close>; one past the end appends.  (Farther positions, which a parsed
  query never reaches, would leave holes.)
\<close>

definition assign_at :: "nat \<Rightarrow> 'a \<Rightarrow> 'a list \<Rightarrow> 'a list" where
  "assign_at i x xs = (if i < length xs then xs[i := x] else xs @ [x])"

text \<open>The state of the loop: the finished groups, the last group, the pending condition and \<^verbatim>\<open>qCtr + 1\<close>.\<close>

type_synonym structure_state = "field_group list \<times> query_field list \<times> query_field option \<times> nat"

definition structure_step :: "query_field \<Rightarrow> structure_state \<Rightarrow> structure_state" where
  "structure_step query = (\<lambda>(groups, staging, cond, pos).
     let (groups, staging, pos) = (case cond of
             None \<Rightarrow> (groups, staging, pos)
           | Some c \<Rightarrow> (groups @ [Group staging, Cond c], queryKOVPair, 0));
         prev_type = (if pos = 0 \<or> length staging < pos then None else Some (qf_type (staging ! (pos - 1))));
         staging' = (if qf_type query = QUERY_KEY
                        \<or> (qf_type query = QUERY_OPERATOR \<and> prev_type = Some QUERY_KEY)
                        \<or> (qf_type query = QUERY_VALUE \<and> prev_type = Some QUERY_OPERATOR)
                     then assign_at pos query staging else staging);
         cond' = (if qf_type query = CONDITIONAL_OPERATOR then Some query else None)
     in (groups, staging', cond', pos + 1))"

definition createParsedQueryStructure :: "query_field list \<Rightarrow> field_group list" where
  "createParsedQueryStructure parsedQuery =
     (if parsedQuery = [] then []
      else case fold structure_step parsedQuery ([], queryKOVPair, None, 0) of
        (groups, staging, _, _) \<Rightarrow> groups @ [Group staging])"

text \<open>\<^verbatim>\<open>a << 5\<close> and \<^verbatim>\<open>a & a\<close> work on 32-bit integers; the sum between them is exact, so only the
  last conversion wraps.\<close>

definition hash_step :: "char \<Rightarrow> 32 word \<Rightarrow> 32 word" where
  "hash_step c a = push_bit 5 a - a + of_nat (of_char c)"

definition hashCode :: "string \<Rightarrow> string" where
  "hashCode s = (if s = [] then ''0'' else int_str \<bar>sint (fold hash_step s 0)\<bar>)"

section \<open>Lemmas\<close>

lemma good_query_nonempty: "good_query ts \<Longrightarrow> ts \<noteq> []"
  by (cases rule: good_query.cases) auto

fun group_fields :: "field_group \<Rightarrow> query_field list" where
  "group_fields (Group fs) = fs"
| "group_fields (Cond c) = [c]"

lemma structure_clause:
  assumes "good_clause k oper v"
  shows "fold structure_step [k, oper, v] (groups, queryKOVPair, None, 0) = (groups, [k, oper, v], None, 3)"
  using assms by (simp add: good_clause_def structure_step_def queryKOVPair_def initQueryKOVPair_def assign_at_def
      Let_def)

lemma structure_good:
  "good_query ts \<Longrightarrow>
   \<exists>gs st pos. fold structure_step ts (groups, queryKOVPair, None, 0) = (groups @ gs, st, None, pos)
     \<and> concat (map group_fields (gs @ [Group st])) = ts"
proof (induction ts arbitrary: groups rule: good_query.induct)
  case (clause k oper v)
  from structure_clause [OF clause, of groups] show ?case by auto
next
  case (and_also k oper v c ts)
  have c: "qf_type c = CONDITIONAL_OPERATOR" using and_also(2) by (simp add: good_condition_def)
  obtain t ts' where ts: "ts = t # ts'" using good_query_nonempty [OF and_also(3)] by (cases ts) auto
  have "structure_step c (groups, [k, oper, v], None, 3) = (groups, [k, oper, v], Some c, 4)"
    using c by (simp add: structure_step_def)
  moreover have "structure_step t (groups, [k, oper, v], Some c, 4)
      = structure_step t (groups @ [Group [k, oper, v], Cond c], queryKOVPair, None, 0)"
    by (simp add: structure_step_def)
  ultimately have "fold structure_step (k # oper # v # c # ts) (groups, queryKOVPair, None, 0)
      = fold structure_step ts (groups @ [Group [k, oper, v], Cond c], queryKOVPair, None, 0)"
    using structure_clause [OF and_also(1), of groups] by (simp add: ts)
  then show ?case
    using and_also.IH [of "groups @ [Group [k, oper, v], Cond c]"] by force
qed

lemma hash_step_31: "hash_step c a = 31 * a + of_nat (of_char c)"
  by (simp add: hash_step_def push_bit_eq_mult)

lemma hash_fold: "fold hash_step s a = 31 ^ length s * a + (\<Sum>i<length s. of_nat (of_char (s ! i)) * 31 ^ (length s - 1 - i))"
proof (induction s rule: rev_induct)
  case (snoc c s)
  have "(\<Sum>i<length s. of_nat (of_char ((s @ [c]) ! i)) * 31 ^ (length s - i) :: 32 word)
      = 31 * (\<Sum>i<length s. of_nat (of_char (s ! i)) * 31 ^ (length s - 1 - i))"
    unfolding sum_distrib_left
  proof (rule sum.cong)
    fix i assume "i \<in> {..<length s}"
    then have "i < length s" "length s - i = Suc (length s - 1 - i)" by auto
    then show "of_nat (of_char ((s @ [c]) ! i)) * 31 ^ (length s - i)
        = 31 * (of_nat (of_char (s ! i)) * 31 ^ (length s - 1 - i) :: 32 word)"
      by (simp add: nth_append mult.left_commute)
  qed simp
  with snoc show ?case by (simp add: hash_step_31 algebra_simps)
qed simp

section \<open>Properties\<close>

text \<open>Whatever the text, the tokens that \<^verbatim>\<open>parseQuery\<close> returns follow the cycle key, operator, value,
  condition, starting with a key.\<close>

theorem parseQuery_grammar:
  "map qf_type (parseQuery q) = map type_at [0..<length (parseQuery q)]"
  using parse_grammar [of q] by (simp only: in_grammar_def)

text \<open>C29: Parsing what \<^verbatim>\<open>reverseParser\<close> prints for well-formed tokens (plain, quoted or bracketed parts, the
  operators of the language, list values where the operator wants a list) gives the tokens back.\<close>

theorem parse_reverse_roundtrip:
  assumes "good_query ts"
  shows "\<exists>q. reverseParser ts = Some q \<and> parseQuery q = ts"
  using reverse_good [OF assms] parse_good [OF assms] by blast

definition sample_query :: "query_field list" where
  "sample_query = [\<lparr> qf_type = QUERY_KEY, qf_value = VStr ''op'' \<rparr>,
     \<lparr> qf_type = QUERY_OPERATOR, qf_value = VStr ''IN'' \<rparr>,
     \<lparr> qf_type = QUERY_VALUE, qf_value = VList [''a b'', ''c''] \<rparr>,
     \<lparr> qf_type = CONDITIONAL_OPERATOR, qf_value = VStr ''and'' \<rparr>,
     \<lparr> qf_type = QUERY_KEY, qf_value = VStr ''k'' \<rparr>,
     \<lparr> qf_type = QUERY_OPERATOR, qf_value = VStr ''GTE'' \<rparr>,
     \<lparr> qf_type = QUERY_VALUE, qf_value = VStr ''20'' \<rparr>]"

lemma sample_good: "good_query sample_query"
proof -
  have p: "good_part ''op''" "good_part ''IN''" "good_part ''and''" "good_part ''k''" "good_part ''GTE''" "good_part ''20''"
    by (simp_all add: good_part_def plain_part_def special_def)
  have o: "is_one_of QueryOperatorsMultiVal ''IN''" "\<not> is_one_of QueryOperatorsMultiVal ''GTE''"
    "is_one_of (QueryOperatorsMultiVal @ QueryOperatorsSingleVal) ''IN''"
    "is_one_of (QueryOperatorsMultiVal @ QueryOperatorsSingleVal) ''GTE''"
    "is_one_of ConditionalOperators ''and''" "''GTE'' \<notin> set StringTypeQueryOperators"
    by code_simp+
  show ?thesis
    unfolding sample_query_def
    by (intro good_query.and_also good_query.clause)
      (use p o in \<open>simp_all add: good_clause_def good_condition_def plain_value_def\<close>)
qed

theorem parse_reverse_roundtrip_witness:
  "\<exists>q. reverseParser sample_query = Some q \<and> parseQuery q = sample_query"
  using parse_reverse_roundtrip [OF sample_good] .

text \<open>The rows that \<^verbatim>\<open>createParsedQueryStructure\<close> builds from well-formed tokens hold exactly these
  tokens in order.\<close>

theorem structure_concat:
  assumes "good_query ts"
  shows "concat (map group_fields (createParsedQueryStructure ts)) = ts"
  using structure_good [OF assms, of "[]"] good_query_nonempty [OF assms]
  by (auto simp: createParsedQueryStructure_def)

theorem structure_concat_witness:
  "concat (map group_fields (createParsedQueryStructure sample_query)) = sample_query"
  by (rule structure_concat [OF sample_good])

text \<open>A closing bracket inside a quoted value ends the part, and the character after it is lost:
  the value \<^verbatim>\<open>'a)b'\<close> is split into \<^verbatim>\<open>'a)\<close> and a lone quote.\<close>

theorem splitter_loses_character:
  "splitter (''k CONTAINS '' @ [CHR 0x27] @ ''a)b'' @ [CHR 0x27])
     = [''k'', ''CONTAINS'', CHR 0x27 # ''a)'', [CHR 0x27]]"
  by code_simp

text \<open>\<^verbatim>\<open>hashCode\<close> is the absolute value of the polynomial hash with base 31, as a signed 32-bit number.\<close>

theorem hashCode_polynomial:
  "hashCode s = (if s = [] then ''0'' else
     int_str \<bar>sint (\<Sum>i<length s. of_nat (of_char (s ! i)) * 31 ^ (length s - 1 - i) :: 32 word)\<bar>)"
  by (simp add: hashCode_def hash_fold)

end
