(* ===== verification/LogsReducer.thy ===== *)
theory LogsReducer
  imports LogQL
begin

text \<open>
  The logs and the global time slices of the Redux store,
  \<^verbatim>\<open>frontend/src/store/reducers/logs.ts\<close> and \<^verbatim>\<open>global.ts\<close>, which share two actions.  Values that the
  reducers only store (a log besides its id, aggregates, fields) are strings.
\<close>

section \<open>The logs slice\<close>

record ILog =
  log_id :: string
  log_body :: string

datatype LiveTailState = PLAYING | PAUSED | STOPPED

datatype OrderPreference = ASC_ORDER | DESC_ORDER

datatype LogViewMode = RAW_VIEW | TABLE_VIEW | LIST_VIEW

record ILogsReducer =
  lr_interesting :: "string list"
  lr_selected :: "string list"
  lr_queryString :: string
  lr_parsedQuery :: "query_field list"
  lr_logs :: "ILog list"
  lr_logLinesPerPage :: int
  lr_linesPerRow :: int
  lr_viewMode :: LogViewMode
  lr_idEnd :: string
  lr_idStart :: string
  lr_isLoading :: bool
  lr_isLoadingAggregate :: bool
  lr_logsAggregate :: "string list"
  lr_liveTail :: LiveTailState
  lr_liveTailStartRange :: int
  lr_selectedLogId :: "string option"
  lr_detailedLog :: "ILog option"
  lr_order :: OrderPreference

record GlobalTime =
  gt_maxTime :: int
  gt_minTime :: int

datatype log_action =
    SET_LOADING bool
  | SET_LOADING_AGGREGATE bool
  | GET_FIELDS
  | SET_FIELDS "string list" "string list"
  | SET_SEARCH_QUERY_STRING string "GlobalTime option"
  | SET_SEARCH_QUERY_PARSED_PAYLOAD "query_field list"
  | ADD_SEARCH_FIELD_QUERY_STRING string
  | SET_LOGS "ILog list"
  | SET_LOGS_ORDER OrderPreference
  | SET_LOG_LINES_PER_PAGE int
  | GET_PREVIOUS_LOG_LINES
  | GET_NEXT_LOG_LINES
  | RESET_ID_START_AND_END GlobalTime
  | SET_LOGS_AGGREGATE_SERIES "string list"
  | SET_DETAILED_LOG_DATA "ILog option"
  | TOGGLE_LIVE_TAIL LiveTailState
  | STOP_LIVE_TAIL
  | PUSH_LIVE_TAIL_EVENT "ILog list"
  | SET_LIVE_TAIL_START_TIME int
  | FLUSH_LOGS
  | SET_LINES_PER_ROW int
  | SET_VIEW_MODE LogViewMode
  | UPDATE_INTERESTING_FIELDS "string list"
  | UPDATE_SELECTED_FIELDS "string list"

definition getLogsOrder :: "bool \<Rightarrow> string option \<Rightarrow> OrderPreference" where
  "getLogsOrder onOldLogsExplorer orderParam =
     (if onOldLogsExplorer then
        (case orderParam of
           None \<Rightarrow> DESC_ORDER
         | Some s \<Rightarrow> if s = ''asc'' then ASC_ORDER else DESC_ORDER)
      else DESC_ORDER)"

definition logs_initialState :: "OrderPreference \<Rightarrow> ILogsReducer" where
  "logs_initialState ord = \<lparr> lr_interesting = [], lr_selected = [], lr_queryString = [], lr_parsedQuery = [],
     lr_logs = [], lr_logLinesPerPage = 200, lr_linesPerRow = 2, lr_viewMode = RAW_VIEW, lr_idEnd = [],
     lr_idStart = [], lr_isLoading = False, lr_isLoadingAggregate = False, lr_logsAggregate = [],
     lr_liveTail = STOPPED, lr_liveTailStartRange = 15, lr_selectedLogId = None, lr_detailedLog = None,
     lr_order = ord \<rparr>"

definition add_search_field :: "string \<Rightarrow> ILogsReducer \<Rightarrow> ILogsReducer" where
  "add_search_field payload state =
     (let updatedQueryString = lr_queryString state
            @ (if length (lr_queryString state) > 0 then '' and '' else []) @ payload
      in state\<lparr> lr_queryString := updatedQueryString, lr_parsedQuery := parseQuery updatedQueryString \<rparr>)"

fun LogsReducer :: "log_action \<Rightarrow> ILogsReducer \<Rightarrow> ILogsReducer" where
  "LogsReducer (SET_LOADING b) state = state\<lparr> lr_isLoading := b \<rparr>"
| "LogsReducer (SET_LOADING_AGGREGATE b) state = state\<lparr> lr_isLoadingAggregate := b \<rparr>"
| "LogsReducer GET_FIELDS state = state"
| "LogsReducer (SET_FIELDS int_fields sel_fields) state =
     state\<lparr> lr_interesting := int_fields, lr_selected := sel_fields \<rparr>"
| "LogsReducer (SET_SEARCH_QUERY_STRING q t) state = state\<lparr> lr_queryString := q \<rparr>"
| "LogsReducer (SET_SEARCH_QUERY_PARSED_PAYLOAD p) state = state\<lparr> lr_parsedQuery := p \<rparr>"
| "LogsReducer (ADD_SEARCH_FIELD_QUERY_STRING payload) state = add_search_field payload state"
| "LogsReducer (SET_LOGS logs) state = state\<lparr> lr_logs := logs \<rparr>"
| "LogsReducer (SET_LOGS_ORDER ord) state = state\<lparr> lr_order := ord, lr_idStart := [], lr_idEnd := [] \<rparr>"
| "LogsReducer (SET_LOG_LINES_PER_PAGE n) state = state\<lparr> lr_logLinesPerPage := n \<rparr>"
| "LogsReducer GET_PREVIOUS_LOG_LINES state =
     state\<lparr> lr_idStart := (if length (lr_logs state) > 0 then log_id (hd (lr_logs state)) else []),
            lr_idEnd := [] \<rparr>"
| "LogsReducer GET_NEXT_LOG_LINES state =
     state\<lparr> lr_idStart := [],
            lr_idEnd := (if length (lr_logs state) > 0 then log_id (last (lr_logs state)) else []) \<rparr>"
| "LogsReducer (RESET_ID_START_AND_END t) state = state\<lparr> lr_idEnd := [], lr_idStart := [] \<rparr>"
| "LogsReducer (SET_LOGS_AGGREGATE_SERIES s) state = state\<lparr> lr_logsAggregate := s \<rparr>"
| "LogsReducer (SET_DETAILED_LOG_DATA d) state = state\<lparr> lr_detailedLog := d \<rparr>"
| "LogsReducer (TOGGLE_LIVE_TAIL l) state = state\<lparr> lr_liveTail := l \<rparr>"
| "LogsReducer STOP_LIVE_TAIL state = state\<lparr> lr_logs := [], lr_liveTail := STOPPED \<rparr>"
| "LogsReducer (PUSH_LIVE_TAIL_EVENT events) state =
     state\<lparr> lr_logs := take 100 (events @ lr_logs state) \<rparr>"
| "LogsReducer (SET_LIVE_TAIL_START_TIME n) state = state\<lparr> lr_liveTailStartRange := n \<rparr>"
| "LogsReducer FLUSH_LOGS state = state\<lparr> lr_logs := [] \<rparr>"
| "LogsReducer (SET_LINES_PER_ROW n) state = state\<lparr> lr_linesPerRow := n \<rparr>"
| "LogsReducer (SET_VIEW_MODE m) state = state\<lparr> lr_viewMode := m \<rparr>"
| "LogsReducer (UPDATE_INTERESTING_FIELDS fs) state = state\<lparr> lr_interesting := fs \<rparr>"
| "LogsReducer (UPDATE_SELECTED_FIELDS fs) state = state\<lparr> lr_selected := fs \<rparr>"

section \<open>The global time slice\<close>

record GlobalReducer =
  gr_maxTime :: int
  gr_minTime :: int
  gr_loading :: bool
  gr_selectedTime :: string
  gr_isAutoRefreshDisabled :: bool
  gr_selectedAutoRefreshInterval :: string

datatype time_action =
    UPDATE_TIME_INTERVAL int int string
  | GLOBAL_TIME_LOADING_START
  | UPDATE_AUTO_REFRESH_DISABLED bool
  | UPDATE_AUTO_REFRESH_INTERVAL string

text \<open>Every action reaches every reducer; the time reducer also handles two of the logs actions.\<close>

datatype redux_action = LogAction log_action | TimeAction time_action

definition global_initialState :: "int \<Rightarrow> string \<Rightarrow> GlobalReducer" where
  "global_initialState now defaultOption = \<lparr> gr_maxTime = now * 1000000,
     gr_minTime = (now - 15 * 60 * 1000) * 1000000, gr_loading = True, gr_selectedTime = defaultOption,
     gr_isAutoRefreshDisabled = False, gr_selectedAutoRefreshInterval = [] \<rparr>"

fun globalTimeReducer :: "redux_action \<Rightarrow> GlobalReducer \<Rightarrow> GlobalReducer" where
  "globalTimeReducer (TimeAction (UPDATE_TIME_INTERVAL mx mn sel)) state =
     state\<lparr> gr_maxTime := mx, gr_minTime := mn, gr_selectedTime := sel, gr_loading := False \<rparr>"
| "globalTimeReducer (TimeAction GLOBAL_TIME_LOADING_START) state = state\<lparr> gr_loading := True \<rparr>"
| "globalTimeReducer (TimeAction (UPDATE_AUTO_REFRESH_DISABLED b)) state = state\<lparr> gr_isAutoRefreshDisabled := b \<rparr>"
| "globalTimeReducer (TimeAction (UPDATE_AUTO_REFRESH_INTERVAL s)) state =
     state\<lparr> gr_selectedAutoRefreshInterval := s \<rparr>"
| "globalTimeReducer (LogAction (RESET_ID_START_AND_END t)) state =
     state\<lparr> gr_maxTime := gt_maxTime t, gr_minTime := gt_minTime t \<rparr>"
| "globalTimeReducer (LogAction (SET_SEARCH_QUERY_STRING q t)) state =
     (case t of
        Some g \<Rightarrow> state\<lparr> gr_maxTime := gt_maxTime g, gr_minTime := gt_minTime g \<rparr>
      | None \<Rightarrow> state)"
| "globalTimeReducer (LogAction _) state = state"

definition dispatch :: "redux_action \<Rightarrow> ILogsReducer \<times> GlobalReducer \<Rightarrow> ILogsReducer \<times> GlobalReducer" where
  "dispatch a = (\<lambda>(logs, time).
     ((case a of LogAction la \<Rightarrow> LogsReducer la logs | TimeAction _ \<Rightarrow> logs), globalTimeReducer a time))"

section \<open>Invariants\<close>

definition cursor_ok :: "ILogsReducer \<Rightarrow> bool" where
  "cursor_ok st \<longleftrightarrow> lr_idStart st = [] \<or> lr_idEnd st = []"

lemma cursor_step: "cursor_ok st \<Longrightarrow> cursor_ok (LogsReducer a st)"
  by (cases a) (auto simp: cursor_ok_def add_search_field_def Let_def)

lemma dispatch_cursor: "cursor_ok (fst s) \<Longrightarrow> cursor_ok (fst (dispatch a s))"
  by (auto simp: dispatch_def cursor_step split: prod.splits redux_action.splits)

lemma cursor_run: "cursor_ok (fst s) \<Longrightarrow> cursor_ok (fst (fold dispatch as s))"
  by (induction "as" arbitrary: s) (auto simp: dispatch_cursor)

lemma push_run:
  "lr_logs (fold (\<lambda>e. LogsReducer (PUSH_LIVE_TAIL_EVENT e)) es st) =
     (if es = [] then lr_logs st else take 100 (concat (rev es) @ lr_logs st))"
proof (induction es arbitrary: st)
  case (Cons e es)
  have "take 100 (xs @ take 100 (e @ ys)) = take 100 (xs @ e @ ys)" for xs :: "ILog list" and ys
    by (simp add: take_append min_def)
  then show ?case using Cons.IH [of "LogsReducer (PUSH_LIVE_TAIL_EVENT e) st"] by simp
qed simp


section \<open>Properties\<close>

text \<open>C4: Whatever actions are dispatched, at most one of the two paging cursors of the logs is set.\<close>

theorem logs_one_cursor:
  "lr_idStart (fst (fold dispatch acts (logs_initialState ord, t))) = []
   \<or> lr_idEnd (fst (fold dispatch acts (logs_initialState ord, t))) = []"
  using cursor_run [of "(logs_initialState ord, t)" acts]
  by (simp add: cursor_ok_def logs_initialState_def)

text \<open>While the live tail pushes events, the logs shown are the newest hundred, latest batch first.\<close>

theorem live_tail_window:
  assumes "es \<noteq> []"
  shows "lr_logs (fold (\<lambda>e. LogsReducer (PUSH_LIVE_TAIL_EVENT e)) es st)
     = take 100 (concat (rev es) @ lr_logs st)
   \<and> length (lr_logs (fold (\<lambda>e. LogsReducer (PUSH_LIVE_TAIL_EVENT e)) es st)) \<le> 100"
  using assms by (simp add: push_run)

theorem live_tail_window_witness:
  "lr_logs (fold (\<lambda>e. LogsReducer (PUSH_LIVE_TAIL_EVENT e))
     [[\<lparr> log_id = ''1'', log_body = [] \<rparr>], [\<lparr> log_id = ''2'', log_body = [] \<rparr>]] (logs_initialState DESC_ORDER))
   = [\<lparr> log_id = ''2'', log_body = [] \<rparr>, \<lparr> log_id = ''1'', log_body = [] \<rparr>]"
  using live_tail_window [of "[[\<lparr> log_id = ''1'', log_body = [] \<rparr>], [\<lparr> log_id = ''2'', log_body = [] \<rparr>]]"
      "logs_initialState DESC_ORDER"]
  by (simp add: logs_initialState_def)

end
