(* ===== verification/TraceReducer.thy ===== *)
theory TraceReducer
  imports Prelude
begin

text \<open>
  The other slices of the Redux store: the trace page
  (\<^verbatim>\<open>frontend/src/store/reducers/trace.ts\<close>), the service list (\<^verbatim>\<open>metric.ts\<close>), the application
  (\<^verbatim>\<open>app.ts\<close>), the service map and the usage data.  JavaScript maps and sets are association
  lists and lists; values that a reducer only stores are strings.
\<close>

section \<open>The trace page\<close>

type_synonym 'v filter_map = "(string \<times> 'v) list"

record SpansAggregate =
  sa_currentPage :: int
  sa_loading :: bool
  sa_data :: "string list"
  sa_error :: bool
  sa_total :: int
  sa_pageSize :: int
  sa_order :: string
  sa_orderParam :: string

record SpansGraph =
  sg_error :: bool
  sg_errorMessage :: string
  sg_loading :: bool
  sg_payload :: "string list"

record TraceState =
  tr_filter :: "string list filter_map"
  tr_filterToFetchData :: "string list"
  tr_filterLoading :: bool
  tr_filterResponseSelected :: "string list"
  tr_selectedFilter :: "string list filter_map"
  tr_selectedTags :: "string list"
  tr_isTagModalOpen :: bool
  tr_isTagModalError :: bool
  tr_isFilterExclude :: "bool filter_map"
  tr_userSelectedFilter :: "string list filter_map"
  tr_spansAggregate :: SpansAggregate
  tr_selectedGroupBy :: string
  tr_selectedFunction :: string
  tr_yAxisUnit :: string
  tr_spansGraph :: SpansGraph
  tr_filterDisplayValue :: "int filter_map"
  tr_spanKind :: "string option"

definition INITIAL_FILTER_VALUE :: int where
  "INITIAL_FILTER_VALUE = 8"

definition trace_initialValue :: TraceState where
  "trace_initialValue = \<lparr> tr_filter = [], tr_filterToFetchData = [''duration'', ''status'', ''serviceName''],
     tr_filterLoading = True, tr_filterResponseSelected = [], tr_selectedFilter = [], tr_selectedTags = [],
     tr_isTagModalOpen = False, tr_isTagModalError = False, tr_isFilterExclude = [], tr_userSelectedFilter = [],
     tr_spansAggregate = \<lparr> sa_currentPage = 1, sa_loading = False, sa_data = [], sa_error = False, sa_total = 0,
       sa_pageSize = 10, sa_order = [], sa_orderParam = [] \<rparr>,
     tr_selectedGroupBy = [], tr_selectedFunction = ''count'', tr_yAxisUnit = [],
     tr_spansGraph = \<lparr> sg_error = False, sg_errorMessage = [], sg_loading = True, sg_payload = [] \<rparr>,
     tr_filterDisplayValue = map (\<lambda>k. (k, INITIAL_FILTER_VALUE))
       [''duration'', ''httpHost'', ''httpMethod'', ''httpUrl'', ''operation'', ''rpcMethod'',
        ''responseStatusCode'', ''serviceName'', ''status'', ''traceID''],
     tr_spanKind = None \<rparr>"

record all_filters =
  af_filter :: "string list filter_map"
  af_filterToFetchData :: "string list"
  af_selectedFilter :: "string list filter_map"
  af_current :: int
  af_selectedTags :: "string list"
  af_userSelected :: "string list filter_map"
  af_isFilterExclude :: "bool filter_map"
  af_order :: string
  af_pageSize :: int
  af_orderParam :: string
  af_spanKind :: "string option"

datatype trace_action =
    UPDATE_TRACE_FILTER "string list filter_map"
  | UPDATE_ALL_FILTERS all_filters
  | UPDATE_TRACE_FILTER_LOADING bool
  | SELECT_TRACE_FILTER "string list filter_map"
  | RESET_TRACE_FILTER
  | UPDATE_SELECTED_TAGS "string list"
  | UPDATE_SPANS_AGGREGATE SpansAggregate
  | UPDATE_TAG_MODAL_VISIBILITY bool
  | UPDATE_IS_TAG_ERROR bool
  | UPDATE_SELECTED_FUNCTION string string
  | UPDATE_SELECTED_GROUP_BY string
  | UPDATE_TRACE_GRAPH_LOADING bool
  | UPDATE_TRACE_GRAPH_ERROR bool string
  | UPDATE_TRACE_GRAPH_SUCCESS "string list"
  | UPDATE_FILTER_RESPONSE_SELECTED "string list"
  | UPDATE_FILTER_EXCLUDE "bool filter_map"
  | UPDATE_SPAN_ORDER string
  | UPDATE_SPANS_AGGREGATE_PAGE_NUMBER int
  | UPDATE_SPANS_AGGREGATE_PAGE_SIZE int
  | UPDATE_SPAN_ORDER_PARAMS string
  | UPDATE_SPAN_UPDATE_FILTER_DISPLAY_VALUE "int filter_map"

definition update_all_filters :: "all_filters \<Rightarrow> TraceState \<Rightarrow> TraceState" where
  "update_all_filters p state = state
     \<lparr> tr_filter := af_filter p, tr_filterToFetchData := af_filterToFetchData p,
       tr_selectedFilter := af_selectedFilter p, tr_selectedTags := af_selectedTags p,
       tr_userSelectedFilter := af_userSelected p, tr_isFilterExclude := af_isFilterExclude p,
       tr_spansAggregate := (tr_spansAggregate state)
         \<lparr> sa_currentPage := af_current p, sa_pageSize := af_pageSize p, sa_order := af_order p,
           sa_orderParam := af_orderParam p \<rparr>,
       tr_spanKind := af_spanKind p \<rparr>"

definition on_aggregate :: "(SpansAggregate \<Rightarrow> SpansAggregate) \<Rightarrow> TraceState \<Rightarrow> TraceState" where
  "on_aggregate f state = state\<lparr> tr_spansAggregate := f (tr_spansAggregate state) \<rparr>"

definition on_graph :: "(SpansGraph \<Rightarrow> SpansGraph) \<Rightarrow> TraceState \<Rightarrow> TraceState" where
  "on_graph f state = state\<lparr> tr_spansGraph := f (tr_spansGraph state) \<rparr>"

fun traceReducer :: "trace_action \<Rightarrow> TraceState \<Rightarrow> TraceState" where
  "traceReducer (UPDATE_TRACE_FILTER f) state = state\<lparr> tr_filter := f \<rparr>"
| "traceReducer (UPDATE_ALL_FILTERS p) state = update_all_filters p state"
| "traceReducer (UPDATE_TRACE_FILTER_LOADING b) state = state\<lparr> tr_filterLoading := b \<rparr>"
| "traceReducer (SELECT_TRACE_FILTER f) state = state\<lparr> tr_selectedFilter := f \<rparr>"
| "traceReducer RESET_TRACE_FILTER state = trace_initialValue"
| "traceReducer (UPDATE_SELECTED_TAGS ts) state = state\<lparr> tr_selectedTags := ts \<rparr>"
| "traceReducer (UPDATE_SPANS_AGGREGATE a) state = state\<lparr> tr_spansAggregate := a \<rparr>"
| "traceReducer (UPDATE_TAG_MODAL_VISIBILITY b) state = state\<lparr> tr_isTagModalOpen := b \<rparr>"
| "traceReducer (UPDATE_IS_TAG_ERROR b) state = state\<lparr> tr_isTagModalError := b \<rparr>"
| "traceReducer (UPDATE_SELECTED_FUNCTION f unit_name) state =
     state\<lparr> tr_selectedFunction := f, tr_yAxisUnit := unit_name \<rparr>"
| "traceReducer (UPDATE_SELECTED_GROUP_BY g) state = state\<lparr> tr_selectedGroupBy := g \<rparr>"
| "traceReducer (UPDATE_TRACE_GRAPH_LOADING b) state = on_graph (sg_loading_update (\<lambda>_. b)) state"
| "traceReducer (UPDATE_TRACE_GRAPH_ERROR e m) state =
     on_graph (\<lambda>g. g\<lparr> sg_error := e, sg_errorMessage := m, sg_loading := False \<rparr>) state"
| "traceReducer (UPDATE_TRACE_GRAPH_SUCCESS d) state =
     on_graph (\<lambda>g. g\<lparr> sg_payload := d, sg_loading := False, sg_error := False \<rparr>) state"
| "traceReducer (UPDATE_FILTER_RESPONSE_SELECTED s) state = state\<lparr> tr_filterResponseSelected := s \<rparr>"
| "traceReducer (UPDATE_FILTER_EXCLUDE f) state = state\<lparr> tr_isFilterExclude := f \<rparr>"
| "traceReducer (UPDATE_SPAN_ORDER s) state = on_aggregate (sa_order_update (\<lambda>_. s)) state"
| "traceReducer (UPDATE_SPANS_AGGREGATE_PAGE_NUMBER n) state = on_aggregate (sa_currentPage_update (\<lambda>_. n)) state"
| "traceReducer (UPDATE_SPANS_AGGREGATE_PAGE_SIZE n) state = on_aggregate (sa_pageSize_update (\<lambda>_. n)) state"
| "traceReducer (UPDATE_SPAN_ORDER_PARAMS s) state = on_aggregate (sa_orderParam_update (\<lambda>_. s)) state"
| "traceReducer (UPDATE_SPAN_UPDATE_FILTER_DISPLAY_VALUE f) state = state\<lparr> tr_filterDisplayValue := f \<rparr>"

section \<open>The service list\<close>

record MetricReducer =
  mr_error :: bool
  mr_errorMessage :: string
  mr_loading :: bool
  mr_metricsApplicationLoading :: bool
  mr_services :: "string list"
  mr_topOperations :: "string list"
  mr_serviceOverview :: "string list"
  mr_topLevelOperations :: "string list"

definition metrics_InitialValue :: MetricReducer where
  "metrics_InitialValue = \<lparr> mr_error = False, mr_errorMessage = [], mr_loading = True,
     mr_metricsApplicationLoading = True, mr_services = [], mr_topOperations = [],
     mr_serviceOverview = [], mr_topLevelOperations = [] \<rparr>"

datatype metrics_action =
    GET_SERVICE_LIST_ERROR string
  | GET_SERVICE_LIST_LOADING_START
  | GET_SERVICE_LIST_SUCCESS "string list"
  | GET_INITIAL_APPLICATION_LOADING
  | GET_INITIAL_APPLICATION_ERROR string
  | RESET_INITIAL_APPLICATION_DATA
  | GET_INTIAL_APPLICATION_DATA "string list" "string list" "string list"

fun metricsReducer :: "metrics_action \<Rightarrow> MetricReducer \<Rightarrow> MetricReducer" where
  "metricsReducer (GET_SERVICE_LIST_ERROR m) state =
     state\<lparr> mr_error := True, mr_errorMessage := m, mr_loading := False \<rparr>"
| "metricsReducer GET_SERVICE_LIST_LOADING_START state = state\<lparr> mr_loading := True \<rparr>"
| "metricsReducer (GET_SERVICE_LIST_SUCCESS s) state = state\<lparr> mr_loading := False, mr_services := s \<rparr>"
| "metricsReducer GET_INITIAL_APPLICATION_LOADING state = state\<lparr> mr_metricsApplicationLoading := True \<rparr>"
| "metricsReducer (GET_INITIAL_APPLICATION_ERROR m) state =
     state\<lparr> mr_metricsApplicationLoading := False, mr_errorMessage := m, mr_error := True \<rparr>"
| "metricsReducer RESET_INITIAL_APPLICATION_DATA state = metrics_InitialValue"
| "metricsReducer (GET_INTIAL_APPLICATION_DATA tops overview levels) state =
     state\<lparr> mr_topOperations := tops, mr_serviceOverview := overview,
            mr_metricsApplicationLoading := False, mr_topLevelOperations := levels \<rparr>"

section \<open>The application, the service map and the usage data\<close>

record AppReducer =
  ar_currentVersion :: string
  ar_latestVersion :: string
  ar_isCurrentVersionError :: bool
  ar_isLatestVersionError :: bool
  ar_configs :: string
  ar_ee :: string
  ar_setupCompleted :: bool

definition app_InitialValue :: AppReducer where
  "app_InitialValue = \<lparr> ar_currentVersion = [], ar_latestVersion = [], ar_isCurrentVersionError = False,
     ar_isLatestVersionError = False, ar_configs = [], ar_ee = ''Y'', ar_setupCompleted = True \<rparr>"

datatype app_action =
    UPDATE_CURRENT_VERSION string string bool
  | UPDATE_LATEST_VERSION string
  | UPDATE_CURRENT_ERROR
  | UPDATE_LATEST_VERSION_ERROR
  | UPDATE_CONFIGS string

fun appReducer :: "app_action \<Rightarrow> AppReducer \<Rightarrow> AppReducer" where
  "appReducer (UPDATE_CURRENT_VERSION v e done) state =
     state\<lparr> ar_currentVersion := v, ar_ee := e, ar_setupCompleted := done \<rparr>"
| "appReducer (UPDATE_LATEST_VERSION v) state = state\<lparr> ar_latestVersion := v \<rparr>"
| "appReducer UPDATE_CURRENT_ERROR state = state\<lparr> ar_isCurrentVersionError := True \<rparr>"
| "appReducer UPDATE_LATEST_VERSION_ERROR state = state\<lparr> ar_isLatestVersionError := True \<rparr>"
| "appReducer (UPDATE_CONFIGS c) state = state\<lparr> ar_configs := c \<rparr>"

record ServiceMapStore =
  sm_items :: "string list"
  sm_loading :: bool

datatype service_map_action = GetServiceMapItems "string list" | ServiceMapLoading bool

fun ServiceMapReducer :: "service_map_action \<Rightarrow> ServiceMapStore \<Rightarrow> ServiceMapStore" where
  "ServiceMapReducer (GetServiceMapItems items) state = state\<lparr> sm_items := items \<rparr>"
| "ServiceMapReducer (ServiceMapLoading b) state = state\<lparr> sm_loading := b \<rparr>"

section \<open>Lemmas and properties\<close>

lemma metrics_error_kept:
  "mr_error st \<Longrightarrow> RESET_INITIAL_APPLICATION_DATA \<notin> set acts \<Longrightarrow> mr_error (fold metricsReducer acts st)"
proof (induction acts arbitrary: st)
  case (Cons a acts)
  then have "mr_error (metricsReducer a st)" by (cases a) simp_all
  with Cons show ?case by simp
qed simp

text \<open>\<^verbatim>\<open>UPDATE_ALL_FILTERS\<close> does at once what the single updates of the filters, the tags, the
  exclusions and the paging do one after the other, and sets the three fields that have no
  update of their own.\<close>

theorem update_all_filters_equiv:
  "traceReducer (UPDATE_ALL_FILTERS p) st =
     (fold traceReducer
        [UPDATE_SPAN_ORDER_PARAMS (af_orderParam p), UPDATE_SPANS_AGGREGATE_PAGE_NUMBER (af_current p),
         UPDATE_TRACE_FILTER (af_filter p), UPDATE_SPAN_ORDER (af_order p),
         UPDATE_FILTER_EXCLUDE (af_isFilterExclude p), SELECT_TRACE_FILTER (af_selectedFilter p),
         UPDATE_SPANS_AGGREGATE_PAGE_SIZE (af_pageSize p), UPDATE_SELECTED_TAGS (af_selectedTags p)] st)
     \<lparr> tr_filterToFetchData := af_filterToFetchData p, tr_userSelectedFilter := af_userSelected p,
       tr_spanKind := af_spanKind p \<rparr>"
  by (simp add: update_all_filters_def on_aggregate_def)

text \<open>An error of the service list stays set through every later success, until the data is reset.\<close>

theorem metrics_error_sticky:
  assumes "RESET_INITIAL_APPLICATION_DATA \<notin> set acts"
  shows "mr_error (fold metricsReducer (GET_SERVICE_LIST_ERROR m # acts) st)"
  using assms metrics_error_kept by simp

theorem metrics_error_sticky_witness:
  "mr_error (fold metricsReducer [GET_SERVICE_LIST_ERROR ''x'', GET_SERVICE_LIST_SUCCESS [''s'']] metrics_InitialValue)"
  by (rule metrics_error_sticky) simp

end
