(* ===== verification/SpanTree.thy ===== *)
theory SpanTree
  imports JsString
begin

text \<open>
  From a list of spans to a forest: \<^verbatim>\<open>spanToTreeUtil\<close> of \<^verbatim>\<open>frontend/src/utils/spanToTree.ts\<close>.  The map
  from span ids to mutable tree objects is an explicit store: a node has the ids of its
  children, and an object deleted from the map stays in the store, where its parent still
  reaches it.  A reference without a span or trace id counts as one with an empty id; a duration
  is already an integer, and the two tag columns have the same shape.
\<close>

section \<open>References and tags\<close>

record span_ref =
  ref_traceId :: string
  ref_spanId :: string

definition parse_ref_object :: "string \<Rightarrow> string jsobj" where
  "parse_ref_object rawRef =
     fold (\<lambda>pair refObject.
         case split_on (CHR ''='') pair of
           key # v # _ \<Rightarrow> obj_set key v refObject
         | _ \<Rightarrow> refObject)
       (split_on (CHR '','') (filter (\<lambda>c. c \<notin> {CHR ''{'', CHR ''}'', CHR '' ''}) rawRef)) []"

definition to_ref :: "string jsobj \<Rightarrow> span_ref" where
  "to_ref refObject = \<lparr> ref_traceId = obj_get_or refObject ''TraceId'' [],
     ref_spanId = obj_get_or refObject ''SpanId'' [] \<rparr>"

definition getSpanReferences :: "string list \<Rightarrow> bool \<Rightarrow> span_ref list" where
  "getSpanReferences rawReferences isChildReference =
     map (\<lambda>r. to_ref (parse_ref_object r))
       (if isChildReference then filter (\<lambda>v. str_includes v ''CHILD_OF'') rawReferences
        else filter (\<lambda>v. \<not> str_includes v ''CHILD_OF'') rawReferences)"

datatype tag_column = NoTags | OneTag string | ManyTags "string list"

definition getSpanTags :: "tag_column \<Rightarrow> tag_column \<Rightarrow> (string \<times> string) list" where
  "getSpanTags keys vals =
     (case (keys, vals) of
        (OneTag k, OneTag v) \<Rightarrow> [(k, v)]
      | (ManyTags ks, ManyTags vs) \<Rightarrow>
          if length ks > 0 \<and> length vs > 0
          then map (\<lambda>j. (ks ! j, if j < length vs then vs ! j else ''undefined'')) [0..<length ks] else []
      | _ \<Rightarrow> [])"

section \<open>The store of tree nodes\<close>

record Span =
  span_startTime :: int
  span_id :: string
  span_serviceName :: string
  span_name :: string
  span_duration :: int
  span_tagKeys :: tag_column
  span_tagValues :: tag_column
  span_references :: "string list"
  span_hasError :: bool

record span_node =
  sn_id :: string
  sn_name :: string
  sn_startTime :: int
  sn_value :: int
  sn_serviceName :: string
  sn_hasError :: bool
  sn_tags :: "(string \<times> string) list"
  sn_childReferences :: "span_ref list option"
  sn_nonChildReferences :: "span_ref list"
  sn_children :: "string list"
  sn_isMissing :: bool
  sn_isProcessed :: bool

definition span_object :: "Span \<Rightarrow> span_node" where
  "span_object span = \<lparr> sn_id = span_id span, sn_name = span_name span, sn_startTime = span_startTime span,
     sn_value = span_duration span, sn_serviceName = span_serviceName span, sn_hasError = span_hasError span,
     sn_tags = getSpanTags (span_tagKeys span) (span_tagValues span),
     sn_childReferences = Some (getSpanReferences (span_references span) True),
     sn_nonChildReferences = getSpanReferences (span_references span) False,
     sn_children = [], sn_isMissing = False, sn_isProcessed = False \<rparr>"

definition missing_span :: "string \<Rightarrow> span_node" where
  "missing_span spanId = \<lparr> sn_id = spanId, sn_name = ''Missing Span ('' @ spanId @ '')'', sn_startTime = 0,
     sn_value = 0, sn_serviceName = [], sn_hasError = False, sn_tags = [], sn_childReferences = None,
     sn_nonChildReferences = [], sn_children = [], sn_isMissing = True, sn_isProcessed = False \<rparr>"

text \<open>The map and the set of trace ids.\<close>

type_synonym span_store = "span_node jsobj \<times> string list"

definition createTraceRootSpan :: "span_ref list \<Rightarrow> span_store \<Rightarrow> span_store" where
  "createTraceRootSpan spanReferences st =
     fold (\<lambda>r (spanMap, traceIds).
         (if ref_spanId r \<noteq> [] \<and> obj_get spanMap (ref_spanId r) = None
          then obj_set (ref_spanId r) (missing_span (ref_spanId r)) spanMap else spanMap,
          add_new (ref_traceId r) traceIds)) spanReferences st"

definition update_node :: "string \<Rightarrow> (span_node \<Rightarrow> span_node) \<Rightarrow> span_node jsobj \<Rightarrow> span_node jsobj" where
  "update_node k f spanMap = (case obj_get spanMap k of None \<Rightarrow> spanMap | Some n \<Rightarrow> obj_set k (f n) spanMap)"

definition attach :: "string \<Rightarrow> span_ref \<Rightarrow> span_node jsobj \<Rightarrow> span_node jsobj" where
  "attach spanId r spanMap =
     (if obj_get spanMap (ref_spanId r) \<noteq> None
      then update_node (ref_spanId r) (\<lambda>n. n\<lparr> sn_children := sn_children n @ [spanId] \<rparr>)
             (update_node spanId (\<lambda>n. n\<lparr> sn_isProcessed := True \<rparr>) spanMap)
      else spanMap)"

definition link_span :: "string \<times> span_node \<Rightarrow> span_store \<Rightarrow> span_store" where
  "link_span entry st =
     (case sn_childReferences (snd entry) of
        None \<Rightarrow> st
      | Some refs \<Rightarrow>
          (case createTraceRootSpan refs st of (spanMap, traceIds) \<Rightarrow>
             (fold (attach (fst entry)) refs spanMap, traceIds)))"

text \<open>The store after the first two loops; the second iterates over the entries as they were.\<close>

definition span_map :: "Span list \<Rightarrow> span_node jsobj" where
  "span_map spanList = fold (\<lambda>span. obj_set (span_id span) (span_object span)) spanList []"

definition linked_store :: "Span list \<Rightarrow> span_store" where
  "linked_store spanList = fold link_span (obj_entries (span_map spanList)) (span_map spanList, [])"

record ITraceForest =
  tf_spanTree :: "string list"
  tf_missingSpanTree :: "string list"

definition is_root :: "span_node \<Rightarrow> bool" where
  "is_root n = (case sn_childReferences n of None \<Rightarrow> False | Some refs \<Rightarrow> list_ex (\<lambda>r. ref_spanId r = []) refs)"

definition place_span :: "string list \<Rightarrow> string \<times> span_node \<Rightarrow> ITraceForest \<Rightarrow> ITraceForest" where
  "place_span referencedTraceIds entry forest =
     (if is_root (snd entry) then forest\<lparr> tf_spanTree := tf_spanTree forest @ [fst entry] \<rparr>
      else fold (\<lambda>traceId forest.
          if str_includes traceId (fst entry)
          then forest\<lparr> tf_spanTree := tf_spanTree forest @ [fst entry] \<rparr>
          else forest\<lparr> tf_missingSpanTree := tf_missingSpanTree forest @ [fst entry] \<rparr>)
        referencedTraceIds forest)"

text \<open>The roots of both trees, with the store that holds the nodes they reach.\<close>

definition remaining_spans :: "span_node jsobj \<Rightarrow> span_node jsobj" where
  "remaining_spans spanMap = filter (\<lambda>kv. \<not> sn_isProcessed (snd kv)) spanMap"

definition spanToTreeUtil :: "Span list \<Rightarrow> ITraceForest \<times> span_node jsobj" where
  "spanToTreeUtil spanList =
     (case linked_store spanList of (spanMap, traceIds) \<Rightarrow>
        (fold (place_span traceIds) (obj_entries (remaining_spans spanMap))
           \<lparr> tf_spanTree = [], tf_missingSpanTree = [] \<rparr>, spanMap))"


section \<open>The store after linking\<close>

lemma update_node_get:
  "obj_get (update_node k f m) j = (if j = k then map_option f (obj_get m k) else obj_get m j)"
  by (simp add: update_node_def split: option.splits)

lemma create_get:
  "createTraceRootSpan refs (m, T) = (m', T') \<Longrightarrow>
   obj_get m' j = (if obj_get m j = None \<and> j \<noteq> [] \<and> j \<in> ref_spanId ` set refs
                   then Some (missing_span j) else obj_get m j)
   \<and> set T' = set T \<union> ref_traceId ` set refs"
proof (induction refs arbitrary: m T)
  case (Cons r refs)
  let ?m1 = "if ref_spanId r \<noteq> [] \<and> obj_get m (ref_spanId r) = None
      then obj_set (ref_spanId r) (missing_span (ref_spanId r)) m else m"
  have "createTraceRootSpan refs (?m1, add_new (ref_traceId r) T) = (m', T')"
    using Cons.prems by (simp add: createTraceRootSpan_def)
  from Cons.IH [OF this] show ?case by auto
qed (simp add: createTraceRootSpan_def)

definition attached :: "string \<Rightarrow> span_ref list \<Rightarrow> bool \<Rightarrow> string \<Rightarrow> span_node \<Rightarrow> span_node" where
  "attached spanId refs found j n = n\<lparr>
     sn_children := sn_children n @ map (\<lambda>_. spanId) (filter (\<lambda>r. ref_spanId r = j) refs),
     sn_isProcessed := (sn_isProcessed n \<or> (j = spanId \<and> found)) \<rparr>"

lemma attached_attached:
  "attached s rs b' j (attached s [r] b j n) = attached s (r # rs) (b \<or> b') j n"
  by (cases n) (auto simp: attached_def)

lemma attach_get:
  "obj_get (attach spanId r m) j =
     map_option (attached spanId [r] (obj_get m (ref_spanId r) \<noteq> None) j) (obj_get m j)"
  by (cases "obj_get m j") (auto simp: attach_def update_node_get attached_def)

lemma attach_fold_get:
  "obj_get (fold (attach spanId) refs m) j =
     map_option (attached spanId refs (\<exists>r \<in> set refs. obj_get m (ref_spanId r) \<noteq> None) j) (obj_get m j)"
proof (induction refs arbitrary: m)
  case Nil
  then show ?case by (simp add: attached_def option.map_ident)
next
  case (Cons r refs)
  have keys: "obj_get (attach spanId r m) k \<noteq> None \<longleftrightarrow> obj_get m k \<noteq> None" for k
    by (simp add: attach_get)
  show ?case
    unfolding fold_simps comp_apply Cons.IH keys attach_get
    by (cases "obj_get m j") (simp_all add: attached_attached)
qed

text \<open>The invariant of the linking loop, for the entries that are done.\<close>

definition refs_of :: "Span list \<Rightarrow> string \<Rightarrow> span_ref list" where
  "refs_of spans k = (case obj_get (span_map spans) k of
     None \<Rightarrow> [] | Some n \<Rightarrow> (case sn_childReferences n of None \<Rightarrow> [] | Some refs \<Rightarrow> refs))"

definition link_inv :: "Span list \<Rightarrow> string set \<Rightarrow> span_store \<Rightarrow> bool" where
  "link_inv spans finished st \<longleftrightarrow> (\<forall>k.
     (obj_get (fst st) k \<noteq> None \<longleftrightarrow> obj_get (span_map spans) k \<noteq> None
        \<or> (k \<noteq> [] \<and> (\<exists>s \<in> finished. k \<in> ref_spanId ` set (refs_of spans s))))
   \<and> (\<forall>n. obj_get (fst st) k = Some n \<longrightarrow>
        sn_childReferences n = (if obj_get (span_map spans) k = None then None else Some (refs_of spans k))
      \<and> (sn_isProcessed n \<longleftrightarrow> k \<in> finished \<and> (\<exists>r \<in> set (refs_of spans k). ref_spanId r \<noteq> []))
      \<and> set (sn_children n) = {s \<in> finished. k \<in> ref_spanId ` set (refs_of spans s)}))
   \<and> set (snd st) = (\<Union>s \<in> finished. ref_traceId ` set (refs_of spans s))"

lemma link_inv_step:
  assumes inv: "link_inv spans finished st" and s: "obj_get (span_map spans) s = Some n"
    and n: "sn_childReferences n = Some (refs_of spans s)" and new: "s \<notin> finished"
    and ids: "obj_get (span_map spans) [] = None"
  shows "link_inv spans (insert s finished) (link_span (s, n) st)"
proof -
  obtain m T where st: "st = (m, T)" by fastforce
  let ?refs = "refs_of spans s"
  obtain m1 T1 where c: "createTraceRootSpan ?refs (m, T) = (m1, T1)" by fastforce
  have link: "link_span (s, n) st = (fold (attach s) ?refs m1, T1)"
    by (simp add: link_span_def n c st)
  note inv' = inv [unfolded link_inv_def st fst_conv snd_conv]
  have none: "obj_get m [] = None"
    using inv' [THEN conjunct1, rule_format, of "[]"] ids by auto
  have m1: "obj_get m1 j = (if obj_get m j = None \<and> j \<noteq> [] \<and> j \<in> ref_spanId ` set ?refs
      then Some (missing_span j) else obj_get m j)" for j
    using create_get [OF c] by blast
  have found: "(\<exists>r \<in> set ?refs. obj_get m1 (ref_spanId r) \<noteq> None) \<longleftrightarrow> (\<exists>r \<in> set ?refs. ref_spanId r \<noteq> [])"
    using none unfolding m1 by (metis (mono_tags, lifting) image_eqI option.distinct(1))
  have get: "obj_get (fold (attach s) ?refs m1) k =
      map_option (attached s ?refs (\<exists>r \<in> set ?refs. ref_spanId r \<noteq> []) k) (obj_get m1 k)" for k
    unfolding attach_fold_get found ..
  have keys: "obj_get (fold (attach s) ?refs m1) k \<noteq> None \<longleftrightarrow> obj_get (span_map spans) k \<noteq> None
        \<or> (k \<noteq> [] \<and> (\<exists>s \<in> insert s finished. k \<in> ref_spanId ` set (refs_of spans s)))" for k
    unfolding get using inv' by (auto simp: m1)
  have sset: "set (map (\<lambda>_. s) (filter (\<lambda>r. ref_spanId r = k) ?refs)) = {x. x = s \<and> k \<in> ref_spanId ` set ?refs}" for k
    by force
  have nodes: "sn_childReferences x = (if obj_get (span_map spans) k = None then None else Some (refs_of spans k))
      \<and> (sn_isProcessed x \<longleftrightarrow> k \<in> insert s finished \<and> (\<exists>r \<in> set (refs_of spans k). ref_spanId r \<noteq> []))
      \<and> set (sn_children x) = {y \<in> insert s finished. k \<in> ref_spanId ` set (refs_of spans y)}"
    if x: "obj_get (fold (attach s) ?refs m1) k = Some x" for k x
  proof -
    from x obtain y where y: "obj_get m1 k = Some y"
      and xy: "x = attached s ?refs (\<exists>r \<in> set ?refs. ref_spanId r \<noteq> []) k y"
      unfolding get by auto
    have y_ok: "sn_childReferences y = (if obj_get (span_map spans) k = None then None else Some (refs_of spans k))
      \<and> (sn_isProcessed y \<longleftrightarrow> k \<in> finished \<and> (\<exists>r \<in> set (refs_of spans k). ref_spanId r \<noteq> []))
      \<and> set (sn_children y) = {z \<in> finished. k \<in> ref_spanId ` set (refs_of spans z)}"
    proof (cases "obj_get m k")
      case None
      with y m1 have y': "y = missing_span k" "k \<noteq> []" by (auto split: if_splits)
      have "obj_get (span_map spans) k = None" "\<forall>z \<in> finished. k \<notin> ref_spanId ` set (refs_of spans z)"
        using None inv' y'(2) by blast+
      moreover from this(1) have "refs_of spans k = []" by (simp add: refs_of_def)
      ultimately show ?thesis using y'(1) by (auto simp: missing_span_def)
    next
      case (Some z)
      with y m1 have "y = z" by simp
      with Some inv' show ?thesis by blast
    qed
    show ?thesis
      using y_ok sset [of k] new unfolding xy attached_def by (auto simp del: set_map)
  qed
  have "set T1 = (\<Union>s \<in> insert s finished. ref_traceId ` set (refs_of spans s))"
    using create_get [OF c] inv' by auto
  with keys nodes show ?thesis unfolding link link_inv_def by simp
qed


section \<open>The forest\<close>

lemma span_map_get:
  "obj_get (span_map spans) k = Some n \<Longrightarrow> \<exists>s \<in> set spans. span_id s = k \<and> n = span_object s"
proof (induction spans rule: rev_induct)
  case (snoc s spans)
  then show ?case by (auto simp: span_map_def split: if_splits)
qed (simp add: span_map_def)

lemma span_map_keys: "obj_get (span_map spans) k \<noteq> None \<longleftrightarrow> k \<in> span_id ` set spans"
proof (induction spans rule: rev_induct)
  case (snoc s spans)
  then show ?case by (auto simp: span_map_def)
qed (simp add: span_map_def)

lemma span_map_ok: "obj_ok (span_map spans)"
  by (induction spans rule: rev_induct) (simp_all add: span_map_def)

lemma span_map_refs:
  "obj_get (span_map spans) k = Some n \<Longrightarrow> sn_childReferences n = Some (refs_of spans k)"
  using span_map_get by (fastforce simp: refs_of_def span_object_def)

lemma update_node_ok: "obj_ok m \<Longrightarrow> obj_ok (update_node k f m)"
  by (simp add: update_node_def split: option.splits)

lemma attach_ok: "obj_ok m \<Longrightarrow> obj_ok (fold (attach s) refs m)"
  by (induction refs arbitrary: m) (simp_all add: attach_def update_node_ok)

lemma create_ok: "obj_ok m \<Longrightarrow> createTraceRootSpan refs (m, T) = (m', T') \<Longrightarrow> obj_ok m'"
proof (induction refs arbitrary: m T)
  case (Cons r refs)
  let ?m1 = "if ref_spanId r \<noteq> [] \<and> obj_get m (ref_spanId r) = None
      then obj_set (ref_spanId r) (missing_span (ref_spanId r)) m else m"
  have "createTraceRootSpan refs (?m1, add_new (ref_traceId r) T) = (m', T')"
    using Cons.prems by (simp add: createTraceRootSpan_def)
  from Cons.IH [OF _ this] Cons.prems(1) show ?case by simp
qed (simp add: createTraceRootSpan_def)

lemma link_ok: "obj_ok (fst st) \<Longrightarrow> obj_ok (fst (link_span e st))"
  using create_ok attach_ok by (cases st) (auto simp: link_span_def split: option.splits prod.splits)

lemma link_fold:
  assumes ids: "obj_get (span_map spans) [] = None"
  shows "\<forall>e \<in> set es. obj_get (span_map spans) (fst e) = Some (snd e) \<Longrightarrow> distinct (map fst es) \<Longrightarrow>
    fst ` set es \<inter> finished = {} \<Longrightarrow> link_inv spans finished st \<Longrightarrow> obj_ok (fst st) \<Longrightarrow>
    link_inv spans (finished \<union> fst ` set es) (fold link_span es st) \<and> obj_ok (fst (fold link_span es st))"
proof (induction es arbitrary: finished st)
  case (Cons e es)
  obtain k n where e: "e = (k, n)" by fastforce
  have k: "obj_get (span_map spans) k = Some n" "k \<notin> finished" using Cons.prems e by auto
  have "link_inv spans (insert k finished) (link_span e st)"
    unfolding e by (rule link_inv_step [OF Cons.prems(4) k(1) span_map_refs [OF k(1)] k(2) ids])
  from Cons.IH [OF _ _ _ this link_ok [OF Cons.prems(5)]] Cons.prems e show ?case by auto
qed simp

lemma linked_inv:
  assumes ids: "[] \<notin> span_id ` set spans"
  shows "link_inv spans (span_id ` set spans) (linked_store spans) \<and> obj_ok (fst (linked_store spans))"
proof -
  let ?es = "obj_entries (span_map spans)"
  have none: "obj_get (span_map spans) [] = None" using ids span_map_keys [of spans "[]"] by auto
  have e: "\<forall>e \<in> set ?es. obj_get (span_map spans) (fst e) = Some (snd e)"
    using obj_get_conv_set [OF span_map_ok] by auto
  have d: "distinct (map fst ?es)" using distinct_obj_keys [of "span_map spans"] span_map_ok by (simp add: obj_keys_def)
  have "obj_get (span_map spans) k = Some n \<longrightarrow> sn_childReferences n = Some (refs_of spans k)
      \<and> \<not> sn_isProcessed n \<and> sn_children n = []" for k n
    using span_map_refs span_map_get [of spans k n] by (auto simp: span_object_def)
  then have init: "link_inv spans {} (span_map spans, [])" by (auto simp: link_inv_def)
  have "fst ` set ?es = span_id ` set spans"
    using span_map_keys [of spans] by (auto simp: obj_get_eq_None)
  with link_fold [OF none e d _ init] span_map_ok show ?thesis
    by (simp add: linked_store_def)
qed

lemma place_fold:
  "set (tf_spanTree (fold (place_span T) es f)) \<union> set (tf_missingSpanTree (fold (place_span T) es f))
     = set (tf_spanTree f) \<union> set (tf_missingSpanTree f)
       \<union> {k. \<exists>n. (k, n) \<in> set es \<and> (is_root n \<or> T \<noteq> [])}"
proof (induction es arbitrary: f)
  case (Cons e es)
  have "set (tf_spanTree (fold (\<lambda>t f. if str_includes t k then f\<lparr> tf_spanTree := tf_spanTree f @ [k] \<rparr>
          else f\<lparr> tf_missingSpanTree := tf_missingSpanTree f @ [k] \<rparr>) T f)) \<union>
      set (tf_missingSpanTree (fold (\<lambda>t f. if str_includes t k then f\<lparr> tf_spanTree := tf_spanTree f @ [k] \<rparr>
          else f\<lparr> tf_missingSpanTree := tf_missingSpanTree f @ [k] \<rparr>) T f))
      = set (tf_spanTree f) \<union> set (tf_missingSpanTree f) \<union> (if T = [] then {} else {k})" for k
    by (induction T arbitrary: f) auto
  then have "set (tf_spanTree (place_span T e f)) \<union> set (tf_missingSpanTree (place_span T e f))
      = set (tf_spanTree f) \<union> set (tf_missingSpanTree f) \<union> (if is_root (snd e) \<or> T \<noteq> [] then {fst e} else {})"
    by (simp add: place_span_def)
  then show ?case by (cases e) (simp add: Cons.IH, auto)
qed simp

definition child_rel :: "span_node jsobj \<Rightarrow> (string \<times> string) set" where
  "child_rel m = {(p, c). \<exists>n. obj_get m p = Some n \<and> c \<in> set (sn_children n)}"

definition parent_refs :: "Span list \<Rightarrow> (string \<times> string) set" where
  "parent_refs spans = {(p, c). p \<noteq> [] \<and> (\<exists>s \<in> set spans. span_id s = c) \<and> p \<in> ref_spanId ` set (refs_of spans c)}"

lemma forest_reaches:
  assumes ids: "[] \<notin> span_id ` set spans"
    and refs: "\<forall>s \<in> set spans. refs_of spans (span_id s) \<noteq> []"
    and wf: "wf (parent_refs spans)"
    and f: "spanToTreeUtil spans = (forest, m)"
    and k: "obj_get m k \<noteq> None"
  shows "\<exists>r \<in> set (tf_spanTree forest) \<union> set (tf_missingSpanTree forest). (r, k) \<in> (child_rel m)\<^sup>*"
  using wf k
proof (induction k rule: wf_induct_rule)
  case (less k)
  obtain T where st: "linked_store spans = (m, T)"
    and forest: "forest = fold (place_span T) (obj_entries (remaining_spans m)) \<lparr> tf_spanTree = [], tf_missingSpanTree = [] \<rparr>"
    using f by (auto simp: spanToTreeUtil_def split: prod.splits)
  from linked_inv [OF ids] have inv: "link_inv spans (span_id ` set spans) (m, T)" and ok: "obj_ok m"
    by (simp_all add: st)
  note inv' = inv [unfolded link_inv_def fst_conv snd_conv]
  from less.prems obtain n where n: "obj_get m k = Some n" by blast
  show ?case
  proof (cases "sn_isProcessed n")
    case True
    with inv' n obtain r where r: "k \<in> span_id ` set spans" "r \<in> set (refs_of spans k)" "ref_spanId r \<noteq> []"
      by blast
    let ?p = "ref_spanId r"
    have "obj_get m ?p \<noteq> None" using inv' r by blast
    moreover have "(?p, k) \<in> parent_refs spans" using r by (auto simp: parent_refs_def)
    ultimately obtain root where root: "root \<in> set (tf_spanTree forest) \<union> set (tf_missingSpanTree forest)"
      "(root, ?p) \<in> (child_rel m)\<^sup>*" using less.IH by blast
    obtain q where q: "obj_get m ?p = Some q" using \<open>obj_get m ?p \<noteq> None\<close> by blast
    then have "k \<in> set (sn_children q)" using inv' r by blast
    with q have "(?p, k) \<in> child_rel m" by (auto simp: child_rel_def)
    with root show ?thesis by (meson rtrancl.rtrancl_into_rtrancl)
  next
    case False
    then have "(k, n) \<in> set (obj_entries (remaining_spans m))"
      using n obj_get_conv_set [OF ok] by (simp add: remaining_spans_def)
    moreover have "is_root n \<or> T \<noteq> []"
    proof (cases "obj_get (span_map spans) k")
      case None
      with inv' [THEN conjunct1, THEN spec, of k, THEN conjunct1] n
      obtain s where "s \<in> span_id ` set spans" "k \<in> ref_spanId ` set (refs_of spans s)" by auto
      then have "s \<in> span_id ` set spans" "refs_of spans s \<noteq> []" by auto
      then obtain r where "s \<in> span_id ` set spans" "r \<in> set (refs_of spans s)" by (cases "refs_of spans s") auto
      with inv' [THEN conjunct2] have "ref_traceId r \<in> set T" by blast
      then show ?thesis by auto
    next
      case (Some x)
      then have s: "k \<in> span_id ` set spans" using span_map_keys [of spans k] by simp
      with refs have ne: "refs_of spans k \<noteq> []" by auto
      have "sn_childReferences n = Some (refs_of spans k)" using inv' n Some by simp
      moreover have "\<forall>r \<in> set (refs_of spans k). ref_spanId r = []" using inv' n s False by blast
      ultimately show ?thesis using ne by (cases "refs_of spans k") (simp_all add: is_root_def)
    qed
    ultimately have "k \<in> set (tf_spanTree forest) \<union> set (tf_missingSpanTree forest)"
      unfolding forest place_fold by blast
    then show ?thesis by blast
  qed
qed


section \<open>Properties\<close>

text \<open>The \<^verbatim>\<open>CHILD_OF\<close> references of the spans name a trace and a span, if only the empty one of a root.\<close>

definition references_named :: "Span list \<Rightarrow> bool" where
  "references_named spans \<longleftrightarrow> list_all (\<lambda>s. list_all (\<lambda>r. obj_get (parse_ref_object r) ''TraceId'' \<noteq> None
       \<and> obj_get (parse_ref_object r) ''SpanId'' \<noteq> None)
     (filter (\<lambda>v. str_includes v ''CHILD_OF'') (span_references s))) spans"

text \<open>C30: Let no span id be empty, every span have a \<^verbatim>\<open>CHILD_OF\<close> reference (to a parent, or to the empty span of a
  root), all such references name a trace and a span, and the parents not be circular.  Then every span is reached from
  the roots of the two trees through the children of the nodes.\<close>

theorem span_forest_complete:
  assumes "[] \<notin> span_id ` set spans" "references_named spans" "\<forall>s \<in> set spans. refs_of spans (span_id s) \<noteq> []"
    and "wf (parent_refs spans)" "spanToTreeUtil spans = (forest, m)" "s \<in> set spans"
  shows "\<exists>r \<in> set (tf_spanTree forest) \<union> set (tf_missingSpanTree forest). (r, span_id s) \<in> (child_rel m)\<^sup>*"
proof (rule forest_reaches [OF assms(1,3,4,5)])
  have "link_inv spans (span_id ` set spans) (linked_store spans)" using linked_inv [OF assms(1)] by blast
  moreover have "fst (linked_store spans) = m"
    using assms(5) by (auto simp: spanToTreeUtil_def split: prod.splits)
  ultimately have "obj_get m (span_id s) \<noteq> None \<longleftrightarrow> obj_get (span_map spans) (span_id s) \<noteq> None
      \<or> (span_id s \<noteq> [] \<and> (\<exists>x \<in> span_id ` set spans. span_id s \<in> ref_spanId ` set (refs_of spans x)))"
    by (simp add: link_inv_def)
  then show "obj_get m (span_id s) \<noteq> None"
    using span_map_keys [of spans "span_id s"] assms(6) by simp
qed

definition sample_span :: "string \<Rightarrow> string \<Rightarrow> string \<Rightarrow> Span" where
  "sample_span i parent trace = \<lparr> span_startTime = 1, span_id = i, span_serviceName = ''s'', span_name = ''n'',
     span_duration = 2, span_tagKeys = NoTags, span_tagValues = NoTags,
     span_references = [''{TraceId='' @ trace @ '', SpanId='' @ parent @ '', RefType=CHILD_OF}''],
     span_hasError = False \<rparr>"

definition sample_spans :: "Span list" where
  "sample_spans = [sample_span ''b'' ''a'' ''t'', sample_span ''a'' [] ''t'']"

theorem span_forest_complete_witness:
  "\<exists>r \<in> {''a''}. (r, ''b'') \<in> (child_rel (snd (spanToTreeUtil sample_spans)))\<^sup>*"
proof -
  have r: "refs_of sample_spans ''b'' = [\<lparr> ref_traceId = ''t'', ref_spanId = ''a'' \<rparr>]"
    "refs_of sample_spans ''a'' = [\<lparr> ref_traceId = ''t'', ref_spanId = [] \<rparr>]"
    by code_simp+
  have "parent_refs sample_spans \<subseteq> {(''a'', ''b'')}"
    using r by (auto simp: parent_refs_def sample_spans_def sample_span_def)
  then have wf: "wf (parent_refs sample_spans)" by (rule wf_subset [rotated]) simp
  have "fst (spanToTreeUtil sample_spans) = \<lparr> tf_spanTree = [''a''], tf_missingSpanTree = [] \<rparr>" by code_simp
  then have f: "spanToTreeUtil sample_spans
      = (\<lparr> tf_spanTree = [''a''], tf_missingSpanTree = [] \<rparr>, snd (spanToTreeUtil sample_spans))"
    by (metis prod.collapse)
  have n: "references_named sample_spans" by code_simp
  have i: "[] \<notin> span_id ` set sample_spans" "\<forall>s \<in> set sample_spans. refs_of sample_spans (span_id s) \<noteq> []"
    "sample_span ''b'' ''a'' ''t'' \<in> set sample_spans" "span_id (sample_span ''b'' ''a'' ''t'') = ''b''"
    using r by (auto simp: sample_spans_def sample_span_def)
  from span_forest_complete [OF i(1) n i(2) wf f i(3)] i(4) show ?thesis by simp
qed

text \<open>Spans that refer to each other in a circle are in neither tree: all of them are taken for
  children and deleted from the map.\<close>

theorem circular_spans_vanish:
  "fst (spanToTreeUtil [sample_span ''a'' ''b'' ''t'', sample_span ''b'' ''a'' ''t''])
     = \<lparr> tf_spanTree = [], tf_missingSpanTree = [] \<rparr>"
  by code_simp

text \<open>A missing parent is put into the forest once for every trace id that some reference
  mentions, so it appears twice when the references mention two.\<close>

theorem missing_span_duplicated:
  "fst (spanToTreeUtil [sample_span ''a'' ''m'' ''t'', sample_span ''b'' ''m'' ''u''])
     = \<lparr> tf_spanTree = [], tf_missingSpanTree = [''m'', ''m''] \<rparr>"
  by code_simp

end
