(* ===== verification/TraceTree.thy ===== *)
theory TraceTree
  imports JsString Complex_Main
begin

text \<open>
  Walks over a trace tree: \<^verbatim>\<open>frontend/src/container/GantChart/utils.ts\<close> and
  \<^verbatim>\<open>frontend/src/container/TraceDetail/utils.ts\<close>.  A node keeps its id, name, start time (milliseconds),
  duration and children; times are integers, so that products are exact.  The search in
  \<^verbatim>\<open>isSpanPresent\<close> takes the text of a node, \<^verbatim>\<open>JSON.stringify\<close> of its fields, as a parameter.
\<close>

datatype ITraceTree =
  TraceTree (tt_id: string) (tt_name: string) (tt_startTime: int) (tt_value: int) (tt_children: "ITraceTree list")

section \<open>The Gantt chart\<close>

record GetTraceMetaData =
  md_globalStart :: int
  md_globalEnd :: int
  md_spread :: int
  md_totalSpans :: nat
  md_levels :: nat

text \<open>The loop variables; \<open>None\<close> is the infinite initial bound.\<close>

record meta_state =
  ms_start :: "int option"
  ms_end :: "int option"
  ms_total :: nat
  ms_levels :: nat

definition min_opt :: "int option \<Rightarrow> int \<Rightarrow> int option" where
  "min_opt a b = Some (case a of None \<Rightarrow> b | Some x \<Rightarrow> min x b)"

definition max_opt :: "int option \<Rightarrow> int \<Rightarrow> int option" where
  "max_opt a b = Some (case a of None \<Rightarrow> b | Some x \<Rightarrow> max x b)"

definition visit_meta :: "int \<Rightarrow> int \<Rightarrow> nat \<Rightarrow> meta_state \<Rightarrow> meta_state" where
  "visit_meta startTime value level st =
     \<lparr> ms_start = min_opt (ms_start st) startTime, ms_end = max_opt (ms_end st) (startTime + value),
       ms_total = ms_total st + 1, ms_levels = max (ms_levels st) level \<rparr>"

fun traverse_meta :: "ITraceTree \<Rightarrow> nat \<Rightarrow> meta_state \<Rightarrow> meta_state" where
  "traverse_meta (TraceTree i n s v cs) level st =
     fold (\<lambda>c. traverse_meta c (level + 1)) cs (visit_meta s v level st)"

definition getMetaDataFromSpanTree :: "ITraceTree \<Rightarrow> GetTraceMetaData" where
  "getMetaDataFromSpanTree treeData =
     (let st = traverse_meta treeData 1 \<lparr> ms_start = None, ms_end = None, ms_total = 0, ms_levels = 1 \<rparr>;
          globalStart = the (ms_start st) * 1000000;
          globalEnd = the (ms_end st) * 1000000
      in \<lparr> md_globalStart = globalStart, md_globalEnd = globalEnd, md_spread = globalEnd - globalStart,
           md_totalSpans = ms_total st, md_levels = ms_levels st \<rparr>)"

text \<open>\<^verbatim>\<open>getNodeById\<close>: the last node with the id in a list of trees, as the callback keeps overwriting.\<close>

fun find_last_node :: "string \<Rightarrow> ITraceTree \<Rightarrow> ITraceTree option \<Rightarrow> ITraceTree option" where
  "find_last_node searchingId (TraceTree i n s v cs) found =
     fold (find_last_node searchingId) cs
       (if searchingId = i then Some (TraceTree i n s v cs) else found)"

definition getNodeById ::
  "string \<Rightarrow> ITraceTree list \<Rightarrow> ITraceTree list \<Rightarrow> ITraceTree list option \<times> ITraceTree list option" where
  "getNodeById searchingId spanTree missingSpanTree =
     (map_option (\<lambda>t. [t]) (fold (find_last_node searchingId) spanTree None),
      map_option (\<lambda>t. [t]) (fold (find_last_node searchingId) missingSpanTree None))"

fun isSpanPresent :: "(ITraceTree \<Rightarrow> string) \<Rightarrow> string \<Rightarrow> ITraceTree \<Rightarrow> ITraceTree list \<Rightarrow> ITraceTree list" where
  "isSpanPresent stringify searchedKey (TraceTree i n s v cs) foundNode =
     fold (isSpanPresent stringify searchedKey) cs
       (if str_includes (stringify (TraceTree i n s v cs)) searchedKey
        then foundNode @ [TraceTree i n s v cs] else foundNode)"

text \<open>The path and whether the span was found below; \<^verbatim>\<open>pop\<close> is \<open>butlast\<close>.\<close>

fun traverse_path :: "string \<Rightarrow> ITraceTree \<Rightarrow> string list \<Rightarrow> string list \<times> bool" where
  "traverse_path spanId (TraceTree i n s v cs) spanPath =
     (let spanPath1 = spanPath @ [i] in
      if spanId = i then (spanPath1, True)
      else case fold (\<lambda>c (path, foundInChild).
                  case traverse_path spanId c path of (path', b) \<Rightarrow> (path', foundInChild \<or> b))
                cs (spanPath1, False) of
        (spanPath2, foundInChild) \<Rightarrow>
          if \<not> foundInChild then (butlast spanPath2, False) else (spanPath2, True))"

definition getSpanPath :: "ITraceTree \<Rightarrow> string \<Rightarrow> string list" where
  "getSpanPath tree spanId = fst (traverse_path spanId tree [])"

section \<open>The trace details\<close>

function getSortedData :: "ITraceTree \<Rightarrow> ITraceTree" where
  "getSortedData (TraceTree i n s v cs) = TraceTree i n s v (map getSortedData (sort_key tt_startTime cs))"
  by pat_completeness auto
termination
  by (relation "measure size") (auto simp: less_Suc_eq_le intro: size_list_estimation' trans_le_add2)

fun traverse_levels :: "ITraceTree \<Rightarrow> nat \<Rightarrow> nat \<Rightarrow> nat" where
  "traverse_levels (TraceTree i n s v cs) level levels =
     fold (\<lambda>c levels. traverse_levels c (level + 1) levels) cs (max level levels)"

definition getTreeLevelsCount :: "ITraceTree \<Rightarrow> nat" where
  "getTreeLevelsCount tree = traverse_levels tree 1 1"

record IIntervalUnit =
  iu_name :: string
  iu_multiplier :: rat

definition INTERVAL_UNITS :: "IIntervalUnit list" where
  "INTERVAL_UNITS =
     [\<lparr> iu_name = ''ms'', iu_multiplier = 1 \<rparr>,
      \<lparr> iu_name = ''s'', iu_multiplier = 1 / 1000 \<rparr>,
      \<lparr> iu_name = ''m'', iu_multiplier = 1 / (1000 * 60) \<rparr>,
      \<lparr> iu_name = ''hr'', iu_multiplier = 1 / (1000 * 60 * 60) \<rparr>,
      \<lparr> iu_name = ''day'', iu_multiplier = 1 / (1000 * 60 * 60 * 24) \<rparr>,
      \<lparr> iu_name = ''week'', iu_multiplier = 1 / (1000 * 60 * 60 * 24 * 7) \<rparr>]"

definition resolveTimeFromInterval :: "rat \<Rightarrow> IIntervalUnit \<Rightarrow> rat" where
  "resolveTimeFromInterval intervalTime intervalUnit = intervalTime * iu_multiplier intervalUnit"

definition convertTimeToRelevantUnit :: "rat \<Rightarrow> rat \<times> string" where
  "convertTimeToRelevantUnit intervalTime =
     (case find (\<lambda>u. intervalTime * iu_multiplier u \<ge> 1) (rev INTERVAL_UNITS) of
        None \<Rightarrow> (intervalTime, iu_name (hd INTERVAL_UNITS))
      | Some u \<Rightarrow> (intervalTime * iu_multiplier u, iu_name u))"

section \<open>Reference definitions\<close>

fun nodes :: "ITraceTree \<Rightarrow> ITraceTree list" where
  "nodes (TraceTree i n s v cs) = TraceTree i n s v cs # concat (map nodes cs)"

abbreviation ids :: "ITraceTree \<Rightarrow> string list" where
  "ids t \<equiv> map tt_id (nodes t)"

fun height :: "ITraceTree \<Rightarrow> nat" where
  "height (TraceTree i n s v cs) = Suc (foldr max (map height cs) 0)"

inductive tree_path :: "ITraceTree \<Rightarrow> string list \<Rightarrow> bool" where
  here: "tree_path (TraceTree i n s v cs) [i]"
| below: "c \<in> set cs \<Longrightarrow> tree_path c p \<Longrightarrow> tree_path (TraceTree i n s v cs) (i # p)"

lemma foldr_max_le: "foldr max xs (0 :: nat) \<le> k \<longleftrightarrow> (\<forall>x \<in> set xs. x \<le> k)"
  by (induction xs) auto

text \<open>Paths.\<close>

lemma path_absent: "spanId \<notin> set (ids t) \<Longrightarrow> traverse_path spanId t p = (p, False)"
proof (induction t arbitrary: p)
  case (TraceTree i n s v cs)
  have "fold (\<lambda>c (path, f). case traverse_path spanId c path of (path', b) \<Rightarrow> (path', f \<or> b)) ds (q, False) = (q, False)"
    if "set ds \<subseteq> set cs" for ds q
    using that
  proof (induction ds)
    case (Cons d ds)
    then have "traverse_path spanId d q = (q, False)"
      using TraceTree by (auto simp: image_iff)
    with Cons show ?case by simp
  qed simp
  with TraceTree.prems show ?case by simp
qed

lemma path_present:
  "distinct (ids t) \<Longrightarrow> spanId \<in> set (ids t) \<Longrightarrow>
   \<exists>q. traverse_path spanId t p = (p @ q, True) \<and> tree_path t q \<and> last q = spanId"
proof (induction t arbitrary: p)
  case (TraceTree i n s v cs)
  let ?f = "\<lambda>c (path, f). case traverse_path spanId c path of (path', b) \<Rightarrow> (path', f \<or> b)"
  show ?case
  proof (cases "spanId = i")
    case True
    then show ?thesis by (auto intro: tree_path.here)
  next
    case False
    with TraceTree.prems(2) obtain c where c: "c \<in> set cs" "spanId \<in> set (ids c)" by auto
    then obtain as bs where cs: "cs = as @ c # bs" by (meson split_list)
    have d: "distinct (concat (map ids cs))"
      using TraceTree.prems(1) by (simp add: map_concat comp_def)
    then have dc: "distinct (ids c)"
      and "set (ids c) \<inter> set (concat (map ids as)) = {}" "set (ids c) \<inter> set (concat (map ids bs)) = {}"
      unfolding cs map_append list.map concat_append concat.simps distinct_append set_append by blast+
    then have "spanId \<notin> set (concat (map ids as))" "spanId \<notin> set (concat (map ids bs))" using c(2) by blast+
    then have ab: "\<forall>x \<in> set as \<union> set bs. spanId \<notin> set (ids x)" by auto
    have skip: "fold ?f xs (q, b) = (q, b)" if "\<forall>x \<in> set xs. spanId \<notin> set (ids x)" for xs q b
      using that by (induction xs) (simp_all add: path_absent)
    from TraceTree.IH [OF c(1) dc c(2), of "p @ [i]"] obtain q where
      q: "traverse_path spanId c (p @ [i]) = (p @ [i] @ q, True)" "tree_path c q" "last q = spanId" by auto
    have "fold ?f cs (p @ [i], False) = (p @ [i] @ q, True)"
      using ab by (simp add: cs skip q(1))
    moreover have "q \<noteq> []" using q(2) by (cases rule: tree_path.cases) auto
    moreover have "tree_path (TraceTree i n s v cs) (i # q)" using c(1) q(2) by (rule tree_path.below)
    ultimately show ?thesis using False q(3) by (intro exI [of _ "i # q"]) simp
  qed
qed

text \<open>Levels and the meta data.\<close>

lemma levels_eq: "traverse_levels t level levels = max levels (level + height t - 1)"
proof (induction t arbitrary: level levels)
  case (TraceTree i n s v cs)
  have "fold (\<lambda>c levels. traverse_levels c (level + 1) levels) ds l = foldr max (map (\<lambda>c. level + height c) ds) l"
    if "set ds \<subseteq> set cs" for ds l
    using that
  proof (induction ds arbitrary: l)
    case (Cons d ds)
    have "foldr max xs (max l x) = max x (foldr max xs l)" for xs and x :: nat
      by (induction xs) (auto simp: max.left_commute max.commute)
    with Cons TraceTree.IH [of d "level + 1" l] show ?case by simp
  qed simp
  moreover have "foldr max (map (\<lambda>c. level + height c) ds) (max level l) = max l (level + foldr max (map height ds) 0)" for ds l
    by (induction ds) auto
  ultimately show ?case by simp
qed

lemma height_pos: "height t \<ge> 1"
  by (cases t) simp

definition meta_ok :: "ITraceTree list \<Rightarrow> meta_state \<Rightarrow> bool" where
  "meta_ok ts st \<longleftrightarrow> ms_total st = length ts \<and>
     (if ts = [] then ms_start st = None \<and> ms_end st = None
      else ms_start st = Some (Min (tt_startTime ` set ts))
         \<and> ms_end st = Some (Max ((\<lambda>t. tt_startTime t + tt_value t) ` set ts)))"

lemma visit_meta_ok:
  "meta_ok ts st \<Longrightarrow> meta_ok (ts @ [TraceTree i n s v cs]) (visit_meta s v level st)"
  by (cases "ts = []")
    (auto simp: meta_ok_def visit_meta_def min_opt_def max_opt_def min.commute max.commute)

lemma meta_eq:
  "meta_ok ts st \<Longrightarrow> meta_ok (ts @ nodes t) (traverse_meta t level st)
     \<and> ms_levels (traverse_meta t level st) = traverse_levels t level (ms_levels st)"
proof (induction t arbitrary: ts st level)
  case (TraceTree i n s v cs)
  have "meta_ok (us @ concat (map nodes ds)) (fold (\<lambda>c. traverse_meta c (level + 1)) ds st')
      \<and> ms_levels (fold (\<lambda>c. traverse_meta c (level + 1)) ds st')
        = fold (\<lambda>c levels. traverse_levels c (level + 1) levels) ds (ms_levels st')"
    if "set ds \<subseteq> set cs" "meta_ok us st'" for ds us st'
    using that
  proof (induction ds arbitrary: us st')
    case (Cons d ds)
    have "meta_ok (us @ nodes d) (traverse_meta d (level + 1) st')
        \<and> ms_levels (traverse_meta d (level + 1) st') = traverse_levels d (level + 1) (ms_levels st')"
      using Cons.prems TraceTree.IH [of d us st' "level + 1"] by simp
    with Cons.IH [of "us @ nodes d" "traverse_meta d (level + 1) st'"] Cons.prems show ?case by simp
  qed simp
  from this [OF order.refl visit_meta_ok [OF TraceTree.prems, of i n s v cs level]]
  show ?case by (simp add: visit_meta_def max.commute)
qed


text \<open>Sorting.\<close>

inductive sorted_tree :: "ITraceTree \<Rightarrow> bool" where
  "sorted (map tt_startTime cs) \<Longrightarrow> (\<And>c. c \<in> set cs \<Longrightarrow> sorted_tree c) \<Longrightarrow> sorted_tree (TraceTree i n s v cs)"

lemma sorted_start [simp]: "tt_startTime (getSortedData t) = tt_startTime t"
  by (cases t) simp

lemma sorted_data: "sorted_tree (getSortedData t)"
proof (induction t rule: getSortedData.induct)
  case (1 i n s v cs)
  have "sorted (map tt_startTime (map getSortedData (sort_key tt_startTime cs)))"
    by (simp add: comp_def)
  then show ?case using 1 by (auto intro!: sorted_tree.intros)
qed

lemma sorted_ids: "mset (ids (getSortedData t)) = mset (ids t)"
proof (induction t rule: getSortedData.induct)
  case (1 i n s v cs)
  have "mset (concat (map ids (map getSortedData ds))) = (\<Sum>c \<in># mset ds. mset (ids (getSortedData c)))" for ds
    by (induction ds) (simp_all add: mset_concat)
  moreover have "mset (concat (map ids ds)) = (\<Sum>c \<in># mset ds. mset (ids c))" for ds
    by (induction ds) (simp_all add: mset_concat)
  ultimately have "mset (concat (map ids (map getSortedData (sort_key tt_startTime cs))))
      = mset (concat (map ids cs))"
    using 1 by (auto intro!: arg_cong [where f = sum_mset] image_mset_cong)
  then show ?case by (simp add: map_concat comp_def)
qed

section \<open>Properties\<close>

text \<open>On a tree with distinct ids \<^verbatim>\<open>getSpanPath\<close> returns the path from the root to the span, and
  nothing for a span that is not in the tree.\<close>

theorem getSpanPath_correct:
  assumes "distinct (ids t)"
  shows "if i \<in> set (ids t) then tree_path t (getSpanPath t i) \<and> last (getSpanPath t i) = i
     else getSpanPath t i = []"
  using path_present [OF assms, of i "[]"] path_absent [of i t "[]"] by (auto simp: getSpanPath_def)

definition sample_tree :: ITraceTree where
  "sample_tree = TraceTree ''r'' ''n'' 5 10 [TraceTree ''b'' ''n'' 9 1 [], TraceTree ''a'' ''n'' 6 2 [TraceTree ''c'' ''n'' 7 1 []]]"

theorem getSpanPath_correct_witness: "tree_path sample_tree [''r'', ''a'', ''c'']"
proof -
  have "distinct (ids sample_tree)" "''c'' \<in> set (ids sample_tree)" "getSpanPath sample_tree ''c'' = [''r'', ''a'', ''c'']"
    by code_simp+
  with getSpanPath_correct [of sample_tree "''c''"] show ?thesis by simp
qed

text \<open>\<^verbatim>\<open>getMetaDataFromSpanTree\<close> returns the earliest start and the latest end in nanoseconds, the number
  of spans and the height of the tree, the value of \<^verbatim>\<open>getTreeLevelsCount\<close>.\<close>

theorem getMetaDataFromSpanTree_correct:
  "getMetaDataFromSpanTree t =
     (let start = Min (tt_startTime ` set (nodes t)) * 1000000;
          finish = Max ((\<lambda>x. tt_startTime x + tt_value x) ` set (nodes t)) * 1000000
      in \<lparr> md_globalStart = start, md_globalEnd = finish, md_spread = finish - start,
           md_totalSpans = length (nodes t), md_levels = height t \<rparr>)
   \<and> getTreeLevelsCount t = height t"
proof -
  let ?init = "\<lparr> ms_start = None, ms_end = None, ms_total = 0, ms_levels = 1 \<rparr>"
  have "meta_ok (nodes t) (traverse_meta t 1 ?init)" "ms_levels (traverse_meta t 1 ?init) = traverse_levels t 1 1"
    using meta_eq [of "[]" ?init t 1] by (simp_all add: meta_ok_def)
  moreover have "nodes t \<noteq> []" by (cases t) simp
  moreover have "traverse_levels t 1 1 = height t" using height_pos [of t] by (simp add: levels_eq)
  ultimately show ?thesis
    by (simp add: getMetaDataFromSpanTree_def getTreeLevelsCount_def meta_ok_def Let_def)
qed

text \<open>\<^verbatim>\<open>getSortedData\<close> sorts the children of every node by start time and keeps the spans.\<close>

theorem getSortedData_correct:
  "sorted_tree (getSortedData t) \<and> mset (ids (getSortedData t)) = mset (ids t)"
  using sorted_data sorted_ids by blast

end
