(* ===== verification/RowCollapse.thy ===== *)
theory RowCollapse
  imports VariableReference
begin

text \<open>
  The grid of a dashboard (\<^verbatim>\<open>frontend/src/container/GridCardLayout/utils.ts\<close>): collapsing and
  expanding a row, the names in a formula, and the step of bar panels.  The grid library moves
  widgets up afterwards; that is not part of this code.
\<close>

section \<open>Rows\<close>

record Layout =
  ly_i :: string
  ly_x :: int
  ly_y :: int
  ly_w :: int
  ly_h :: int

record panel =
  pn_widgets :: "Layout list"
  pn_collapsed :: bool

type_synonym PanelMap = "panel jsobj"

record RowCollapseResult =
  rc_updatedLayout :: "Layout list"
  rc_updatedPanelMap :: PanelMap

abbreviation bottom :: "Layout \<Rightarrow> int" where
  "bottom w \<equiv> ly_y w + ly_h w"

definition row_properties :: "string \<Rightarrow> PanelMap \<Rightarrow> panel" where
  "row_properties i m = obj_get_or m i \<lparr> pn_widgets = [], pn_collapsed = False \<rparr>"

definition max_bottom :: "Layout list \<Rightarrow> int" where
  "max_bottom ws = fold (\<lambda>w maxY. max maxY (bottom w)) ws 0"

text \<open>\<^verbatim>\<open>maxY\<close>: how far the widgets reach below the row, when there are any.\<close>

definition row_offset :: "Layout option \<Rightarrow> Layout list \<Rightarrow> int" where
  "row_offset currentRowWidget ws =
     (case currentRowWidget of
        None \<Rightarrow> max_bottom ws
      | Some r \<Rightarrow> if ws \<noteq> [] then max_bottom ws - (ly_h r + ly_y r) else max_bottom ws)"

text \<open>The index after the row; with no such widget \<^verbatim>\<open>findIndex\<close> returns -1 and the loop starts at 0.\<close>

definition index_after :: "string \<Rightarrow> Layout list \<Rightarrow> nat" where
  "index_after i layout =
     (if i \<in> ly_i ` set layout then position i (map ly_i layout) + 1 else 0)"

definition shift :: "int \<Rightarrow> Layout \<Rightarrow> Layout" where
  "shift maxY w = w\<lparr> ly_y := ly_y w + maxY \<rparr>"

definition shift_panel :: "int \<Rightarrow> string \<Rightarrow> PanelMap \<Rightarrow> PanelMap" where
  "shift_panel maxY i m =
     (case obj_get m i of
        None \<Rightarrow> m
      | Some p \<Rightarrow> obj_set i (p\<lparr> pn_widgets := map (shift maxY) (pn_widgets p) \<rparr>) m)"

text \<open>The loop over the layout from \<open>start\<close> on, the same in both branches.\<close>

definition shift_from :: "nat \<Rightarrow> int \<Rightarrow> Layout list \<times> PanelMap \<Rightarrow> Layout list \<times> PanelMap" where
  "shift_from start maxY = (\<lambda>(layout, m).
     (take start layout @ map (shift maxY) (drop start layout),
      fold (shift_panel maxY) (map ly_i (drop start layout)) m))"

definition applyRowCollapse :: "string \<Rightarrow> Layout list \<Rightarrow> PanelMap \<Rightarrow> RowCollapseResult" where
  "applyRowCollapse i dashboardLayout currentPanelMap =
     (let rowProperties = row_properties i currentPanelMap;
          updatedPanelMap = obj_entries currentPanelMap;
          start = index_after i dashboardLayout
      in if pn_collapsed rowProperties then
           let widgetsInsideTheRow = pn_widgets rowProperties;
               maxY = row_offset (find (\<lambda>w. ly_i w = i) dashboardLayout) widgetsInsideTheRow
           in case shift_from start maxY (dashboardLayout, updatedPanelMap) of (layout, m) \<Rightarrow>
                \<lparr> rc_updatedLayout = layout @ widgetsInsideTheRow,
                  rc_updatedPanelMap = obj_set i (rowProperties\<lparr> pn_collapsed := False \<rparr>) m \<rparr>
         else
           let below = drop start dashboardLayout;
               is_row = (\<lambda>w. obj_get currentPanelMap (ly_i w) \<noteq> None);
               collected = takeWhile (\<lambda>w. \<not> is_row w) below;
               isPanelMapUpdated = list_ex is_row below;
               widgetsInsideTheRow = (if isPanelMapUpdated then [] else collected);
               maxY = row_offset (find (\<lambda>w. ly_i w = i) dashboardLayout) widgetsInsideTheRow
           in case shift_from start maxY (dashboardLayout, updatedPanelMap) of (layout, m) \<Rightarrow>
                \<lparr> rc_updatedLayout = filter (\<lambda>widget. \<not> list_ex (\<lambda>w. ly_i w = ly_i widget) collected) layout,
                  rc_updatedPanelMap = obj_set i \<lparr> pn_widgets = collected, pn_collapsed = True \<rparr> m \<rparr>)"

section \<open>Formulas\<close>

text \<open>\<^verbatim>\<open>/F\d+/.test\<close>: an F with a digit after it, anywhere.\<close>

fun isFormula :: "string \<Rightarrow> bool" where
  "isFormula (c # d # cs) = ((c = CHR ''F'' \<and> is_digit d) \<or> isFormula (d # cs))"
| "isFormula _ = False"

text \<open>
  The matches of \<^verbatim>\<open>/\b[A-Z]\b/g\<close>, the character before the rest of the text being known: a match is a
  capital letter with no word character on either side.
\<close>

fun query_name_matches :: "char option \<Rightarrow> string \<Rightarrow> string list" where
  "query_name_matches prev [] = []"
| "query_name_matches prev (c # cs) =
     (if CHR ''A'' \<le> c \<and> c \<le> CHR ''Z'' \<and> \<not> opt_word prev \<and> \<not> opt_word (first_char cs)
      then [c] # query_name_matches (Some c) cs else query_name_matches (Some c) cs)"

definition extractQueryNamesFromExpression :: "string \<Rightarrow> string list" where
  "extractQueryNamesFromExpression expression =
     (if expression = [] then [] else set_of_list (query_name_matches None expression))"

section \<open>Bar panels\<close>

definition ceil_div :: "int \<Rightarrow> int \<Rightarrow> int" where
  "ceil_div a b = - ((- a) div b)"

definition getBarStepIntervalPoints :: "int \<Rightarrow> int \<Rightarrow> int" where
  "getBarStepIntervalPoints startNano endNano =
     (let durationMs = endNano - startNano
      in if durationMs \<le> 60 * (60 * 1000) then 60
         else if durationMs \<le> 180 * (60 * 1000) then 120
         else if durationMs \<le> 300 * (60 * 1000) then 180
         else
           let totalPoints = ceil_div durationMs (1000 * 60);
               interval = ceil_div totalPoints 80;
               roundedInterval = ceil_div interval 5 * 5
           in roundedInterval * 60)"

text \<open>The step intervals of the builder queries; \<^verbatim>\<open>null\<close>, \<^verbatim>\<open>undefined\<close> and 0 count as not set.\<close>

definition bar_steps :: "int \<Rightarrow> int option \<Rightarrow> int option" where
  "bar_steps stepIntervalPoints stepInterval =
     (if stepInterval = None \<or> stepInterval = Some 0
      then (if stepIntervalPoints \<noteq> 0 then Some stepIntervalPoints else None) else stepInterval)"

definition updateBarStepInterval :: "int option list \<Rightarrow> int \<Rightarrow> int \<Rightarrow> int option list" where
  "updateBarStepInterval stepIntervals minTime maxTime =
     map (bar_steps (getBarStepIntervalPoints minTime maxTime)) stepIntervals"

section \<open>Lemmas\<close>

lemma max_bottom_Cons: "max_bottom (w # ws) = max (bottom w) (max_bottom ws)"
proof -
  have gen: "fold (\<lambda>w m. max m (bottom w)) ws (max a b) = max a (fold (\<lambda>w m. max m (bottom w)) ws b)" for a b
    by (induction ws arbitrary: a b) (simp_all add: max.assoc)
  show ?thesis using gen [of "bottom w" 0] by (simp add: max_bottom_def max.commute)
qed

lemma max_bottom_ge: "w \<in> set ws \<Longrightarrow> bottom w \<le> max_bottom ws"
  by (induction ws) (auto simp: max_bottom_Cons)

lemma max_bottom_attained: "max_bottom ws = 0 \<or> (\<exists>w \<in> set ws. bottom w = max_bottom ws)"
proof (induction ws)
  case Nil
  then show ?case by (simp add: max_bottom_def)
next
  case (Cons w ws)
  then show ?case by (auto simp: max_bottom_Cons max_def)
qed

lemma shift_id [simp]: "shift 0 w = w" "ly_i (shift d w) = ly_i w" "ly_y (shift d w) = ly_y w + d"
  by (simp_all add: shift_def)

lemma map_shift_0 [simp]: "map (shift 0) ws = ws"
  by (induction ws) simp_all

lemma get_shift_panel: "obj_get (shift_panel d i m) k =
    (if k = i then map_option (\<lambda>p. p\<lparr> pn_widgets := map (shift d) (pn_widgets p) \<rparr>) (obj_get m i) else obj_get m k)"
  by (auto simp: shift_panel_def split: option.splits)

lemma get_fold_shift_panel:
  "distinct ks \<Longrightarrow> obj_get (fold (shift_panel d) ks m) k =
    (if k \<in> set ks then map_option (\<lambda>p. p\<lparr> pn_widgets := map (shift d) (pn_widgets p) \<rparr>) (obj_get m k) else obj_get m k)"
  by (induction ks arbitrary: m) (auto simp: get_shift_panel)

lemma index_after_split:
  "ly_i row = i \<Longrightarrow> i \<notin> ly_i ` set pre \<Longrightarrow> index_after i (pre @ row # rest) = Suc (length pre)"
  by (simp add: index_after_def)

lemma find_split:
  "ly_i row = i \<Longrightarrow> i \<notin> ly_i ` set pre \<Longrightarrow> find (\<lambda>w. ly_i w = i) (pre @ row # rest) = Some row"
  by (induction pre) auto

lemma ceil_div_bounds: "0 < b \<Longrightarrow> a \<le> ceil_div a b * b \<and> ceil_div a b * b < a + b"
proof -
  assume b: "0 < b"
  have "(- a) div b * b + (- a) mod b = - a" by simp
  moreover have "0 \<le> (- a) mod b" "(- a) mod b < b" using b by simp_all
  ultimately show ?thesis unfolding ceil_div_def minus_mult_left [symmetric] by linarith
qed


lemma collapse_split:
  assumes "layout = pre @ row # inside @ rest" "ly_i row = i" "i \<notin> ly_i ` set pre"
    and "\<forall>w \<in> set inside. obj_get m (ly_i w) = None"
    and "\<forall>w \<in> set (take 1 rest). obj_get m (ly_i w) \<noteq> None"
    and "\<not> pn_collapsed (row_properties i m)"
  shows "applyRowCollapse i layout m =
     (case shift_from (Suc (length pre)) (if rest = [] then row_offset (Some row) inside else 0)
        (layout, obj_entries m) of (layout', m') \<Rightarrow>
      \<lparr> rc_updatedLayout = filter (\<lambda>w. ly_i w \<notin> ly_i ` set inside) layout',
        rc_updatedPanelMap = obj_set i \<lparr> pn_widgets = inside, pn_collapsed = True \<rparr> m' \<rparr>)"
proof -
  let ?is_row = "\<lambda>w. obj_get m (ly_i w) \<noteq> None"
  have start: "drop (index_after i layout) layout = inside @ rest"
    using assms(1-3) by (simp add: index_after_split)
  have tw: "takeWhile (\<lambda>w. \<not> ?is_row w) (inside @ rest) = inside"
    using assms(4,5) by (cases rest) (auto simp: takeWhile_append)
  have ex: "list_ex ?is_row (inside @ rest) \<longleftrightarrow> rest \<noteq> []"
    using assms(4,5) by (cases rest) (auto simp: list_ex_iff)
  have none: "(\<lambda>w. \<not> list_ex (\<lambda>v. ly_i v = ly_i w) inside) = (\<lambda>w. ly_i w \<notin> ly_i ` set inside)"
    by (force simp: list_ex_iff fun_eq_iff image_iff)
  show ?thesis
    unfolding applyRowCollapse_def Let_def start tw ex none
    using assms by (simp add: index_after_split find_split row_offset_def max_bottom_def split: prod.splits)
qed

lemma get_row_properties: "obj_get m i = Some p \<Longrightarrow> row_properties i m = p"
  by (simp add: row_properties_def obj_get_or_def)

lemma expand_split:
  assumes "layout = pre @ row # rest" "ly_i row = i" "i \<notin> ly_i ` set pre"
    and "obj_get m i = Some \<lparr> pn_widgets = ws, pn_collapsed = True \<rparr>" "ws \<noteq> []"
  shows "applyRowCollapse i layout m =
     (let d = max_bottom ws - bottom row in
      \<lparr> rc_updatedLayout = pre @ row # map (shift d) rest @ ws,
        rc_updatedPanelMap = obj_set i \<lparr> pn_widgets = ws, pn_collapsed = False \<rparr>
          (fold (shift_panel d) (map ly_i rest) (obj_entries m)) \<rparr>)"
  using assms(1-3,5) get_row_properties [OF assms(4)]
  by (simp add: applyRowCollapse_def index_after_split find_split row_offset_def shift_from_def Let_def algebra_simps)

lemma filter_ids_disjoint:
  "ly_i ` set ws \<inter> ly_i ` set vs = {} \<Longrightarrow> filter (\<lambda>w. ly_i w \<notin> ly_i ` set vs) ws = ws"
  by (rule filter_True) (auto simp: disjoint_iff)

lemma filter_ids_self: "filter (\<lambda>w. ly_i w \<notin> ly_i ` set vs) (map (shift d) vs) = []"
  by (auto simp: filter_empty_conv)

text \<open>Collapsing takes the widgets of the row out of the layout and moves nothing.\<close>

lemma collapse_layout:
  assumes "layout = pre @ row # inside @ rest" "ly_i row = i" "distinct (map ly_i layout)"
    and "\<forall>w \<in> set inside. obj_get m (ly_i w) = None"
    and "\<forall>w \<in> set (take 1 rest). obj_get m (ly_i w) \<noteq> None"
    and "\<not> pn_collapsed (row_properties i m)" "obj_ok m"
  shows "rc_updatedLayout (applyRowCollapse i layout m) = pre @ row # rest"
    and "obj_get (rc_updatedPanelMap (applyRowCollapse i layout m)) k =
      (if k = i then Some \<lparr> pn_widgets = inside, pn_collapsed = True \<rparr> else obj_get m k)"
proof -
  let ?d = "if rest = [] then row_offset (Some row) inside else 0"
  have notin: "i \<notin> ly_i ` set pre" using assms(1-3) by auto
  have ids: "ly_i ` set pre \<inter> ly_i ` set inside = {}" "ly_i ` set rest \<inter> ly_i ` set inside = {}"
      "ly_i row \<notin> ly_i ` set inside"
    using assms(1,3) by auto
  note split = collapse_split [OF assms(1,2) notin assms(4-6)]
  have lay: "fst (shift_from (Suc (length pre)) ?d (layout, obj_entries m)) = pre @ row # map (shift ?d) inside @ rest"
    by (simp add: shift_from_def assms(1))
  have "filter (\<lambda>w. ly_i w \<notin> ly_i ` set inside) (pre @ row # map (shift ?d) inside @ rest) = pre @ row # rest"
    using ids(3) by (simp add: filter_ids_self filter_ids_disjoint [OF ids(1)] filter_ids_disjoint [OF ids(2)] del: filter_map)
  with lay show "rc_updatedLayout (applyRowCollapse i layout m) = pre @ row # rest"
    unfolding split by (simp add: case_prod_beta)
  have d: "distinct (map ly_i (inside @ rest))" using assms(1,3) by simp
  have "map_option (\<lambda>p. p\<lparr> pn_widgets := map (shift ?d) (pn_widgets p) \<rparr>) (obj_get m k) = obj_get m k"
    if "k \<in> ly_i ` set (inside @ rest)"
  proof (cases "rest = []")
    case True
    with that assms(4) show ?thesis by auto
  next
    case False
    then show ?thesis by (cases "obj_get m k") simp_all
  qed
  then have "obj_get (fold (shift_panel ?d) (map ly_i (inside @ rest)) (obj_entries m)) k = obj_get m k"
    using get_fold_shift_panel [OF d, of ?d "obj_entries m" k] assms(7) by auto
  then show "obj_get (rc_updatedPanelMap (applyRowCollapse i layout m)) k =
      (if k = i then Some \<lparr> pn_widgets = inside, pn_collapsed = True \<rparr> else obj_get m k)"
    unfolding split by (simp add: case_prod_beta shift_from_def assms(1))
qed

lemma bar_step_long:
  assumes "300 * (60 * 1000) < durationMs"
  shows "let step = ceil_div (ceil_div (ceil_div durationMs (1000 * 60)) 80) 5 * 5 * 60 in
     durationMs \<le> 80 * (step * 1000) \<and> 80 * ((step - 300) * 1000) < durationMs \<and> 300 dvd step \<and> 300 \<le> step"
proof -
  define t where "t = ceil_div durationMs (1000 * 60)"
  define v where "v = ceil_div t 80"
  define r where "r = ceil_div v 5"
  have t: "durationMs \<le> t * 60000" "t * 60000 < durationMs + 60000"
    using ceil_div_bounds [of 60000 durationMs] by (simp_all add: t_def)
  have v: "t \<le> v * 80" "v * 80 < t + 80" using ceil_div_bounds [of 80 t] by (simp_all add: v_def)
  have r: "v \<le> r * 5" "r * 5 < v + 5" using ceil_div_bounds [of 5 v] by (simp_all add: r_def)
  have "r * 5 * 60 = 300 * r" by simp
  moreover have "durationMs \<le> 80 * (r * 5 * 60 * 1000)" using t v r by linarith
  moreover have "r * 400 - 400 \<le> t - 1" using v r by linarith
  then have "(r * 400 - 400) * 60000 \<le> (t - 1) * 60000" by (rule mult_right_mono) simp
  with t(2) have "(r * 400 - 400) * 60000 < durationMs" by simp
  then have "80 * ((r * 5 * 60 - 300) * 1000) < durationMs" by (simp add: algebra_simps)
  moreover have "1 \<le> r" using t v r assms by linarith
  ultimately show ?thesis unfolding t_def v_def r_def Let_def by simp
qed

section \<open>Properties\<close>

text \<open>Collapsing a row takes exactly the widgets between it and the next row out of the layout,
  remembers them with their positions, and moves no other widget, in the layout or in
  another collapsed row.\<close>

theorem collapse_takes_widgets:
  assumes "layout = pre @ row # inside @ rest" "ly_i row = i" "distinct (map ly_i layout)"
    and "\<forall>w \<in> set inside. obj_get m (ly_i w) = None"
    and "\<forall>w \<in> set (take 1 rest). obj_get m (ly_i w) \<noteq> None"
    and "\<not> pn_collapsed (row_properties i m)" "obj_ok m"
  shows "rc_updatedLayout (applyRowCollapse i layout m) = pre @ row # rest \<and>
     obj_get (rc_updatedPanelMap (applyRowCollapse i layout m)) k =
      (if k = i then Some \<lparr> pn_widgets = inside, pn_collapsed = True \<rparr> else obj_get m k)"
  using collapse_layout [OF assms] by blast

definition sample_layout :: "Layout list" where
  "sample_layout = [\<lparr> ly_i = ''r1'', ly_x = 0, ly_y = 0, ly_w = 12, ly_h = 1 \<rparr>,
     \<lparr> ly_i = ''w1'', ly_x = 0, ly_y = 1, ly_w = 12, ly_h = 4 \<rparr>,
     \<lparr> ly_i = ''r2'', ly_x = 0, ly_y = 5, ly_w = 12, ly_h = 1 \<rparr>,
     \<lparr> ly_i = ''w3'', ly_x = 0, ly_y = 6, ly_w = 12, ly_h = 2 \<rparr>]"

definition sample_panels :: "bool \<Rightarrow> PanelMap" where
  "sample_panels c = [(''r1'', \<lparr> pn_widgets = (if c then [sample_layout ! 1] else []), pn_collapsed = c \<rparr>),
     (''r2'', \<lparr> pn_widgets = [], pn_collapsed = False \<rparr>)]"

theorem collapse_takes_widgets_witness:
  "map ly_i (rc_updatedLayout (applyRowCollapse ''r1'' sample_layout (sample_panels False))) = [''r1'', ''r2'', ''w3'']"
proof -
  have "rc_updatedLayout (applyRowCollapse ''r1'' sample_layout (sample_panels False))
      = [] @ sample_layout ! 0 # drop 2 sample_layout"
    by (rule conjunct1 [OF collapse_takes_widgets [where inside = "[sample_layout ! 1]" and k = "[]"]])
      (simp_all add: sample_layout_def sample_panels_def row_properties_def obj_get_or_def obj_ok_def)
  then show ?thesis by (simp add: sample_layout_def)
qed

text \<open>C33: Expanding a row puts its widgets back where they were, leaves everything up to the row in
  place, and moves what follows so far down that nothing that started below the row
  overlaps a restored widget.\<close>

theorem expand_makes_room:
  assumes "layout = pre @ row # rest" "ly_i row = i" "i \<notin> ly_i ` set pre"
    and "obj_get m i = Some \<lparr> pn_widgets = ws, pn_collapsed = True \<rparr>" "ws \<noteq> []"
  shows "\<exists>moved. rc_updatedLayout (applyRowCollapse i layout m) = pre @ row # moved @ ws
     \<and> list_all2 (\<lambda>w w'. w' = w\<lparr> ly_y := ly_y w' \<rparr>
          \<and> (bottom row \<le> ly_y w \<longrightarrow> (\<forall>v \<in> set ws. bottom v \<le> ly_y w'))) rest moved
     \<and> obj_get (rc_updatedPanelMap (applyRowCollapse i layout m)) i = Some \<lparr> pn_widgets = ws, pn_collapsed = False \<rparr>"
proof -
  let ?d = "max_bottom ws - bottom row"
  have "list_all2 (\<lambda>w w'. w' = w\<lparr> ly_y := ly_y w' \<rparr>
          \<and> (bottom row \<le> ly_y w \<longrightarrow> (\<forall>v \<in> set ws. bottom v \<le> ly_y w'))) rest (map (shift ?d) rest)"
    unfolding list_all2_map2 using max_bottom_ge [of _ ws]
    by (intro list_all2_refl) (force simp: shift_def)
  then show ?thesis unfolding expand_split [OF assms] Let_def by auto
qed

theorem expand_makes_room_witness:
  "\<exists>moved. rc_updatedLayout (applyRowCollapse ''r1'' (sample_layout ! 0 # drop 2 sample_layout) (sample_panels True))
     = sample_layout ! 0 # moved @ [sample_layout ! 1]"
proof -
  have "sample_layout ! 0 # drop 2 sample_layout = [] @ sample_layout ! 0 # drop 2 sample_layout" by simp
  from expand_makes_room [OF this, of "''r1''" "sample_panels True" "[sample_layout ! 1]"]
  show ?thesis by (auto simp: sample_panels_def sample_layout_def)
qed

text \<open>Collapsing a row and expanding it again brings its widgets back, but everything below the row
  ends lower by the height of the row's content: the move that the collapse computes is never
  made, because the list of widgets is emptied before their height is taken.\<close>

theorem collapse_expand_drift:
  assumes "layout = pre @ row # inside @ rest" "ly_i row = i" "distinct (map ly_i layout)" "inside \<noteq> []"
    and "\<forall>w \<in> set inside. obj_get m (ly_i w) = None"
    and "\<forall>w \<in> set (take 1 rest). obj_get m (ly_i w) \<noteq> None"
    and "\<not> pn_collapsed (row_properties i m)" "obj_ok m"
  shows "let r = applyRowCollapse i layout m in
     rc_updatedLayout (applyRowCollapse i (rc_updatedLayout r) (rc_updatedPanelMap r))
       = pre @ row # map (shift (max_bottom inside - bottom row)) rest @ inside"
proof -
  let ?r = "applyRowCollapse i layout m"
  have lay: "rc_updatedLayout ?r = pre @ row # rest"
    by (rule collapse_layout(1) [OF assms(1-3,5-8)])
  have pan: "obj_get (rc_updatedPanelMap ?r) i = Some \<lparr> pn_widgets = inside, pn_collapsed = True \<rparr>"
    using collapse_layout(2) [OF assms(1-3,5-8)] by simp
  have "i \<notin> ly_i ` set pre" using assms(1-3) by auto
  from expand_split [OF lay assms(2) this pan assms(4)] show ?thesis by (simp add: Let_def)
qed

theorem collapse_expand_drift_witness:
  "map ly_y (let r = applyRowCollapse ''r1'' sample_layout (sample_panels False) in
     rc_updatedLayout (applyRowCollapse ''r1'' (rc_updatedLayout r) (rc_updatedPanelMap r))) = [0, 9, 10, 1]"
proof -
  have "let r = applyRowCollapse ''r1'' sample_layout (sample_panels False) in
     rc_updatedLayout (applyRowCollapse ''r1'' (rc_updatedLayout r) (rc_updatedPanelMap r))
     = [] @ sample_layout ! 0 # map (shift (max_bottom [sample_layout ! 1] - bottom (sample_layout ! 0)))
         (drop 2 sample_layout) @ [sample_layout ! 1]"
    by (rule collapse_expand_drift [where layout = sample_layout and m = "sample_panels False"])
      (simp_all add: sample_layout_def sample_panels_def row_properties_def obj_get_or_def obj_ok_def)
  then show ?thesis by (simp add: Let_def sample_layout_def max_bottom_def)
qed

text \<open>A bar panel never has more than a hundred bars; beyond five hours at most eighty, and the step
  is then the smallest multiple of five minutes with which eighty bars are enough.\<close>

theorem bar_step_bounds:
  "let step = getBarStepIntervalPoints s e in
     e - s \<le> 100 * (step * 1000) \<and> 60 \<le> step
     \<and> (300 * (60 * 1000) < e - s \<longrightarrow>
          e - s \<le> 80 * (step * 1000) \<and> 80 * ((step - 300) * 1000) < e - s \<and> 300 dvd step)"
proof (cases "300 * (60 * 1000) < e - s")
  case True
  then show ?thesis using bar_step_long [OF True] by (simp add: getBarStepIntervalPoints_def Let_def)
next
  case False
  then show ?thesis by (simp add: getBarStepIntervalPoints_def Let_def)
qed

theorem bar_step_bounds_witness: "86400000 \<le> 80 * (getBarStepIntervalPoints 0 86400000 * (1000 :: int))"
  using bar_step_bounds [of 0 86400000] by (simp add: Let_def)

end
