(* ===== verification/JsNumber.thy ===== *)
theory JsNumber
  imports JsString Complex_Main
begin

text \<open>
  Numbers of the standard library as the components use them: \<^verbatim>\<open>parseFloat\<close>, \<^verbatim>\<open>Math.round\<close>, and the
  numbers that are not finite.  Finite numbers are rationals: the rounding of floating-point
  arithmetic is not modelled.
\<close>

datatype js_number = JNaN | JInf bool | JNum rat

definition math_round :: "rat \<Rightarrow> int" where
  "math_round x = \<lfloor>x + 1 / 2\<rfloor>"

definition digits_int :: "string \<Rightarrow> int" where
  "digits_int ds = (case digits_value 0 ds of None \<Rightarrow> 0 | Some n \<Rightarrow> int n)"

text \<open>An exponent part at the start of the text, 0 if there is none.\<close>

definition read_exponent :: "string \<Rightarrow> int" where
  "read_exponent s =
     (case s of
        [] \<Rightarrow> 0
      | c # cs \<Rightarrow>
          if c \<noteq> CHR ''e'' \<and> c \<noteq> CHR ''E'' then 0
          else let ds = takeWhile is_digit (strip_sign cs)
               in if cs \<noteq> [] \<and> hd cs = CHR ''-'' then - digits_int ds else digits_int ds)"

definition ten_power :: "int \<Rightarrow> rat" where
  "ten_power e = (if 0 \<le> e then 10 ^ nat e else 1 / 10 ^ nat (- e))"

definition read_unsigned :: "string \<Rightarrow> js_number" where
  "read_unsigned u =
     (if starts_with u ''Infinity'' then JInf True
      else
        let ds = takeWhile is_digit u;
            rest = dropWhile is_digit u;
            fs = (case rest of c # cs \<Rightarrow> if c = CHR ''.'' then takeWhile is_digit cs else [] | [] \<Rightarrow> []);
            rest' = (case rest of c # cs \<Rightarrow> if c = CHR ''.'' then dropWhile is_digit cs else rest | [] \<Rightarrow> [])
        in if ds = [] \<and> fs = [] then JNaN
           else JNum (of_int (digits_int (ds @ fs)) * ten_power (read_exponent rest' - int (length fs))))"

definition negate :: "js_number \<Rightarrow> js_number" where
  "negate v = (case v of JNaN \<Rightarrow> JNaN | JInf b \<Rightarrow> JInf (\<not> b) | JNum q \<Rightarrow> JNum (- q))"

definition parseFloat :: "string \<Rightarrow> js_number" where
  "parseFloat s =
     (let t = dropWhile is_space s
      in if t \<noteq> [] \<and> hd t = CHR ''-'' then negate (read_unsigned (tl t)) else read_unsigned (strip_sign t))"

lemma math_round_shift: "math_round (x + of_int n) = math_round x + n"
  unfolding math_round_def using floor_add_int [of "x + 1 / 2" n] by (simp add: algebra_simps)

lemma math_round_of_int: "math_round (of_int n) = n"
  unfolding math_round_def by linarith

lemma math_round_diff: "math_round (of_int a - of_int b) = a - b"
  using math_round_of_int [of "a - b"] by simp

lemma math_round_le: "x \<le> of_int n \<Longrightarrow> math_round x \<le> n"
  unfolding math_round_def by linarith

lemma math_round_ge: "of_int n \<le> x \<Longrightarrow> n \<le> math_round x"
  unfolding math_round_def by linarith

text \<open>A whole number is read back from its decimal text.\<close>

lemma takeWhile_digits: "list_all is_digit ds \<Longrightarrow> takeWhile is_digit ds = ds \<and> dropWhile is_digit ds = []"
  by (simp add: list_all_iff takeWhile_eq_all_conv)

lemma not_infinity: "is_digit c \<Longrightarrow> \<not> starts_with (c # cs) ''Infinity''"
  by (auto simp: is_digit_def less_eq_char_def)

lemma read_unsigned_digits:
  assumes "list_all is_digit ds" "ds \<noteq> []"
  shows "read_unsigned ds = JNum (of_int (digits_int ds))"
proof -
  obtain c cs where ds: "ds = c # cs" using assms(2) by (cases ds) auto
  then have "\<not> starts_with ds ''Infinity''" using assms(1) not_infinity [of c cs] by (simp del: starts_with.simps)
  moreover have tw: "takeWhile is_digit ds = ds" "dropWhile is_digit ds = []"
    using takeWhile_digits [OF assms(1)] by blast+
  ultimately show ?thesis
    unfolding read_unsigned_def Let_def tw using assms(2) by (simp add: read_exponent_def ten_power_def)
qed

lemma parseFloat_int_str: "parseFloat (int_str i) = JNum (of_int i)"
proof -
  have n: "list_all is_digit (nat_str n)" "nat_str n \<noteq> []" for n using nat_str_digits by blast+
  have r: "read_unsigned (nat_str n) = JNum (of_int (int n))" for n
    using read_unsigned_digits [OF n(1,2)] by (simp add: digits_int_def digits_value_nat_str)
  obtain c cs where c: "nat_str (nat i) = c # cs" using n(2) [of "nat i"] by (cases "nat_str (nat i)") auto
  then have "is_digit c" using n(1) [of "nat i"] by simp
  note d = digit_not_sign [OF this]
  show ?thesis
  proof (cases "i < 0")
    case True
    have "\<not> is_space (CHR ''-'')" by (simp add: is_space_def)
    with True show ?thesis by (simp add: int_str_def parseFloat_def r negate_def)
  next
    case False
    then have "parseFloat (int_str i) = read_unsigned (nat_str (nat i))"
      using d by (simp add: int_str_def parseFloat_def c strip_sign_def)
    with False r show ?thesis by simp
  qed
qed

section \<open>\<^verbatim>\<open>Number(s)\<close> and \<^verbatim>\<open>String(v)\<close>\<close>

definition hex_value :: "char \<Rightarrow> nat" where
  "hex_value c = (if is_digit c then of_char c - 48 else of_char (lower_char c) - 87)"

definition radix_value :: "string \<Rightarrow> int" where
  "radix_value s =
     (let base = (if lower_char (s ! 1) = CHR ''x'' then 16 else if lower_char (s ! 1) = CHR ''o'' then 8 else 2)
      in int (foldl (\<lambda>acc c. base * acc + hex_value c) 0 (drop 2 s)))"

definition number_of_text :: "string \<Rightarrow> js_number" where
  "number_of_text s =
     (let t = js_trim s
      in if t = [] then JNum 0
         else if is_radix_literal t then JNum (of_int (radix_value t))
         else if is_decimal (strip_sign t) \<or> strip_sign t = ''Infinity'' then parseFloat t
         else JNaN)"

text \<open>The digits after the point of a number between 0 and 1, at most \<open>n\<close> of them.\<close>

fun fraction_digits :: "nat \<Rightarrow> rat \<Rightarrow> string" where
  "fraction_digits 0 q = []"
| "fraction_digits (Suc n) q =
     (if q = 0 then [] else char_of (48 + nat \<lfloor>10 * q\<rfloor>) # fraction_digits n (10 * q - of_int \<lfloor>10 * q\<rfloor>))"

text \<open>Finite numbers in the range that is printed without an exponent, with at most 17 decimals.\<close>

definition number_text :: "js_number \<Rightarrow> string" where
  "number_text v =
     (case v of
        JNaN \<Rightarrow> ''NaN''
      | JInf True \<Rightarrow> ''Infinity''
      | JInf False \<Rightarrow> ''-Infinity''
      | JNum q \<Rightarrow>
          let a = \<bar>q\<bar>; whole = nat_str (nat \<lfloor>a\<rfloor>);
              s = (if a = of_int \<lfloor>a\<rfloor> then whole else whole @ ''.'' @ fraction_digits 17 (a - of_int \<lfloor>a\<rfloor>))
          in if q < 0 then CHR ''-'' # s else s)"

lemma number_text_int: "number_text (JNum (of_int i)) = int_str i"
  by (auto simp: number_text_def int_str_def Let_def abs_if simp flip: of_int_minus)

end
