(* ===== verification/GlobalTime.thy ===== *)
theory GlobalTime
  imports JsNumber
begin

text \<open>
  Time ranges under \<^verbatim>\<open>frontend/src\<close>: relative times (\<^verbatim>\<open>lib/getMinMax.ts\<close>,
  \<^verbatim>\<open>lib/getStartAndEndTime\<close>, \<^verbatim>\<open>lib/getMaxMinTime.ts\<close>), the global time store
  (\<^verbatim>\<open>store/globalTime\<close>), zooming out (\<^verbatim>\<open>lib/zoomOutUtils.ts\<close>) and paging
  (\<^verbatim>\<open>lib/newQueryBuilder/getPaginationQueryData.ts\<close>).  The clock is the argument \<open>now\<close>, in
  milliseconds, and does not advance within a call.
\<close>

section \<open>Relative times\<close>

record time_range =
  rg_minTime :: int
  rg_maxTime :: int

definition getMinAgo :: "int \<Rightarrow> int \<Rightarrow> int" where
  "getMinAgo now minutes = now - minutes * 60000"

text \<open>The groups of \<^verbatim>\<open>/^(\d+)([mhdw])$/\<close>.\<close>

definition short_hand :: "string \<Rightarrow> (nat \<times> char) option" where
  "short_hand time =
     (if time \<noteq> [] \<and> last time \<in> set ''mhdw'' \<and> digits1 (butlast time)
      then map_option (\<lambda>n. (n, last time)) (digits_value 0 (butlast time)) else None)"

definition isValidShortHandDateTimeFormat :: "string \<Rightarrow> bool" where
  "isValidShortHandDateTimeFormat time \<longleftrightarrow> short_hand time \<noteq> None"

definition extractTimeAndUnit :: "string \<Rightarrow> nat \<times> char" where
  "extractTimeAndUnit time = (case short_hand time of Some tu \<Rightarrow> tu | None \<Rightarrow> (30, CHR ''m''))"

definition getMinTimeForRelativeTimes :: "int \<Rightarrow> nat \<Rightarrow> char \<Rightarrow> int" where
  "getMinTimeForRelativeTimes now time unit =
     (if unit = CHR ''m'' then getMinAgo now (1 * int time)
      else if unit = CHR ''h'' then getMinAgo now (60 * int time)
      else if unit = CHR ''d'' then getMinAgo now (24 * 60 * int time)
      else if unit = CHR ''w'' then getMinAgo now (24 * 60 * 7 * int time)
      else getMinAgo now 1)"

text \<open>The intervals that have a branch of their own, with their minutes.\<close>

definition interval_minutes :: "(string \<times> int) list" where
  "interval_minutes =
     [(''1m'', 1), (''10m'', 10), (''15m'', 15), (''1h'', 60), (''30m'', 30), (''45m'', 45), (''5m'', 5),
      (''1d'', 24 * 60), (''3d'', 24 * 60 * 3), (''4d'', 24 * 60 * 4), (''10d'', 24 * 60 * 10),
      (''1w'', 24 * 60 * 7), (''2w'', 24 * 60 * 14), (''6w'', 24 * 60 * 42),
      (''1month'', 24 * 60 * 30), (''2months'', 24 * 60 * 60),
      (''3h'', 3 * 60), (''4h'', 4 * 60), (''6h'', 6 * 60), (''12h'', 12 * 60)]"

text \<open>\<^verbatim>\<open>GetMinMax\<close>; \<open>None\<close> is the error for an invalid time type.\<close>

definition GetMinMax :: "int \<Rightarrow> string \<Rightarrow> (int \<times> int) option \<Rightarrow> time_range option" where
  "GetMinMax now interval dateTimeRange =
     (let payload = (\<lambda>minTime maxTime.
            Some \<lparr> rg_minTime = minTime * 1000000, rg_maxTime = maxTime * 1000000 \<rparr>)
      in case map_of interval_minutes interval of
           Some minutes \<Rightarrow> payload (getMinAgo now minutes) now
         | None \<Rightarrow>
             if interval = ''custom'' then
               (case dateTimeRange of None \<Rightarrow> payload 0 0 | Some (mn, mx) \<Rightarrow> payload mn mx)
             else if isValidShortHandDateTimeFormat interval then
               (case extractTimeAndUnit interval of (time, unit) \<Rightarrow>
                  payload (getMinTimeForRelativeTimes now time unit) now)
             else None)"

definition getMinMaxForSelectedTime :: "int \<Rightarrow> string \<Rightarrow> int \<Rightarrow> int \<Rightarrow> time_range option" where
  "getMinMaxForSelectedTime now selectedTime minTime maxTime =
     (if selectedTime \<noteq> ''custom'' then GetMinMax now selectedTime None
      else GetMinMax now selectedTime (Some (minTime, maxTime)))"

text \<open>
  \<^verbatim>\<open>GetStartAndEndTime\<close> and \<^verbatim>\<open>GetMaxMinTime\<close>; the strings it returns are the seconds, here as the
  rational numbers they denote.
\<close>

definition preference_minutes :: "(string \<times> int) list" where
  "preference_minutes =
     [(''LAST_5_MIN'', 5), (''LAST_30_MIN'', 30), (''LAST_1_HR'', 60), (''LAST_15_MIN'', 15),
      (''LAST_6_HR'', 6 * 60), (''LAST_1_DAY'', 24 * 60), (''LAST_3_DAYS'', 24 * 60 * 3),
      (''LAST_1_WEEK'', 24 * 60 * 7), (''LAST_1_MONTH'', 24 * 60 * 30)]"

definition getMicroSeconds :: "rat \<Rightarrow> rat" where
  "getMicroSeconds time = time / 1000"

definition calculateStartAndEndTime :: "int \<Rightarrow> int \<Rightarrow> rat \<Rightarrow> rat \<times> rat" where
  "calculateStartAndEndTime now minutes endString =
     (getMicroSeconds (of_int (getMinAgo now minutes)), endString)"

definition GetStartAndEndTime :: "int \<Rightarrow> string \<Rightarrow> time_range \<Rightarrow> rat \<times> rat" where
  "GetStartAndEndTime now ty rng =
     (case map_of preference_minutes ty of
        Some minutes \<Rightarrow> calculateStartAndEndTime now minutes (getMicroSeconds (of_int now))
      | None \<Rightarrow> (getMicroSeconds (of_int (rg_minTime rng) / 1000000),
                 getMicroSeconds (of_int (rg_maxTime rng) / 1000000)))"

definition GetMaxMinTime :: "bool \<Rightarrow> time_range \<Rightarrow> time_range" where
  "GetMaxMinTime is_value_panel rng =
     (if is_value_panel then rng\<lparr> rg_minTime := rg_maxTime rng \<rparr> else rng)"

section \<open>The global time store\<close>

definition CUSTOM_TIME_SEPARATOR :: string where
  "CUSTOM_TIME_SEPARATOR = ''||_||''"

definition isCustomTimeRange :: "string \<Rightarrow> bool" where
  "isCustomTimeRange selectedTime \<longleftrightarrow> str_includes selectedTime CUSTOM_TIME_SEPARATOR"

definition createCustomTimeRange :: "int \<Rightarrow> int \<Rightarrow> string" where
  "createCustomTimeRange minTime maxTime = int_str minTime @ CUSTOM_TIME_SEPARATOR @ int_str maxTime"

definition parseCustomTimeRange :: "string \<Rightarrow> time_range option" where
  "parseCustomTimeRange selectedTime =
     (if \<not> isCustomTimeRange selectedTime then None
      else case split_str CUSTOM_TIME_SEPARATOR [] selectedTime of
        minStr # maxStr # _ \<Rightarrow>
          (case (parse_int minStr, parse_int maxStr) of
             (Some mn, Some mx) \<Rightarrow> Some \<lparr> rg_minTime = mn, rg_maxTime = mx \<rparr>
           | _ \<Rightarrow> None)
      | _ \<Rightarrow> None)"

definition NANO_SECOND_MULTIPLIER :: int where
  "NANO_SECOND_MULTIPLIER = 1000000"

definition fallbackDurationInNanoSeconds :: int where
  "fallbackDurationInNanoSeconds = 30 * 1000 * NANO_SECOND_MULTIPLIER"

definition parseSelectedTime :: "int \<Rightarrow> string \<Rightarrow> time_range option" where
  "parseSelectedTime now selectedTime =
     (if isCustomTimeRange selectedTime then
        (case parseCustomTimeRange selectedTime of
           Some parsed \<Rightarrow> Some parsed
         | None \<Rightarrow>
             let t = now * NANO_SECOND_MULTIPLIER
             in Some \<lparr> rg_minTime = t - fallbackDurationInNanoSeconds, rg_maxTime = t \<rparr>)
      else getMinMaxForSelectedTime now selectedTime 0 0)"

record IGlobalTimeStoreState =
  gs_selectedTime :: string
  gs_isRefreshEnabled :: bool
  gs_refreshInterval :: int

definition setSelectedTime :: "string \<Rightarrow> int option \<Rightarrow> IGlobalTimeStoreState \<Rightarrow> IGlobalTimeStoreState" where
  "setSelectedTime selectedTime refreshInterval state =
     (let newRefreshInterval = (case refreshInterval of None \<Rightarrow> gs_refreshInterval state | Some r \<Rightarrow> r);
          isCustom = isCustomTimeRange selectedTime
      in \<lparr> gs_selectedTime = selectedTime,
           gs_isRefreshEnabled = (\<not> isCustom \<and> newRefreshInterval > 0),
           gs_refreshInterval = newRefreshInterval \<rparr>)"

definition getMinMaxTime :: "int \<Rightarrow> IGlobalTimeStoreState \<Rightarrow> time_range option" where
  "getMinMaxTime now state = parseSelectedTime now (gs_selectedTime state)"

section \<open>Zooming out\<close>

definition MS_PER_MIN :: int where "MS_PER_MIN = 60 * 1000"
definition MS_PER_HOUR :: int where "MS_PER_HOUR = 60 * MS_PER_MIN"
definition MS_PER_DAY :: int where "MS_PER_DAY = 24 * MS_PER_HOUR"
definition MS_PER_WEEK :: int where "MS_PER_WEEK = 7 * MS_PER_DAY"

definition ZOOM_OUT_LADDER_MS :: "int list" where
  "ZOOM_OUT_LADDER_MS =
     [15 * MS_PER_MIN, 45 * MS_PER_MIN, 2 * MS_PER_HOUR, 7 * MS_PER_HOUR, 21 * MS_PER_HOUR, 1 * MS_PER_DAY,
      2 * MS_PER_DAY, 3 * MS_PER_DAY, 1 * MS_PER_WEEK, 2 * MS_PER_WEEK, 30 * MS_PER_DAY]"

definition MAX_ZOOM_OUT_DURATION_MS :: int where
  "MAX_ZOOM_OUT_DURATION_MS = last ZOOM_OUT_LADDER_MS"

definition MIN_LADDER_DURATION_MS :: int where
  "MIN_LADDER_DURATION_MS = hd ZOOM_OUT_LADDER_MS"

definition isZoomOutDisabled :: "int \<Rightarrow> bool" where
  "isZoomOutDisabled durationMs \<longleftrightarrow> durationMs \<ge> MAX_ZOOM_OUT_DURATION_MS"

definition PRESET_FOR_DURATION_MS :: "(int \<times> string) list" where
  "PRESET_FOR_DURATION_MS =
     [(15 * MS_PER_MIN, ''15m''), (45 * MS_PER_MIN, ''45m''), (2 * MS_PER_HOUR, ''2h''),
      (7 * MS_PER_HOUR, ''7h''), (21 * MS_PER_HOUR, ''21h''), (1 * MS_PER_DAY, ''1d''),
      (2 * MS_PER_DAY, ''2d''), (3 * MS_PER_DAY, ''3d''), (1 * MS_PER_WEEK, ''1w''),
      (2 * MS_PER_WEEK, ''2w''), (30 * MS_PER_DAY, ''1month'')]"

definition getNextDurationInLadder :: "int \<Rightarrow> int" where
  "getNextDurationInLadder durationMs =
     (if durationMs \<ge> MAX_ZOOM_OUT_DURATION_MS then MAX_ZOOM_OUT_DURATION_MS
      else if durationMs < MIN_LADDER_DURATION_MS then min (durationMs * 3) MIN_LADDER_DURATION_MS
      else case find (\<lambda>step. step > durationMs) ZOOM_OUT_LADDER_MS of
        Some step \<Rightarrow> step
      | None \<Rightarrow> MAX_ZOOM_OUT_DURATION_MS)"

record ZoomOutResult =
  zo_start :: int
  zo_end :: int
  zo_preset :: "string option"

definition getNextZoomOutRange :: "int \<Rightarrow> int \<Rightarrow> int \<Rightarrow> ZoomOutResult option" where
  "getNextZoomOutRange nowMs startMs endMs =
     (let durationMs = endMs - startMs in
      if durationMs \<le> 0 then None
      else let newDurationMs = getNextDurationInLadder durationMs in
      if newDurationMs \<le> durationMs then None
      else
        let centerMs = of_int startMs + of_int durationMs / 2 :: rat;
            computedEndMs = centerMs + of_int newDurationMs / 2;
            isPhase1 = computedEndMs \<le> of_int nowMs;
            newStartMs = (if isPhase1 then centerMs - of_int newDurationMs / 2 else of_int (nowMs - newDurationMs));
            newEndMs = (if isPhase1 then computedEndMs else of_int nowMs);
            preset = (if isPhase1 then None else map_of PRESET_FOR_DURATION_MS newDurationMs)
        in Some \<lparr> zo_start = math_round newStartMs, zo_end = math_round newEndMs, zo_preset = preset \<rparr>)"

section \<open>Paging\<close>

record tag_filter_item =
  ti_id :: string
  ti_key :: "string option"
  ti_op :: string
  ti_value :: string

record tag_filter =
  fl_items :: "tag_filter_item list"
  fl_op :: string

record page_query =
  pq_filters :: "tag_filter option"
  pq_offset :: int
  pq_pageSize :: int

definition getPaginationQueryDataV2 :: "int \<Rightarrow> int \<Rightarrow> page_query" where
  "getPaginationQueryDataV2 page pageSize =
     \<lparr> pq_filters = None, pq_offset = (page - 1) * pageSize, pq_pageSize = pageSize \<rparr>"

text \<open>\<open>uuid\<close> is the identifier drawn for the new filter item, \<open>order\<close> the direction of the timestamp order.\<close>

definition getPaginationQueryData :: "string \<Rightarrow> tag_filter option \<Rightarrow> string option \<Rightarrow>
    string option \<Rightarrow> int \<Rightarrow> int \<Rightarrow> page_query" where
  "getPaginationQueryData uuid filters listItemId orderByTimestamp page pageSize =
     (let items = (case filters of None \<Rightarrow> [] | Some f \<Rightarrow> filter (\<lambda>item. ti_key item \<noteq> Some ''id'') (fl_items f));
          op = (case filters of None \<Rightarrow> ''AND'' | Some f \<Rightarrow> if fl_op f = [] then ''AND'' else fl_op f);
          tagItems = (case (listItemId, orderByTimestamp) of
              (Some i, Some ord) \<Rightarrow>
                if i = [] then items
                else \<lparr> ti_id = uuid, ti_key = Some ''id'',
                       ti_op = (if ord = ''asc'' then ''>'' else ''<''), ti_value = i \<rparr> # items
            | _ \<Rightarrow> items)
      in \<lparr> pq_filters = Some \<lparr> fl_items = (if orderByTimestamp = None then items else tagItems), fl_op = op \<rparr>,
           pq_offset = (page - 1) * pageSize, pq_pageSize = pageSize \<rparr>)"

section \<open>Lemmas\<close>

lemmas ms_defs = MS_PER_MIN_def MS_PER_HOUR_def MS_PER_DAY_def MS_PER_WEEK_def

lemma ladder_values:
  "ZOOM_OUT_LADDER_MS = [900000, 2700000, 7200000, 25200000, 75600000, 86400000, 172800000,
     259200000, 604800000, 1209600000, 2592000000]"
  "MAX_ZOOM_OUT_DURATION_MS = 2592000000" "MIN_LADDER_DURATION_MS = 900000"
  by (simp_all add: ZOOM_OUT_LADDER_MS_def MAX_ZOOM_OUT_DURATION_MS_def MIN_LADDER_DURATION_MS_def ms_defs)

lemma next_steps:
  "getNextDurationInLadder d =
    (if d < 900000 then min (d * 3) 900000 else if d < 2700000 then 2700000
     else if d < 7200000 then 7200000 else if d < 25200000 then 25200000 else if d < 75600000 then 75600000
     else if d < 86400000 then 86400000 else if d < 172800000 then 172800000
     else if d < 259200000 then 259200000 else if d < 604800000 then 604800000
     else if d < 1209600000 then 1209600000 else 2592000000)"
  by (simp add: getNextDurationInLadder_def ladder_values)

lemma next_in_ladder:
  "0 < d \<Longrightarrow> d < 2592000000 \<Longrightarrow> d < getNextDurationInLadder d"
  "getNextDurationInLadder d \<le> 2592000000"
  unfolding next_steps by auto

text \<open>The minutes of a preset, and what \<^verbatim>\<open>GetMinMax\<close> makes of it.\<close>

lemma preset_range:
  assumes "map_of PRESET_FOR_DURATION_MS d = Some p"
  shows "GetMinMax now p None = Some \<lparr> rg_minTime = (now - d) * 1000000, rg_maxTime = now * 1000000 \<rparr>"
proof -
  have "list_all (\<lambda>(d, p). GetMinMax 0 p None = Some \<lparr> rg_minTime = - d * 1000000, rg_maxTime = 0 \<rparr>)
      PRESET_FOR_DURATION_MS"
    by code_simp
  then have "GetMinMax 0 p None = Some \<lparr> rg_minTime = - d * 1000000, rg_maxTime = 0 \<rparr>"
    using map_of_SomeD [OF assms] by (auto simp: list_all_iff)
  moreover have "GetMinMax now p None = map_option (\<lambda>r. \<lparr> rg_minTime = rg_minTime r + now * 1000000,
      rg_maxTime = rg_maxTime r + now * 1000000 \<rparr>) (GetMinMax 0 p None)" if "p \<noteq> ''custom''"
    using that by (auto simp: GetMinMax_def Let_def getMinAgo_def getMinTimeForRelativeTimes_def
        algebra_simps split: option.splits prod.splits)
  moreover have "p \<noteq> ''custom''" using map_of_SomeD [OF assms] by (auto simp: PRESET_FOR_DURATION_MS_def)
  ultimately show ?thesis by (simp add: algebra_simps)
qed

lemma ladder_reaches_max:
  assumes "0 < d" "d < 2592000000"
  shows "(getNextDurationInLadder ^^ 23) d = 2592000000"
proof -
  let ?f = getNextDurationInLadder
  have up: "min 900000 (3 ^ n * d) \<le> (?f ^^ n) d \<and> (?f ^^ n) d \<le> 2592000000" for n
  proof (induction n)
    case (Suc n)
    have "min 900000 (3 * y) \<le> ?f x" if "min 900000 y \<le> x" "0 < y" for x y
      using that unfolding next_steps by (auto simp: min_def split: if_splits)
    from this [of "3 ^ n * d" "(?f ^^ n) d"] Suc show ?case
      using assms(1) next_in_ladder(2) by (simp add: mult.assoc)
  qed (use assms in simp)
  have climb: "ladder ! Suc i \<le> ?f x" if "ladder ! i \<le> x" "i < 10" "ladder = ZOOM_OUT_LADDER_MS" for ladder i x
  proof -
    have "i \<in> {0, 1, 2, 3, 4, 5, 6, 7, 8, 9}" using that(2) by auto
    then show ?thesis using that(1,3) unfolding next_steps by (auto simp: ladder_values)
  qed
  have start: "900000 \<le> (?f ^^ 13) d" using up [of 13] assms(1) by (simp add: min_def split: if_splits)
  have "ZOOM_OUT_LADDER_MS ! i \<le> (?f ^^ i) ((?f ^^ 13) d)" if "i \<le> 10" for i
    using that
  proof (induction i)
    case (Suc i)
    then show ?case using climb [of ZOOM_OUT_LADDER_MS i] by simp
  qed (use start in \<open>simp add: ladder_values\<close>)
  from this [of 10] have "2592000000 \<le> (?f ^^ 10) ((?f ^^ 13) d)" by (simp add: ladder_values)
  then have "2592000000 \<le> (?f ^^ 23) d" using funpow_add [of 10 13 ?f] by (simp del: funpow.simps)
  with up [of 23] show ?thesis by simp
qed

lemma custom_range_split:
  "split_str CUSTOM_TIME_SEPARATOR [] (createCustomTimeRange a b) = [int_str a, int_str b]"
  using split_str_two [of CUSTOM_TIME_SEPARATOR "int_str a" "int_str b" "[]"] int_str_no_bar
  by (simp add: createCustomTimeRange_def CUSTOM_TIME_SEPARATOR_def)

lemma custom_range_is_custom: "isCustomTimeRange (createCustomTimeRange a b)"
  by (auto simp: isCustomTimeRange_def createCustomTimeRange_def includes_sublist)

lemma zoom_out_cases:
  "getNextZoomOutRange now s e = None \<longleftrightarrow> e \<le> s \<or> 2592000000 \<le> e - s"
proof (cases "0 < e - s \<and> e - s < 2592000000")
  case True
  then show ?thesis using next_in_ladder(1) [of "e - s"] by (auto simp: getNextZoomOutRange_def Let_def)
next
  case False
  then show ?thesis using next_in_ladder(2) [of "e - s"]
    by (auto simp: getNextZoomOutRange_def Let_def)
qed

lemma zoom_out_SomeD:
  assumes "getNextZoomOutRange now s e = Some r"
  defines "n \<equiv> getNextDurationInLadder (e - s)"
  shows "0 < e - s" "e - s < n" "zo_end r - zo_start r = n"
    and "e \<le> now \<Longrightarrow> zo_start r \<le> s \<and> e \<le> zo_end r \<and> zo_end r \<le> now"
    and "zo_preset r = Some p \<Longrightarrow> map_of PRESET_FOR_DURATION_MS n = Some p \<and> zo_end r = now"
proof -
  define c :: rat where "c = of_int s + of_int (e - s) / 2"
  have n: "0 < e - s" "e - s < n" using assms by (auto simp: getNextZoomOutRange_def Let_def split: if_splits)
  then have r: "r = (if c + of_int n / 2 \<le> of_int now
      then \<lparr> zo_start = math_round (c - of_int n / 2), zo_end = math_round (c + of_int n / 2), zo_preset = None \<rparr>
      else \<lparr> zo_start = now - n, zo_end = now, zo_preset = map_of PRESET_FOR_DURATION_MS n \<rparr>)"
    using assms(1) math_round_of_int math_round_diff unfolding getNextZoomOutRange_def Let_def c_def n_def
    by (auto split: if_splits)
  show "0 < e - s" "e - s < n" by fact+
  have "math_round (c - of_int n / 2 + of_int n) = math_round (c - of_int n / 2) + n" by (rule math_round_shift)
  then show "zo_end r - zo_start r = n" by (simp add: r algebra_simps)
  have "c - of_int n / 2 \<le> of_int s" "of_int e \<le> c + of_int n / 2"
    using n(2) by (simp_all add: c_def field_simps flip: of_int_diff of_int_add)
  then show "zo_start r \<le> s \<and> e \<le> zo_end r \<and> zo_end r \<le> now" if "e \<le> now"
    using that n by (auto simp: r math_round_le math_round_ge not_le dest: less_imp_le)
  show "map_of PRESET_FOR_DURATION_MS n = Some p \<and> zo_end r = now" if "zo_preset r = Some p"
    using that by (simp add: r split: if_splits)
qed

section \<open>Properties\<close>

text \<open>C32: Zooming out of a range that ends by now gives a range that contains it and ends by now, as long
  as the next duration of the ladder; there is none exactly for empty ranges and from a month on.\<close>

theorem zoom_out_contains:
  assumes "e \<le> now"
  shows "case getNextZoomOutRange now s e of
       None \<Rightarrow> e \<le> s \<or> isZoomOutDisabled (e - s)
     | Some r \<Rightarrow> zo_start r \<le> s \<and> e \<le> zo_end r \<and> zo_end r \<le> now \<and> s < e
         \<and> zo_end r - zo_start r = getNextDurationInLadder (e - s) \<and> e - s < zo_end r - zo_start r"
  using zoom_out_SomeD [of now s e] zoom_out_cases [of now s e] assms
  by (auto simp: isZoomOutDisabled_def ladder_values split: option.splits)

theorem zoom_out_contains_witness:
  "\<exists>r. getNextZoomOutRange 10000000 1000000 1900000 = Some r \<and> zo_start r \<le> 1000000 \<and> 1900000 \<le> zo_end r"
  using zoom_out_contains [of 1900000 10000000 1000000] by (auto simp: isZoomOutDisabled_def ladder_values split: option.splits)

text \<open>When zooming out proposes a preset, \<^verbatim>\<open>GetMinMax\<close> computes for it exactly the proposed range.\<close>

theorem zoom_out_preset:
  assumes "getNextZoomOutRange now s e = Some r" "zo_preset r = Some p"
  shows "GetMinMax now p None = Some \<lparr> rg_minTime = zo_start r * 1000000, rg_maxTime = zo_end r * 1000000 \<rparr>"
proof -
  have "zo_start r = zo_end r - getNextDurationInLadder (e - s)" using zoom_out_SomeD(3) [OF assms(1)] by simp
  with zoom_out_SomeD(5) [OF assms] preset_range show ?thesis by simp
qed

theorem zoom_out_preset_witness:
  "GetMinMax 10000000 ''45m'' None = Some \<lparr> rg_minTime = 7300000 * 1000000, rg_maxTime = 10000000 * 1000000 \<rparr>"
proof -
  have "getNextZoomOutRange 10000000 9100000 10000000
      = Some \<lparr> zo_start = 7300000, zo_end = 10000000, zo_preset = Some ''45m'' \<rparr>"
    by code_simp
  from zoom_out_preset [OF this] show ?thesis by simp
qed

text \<open>From any duration of at least a millisecond, 23 steps of the ladder reach the month at which
  zooming out is disabled.\<close>

theorem zoom_out_ends:
  assumes "0 < d" "d < MAX_ZOOM_OUT_DURATION_MS"
  shows "isZoomOutDisabled ((getNextDurationInLadder ^^ 23) d)"
  using ladder_reaches_max [of d] assms by (simp add: isZoomOutDisabled_def ladder_values del: funpow.simps)

theorem zoom_out_ends_witness: "isZoomOutDisabled ((getNextDurationInLadder ^^ 23) 1)"
  using zoom_out_ends [of 1] by (simp add: ladder_values del: funpow.simps)

text \<open>A custom time range is read back from the text it is stored as, and the store then hands out
  that range and never refreshes.\<close>

theorem custom_range_roundtrip:
  "let st' = setSelectedTime (createCustomTimeRange mn mx) interval st in
     getMinMaxTime now st' = Some \<lparr> rg_minTime = mn, rg_maxTime = mx \<rparr> \<and> \<not> gs_isRefreshEnabled st'"
  by (simp add: Let_def setSelectedTime_def getMinMaxTime_def parseSelectedTime_def custom_range_is_custom
      parseCustomTimeRange_def custom_range_split parse_int_str)

text \<open>A page of a list never filters twice on the identifier: all other filter items are kept in order,
  and with a last item and an order by timestamp there is one identifier filter, in the direction of the order.\<close>

theorem pagination_single_cursor:
  assumes "getPaginationQueryData uuid filters listItemId order page pageSize = q"
  shows "\<exists>f. pq_filters q = Some f
     \<and> filter (\<lambda>item. ti_key item \<noteq> Some ''id'') (fl_items f)
         = (case filters of None \<Rightarrow> [] | Some f0 \<Rightarrow> filter (\<lambda>item. ti_key item \<noteq> Some ''id'') (fl_items f0))
     \<and> map ti_value (filter (\<lambda>item. ti_key item = Some ''id'') (fl_items f))
         = (case (listItemId, order) of (Some i, Some ord) \<Rightarrow> if i = [] then [] else [i] | _ \<Rightarrow> [])"
  unfolding assms [symmetric] getPaginationQueryData_def Let_def
  by (auto simp: filter_empty_conv split: option.splits)

theorem pagination_single_cursor_witness:
  "\<exists>f. pq_filters (getPaginationQueryData ''u'' None (Some ''x'') (Some ''asc'') 2 10) = Some f
     \<and> map ti_value (filter (\<lambda>item. ti_key item = Some ''id'') (fl_items f)) = [''x'']"
  using pagination_single_cursor [OF refl, of "''u''" None "Some ''x''" "Some ''asc''" 2 10] by auto

end
