(* ===== verification/StackedSeries.thy ===== *)
theory StackedSeries
  imports Prelude Complex_Main
begin

text \<open>
  Stacking of chart series
  (\<^verbatim>\<open>frontend/src/container/DashboardContainer/visualization/charts/utils/stackSeriesUtils.ts\<close>).
  A table has one x axis and series of its length; series are numbered from 1.  Numbers are
  rationals: the rounding of floating-point totals is not modelled.
\<close>

section \<open>Tables\<close>

datatype point = PNull | PUndefined | PNum rat

record AlignedData =
  ad_x :: "rat list"
  ad_series :: "point list list"

definition aligned :: "AlignedData \<Rightarrow> bool" where
  "aligned d \<longleftrightarrow> (\<forall>s \<in> set (ad_series d). length s = length (ad_x d))"

text \<open>\<^verbatim>\<open>rawValue == null ? 0 : Number(rawValue)\<close>\<close>

fun numeric_value :: "point \<Rightarrow> rat" where
  "numeric_value (PNum v) = v"
| "numeric_value _ = 0"

section \<open>Stacking\<close>

text \<open>One round of the loop over the series, from the last one up.\<close>

definition stack_step :: "(nat \<Rightarrow> bool) \<Rightarrow> nat \<times> point list \<Rightarrow> rat list \<times> point list list \<Rightarrow>
    rat list \<times> point list list" where
  "stack_step omit entry = (\<lambda>(cumulativeSums, stacked).
     case entry of (seriesIndex, rawValues) \<Rightarrow>
       if omit seriesIndex then (cumulativeSums, rawValues # stacked)
       else let totals = map2 (\<lambda>v acc. acc + numeric_value v) rawValues cumulativeSums
            in (totals @ drop (length rawValues) cumulativeSums, map PNum totals # stacked))"

definition buildStackedSeries :: "AlignedData \<Rightarrow> (nat \<Rightarrow> bool) \<Rightarrow> point list list" where
  "buildStackedSeries d omit =
     snd (fold (stack_step omit) (rev (zip [1..<Suc (length (ad_series d))] (ad_series d)))
       (replicate (length (ad_x d)) 0, []))"

definition findNextVisibleSeriesIndex :: "nat \<Rightarrow> nat \<Rightarrow> (nat \<Rightarrow> bool) \<Rightarrow> nat option" where
  "findNextVisibleSeriesIndex seriesLength afterIndex omit =
     find (\<lambda>i. \<not> omit i) [Suc afterIndex..<seriesLength]"

definition band_from :: "nat \<Rightarrow> (nat \<Rightarrow> bool) \<Rightarrow> nat \<Rightarrow> (nat \<times> nat) list" where
  "band_from seriesLength omit seriesIndex =
     (if omit seriesIndex then []
      else case findNextVisibleSeriesIndex seriesLength seriesIndex omit of
        None \<Rightarrow> []
      | Some j \<Rightarrow> [(seriesIndex, j)])"

definition buildFillBands :: "nat \<Rightarrow> (nat \<Rightarrow> bool) \<Rightarrow> (nat \<times> nat) list" where
  "buildFillBands seriesLength omit = concat (map (band_from seriesLength omit) [1..<seriesLength])"

definition stackSeries :: "AlignedData \<Rightarrow> (nat \<Rightarrow> bool) \<Rightarrow> AlignedData \<times> (nat \<times> nat) list" where
  "stackSeries d omit =
     (d\<lparr> ad_series := buildStackedSeries d omit \<rparr>, buildFillBands (Suc (length (ad_series d))) omit)"

definition getInitialStackedBands :: "nat \<Rightarrow> (nat \<times> nat) list" where
  "getInitialStackedBands seriesCount = map (\<lambda>i. (i, Suc i)) [1..<seriesCount]"

section \<open>Lemmas\<close>

text \<open>The values that the loop adds up: the visible series from \<open>k\<close> on, at one point.\<close>

definition visible_sum :: "(nat \<Rightarrow> bool) \<Rightarrow> nat \<Rightarrow> point list list \<Rightarrow> nat \<Rightarrow> rat" where
  "visible_sum omit k series p =
     sum_list (map (\<lambda>(i, s). if omit i then 0 else numeric_value (s ! p)) (zip [k..<k + length series] series))"

lemma zip_upt_Cons: "zip [k..<k + length (s # ss)] (s # ss) = (k, s) # zip [Suc k..<Suc k + length ss] ss"
  by (simp add: upt_conv_Cons del: upt_Suc)

lemma visible_sum_Cons:
  "visible_sum omit k (s # ss) p = (if omit k then 0 else numeric_value (s ! p)) + visible_sum omit (Suc k) ss p"
  unfolding visible_sum_def zip_upt_Cons by simp

definition stack_loop :: "nat \<Rightarrow> (nat \<Rightarrow> bool) \<Rightarrow> nat \<Rightarrow> point list list \<Rightarrow> rat list \<times> point list list" where
  "stack_loop n omit k series =
     fold (stack_step omit) (rev (zip [k..<k + length series] series)) (replicate n 0, [])"

lemma stack_loop_Nil [simp]: "stack_loop n omit k [] = (replicate n 0, [])"
  by (simp add: stack_loop_def)

lemma stack_loop_Cons: "stack_loop n omit k (s # ss) = stack_step omit (k, s) (stack_loop n omit (Suc k) ss)"
  unfolding stack_loop_def zip_upt_Cons by simp

text \<open>The loop keeps the totals of the visible series that it has passed.\<close>

lemma stack_loop_spec:
  assumes "\<forall>s \<in> set series. length s = n"
  shows "fst (stack_loop n omit k series) = map (visible_sum omit k series) [0..<n]
     \<and> length (snd (stack_loop n omit k series)) = length series
     \<and> (\<forall>i < length series. snd (stack_loop n omit k series) ! i =
          (if omit (k + i) then series ! i
           else map (\<lambda>p. PNum (visible_sum omit (k + i) (drop i series) p)) [0..<n]))"
  using assms
proof (induction series arbitrary: k)
  case Nil
  show ?case by (simp add: visible_sum_def map_replicate_const)
next
  case (Cons s ss)
  obtain totals stacked where l: "stack_loop n omit (Suc k) ss = (totals, stacked)" by fastforce
  from Cons have IH: "totals = map (visible_sum omit (Suc k) ss) [0..<n]" "length stacked = length ss"
      "\<forall>i < length ss. stacked ! i = (if omit (Suc k + i) then ss ! i
           else map (\<lambda>p. PNum (visible_sum omit (Suc k + i) (drop i ss) p)) [0..<n])"
    using Cons.IH [of "Suc k"] by (simp_all add: l)
  have len: "length s = n" using Cons.prems by simp
  have new: "map2 (\<lambda>v acc. acc + numeric_value v) s totals = map (visible_sum omit k (s # ss)) [0..<n]" if "\<not> omit k"
    using that by (intro nth_equalityI) (simp_all add: IH(1) len visible_sum_Cons)
  have "fst (stack_loop n omit k (s # ss)) = map (visible_sum omit k (s # ss)) [0..<n]"
    using new by (auto simp: stack_loop_Cons l stack_step_def Let_def len IH(1) visible_sum_Cons)
  moreover have "snd (stack_loop n omit k (s # ss))
      = (if omit k then s else map (\<lambda>p. PNum (visible_sum omit k (s # ss) p)) [0..<n]) # stacked"
    using new by (auto simp: stack_loop_Cons l stack_step_def Let_def)
  ultimately show ?case using IH(2,3) by (auto simp: nth_Cons split: nat.splits)
qed

lemma buildStackedSeries_loop:
  "buildStackedSeries d omit = snd (stack_loop (length (ad_x d)) omit 1 (ad_series d))"
  by (simp add: buildStackedSeries_def stack_loop_def)

text \<open>The bands join each visible series with the next visible one.\<close>

definition consecutive :: "'a list \<Rightarrow> ('a \<times> 'a) list" where
  "consecutive xs = zip xs (tl xs)"

lemma filter_upt_find:
  "k < n \<Longrightarrow> filter P [k..<n] = (if P k then [k] else []) @ filter P [Suc k..<n]"
  by (simp add: upt_conv_Cons)

lemma find_filter: "find P xs = (case filter P xs of [] \<Rightarrow> None | x # _ \<Rightarrow> Some x)"
  by (induction xs) auto

lemma bands_from:
  "concat (map (band_from n omit) [k..<n]) = consecutive (filter (\<lambda>i. \<not> omit i) [k..<n])"
proof (induction "n - k" arbitrary: k)
  case 0
  then show ?case by (simp add: consecutive_def)
next
  case (Suc m)
  then have k: "k < n" "m = n - Suc k" by simp_all
  have IH: "concat (map (band_from n omit) [Suc k..<n]) = consecutive (filter (\<lambda>i. \<not> omit i) [Suc k..<n])"
    by (rule Suc.hyps(1) [OF k(2)])
  show ?case
  proof (cases "omit k")
    case True
    then show ?thesis using k IH by (simp add: upt_conv_Cons band_from_def)
  next
    case False
    then show ?thesis using k IH
      by (cases "filter (\<lambda>i. \<not> omit i) [Suc k..<n]")
        (simp_all add: upt_conv_Cons band_from_def findNextVisibleSeriesIndex_def find_filter consecutive_def)
  qed
qed

section \<open>Properties\<close>

text \<open>C34: Stacking replaces every visible series by the sum of it and the visible series below it (those after it in the data),
  point by point, and leaves the omitted series and the x axis as they are.\<close>

theorem stackSeries_sums:
  assumes "aligned d" "i < length (ad_series d)"
  shows "ad_x (fst (stackSeries d omit)) = ad_x d
     \<and> length (ad_series (fst (stackSeries d omit))) = length (ad_series d)
     \<and> ad_series (fst (stackSeries d omit)) ! i =
         (if omit (Suc i) then ad_series d ! i
          else map (\<lambda>p. PNum (\<Sum>j \<leftarrow> filter (\<lambda>j. \<not> omit (Suc j)) [i..<length (ad_series d)].
                               numeric_value (ad_series d ! j ! p))) [0..<length (ad_x d)])"
proof -
  let ?n = "length (ad_series d)"
  have sum: "visible_sum omit (Suc i) (drop i (ad_series d)) p
      = (\<Sum>j \<leftarrow> filter (\<lambda>j. \<not> omit (Suc j)) [i..<?n]. numeric_value (ad_series d ! j ! p))" for p
  proof -
    have "zip [Suc i..<Suc i + length (drop i (ad_series d))] (drop i (ad_series d))
        = map (\<lambda>j. (Suc j, ad_series d ! j)) [i..<?n]"
      by (rule nth_equalityI) (use assms(2) in \<open>auto simp del: upt_Suc\<close>)
    then have "visible_sum omit (Suc i) (drop i (ad_series d)) p
        = (\<Sum>j \<leftarrow> [i..<?n]. if \<not> omit (Suc j) then numeric_value (ad_series d ! j ! p) else 0)"
      unfolding visible_sum_def by (simp add: comp_def if_distrib cong: if_cong) (meson)
    then show ?thesis by (simp add: sum_list_map_filter')
  qed
  have "\<forall>s \<in> set (ad_series d). length s = length (ad_x d)" using assms(1) by (simp add: aligned_def)
  from stack_loop_spec [OF this, of omit 1] assms(2) show ?thesis
    by (simp add: stackSeries_def buildStackedSeries_loop sum)
qed

definition sample_table :: AlignedData where
  "sample_table = \<lparr> ad_x = [1, 2], ad_series = [[PNum 1, PNum 2], [PNum 10, PNull], [PNum 5, PNum 7]] \<rparr>"

theorem stackSeries_sums_witness:
  "ad_series (fst (stackSeries sample_table (\<lambda>i. i = 2))) ! 0 = [PNum 6, PNum 9]"
  using stackSeries_sums [of sample_table 0 "\<lambda>i. i = 2"]
  by (simp add: sample_table_def aligned_def upt_rec)

text \<open>The bands are the pairs of consecutive visible series, and the initial bands are those with no
  series omitted.\<close>

theorem stackSeries_bands:
  "snd (stackSeries d omit) = consecutive (filter (\<lambda>i. \<not> omit i) [1..<Suc (length (ad_series d))])
   \<and> getInitialStackedBands (length (ad_series d)) = snd (stackSeries d (\<lambda>_. False))"
proof -
  have all: "snd (stackSeries d omit) = consecutive (filter (\<lambda>i. \<not> omit i) [1..<Suc (length (ad_series d))])" for omit
    unfolding stackSeries_def buildFillBands_def by (simp add: bands_from del: upt_Suc)
  have "consecutive [1..<Suc n] = map (\<lambda>i. (i, Suc i)) [1..<n]" for n
    by (rule nth_equalityI) (auto simp: consecutive_def nth_tl simp del: upt_Suc)
  then show ?thesis using all [of "\<lambda>_. False"] all [of omit] by (simp add: getInitialStackedBands_def del: upt_Suc)
qed

end
