(* ===== verification/ChartData.thy ===== *)
theory ChartData
  imports StackedSeries JsNumber "HOL-Library.AList"
begin

text \<open>
  The tables behind the charts, under \<^verbatim>\<open>frontend/src/lib\<close>: the values of the series of a response on
  their common x axis (\<^verbatim>\<open>uPlotLib/utils/getUplotChartData.ts\<close>, with the \<^verbatim>\<open>normalizePlotValue\<close> that
  \<^verbatim>\<open>uPlotLib\<close> and \<^verbatim>\<open>uPlotV2\<close> share), and the break points in wide gaps
  (\<^verbatim>\<open>uPlotV2/utils/dataUtils.ts\<close>).
\<close>

section \<open>Values\<close>

datatype plot_value = PVNull | PVUndefined | PVNumber js_number | PVString string

fun isInvalidPlotValue :: "plot_value \<Rightarrow> bool" where
  "isInvalidPlotValue PVNull = True"
| "isInvalidPlotValue PVUndefined = True"
| "isInvalidPlotValue (PVNumber v) = (case v of JNum _ \<Rightarrow> False | _ \<Rightarrow> True)"
| "isInvalidPlotValue (PVString s) =
     (s \<in> set [''+Inf'', ''-Inf'', ''Infinity'', ''-Infinity'', ''NaN'']
      \<or> (case parseFloat s of JNum _ \<Rightarrow> False | _ \<Rightarrow> True))"

definition normalizePlotValue :: "plot_value \<Rightarrow> point" where
  "normalizePlotValue v =
     (if isInvalidPlotValue v then PNull
      else case v of
        PVString s \<Rightarrow> (case parseFloat s of JNum q \<Rightarrow> PNum q | _ \<Rightarrow> PNull)
      | PVNumber n \<Rightarrow> (case n of JNum q \<Rightarrow> PNum q | _ \<Rightarrow> PNull)
      | _ \<Rightarrow> PNull)"

section \<open>Series of a response\<close>

text \<open>The \<^verbatim>\<open>values\<close> of a series, if it has any, as pairs of a timestamp and a text.\<close>

type_synonym query_values = "(rat \<times> string) list option"

definition getXAxisTimestamps :: "query_values list \<Rightarrow> rat list" where
  "getXAxisTimestamps seriesList =
     sort (set_of_list (concat (map (\<lambda>s. case s of None \<Rightarrow> [] | Some vs \<Rightarrow> map fst vs) seriesList)))"

definition fill_entry :: "rat list \<Rightarrow> query_values \<Rightarrow> point list" where
  "fill_entry timestampArr entry =
     (case entry of
        None \<Rightarrow> []
      | Some vs \<Rightarrow>
          let existingTimestamps = map fst vs;
              valuesMap = fold (\<lambda>(t, v). AList.update t (normalizePlotValue (PVString v))) vs [];
              missing = filter (\<lambda>t. t \<notin> set existingTimestamps) (set_of_list timestampArr);
              filled = fold (\<lambda>t. AList.update t PNull) missing valuesMap
          in map (\<lambda>t. case map_of filled t of None \<Rightarrow> PNull | Some p \<Rightarrow> p) (sort (map fst filled)))"

definition fillMissingXAxisTimestamps :: "rat list \<Rightarrow> query_values list \<Rightarrow> point list list" where
  "fillMissingXAxisTimestamps timestampArr data = map (fill_entry timestampArr) data"

text \<open>\<^verbatim>\<open>(series[i][j] || 0) + (series[i + 1][j] || 0)\<close>; a point outside the next series counts as 0.\<close>

definition add_rows :: "point list \<Rightarrow> point list \<Rightarrow> point list" where
  "add_rows row below =
     map (\<lambda>j. PNum (numeric_value (row ! j) + (if j < length below then numeric_value (below ! j) else 0)))
       [0..<length row]"

fun getStackedSeries :: "point list list \<Rightarrow> point list list" where
  "getStackedSeries (row # rows) =
     (case getStackedSeries rows of
        [] \<Rightarrow> [row]
      | below # rest \<Rightarrow> add_rows row below # below # rest)"
| "getStackedSeries [] = []"

definition getUPlotChartData :: "query_values list \<Rightarrow> bool \<Rightarrow> bool \<Rightarrow> AlignedData" where
  "getUPlotChartData seriesList stackedBarChart hiddenGraphUndefined =
     (let timestampArr = getXAxisTimestamps seriesList;
          yAxisValuesArr = fillMissingXAxisTimestamps timestampArr seriesList
      in \<lparr> ad_x = timestampArr,
           ad_series = (if stackedBarChart \<and> hiddenGraphUndefined
                        then getStackedSeries yAxisValuesArr else yAxisValuesArr) \<rparr>)"

section \<open>Gaps\<close>

datatype span_gaps = SGUndefined | SGBool bool | SGNum rat

definition gapExceedsThreshold :: "rat \<Rightarrow> span_gaps list \<Rightarrow> bool" where
  "gapExceedsThreshold gapSize seriesOptions =
     list_ex (\<lambda>o1. case o1 of SGNum t \<Rightarrow> t > 0 \<and> gapSize > t | _ \<Rightarrow> False) seriesOptions"

definition gap_midpoint :: "rat \<Rightarrow> rat \<Rightarrow> rat" where
  "gap_midpoint a b = a + max 1 (of_int \<lfloor>(b - a) / 2\<rfloor>)"

text \<open>
  The writing loop, on the timestamps still to come and a column of the same length: the value
  is copied, and in a wide gap an entry is added.
\<close>

fun gap_walk :: "span_gaps list \<Rightarrow> (rat \<Rightarrow> rat \<Rightarrow> 'v) \<Rightarrow> rat list \<Rightarrow> 'v list \<Rightarrow> 'v list" where
  "gap_walk opts new (a # b # xs) (v # vs) =
     v # (if gapExceedsThreshold (b - a) opts then [new a b] else []) @ gap_walk opts new (b # xs) vs"
| "gap_walk opts new [a] (v # vs) = [v]"
| "gap_walk opts new _ _ = []"

fun insertion_count :: "span_gaps list \<Rightarrow> rat list \<Rightarrow> nat" where
  "insertion_count opts (a # b # xs) =
     (if gapExceedsThreshold (b - a) opts then 1 else 0) + insertion_count opts (b # xs)"
| "insertion_count opts _ = 0"

text \<open>Reading a series beyond its end gives \<^verbatim>\<open>undefined\<close>.\<close>

definition column_of :: "nat \<Rightarrow> point list \<Rightarrow> point list" where
  "column_of n s = take n s @ replicate (n - length s) PUndefined"

definition insertLargeGapNullsIntoAlignedData :: "AlignedData \<Rightarrow> span_gaps list \<Rightarrow> AlignedData" where
  "insertLargeGapNullsIntoAlignedData d opts =
     (let timestamps = ad_x d in
      if length timestamps < 2 \<or> ad_series d = [] then d
      else if insertion_count opts timestamps = 0 then d
      else \<lparr> ad_x = gap_walk opts gap_midpoint timestamps timestamps,
             ad_series = map (\<lambda>s. gap_walk opts (\<lambda>_ _. PNull) timestamps (column_of (length timestamps) s))
               (ad_series d) \<rparr>)"

definition span_series :: "span_gaps list \<Rightarrow> nat \<times> point list \<Rightarrow> point list" where
  "span_series opts entry =
     (case entry of (i, ys) \<Rightarrow>
        if i < length opts \<and> opts ! i = SGBool True
        then map (\<lambda>p. if p = PNull then PUndefined else p) ys else ys)"

definition applySpanGapsToAlignedData :: "AlignedData \<Rightarrow> span_gaps list \<Rightarrow> AlignedData" where
  "applySpanGapsToAlignedData d opts =
     (if ad_series d = [] then d
      else
        let gapProcessed = (if list_ex (\<lambda>o1. case o1 of SGNum _ \<Rightarrow> True | _ \<Rightarrow> False) opts
                            then insertLargeGapNullsIntoAlignedData d opts else d)
        in if SGBool True \<notin> set opts then gapProcessed
           else gapProcessed\<lparr> ad_series :=
                  map (span_series opts) (zip [0..<length (ad_series gapProcessed)] (ad_series gapProcessed)) \<rparr>)"

section \<open>Lemmas on the common x axis\<close>

lemma map_of_fold_update:
  "map_of (fold (\<lambda>(t, v). AList.update t (f v)) vs al) k
     = (case map_of (rev vs) k of None \<Rightarrow> map_of al k | Some v \<Rightarrow> Some (f v))"
proof (induction vs arbitrary: al)
  case (Cons tv vs)
  then show ?case
    by (cases tv) (auto simp: AList.update_conv' map_of_append split: option.splits)
qed simp

lemma keys_fold_update:
  "set (map fst (fold (\<lambda>(t, v). AList.update t (f v)) vs al)) = set (map fst vs) \<union> set (map fst al)"
proof (induction vs arbitrary: al)
  case (Cons tv vs)
  obtain t v where "tv = (t, v)" by fastforce
  with Cons.IH [of "AList.update t (f v) al"] show ?case by (simp add: AList.dom_update)
qed simp

lemma distinct_fold_update:
  "distinct (map fst al) \<Longrightarrow> distinct (map fst (fold (\<lambda>(t, v). AList.update t (f v)) vs al))"
  by (induction vs arbitrary: al) (auto simp: AList.distinct_update)

lemma fold_update_const:
  "fold (\<lambda>t. AList.update t c) ts al = fold (\<lambda>(t, v). AList.update t c) (map (\<lambda>t. (t, ())) ts) al"
  by (induction ts arbitrary: al) auto

lemma map_of_rev_unit: "map_of (rev (map (\<lambda>t. (t, ())) ts)) k = (if k \<in> set ts then Some () else None)"
  by (induction ts) (auto simp: map_add_def)

lemma x_axis_sorted: "sorted (getXAxisTimestamps ss) \<and> distinct (getXAxisTimestamps ss)"
  by (simp add: getXAxisTimestamps_def)

lemma x_axis_set: "set (getXAxisTimestamps ss) = (\<Union>s \<in> set ss. case s of None \<Rightarrow> {} | Some vs \<Rightarrow> fst ` set vs)"
proof -
  have "set (case s of None \<Rightarrow> [] | Some vs \<Rightarrow> map fst vs) = (case s of None \<Rightarrow> {} | Some vs \<Rightarrow> fst ` set vs)"
    for s :: query_values
    by (cases s) simp_all
  then show ?thesis by (simp add: getXAxisTimestamps_def)
qed

lemma sort_distinct_eq: "set xs = set ys \<Longrightarrow> distinct xs \<Longrightarrow> sorted ys \<Longrightarrow> distinct ys \<Longrightarrow> sort xs = ys"
  by (metis distinct_sort set_sort sorted_distinct_set_unique sorted_sort)

lemma fill_entry_eq:
  assumes "sorted xs" "distinct xs" "fst ` set vs \<subseteq> set xs"
  shows "fill_entry xs (Some vs) =
     map (\<lambda>t. case map_of (rev vs) t of None \<Rightarrow> PNull | Some v \<Rightarrow> normalizePlotValue (PVString v)) xs"
proof -
  let ?f = "\<lambda>v. normalizePlotValue (PVString v)"
  let ?al = "fold (\<lambda>(t, v). AList.update t (?f v)) vs []"
  let ?missing = "filter (\<lambda>t. t \<notin> set (map fst vs)) (set_of_list xs)"
  let ?filled = "fold (\<lambda>t. AList.update t PNull) ?missing ?al"
  have get: "map_of ?filled t = (if t \<in> set ?missing then Some PNull else map_option ?f (map_of (rev vs) t))" for t
    unfolding fold_update_const map_of_fold_update [of "\<lambda>_. PNull"] map_of_rev_unit map_of_fold_update [of ?f]
    by (auto split: option.splits)
  have "set (map fst ?filled) = set ?missing \<union> set (map fst vs)"
    unfolding fold_update_const keys_fold_update [of "\<lambda>_. PNull"] keys_fold_update [of ?f] by (simp add: comp_def)
  then have keys: "set (map fst ?filled) = set xs" using assms(3) by auto
  have "distinct (map fst ?filled)"
    unfolding fold_update_const by (intro distinct_fold_update) simp
  with keys assms have sorted_keys: "sort (map fst ?filled) = xs" by (intro sort_distinct_eq)
  have "(case map_of ?filled t of None \<Rightarrow> PNull | Some p \<Rightarrow> p)
      = (case map_of (rev vs) t of None \<Rightarrow> PNull | Some v \<Rightarrow> ?f v)" for t
  proof (cases "t \<in> set ?missing")
    case True
    then have "map_of (rev vs) t = None" by (auto simp: map_of_eq_None_iff)
    with True show ?thesis by (simp only: get if_True option.case)
  next
    case False
    then show ?thesis by (simp only: get if_False) (simp split: option.splits)
  qed
  then show ?thesis unfolding fill_entry_def option.case Let_def sorted_keys by simp
qed

section \<open>Lemmas on stacking\<close>

lemma length_stacked_rows [simp]: "length (getStackedSeries rows) = length rows"
  by (induction rows) (auto split: list.splits)

lemma stacked_row_lengths: "map length (getStackedSeries rows) = map length rows"
  by (induction rows) (auto simp: add_rows_def split: list.splits)

lemma visible_sum_all:
  "visible_sum (\<lambda>_. False) k rows p = (\<Sum>row \<leftarrow> rows. numeric_value (row ! p))"
proof (induction rows arbitrary: k)
  case (Cons row rows)
  then show ?case by (simp add: visible_sum_Cons del: upt_Suc)
qed (simp add: visible_sum_def)

lemma stacked_rows:
  assumes "\<forall>row \<in> set rows. length row = n" "i < length rows" "p < n"
  shows "length (getStackedSeries rows ! i) = n \<and>
    numeric_value (getStackedSeries rows ! i ! p) = (\<Sum>row \<leftarrow> drop i rows. numeric_value (row ! p))"
  using assms
proof (induction rows arbitrary: i)
  case (Cons row rows)
  show ?case
  proof (cases "getStackedSeries rows")
    case Nil
    then have "rows = []" using length_stacked_rows [of rows] by simp
    with Cons.prems show ?thesis by simp
  next
    case (Cons below rest)
    then have len: "rows \<noteq> []" using length_stacked_rows [of rows] by auto
    from Cons Cons.prems Cons.IH [of 0] len
    have below: "length below = n" "numeric_value (below ! p) = (\<Sum>row \<leftarrow> rows. numeric_value (row ! p))"
      by simp_all
    show ?thesis
    proof (cases i)
      case 0
      then show ?thesis using Cons Cons.prems by (simp add: add_rows_def below)
    next
      case (Suc j)
      then have e: "getStackedSeries (row # rows) ! i = getStackedSeries rows ! j" using Cons by simp
      show ?thesis unfolding e using Suc Cons.prems Cons.IH [of j] by simp
    qed
  qed
qed simp

section \<open>Lemmas on gaps\<close>

lemma length_gap_walk:
  "length xs = length vs \<Longrightarrow> length (gap_walk opts new xs vs) = length xs + insertion_count opts xs"
  by (induction opts new xs vs rule: gap_walk.induct) auto

lemma length_column [simp]: "length (column_of n s) = n"
  by (simp add: column_of_def)

lemma column_of_self: "length s = n \<Longrightarrow> column_of n s = s"
  by (simp add: column_of_def)

lemma zip_gap_walk:
  "length xs = length us \<Longrightarrow> length us = length vs \<Longrightarrow>
   zip (gap_walk opts f xs us) (gap_walk opts g xs vs) = gap_walk opts (\<lambda>a b. (f a b, g a b)) xs (zip us vs)"
proof (induction opts f xs us arbitrary: vs rule: gap_walk.induct)
  case (1 opts f a b xs u us)
  then obtain v vs' where "vs = v # vs'" by (cases vs) auto
  with 1 show ?case by auto
next
  case (2 opts f a u us)
  then show ?case by (cases vs) auto
qed auto

definition wide_gaps :: "span_gaps list \<Rightarrow> rat list \<Rightarrow> bool" where
  "wide_gaps opts xs \<longleftrightarrow> (\<forall>(a, b) \<in> set (consecutive xs). gapExceedsThreshold (b - a) opts \<longrightarrow> b - a > 1)"

lemma consecutive_Cons [simp]:
  "consecutive [] = []" "consecutive [a] = []" "consecutive (a # b # xs) = (a, b) # consecutive (b # xs)"
  by (simp_all add: consecutive_def)

lemma midpoint_between: "b - a > 1 \<Longrightarrow> a < gap_midpoint a b \<and> gap_midpoint a b < b"
proof -
  assume w: "b - a > 1"
  have "rat_of_int \<lfloor>(b - a) / 2\<rfloor> \<le> (b - a) / 2" by (rule of_int_floor_le)
  moreover have "(b - a) / 2 < b - a" using w by simp
  ultimately have "rat_of_int \<lfloor>(b - a) / 2\<rfloor> < b - a" by (rule order_le_less_trans)
  with w show ?thesis by (auto simp: gap_midpoint_def max_def)
qed

lemma hd_gap_walk: "length xs = length vs \<Longrightarrow> xs \<noteq> [] \<Longrightarrow>
    gap_walk opts f xs vs \<noteq> [] \<and> hd (gap_walk opts f xs vs) = hd vs"
  by (induction opts f xs vs rule: gap_walk.induct) auto

lemma gap_walk_ge:
  "sorted_wrt (<) xs \<Longrightarrow> wide_gaps opts xs \<Longrightarrow> xs \<noteq> [] \<Longrightarrow>
   \<forall>t \<in> set (gap_walk opts gap_midpoint xs xs). hd xs \<le> t"
proof (induction xs rule: induct_list012)
  case (3 a b xs)
  then have "\<forall>t \<in> set (gap_walk opts gap_midpoint (b # xs) (b # xs)). b \<le> t" by (auto simp: wide_gaps_def)
  moreover have "gapExceedsThreshold (b - a) opts \<Longrightarrow> a < gap_midpoint a b"
    using 3(4) midpoint_between by (auto simp: wide_gaps_def)
  ultimately show ?case using 3(3) by force
qed auto

lemma gap_walk_sorted:
  "sorted_wrt (<) xs \<Longrightarrow> wide_gaps opts xs \<Longrightarrow> sorted_wrt (<) (gap_walk opts gap_midpoint xs xs)"
proof (induction xs rule: induct_list012)
  case (3 a b xs)
  have ge: "\<forall>t \<in> set (gap_walk opts gap_midpoint (b # xs) (b # xs)). b \<le> t"
    using gap_walk_ge [of "b # xs" opts] 3(3,4) by (simp add: wide_gaps_def)
  have "gapExceedsThreshold (b - a) opts \<Longrightarrow> a < gap_midpoint a b \<and> gap_midpoint a b < b"
    using 3(4) midpoint_between by (auto simp: wide_gaps_def)
  moreover have "sorted_wrt (<) (gap_walk opts gap_midpoint (b # xs) (b # xs))"
    using 3 by (simp add: wide_gaps_def)
  moreover have "a < b" using 3(3) by simp
  ultimately show ?case using ge by (auto intro: less_le_trans)
qed auto

text \<open>Dropping the added entries gives the original points; the added ones carry no value.\<close>

lemma gap_walk_points:
  assumes "sorted_wrt (<) xs" "wide_gaps opts xs" "length vs = length xs" "set xs \<subseteq> S"
    and "\<forall>s \<in> S. xs \<noteq> [] \<longrightarrow> s \<in> set xs \<or> s < hd xs"
  shows "filter (\<lambda>p. fst p \<in> S) (gap_walk opts (\<lambda>a b. (gap_midpoint a b, PNull)) xs (zip xs vs)) = zip xs vs
     \<and> (\<forall>p \<in> set (gap_walk opts (\<lambda>a b. (gap_midpoint a b, PNull)) xs (zip xs vs)). fst p \<notin> S \<longrightarrow> snd p = PNull)"
  using assms
proof (induction xs arbitrary: vs rule: induct_list012)
  case (2 a)
  then obtain v where "vs = [v]" by (cases vs) auto
  with 2 show ?case by simp
next
  case (3 a b xs)
  then obtain v w vs' where vs: "vs = v # w # vs'" by (cases vs; cases "tl vs") auto
  have mid: "gap_midpoint a b \<notin> S" if "gapExceedsThreshold (b - a) opts"
  proof
    assume "gap_midpoint a b \<in> S"
    moreover have "a < gap_midpoint a b \<and> gap_midpoint a b < b"
      using that 3(4) midpoint_between by (auto simp: wide_gaps_def)
    moreover have "\<forall>s \<in> set (a # b # xs). s = a \<or> b \<le> s" using 3(3) by auto
    ultimately show False using 3(7) by fastforce
  qed
  have "\<forall>s \<in> S. s \<in> set (b # xs) \<or> s < b" using 3(3,7) by auto
  then have "filter (\<lambda>p. fst p \<in> S) (gap_walk opts (\<lambda>a b. (gap_midpoint a b, PNull)) (b # xs) (zip (b # xs) (w # vs')))
        = zip (b # xs) (w # vs')
     \<and> (\<forall>p \<in> set (gap_walk opts (\<lambda>a b. (gap_midpoint a b, PNull)) (b # xs) (zip (b # xs) (w # vs'))).
          fst p \<notin> S \<longrightarrow> snd p = PNull)"
    using 3 vs by (intro 3(2)) (simp_all add: wide_gaps_def)
  with mid show ?case using 3(6) by (auto simp: vs)
qed simp

lemma gap_walk_broken:
  assumes "sorted_wrt (<) xs" "wide_gaps opts xs" "set xs \<subseteq> S"
    and "\<forall>s \<in> S. xs \<noteq> [] \<longrightarrow> s \<in> set xs \<or> s < hd xs"
  shows "\<forall>(a, b) \<in> set (consecutive (gap_walk opts gap_midpoint xs xs)).
     a \<in> S \<longrightarrow> b \<in> S \<longrightarrow> \<not> gapExceedsThreshold (b - a) opts"
  using assms
proof (induction xs rule: induct_list012)
  case (3 a b xs)
  let ?w = "gap_walk opts gap_midpoint (b # xs) (b # xs)"
  obtain ws where w: "?w = b # ws"
    using hd_gap_walk [of "b # xs" "b # xs" opts gap_midpoint] by (cases ?w) auto
  have mid: "gap_midpoint a b \<notin> S" if "gapExceedsThreshold (b - a) opts"
  proof
    assume "gap_midpoint a b \<in> S"
    moreover have "a < gap_midpoint a b \<and> gap_midpoint a b < b"
      using that 3(4) midpoint_between by (auto simp: wide_gaps_def)
    moreover have "\<forall>s \<in> set (a # b # xs). s = a \<or> b \<le> s" using 3(3) by auto
    ultimately show False using 3(6) by fastforce
  qed
  have "\<forall>s \<in> S. s \<in> set (b # xs) \<or> s < b" using 3(3,6) by auto
  then have "\<forall>(a, b) \<in> set (consecutive ?w). a \<in> S \<longrightarrow> b \<in> S \<longrightarrow> \<not> gapExceedsThreshold (b - a) opts"
    using 3 by (intro 3(2)) (simp_all add: wide_gaps_def)
  with mid show ?case by (auto simp: w)
qed auto

lemma insertion_count_0:
  "insertion_count opts xs = 0 \<Longrightarrow> \<forall>(a, b) \<in> set (consecutive xs). \<not> gapExceedsThreshold (b - a) opts"
  by (induction opts xs rule: insertion_count.induct) (auto split: if_splits)

lemma insert_gaps_cases:
  assumes "aligned d" "ad_series d \<noteq> []" and d': "insertLargeGapNullsIntoAlignedData d opts = d'"
  shows "d' = d \<and> (\<forall>(a, b) \<in> set (consecutive (ad_x d)). \<not> gapExceedsThreshold (b - a) opts)
     \<or> ad_x d' = gap_walk opts gap_midpoint (ad_x d) (ad_x d)
       \<and> ad_series d' = map (gap_walk opts (\<lambda>_ _. PNull) (ad_x d)) (ad_series d)"
proof (cases "length (ad_x d) < 2 \<or> insertion_count opts (ad_x d) = 0")
  case True
  have "consecutive xs = []" if "length xs < 2" for xs :: "rat list"
    using that by (cases xs; cases "tl xs") simp_all
  with True have "\<forall>(a, b) \<in> set (consecutive (ad_x d)). \<not> gapExceedsThreshold (b - a) opts"
    using insertion_count_0 [of opts "ad_x d"] by auto
  with True show ?thesis by (auto simp: d' [symmetric] insertLargeGapNullsIntoAlignedData_def Let_def)
next
  case False
  then show ?thesis
    using assms(1,2) by (auto simp: d' [symmetric] insertLargeGapNullsIntoAlignedData_def Let_def aligned_def column_of_self)
qed

section \<open>Properties\<close>

text \<open>C35: In a chart whose bars are not stacked (or whose legend hides series, where they are not stacked here either)
  every series of a response that has values is drawn on one sorted x axis without repetitions that holds exactly the
  timestamps of all series; at each of them it has the last value the series gives for that timestamp, or a gap when it
  gives none or none that can be drawn.  A series without values has an empty row.\<close>

theorem chart_data_aligned:
  assumes "i < length ss" "\<not> (stacked \<and> hiddenUndefined)"
  shows "let d = getUPlotChartData ss stacked hiddenUndefined in
     sorted (ad_x d) \<and> distinct (ad_x d) \<and> set (ad_x d) = (\<Union>s \<in> set ss. case s of None \<Rightarrow> {} | Some vs \<Rightarrow> fst ` set vs)
     \<and> length (ad_series d) = length ss
     \<and> ad_series d ! i = (case ss ! i of None \<Rightarrow> []
        | Some vs \<Rightarrow> map (\<lambda>t. case map_of (rev vs) t of None \<Rightarrow> PNull | Some v \<Rightarrow> normalizePlotValue (PVString v)) (ad_x d))"
proof (cases "ss ! i")
  case None
  with assms x_axis_sorted x_axis_set show ?thesis
    by (auto simp: getUPlotChartData_def fillMissingXAxisTimestamps_def fill_entry_def Let_def)
next
  case (Some vs)
  then have "fst ` set vs \<subseteq> set (getXAxisTimestamps ss)"
    unfolding x_axis_set using assms(1) nth_mem [of i ss] by force
  with Some assms x_axis_sorted x_axis_set fill_entry_eq [of "getXAxisTimestamps ss" vs] show ?thesis
    by (auto simp: getUPlotChartData_def fillMissingXAxisTimestamps_def Let_def)
qed

theorem chart_data_aligned_witness:
  "ad_series (getUPlotChartData [Some [(2, ''5'')], Some [(1, ''NaN''), (2, ''7.5'')]] False True) ! 0 = [PNull, PNum 5]"
proof -
  have e: "ad_series (getUPlotChartData [Some [(2, ''5'')], Some [(1, ''NaN''), (2, ''7.5'')]] False True) ! 0
     = map (\<lambda>t. case map_of (rev [(2, ''5'')]) t of None \<Rightarrow> PNull | Some v \<Rightarrow> normalizePlotValue (PVString v))
         (ad_x (getUPlotChartData [Some [(2, ''5'')], Some [(1, ''NaN''), (2, ''7.5'')]] False True))"
    using chart_data_aligned [of 0 "[Some [(2, ''5'')], Some [(1, ''NaN''), (2, ''7.5'')]]" False True]
    by (simp add: Let_def)
  show ?thesis unfolding e by code_simp
qed

text \<open>On aligned rows the two stacking routines of the charts compute the same values, apart from the
  gaps of the lowest series, which one keeps and the other draws as zero.\<close>

theorem stacking_routines_agree:
  assumes "\<forall>row \<in> set rows. length row = length xs"
  shows "map (map numeric_value) (getStackedSeries rows)
     = map (map numeric_value) (ad_series (fst (stackSeries \<lparr> ad_x = xs, ad_series = rows \<rparr> (\<lambda>_. False))))"
proof (rule nth_equalityI)
  let ?d = "\<lparr> ad_x = xs, ad_series = rows \<rparr>"
  have s: "length (buildStackedSeries ?d (\<lambda>_. False)) = length rows"
      "\<And>i. i < length rows \<Longrightarrow> buildStackedSeries ?d (\<lambda>_. False) ! i
         = map (\<lambda>p. PNum (\<Sum>row \<leftarrow> drop i rows. numeric_value (row ! p))) [0..<length xs]"
    using stack_loop_spec [OF assms, of "\<lambda>_. False" 1]
    by (simp_all add: buildStackedSeries_loop visible_sum_all)
  show "length (map (map numeric_value) (getStackedSeries rows))
      = length (map (map numeric_value) (ad_series (fst (stackSeries ?d (\<lambda>_. False)))))"
    by (simp add: stackSeries_def s)
  fix i assume "i < length (map (map numeric_value) (getStackedSeries rows))"
  then have i: "i < length rows" by simp
  have "map numeric_value (getStackedSeries rows ! i)
      = map (\<lambda>p. \<Sum>row \<leftarrow> drop i rows. numeric_value (row ! p)) [0..<length xs]"
  proof (cases "xs = []")
    case True
    have "length (getStackedSeries rows ! i) = length (rows ! i)"
      using i arg_cong [OF stacked_row_lengths [of rows], of "\<lambda>l. l ! i"] by simp
    moreover have "length (rows ! i) = 0" using True assms nth_mem [OF i] by auto
    ultimately show ?thesis using True by simp
  next
    case False
    then have len: "length (getStackedSeries rows ! i) = length xs" using stacked_rows [OF assms i, of 0] by simp
    show ?thesis by (rule nth_equalityI) (simp_all add: len stacked_rows [OF assms i])
  qed
  then show "map (map numeric_value) (getStackedSeries rows) ! i
      = map (map numeric_value) (ad_series (fst (stackSeries ?d (\<lambda>_. False)))) ! i"
    using i by (simp add: stackSeries_def s comp_def)
qed

theorem stacking_routines_agree_witness:
  "map (map numeric_value) (getStackedSeries [[PNum 1, PNull], [PNull, PNum 3]])
     = map (map numeric_value) (ad_series (fst (stackSeries \<lparr> ad_x = [1, 2], ad_series = [[PNum 1, PNull], [PNull, PNum 3]] \<rparr>
         (\<lambda>_. False))))"
  by (rule stacking_routines_agree) simp

text \<open>C36: When every gap that exceeds a threshold is wider than one unit, breaking the gaps keeps the x axis
  strictly increasing and every point of every series, adds only empty points, and leaves no two
  neighbouring points of the original data further apart than the threshold.\<close>

theorem gaps_are_broken:
  assumes "aligned d" "sorted_wrt (<) (ad_x d)" "wide_gaps opts (ad_x d)" "i < length (ad_series d)"
    and "insertLargeGapNullsIntoAlignedData d opts = d'"
  shows "sorted_wrt (<) (ad_x d') \<and> aligned d' \<and> length (ad_series d') = length (ad_series d)
     \<and> filter (\<lambda>p. fst p \<in> set (ad_x d)) (zip (ad_x d') (ad_series d' ! i)) = zip (ad_x d) (ad_series d ! i)
     \<and> (\<forall>p \<in> set (zip (ad_x d') (ad_series d' ! i)). fst p \<notin> set (ad_x d) \<longrightarrow> snd p = PNull)
     \<and> (\<forall>(a, b) \<in> set (consecutive (ad_x d')). a \<in> set (ad_x d) \<longrightarrow> b \<in> set (ad_x d)
          \<longrightarrow> \<not> gapExceedsThreshold (b - a) opts)"
proof -
  let ?x = "ad_x d" and ?s = "ad_series d ! i"
  have len: "length ?s = length ?x" using assms(1,4) by (simp add: aligned_def)
  from insert_gaps_cases [OF assms(1) _ assms(5)] assms(4)
  consider "d' = d" "\<forall>(a, b) \<in> set (consecutive ?x). \<not> gapExceedsThreshold (b - a) opts"
    | "ad_x d' = gap_walk opts gap_midpoint ?x ?x" "ad_series d' = map (gap_walk opts (\<lambda>_ _. PNull) ?x) (ad_series d)"
    by fastforce
  then show ?thesis
  proof cases
    case 1
    have "filter (\<lambda>p. fst p \<in> set ?x) (zip ?x ?s) = zip ?x ?s" by (rule filter_True) (auto dest: set_zip_leftD)
    with 1 assms(1,2) show ?thesis by (auto dest: set_zip_leftD)
  next
    case 2
    have col: "ad_series d' ! i = gap_walk opts (\<lambda>_ _. PNull) ?x ?s" using assms(4) by (simp add: 2(2))
    have z: "zip (ad_x d') (ad_series d' ! i) = gap_walk opts (\<lambda>a b. (gap_midpoint a b, PNull)) ?x (zip ?x ?s)"
      unfolding 2(1) col by (rule zip_gap_walk [OF refl len [symmetric]])
    have all: "\<forall>s \<in> set ?x. ?x \<noteq> [] \<longrightarrow> s \<in> set ?x \<or> s < hd ?x" by simp
    have "aligned d'" "length (ad_series d') = length (ad_series d)"
      using assms(1) by (auto simp: aligned_def 2 length_gap_walk)
    moreover note gap_walk_sorted [OF assms(2,3), folded 2(1)]
      gap_walk_points [OF assms(2,3) len subset_refl all, folded z]
      gap_walk_broken [OF assms(2,3) subset_refl all, folded 2(1)]
    ultimately show ?thesis by (elim conjE) (intro conjI; assumption)
  qed
qed

theorem gaps_are_broken_witness:
  "sorted_wrt (<) (ad_x (insertLargeGapNullsIntoAlignedData
     \<lparr> ad_x = [0, 10, 100], ad_series = [[PNum 1, PNum 2, PNum 3]] \<rparr> [SGNum 30]))"
  using gaps_are_broken [OF _ _ _ _ refl, of "\<lparr> ad_x = [0, 10, 100], ad_series = [[PNum 1, PNum 2, PNum 3]] \<rparr>" "[SGNum 30]" 0]
  by (simp add: aligned_def wide_gaps_def gapExceedsThreshold_def)

end
