(* ===== verification/Histogram.thy ===== *)
theory Histogram
  imports ChartData
begin

text \<open>
  Histogram panels, under \<^verbatim>\<open>frontend/src/container/DashboardContainer/visualization/panels\<close>:
  counting values in buckets and merging the tables of several queries
  (\<^verbatim>\<open>utils/histogram.ts\<close>), and the whole preparation of a panel's data
  (\<^verbatim>\<open>HistogramPanel/utils.ts\<close>), with the rounding of \<^verbatim>\<open>frontend/src/utils/round.ts\<close>.  The list of
  bucket sizes comes from a charting package and is the argument \<open>histogramBucketSizes\<close>.
\<close>

section \<open>Rounding\<close>

definition roundHalfUp :: "rat \<Rightarrow> int" where
  "roundHalfUp v = \<lfloor>v + 1 / 2\<rfloor>"

definition incrRoundDn :: "rat \<Rightarrow> rat \<Rightarrow> rat" where
  "incrRoundDn num incr = of_int \<lfloor>num / incr\<rfloor> * incr"

definition incrRoundUp :: "rat \<Rightarrow> rat \<Rightarrow> rat" where
  "incrRoundUp num incr = of_int \<lceil>num / incr\<rceil> * incr"

definition EPSILON :: rat where
  "EPSILON = 1 / 2 ^ 52"

definition roundDecimals :: "rat \<Rightarrow> nat \<Rightarrow> rat" where
  "roundDecimals val dec =
     (if val = of_int \<lfloor>val\<rfloor> then val
      else of_int (math_round (val * 10 ^ dec * (1 + EPSILON))) / 10 ^ dec)"

section \<open>Buckets\<close>

definition bump_bucket :: "rat \<Rightarrow> (rat \<times> nat) list \<Rightarrow> (rat \<times> nat) list" where
  "bump_bucket b bucketMap =
     AList.update b (case map_of bucketMap b of None \<Rightarrow> 1 | Some n \<Rightarrow> Suc n) bucketMap"

definition buildHistogramBuckets :: "rat list \<Rightarrow> (rat \<Rightarrow> rat) \<Rightarrow> bool \<Rightarrow> AlignedData" where
  "buildHistogramBuckets values getBucketForValue sortBuckets =
     (let bucketMap = fold (\<lambda>v. bump_bucket (getBucketForValue v)) values [];
          buckets = (if sortBuckets then sort_key fst bucketMap else bucketMap)
      in \<lparr> ad_x = map fst buckets, ad_series = [map (\<lambda>b. PNum (of_nat (snd b))) buckets] \<rparr>)"

section \<open>Merging tables\<close>

datatype null_mode = NULL_REMOVE | NULL_RETAIN | NULL_EXPAND

definition nullish :: "point \<Rightarrow> bool" where
  "nullish p \<longleftrightarrow> p = PNull \<or> p = PUndefined"

fun expand_left :: "point list \<Rightarrow> nat \<Rightarrow> point list" where
  "expand_left col 0 = col"
| "expand_left col (Suc i) = (if nullish (col ! i) then expand_left (col[i := PNull]) i else col)"

text \<open>The walk to the right also returns the last index it set, \<open>last\<close> if none.\<close>

function expand_right :: "nat \<Rightarrow> point list \<Rightarrow> int \<Rightarrow> nat \<Rightarrow> point list \<times> int" where
  "expand_right n col lst i =
     (if i < n \<and> nullish (col ! i) then expand_right n (col[i := PNull]) (int i) (Suc i) else (col, lst))"
  by pat_completeness auto
termination
  by (relation "measure (\<lambda>(n, col, lst, i). n - i)") auto

declare expand_right.simps [simp del]

definition expand_null :: "nat \<Rightarrow> nat \<Rightarrow> point list \<times> int \<Rightarrow> point list \<times> int" where
  "expand_null n nullIndex = (\<lambda>(col, lastExpandedNullIndex).
     if int nullIndex > lastExpandedNullIndex
     then expand_right n (expand_left col nullIndex) lastExpandedNullIndex (Suc nullIndex)
     else (col, lastExpandedNullIndex))"

definition propagateNullsAcrossNeighbors :: "point list \<Rightarrow> nat list \<Rightarrow> nat \<Rightarrow> point list" where
  "propagateNullsAcrossNeighbors col nullIndices alignedLength =
     fst (fold (expand_null alignedLength) nullIndices (col, - 1))"

definition align_point :: "null_mode \<Rightarrow> rat list \<Rightarrow> rat \<times> point \<Rightarrow> point list \<times> nat list \<Rightarrow> point list \<times> nat list" where
  "align_point mode merged entry = (\<lambda>(col, nullIndices).
     case entry of (t, v) \<Rightarrow>
       if t \<notin> set merged then (col, nullIndices)
       else if v = PNull then
         (if mode = NULL_REMOVE then (col, nullIndices)
          else (col[position t merged := v],
                if mode = NULL_EXPAND then nullIndices @ [position t merged] else nullIndices))
       else (col[position t merged := v], nullIndices))"

definition align_series :: "null_mode \<Rightarrow> rat list \<Rightarrow> rat list \<Rightarrow> point list \<Rightarrow> point list" where
  "align_series mode merged xs vs =
     (case fold (align_point mode merged) (zip xs vs) (replicate (length merged) PUndefined, []) of
        (col, nullIndices) \<Rightarrow> propagateNullsAcrossNeighbors col nullIndices (length merged))"

text \<open>\<open>nullModes\<close> gives the mode of a series by table and index; without it nulls are retained.\<close>

definition mergeAlignedDataTables :: "AlignedData list \<Rightarrow> (nat \<Rightarrow> nat \<Rightarrow> null_mode) option \<Rightarrow> AlignedData" where
  "mergeAlignedDataTables tables nullModes =
     (let merged = sort (set_of_list (concat (map ad_x tables)))
      in \<lparr> ad_x = merged,
           ad_series = concat (map (\<lambda>(ti, table).
               map (\<lambda>(si, s). align_series (case nullModes of None \<Rightarrow> NULL_RETAIN | Some m \<Rightarrow> m ti si) merged (ad_x table) s)
                 (zip [1..<Suc (length (ad_series table))] (ad_series table)))
             (zip [0..<length tables] tables)) \<rparr>)"

definition replaceUndefinedWithNullInAlignedData :: "AlignedData \<Rightarrow> AlignedData" where
  "replaceUndefinedWithNullInAlignedData d =
     d\<lparr> ad_series := map (map (\<lambda>p. if p = PUndefined then PNull else p)) (ad_series d) \<rparr>"

definition prependNullBinToFirstHistogramSeries :: "AlignedData \<Rightarrow> rat \<Rightarrow> AlignedData" where
  "prependNullBinToFirstHistogramSeries d bucketSize =
     (case ad_x d of
        [] \<Rightarrow> d
      | x # xs \<Rightarrow> \<lparr> ad_x = (x - bucketSize) # x # xs, ad_series = map (\<lambda>s. PNull # s) (ad_series d) \<rparr>)"

section \<open>The data of a panel\<close>

text \<open>\<^verbatim>\<open>Number.parseFloat(s) || 0\<close>; \<open>None\<close> is an infinite value, for which the panel is not modelled.\<close>

definition numeric_or_zero :: "string \<Rightarrow> rat option" where
  "numeric_or_zero s = (case parseFloat s of JNum q \<Rightarrow> Some q | JNaN \<Rightarrow> Some 0 | JInf _ \<Rightarrow> None)"

fun parse_values :: "(rat \<times> string) list \<Rightarrow> rat list option" where
  "parse_values [] = Some []"
| "parse_values ((t, s) # vs) =
     (case (numeric_or_zero s, parse_values vs) of (Some q, Some qs) \<Rightarrow> Some (q # qs) | _ \<Rightarrow> None)"

fun parse_result :: "(rat \<times> string) list list \<Rightarrow> rat list list option" where
  "parse_result [] = Some []"
| "parse_result (vs # items) =
     (case (parse_values vs, parse_result items) of (Some q, Some qs) \<Rightarrow> Some (q # qs) | _ \<Rightarrow> None)"

definition extractNumericValues :: "rat list list \<Rightarrow> rat list" where
  "extractNumericValues parsed = concat parsed"

fun positive_deltas :: "rat list \<Rightarrow> rat list" where
  "positive_deltas (a # b # xs) = (if b - a > 0 then [b - a] else []) @ positive_deltas (b # xs)"
| "positive_deltas _ = []"

definition computeSmallestDelta :: "rat list \<Rightarrow> rat" where
  "computeSmallestDelta sortedValues =
     (case positive_deltas sortedValues of [] \<Rightarrow> 0 | d # ds \<Rightarrow> fold min ds d)"

definition selectBucketSize :: "rat list \<Rightarrow> rat \<Rightarrow> nat \<Rightarrow> rat \<Rightarrow> rat option \<Rightarrow> rat" where
  "selectBucketSize histogramBucketSizes rnge bucketCount smallestDelta bucketWidthOverride =
     (if (case bucketWidthOverride of None \<Rightarrow> False | Some w \<Rightarrow> w > 0) then the bucketWidthOverride
      else case find (\<lambda>candidate. rnge / of_nat bucketCount < candidate \<and> candidate \<ge> smallestDelta) histogramBucketSizes of
        Some candidate \<Rightarrow> candidate
      | None \<Rightarrow> 0)"

definition buildFrames :: "rat list list \<Rightarrow> bool \<Rightarrow> rat list list" where
  "buildFrames parsed mergeAllActiveQueries =
     (if mergeAllActiveQueries \<and> length parsed > 1
      then concat parsed # replicate (length parsed - 1) [] else parsed)"

definition histogram_bucket_size :: "rat list \<Rightarrow> rat list \<Rightarrow> rat option \<Rightarrow> nat \<Rightarrow> rat" where
  "histogram_bucket_size histogramBucketSizes values bucketWidth bucketCount =
     (let sortedValues = sort values;
          rnge = last sortedValues - hd sortedValues;
          size = selectBucketSize histogramBucketSizes rnge bucketCount (computeSmallestDelta sortedValues) bucketWidth
      in if size \<le> 0 then (if rnge > 0 then rnge / of_nat bucketCount else 1) else size)"

definition histogram_bucket :: "rat \<Rightarrow> rat \<Rightarrow> rat" where
  "histogram_bucket bucketSize v = roundDecimals (incrRoundDn v bucketSize) 9"

definition prepareHistogramPanelData :: "rat list \<Rightarrow> (rat \<times> string) list list \<Rightarrow> rat option \<Rightarrow> nat \<Rightarrow> bool \<Rightarrow>
    AlignedData option" where
  "prepareHistogramPanelData histogramBucketSizes result bucketWidth bucketCount mergeAllActiveQueries =
     (case parse_result result of
        None \<Rightarrow> None
      | Some parsed \<Rightarrow>
          let seriesValues = extractNumericValues parsed in
          if seriesValues = [] then Some \<lparr> ad_x = [], ad_series = [] \<rparr>
          else
            let bucketSize = histogram_bucket_size histogramBucketSizes seriesValues bucketWidth bucketCount;
                frames = filter (\<lambda>frame. frame \<noteq> []) (buildFrames parsed mergeAllActiveQueries);
                tables = map (\<lambda>frame. buildHistogramBuckets frame (histogram_bucket bucketSize) True) frames
            in if tables = [] then Some \<lparr> ad_x = [], ad_series = [] \<rparr>
               else Some (prependNullBinToFirstHistogramSeries
                 (replaceUndefinedWithNullInAlignedData (mergeAlignedDataTables tables None)) bucketSize))"

section \<open>Lemmas\<close>

lemma map_of_bump: "map_of (bump_bucket b al) k
    = (if k = b then Some (case map_of al b of None \<Rightarrow> 1 | Some n \<Rightarrow> Suc n) else map_of al k)"
  by (simp add: bump_bucket_def AList.update_conv')

lemma fold_bump:
  "map_of (fold (\<lambda>v. bump_bucket (f v)) vs al) k =
     (case map_of al k of
        None \<Rightarrow> if k \<in> f ` set vs then Some (length (filter (\<lambda>v. f v = k) vs)) else None
      | Some n \<Rightarrow> Some (n + length (filter (\<lambda>v. f v = k) vs)))"
proof (induction vs arbitrary: al)
  case (Cons v vs)
  show ?case unfolding fold_simps comp_def Cons.IH map_of_bump
    by (auto split: option.splits simp: filter_empty_conv)
qed (simp split: option.splits)

lemma distinct_fold_bump:
  "distinct (map fst al) \<Longrightarrow> distinct (map fst (fold (\<lambda>v. bump_bucket (f v)) vs al))"
  by (induction vs arbitrary: al) (auto simp: bump_bucket_def AList.distinct_update)

lemma map_of_sort_key:
  "distinct (map fst al) \<Longrightarrow> map_of (sort_key fst al) = map_of al"
proof -
  assume d: "distinct (map fst al)"
  have "mset (map fst (sort_key fst al)) = mset (map fst al)" by (simp add: mset_map)
  then have "distinct (map fst (sort_key fst al))" using d by (metis mset_eq_imp_distinct_iff)
  with d show ?thesis by (intro map_of_eqI) (auto simp: fun_eq_iff)
qed

lemma buckets_spec:
  fixes f :: "rat \<Rightarrow> rat"
  assumes "buildHistogramBuckets vs f True = d"
  shows "sorted (ad_x d)" "distinct (ad_x d)" "set (ad_x d) = f ` set vs" "aligned d" "length (ad_series d) = 1"
    and "ad_series d ! 0 = map (\<lambda>b. PNum (of_nat (length (filter (\<lambda>v. f v = b) vs)))) (ad_x d)"
proof -
  let ?al = "fold (\<lambda>v. bump_bucket (f v)) vs []" let ?bs = "sort_key fst ?al"
  have dist: "distinct (map fst ?al)" by (rule distinct_fold_bump) simp
  have "mset (map fst ?bs) = mset (map fst ?al)" by (simp add: mset_map)
  then have dist': "distinct (map fst ?bs)" "set (map fst ?bs) = set (map fst ?al)"
    using dist by (metis mset_eq_imp_distinct_iff, metis mset_eq_setD)
  have get: "map_of ?al k = (if k \<in> f ` set vs then Some (length (filter (\<lambda>v. f v = k) vs)) else None)" for k
    by (simp add: fold_bump)
  have d: "d = \<lparr> ad_x = map fst ?bs, ad_series = [map (\<lambda>b. PNum (of_nat (snd b))) ?bs] \<rparr>"
    using assms by (simp add: buildHistogramBuckets_def Let_def)
  show "sorted (ad_x d)" "distinct (ad_x d)" "aligned d" "length (ad_series d) = 1"
    using dist' by (simp_all add: d aligned_def)
  have "set (map fst ?al) = f ` set vs"
  proof -
    have "k \<in> set (map fst ?al) \<longleftrightarrow> k \<in> f ` set vs" for k
      using get [of k] map_of_eq_None_iff [of ?al k] by (simp split: if_splits)
    then show ?thesis by blast
  qed
  with dist' show "set (ad_x d) = f ` set vs" by (simp add: d)
  have "snd b = length (filter (\<lambda>v. f v = fst b) vs)" if "b \<in> set ?bs" for b
  proof -
    have "map_of ?al (fst b) = Some (snd b)" using that dist by (simp add: map_of_eq_Some_iff)
    then show ?thesis unfolding get by (simp split: if_splits)
  qed
  then show "ad_series d ! 0 = map (\<lambda>b. PNum (of_nat (length (filter (\<lambda>v. f v = b) vs)))) (ad_x d)"
    by (simp add: d)
qed

lemma position_less: "t \<in> set m \<Longrightarrow> position t m < length m"
  by (induction m) (auto simp: position_def)

lemma nth_position: "t \<in> set m \<Longrightarrow> m ! position t m = t"
  by (induction m) (auto simp: position_def)

lemma map_update_position:
  "distinct m \<Longrightarrow> t \<in> set m \<Longrightarrow> (map f m)[position t m := v] = map (f(t := v)) m"
  by (induction m) (auto simp: position_def)

text \<open>Without expansion, aligning a column keeps the values it has and leaves the rest undefined.\<close>

lemma align_points:
  assumes "distinct m" "set (map fst ps) \<subseteq> set m" "mode = NULL_RETAIN"
  shows "fold (align_point mode m) ps (map f m, ns) =
     (map (\<lambda>t. case map_of (rev ps) t of None \<Rightarrow> f t | Some v \<Rightarrow> v) m, ns)"
  using assms(2)
proof (induction ps arbitrary: f)
  case (Cons p ps)
  obtain t v where p: "p = (t, v)" by fastforce
  have "align_point mode m p (map f m, ns) = (map (f(t := v)) m, ns)"
    using Cons.prems assms(1,3) by (simp add: align_point_def p map_update_position)
  with Cons show ?case by (auto simp: p map_add_def split: option.splits)
qed simp

lemma align_series_eq:
  assumes "distinct m" "set xs \<subseteq> set m" "length vs = length xs" "distinct xs"
  shows "align_series NULL_RETAIN m xs vs =
     map (\<lambda>t. case map_of (zip xs vs) t of None \<Rightarrow> PUndefined | Some v \<Rightarrow> v) m"
proof -
  have "set (map fst (zip xs vs)) \<subseteq> set m" using assms(2,3) by simp
  note a = align_points [OF assms(1) this refl, of "\<lambda>_. PUndefined" "[]"]
  have r: "replicate (length m) PUndefined = map (\<lambda>_. PUndefined) m" by (simp add: map_replicate_const)
  have "map_of (rev (zip xs vs)) = map_of (zip xs vs)"
    using assms(3,4) by (intro map_of_rev_distinct) simp
  then show ?thesis by (simp add: align_series_def r a propagateNullsAcrossNeighbors_def)
qed

text \<open>The counts of an aligned column add up to the counts of the series.\<close>

definition column_total :: "point list \<Rightarrow> rat" where
  "column_total col = (\<Sum>p \<leftarrow> col. numeric_value p)"

lemma column_total_lookup:
  assumes "distinct m" "set xs \<subseteq> set m" "length vs = length xs" "distinct xs"
  shows "column_total (map (\<lambda>t. case map_of (zip xs vs) t of None \<Rightarrow> PUndefined | Some v \<Rightarrow> v) m) = column_total vs"
proof -
  let ?g = "\<lambda>t. numeric_value (case map_of (zip xs vs) t of None \<Rightarrow> PUndefined | Some v \<Rightarrow> v)"
  have "(\<Sum>t \<leftarrow> m. ?g t) = (\<Sum>t \<in> set m. ?g t)" using assms(1) by (rule sum_list_distinct_conv_sum_set)
  also have "\<dots> = (\<Sum>t \<in> set xs. ?g t)"
  proof (rule sum.mono_neutral_right)
    show "\<forall>t \<in> set m - set xs. ?g t = 0"
      using assms(3) by (auto split: option.splits dest: map_of_SomeD set_zip_leftD)
  qed (use assms(2) in auto)
  also have "\<dots> = (\<Sum>t \<leftarrow> xs. ?g t)" using assms(4) by (simp add: sum_list_distinct_conv_sum_set)
  also have "map ?g xs = map numeric_value vs"
    by (rule nth_equalityI) (use assms(3,4) in \<open>auto simp: map_of_zip_nth\<close>)
  finally show ?thesis by (simp add: column_total_def comp_def)
qed

lemma sum_lengths_partition:
  "distinct bs \<Longrightarrow> f ` set vs \<subseteq> set bs \<Longrightarrow>
   (\<Sum>b \<leftarrow> bs. rat_of_nat (length (filter (\<lambda>v. f v = b) vs))) = of_nat (length vs)"
proof (induction vs)
  case (Cons v vs)
  have "(\<Sum>b \<leftarrow> bs. rat_of_nat (length (filter (\<lambda>w. f w = b) (v # vs))))
      = (\<Sum>b \<leftarrow> bs. (if b = f v then 1 else 0) + rat_of_nat (length (filter (\<lambda>w. f w = b) vs)))"
    by (rule arg_cong [of _ _ sum_list], rule map_cong) auto
  also have "\<dots> = (\<Sum>b \<leftarrow> bs. if b = f v then 1 else 0) + of_nat (length vs)"
    using Cons by (simp add: sum_list_addf)
  also have "(\<Sum>b \<leftarrow> bs. if b = f v then 1 else 0) = (1 :: rat)"
    using Cons.prems by (simp add: sum_list_distinct_conv_sum_set sum.delta')
  finally show ?case by simp
qed (simp add: sum_list_0)

lemma buckets_total:
  assumes "buildHistogramBuckets vs f True = d"
  shows "column_total (ad_series d ! 0) = of_nat (length vs)"
  using sum_lengths_partition [of "ad_x d" f vs] buckets_spec [OF assms]
  by (simp add: column_total_def comp_def)

lemma replace_total [simp]: "column_total (map (\<lambda>p. if p = PUndefined then PNull else p) col) = column_total col"
  by (induction col) (auto simp: column_total_def)

section \<open>Merging\<close>

text \<open>A merge of tables with one series each.\<close>

lemma map_numbered:
  "map (\<lambda>(i, s). g s) (zip [1..<Suc (length ss)] ss) = map g ss"
  "map (\<lambda>(i, s). g s) (zip [0..<length ss] ss) = map g ss"
  by (rule nth_equalityI; auto simp del: upt_Suc)+

lemma concat_single:
  "\<forall>t \<in> set ts. length (ad_series t) = 1 \<Longrightarrow>
   concat (map (\<lambda>t. map (g t) (ad_series t)) ts) = map (\<lambda>t. g t (ad_series t ! 0)) ts"
  by (induction ts) (auto simp: length_Suc_conv)

lemma merge_single:
  assumes "\<forall>t \<in> set tables. length (ad_series t) = 1"
  defines "m \<equiv> sort (set_of_list (concat (map ad_x tables)))"
  shows "mergeAlignedDataTables tables None =
     \<lparr> ad_x = m, ad_series = map (\<lambda>t. align_series NULL_RETAIN m (ad_x t) (ad_series t ! 0)) tables \<rparr>"
  using concat_single [OF assms(1), of "\<lambda>t. align_series NULL_RETAIN m (ad_x t)"]
  by (simp only: mergeAlignedDataTables_def Let_def option.case map_numbered m_def)

lemma panel_defined:
  "parse_result result = Some parsed \<Longrightarrow> \<exists>d. prepareHistogramPanelData sizes result width n mergeAll = Some d"
  by (auto simp: prepareHistogramPanelData_def Let_def)

section \<open>Properties\<close>

text \<open>The buckets of a histogram are sorted and distinct, are exactly those of the values, and each one
  counts the values that fall into it, so that the counts add up to the number of values.\<close>

theorem histogram_buckets_count:
  fixes getBucket :: "rat \<Rightarrow> rat"
  assumes "buildHistogramBuckets vs getBucket True = d"
  shows "sorted (ad_x d) \<and> distinct (ad_x d) \<and> set (ad_x d) = getBucket ` set vs
     \<and> ad_series d = [map (\<lambda>b. PNum (of_nat (length (filter (\<lambda>v. getBucket v = b) vs)))) (ad_x d)]
     \<and> column_total (ad_series d ! 0) = of_nat (length vs)"
  using buckets_spec [OF assms] buckets_total [OF assms] by (auto simp: length_Suc_conv)

theorem histogram_buckets_count_witness:
  "column_total (ad_series (buildHistogramBuckets [1, 5, 2] (\<lambda>v. incrRoundDn v 4) True) ! 0) = 3"
proof -
  have "column_total (ad_series (buildHistogramBuckets [1, 5, 2] (\<lambda>v. incrRoundDn v 4) True) ! 0)
      = of_nat (length [1, 5, 2 :: rat])"
    using histogram_buckets_count [OF refl, of "[1, 5, 2]" "\<lambda>v. incrRoundDn v 4"] by blast
  then show ?thesis by simp
qed

text \<open>C37: The data of a histogram panel has one series for every frame with values, on a common x axis,
  and the counts of each series add up to the number of its values.\<close>

theorem histogram_panel_totals:
  assumes "prepareHistogramPanelData sizes result width n mergeAll = Some d"
    and "parse_result result = Some parsed"
  shows "aligned d \<and> map column_total (ad_series d)
     = map (\<lambda>frame. of_nat (length frame)) (filter (\<lambda>frame. frame \<noteq> []) (buildFrames parsed mergeAll))"
proof (cases "concat parsed = []")
  case True
  then have "\<forall>frame \<in> set (buildFrames parsed mergeAll). frame = []" by (auto simp: buildFrames_def)
  then have "filter (\<lambda>frame. frame \<noteq> []) (buildFrames parsed mergeAll) = []" by (simp add: filter_empty_conv)
  with True assms show ?thesis
    by (auto simp: prepareHistogramPanelData_def extractNumericValues_def aligned_def)
next
  case False
  define size where "size = histogram_bucket_size sizes (concat parsed) width n"
  define frames where "frames = filter (\<lambda>frame. frame \<noteq> []) (buildFrames parsed mergeAll)"
  define tables where "tables = map (\<lambda>frame. buildHistogramBuckets frame (histogram_bucket size) True) frames"
  define m where "m = sort (set_of_list (concat (map ad_x tables)))"
  have one: "\<forall>t \<in> set tables. length (ad_series t) = 1" using buckets_spec(5) by (auto simp: tables_def)
  have dm: "distinct m" by (simp add: m_def)
  have col: "align_series NULL_RETAIN m (ad_x t) (ad_series t ! 0)
      = map (\<lambda>x. case map_of (zip (ad_x t) (ad_series t ! 0)) x of None \<Rightarrow> PUndefined | Some v \<Rightarrow> v) m"
    "column_total (align_series NULL_RETAIN m (ad_x t) (ad_series t ! 0)) = column_total (ad_series t ! 0)"
    if t: "t \<in> set tables" for t
  proof -
    obtain frame where "t = buildHistogramBuckets frame (histogram_bucket size) True"
      using t by (auto simp: tables_def)
    note b = buckets_spec [OF this [symmetric]]
    have sub: "set (ad_x t) \<subseteq> set m" using t by (auto simp: m_def)
    have len: "length (ad_series t ! 0) = length (ad_x t)" using b(4,5) by (simp add: aligned_def)
    show e: "align_series NULL_RETAIN m (ad_x t) (ad_series t ! 0)
      = map (\<lambda>x. case map_of (zip (ad_x t) (ad_series t ! 0)) x of None \<Rightarrow> PUndefined | Some v \<Rightarrow> v) m"
      by (rule align_series_eq [OF dm sub len b(2)])
    show "column_total (align_series NULL_RETAIN m (ad_x t) (ad_series t ! 0)) = column_total (ad_series t ! 0)"
      unfolding e by (rule column_total_lookup [OF dm sub len b(2)])
  qed
  let ?merged = "replaceUndefinedWithNullInAlignedData (mergeAlignedDataTables tables None)"
  have len: "aligned ?merged" unfolding merge_single [OF one, folded m_def] replaceUndefinedWithNullInAlignedData_def
    using col(1) by (auto simp: aligned_def)
  have tot: "map column_total (ad_series ?merged) = map (\<lambda>frame. of_nat (length frame)) frames"
    unfolding merge_single [OF one, folded m_def] replaceUndefinedWithNullInAlignedData_def
    using col(2) buckets_total [OF refl] by (simp add: tables_def comp_def)
  have pre: "aligned (prependNullBinToFirstHistogramSeries D size) \<and>
      map column_total (ad_series (prependNullBinToFirstHistogramSeries D size)) = map column_total (ad_series D)"
    if "aligned D" for D
    using that by (auto simp: prependNullBinToFirstHistogramSeries_def aligned_def column_total_def split: list.splits)
  show ?thesis
    using assms False len tot pre [OF len]
    by (auto simp: prepareHistogramPanelData_def extractNumericValues_def Let_def size_def [symmetric]
        frames_def [symmetric] tables_def [symmetric] aligned_def split: if_splits)
qed

theorem histogram_panel_totals_witness:
  "\<exists>d. prepareHistogramPanelData [1, 2, 5] [[(0, ''1''), (1, ''3.5'')], [(0, ''2'')]] None 30 False = Some d
     \<and> map column_total (ad_series d) = [2, 1]"
proof -
  have p: "parse_result [[(0, ''1''), (1, ''3.5'')], [(0, ''2'')]] = Some [[1, 7 / 2], [2]]" by code_simp
  from panel_defined [OF p] obtain d
    where "prepareHistogramPanelData [1, 2, 5] [[(0, ''1''), (1, ''3.5'')], [(0, ''2'')]] None 30 False = Some d"
    by blast
  with histogram_panel_totals [OF this p] show ?thesis by (simp add: buildFrames_def)
qed

end
