(* ===== verification/UnitTables.thy ===== *)
theory UnitTables
  imports Prelude Complex_Main
begin

text \<open>
  The tables of the units of an axis: the enumeration \<^verbatim>\<open>UniversalYAxisUnit\<close> with its values
  (\<^verbatim>\<open>frontend/src/components/YAxisUnitSelector/types.ts\<close>), the names other vendors give to the units, the
  formats of the charting package, the short labels and the families that are scaled by hand
  (\<^verbatim>\<open>constants.ts\<close>), and the factors of \<^verbatim>\<open>frontend/src/lib/getConvertedValue.ts\<close>.  A string enumeration
  is its list of values, an object literal a list of pairs.  Three special units whose names
  contain a Greek letter beyond U+00FF are left out; they have no factor and their format is their
  name.  The display labels of the factor table are left out.
\<close>

definition BIT_FACTOR :: rat where
  "BIT_FACTOR = 1 / 8"

definition DECIMAL_FACTOR :: rat where
  "DECIMAL_FACTOR = 1000"

definition BINARY_FACTOR :: rat where
  "BINARY_FACTOR = 1024"

definition common_units :: "string list" where
  "common_units =
    [''d'', ''h'', ''min'', ''s'', ''us'', ''ms'', ''ns'', ''dtdurationms'', ''dtdurations'',
     ''dthms'', ''dtdhms'', ''timeticks'', ''clockms'', ''clocks'', ''hertz'', ''By'', ''kBy'',
     ''MBy'', ''GBy'', ''TBy'', ''PBy'', ''EBy'', ''ZBy'', ''YBy'', ''bytes'', ''KiBy'',
     ''MiBy'', ''GiBy'', ''TiBy'', ''PiBy'', ''EiBy'', ''ZiBy'', ''YiBy'', ''By/s'', ''kBy/s'',
     ''MBy/s'', ''GBy/s'', ''TBy/s'', ''PBy/s'', ''EBy/s'', ''ZBy/s'', ''YBy/s'', ''pps'',
     ''KiBy/s'', ''MiBy/s'', ''GiBy/s'', ''TiBy/s'', ''PiBy/s'', ''EiBy/s'', ''ZiBy/s'',
     ''YiBy/s'', ''bit'', ''bits'', ''kbit'', ''Mbit'', ''Gbit'', ''Tbit'', ''Pbit'', ''Ebit'',
     ''Zbit'', ''Ybit'', ''bit/s'', ''kbit/s'', ''Mbit/s'', ''Gbit/s'', ''Tbit/s'', ''Pbit/s'',
     ''Ebit/s'', ''Zbit/s'', ''Ybit/s'', ''Kibit/s'', ''Mibit/s'', ''Gibit/s'', ''Tibit/s'',
     ''Pibit/s'', ''Eibit/s'', ''Zibit/s'', ''Yibit/s'', ''{count}'', ''{count}/s'',
     ''{count}/min'', ''{ops}/s'', ''{ops}/min'', ''{req}/s'', ''{req}/min'', ''{read}/s'',
     ''{write}/s'', ''{read}/min'', ''{write}/min'', ''{iops}/s'', ''%'', ''percentunit'',
     ''{bool}'', ''{bool_yn}'', ''bool_on_off'', ''1'']"

definition special_units :: "string list" where
  "special_units =
    [''Hs'', ''KHs'', ''MHs'', ''GHs'', ''THs'', ''PHs'', ''EHs'', ''string'', ''short'',
     ''humidity'', ''dB'', ''hex'', ''hex0x'', ''sci'', ''locale'', ''pixel'', ''accMS2'',
     ''accFS2'', ''accG'', ''degree'', ''radian'', ''grad'', ''arcmin'', ''arcsec'', ''areaM2'',
     ''areaF2'', ''areaMI2'', ''flops'', ''mflops'', ''gflops'', ''tflops'', ''pflops'',
     ''eflops'', ''zflops'', ''yflops'', ''ppm'', ''conppb'', ''conngm3'', ''conngNm3'',
     ''conmgm3'', ''conmgNm3'', ''congm3'', ''congNm3'', ''conmgdL'', ''conmmolL'',
     ''currencyUSD'', ''currencyGBP'', ''currencyEUR'', ''currencyJPY'', ''currencyRUB'',
     ''currencyUAH'', ''currencyBRL'', ''currencyDKK'', ''currencyISK'', ''currencyNOK'',
     ''currencySEK'', ''currencyCZK'', ''currencyCHF'', ''currencyPLN'', ''currencyBTC'',
     ''currencymBTC'', ''currencyZAR'', ''currencyINR'', ''currencyKRW'', ''currencyIDR'',
     ''currencyPHP'', ''currencyVND'', ''dateTimeAsIso'', ''dateTimeAsIsoNoDateIfToday'',
     ''dateTimeAsUS'', ''dateTimeAsUSNoDateIfToday'', ''dateTimeAsLocal'',
     ''dateTimeAsLocalNoDateIfToday'', ''dateTimeAsSystem'', ''dateTimeFromNow'']"

definition physical_units :: "string list" where
  "physical_units =
    [''watt'', ''kwatt'', ''megwatt'', ''gwatt'', ''mwatt'', ''Wm2'', ''voltamp'', ''kvoltamp'',
     ''voltampreact'', ''kvoltampreact'', ''watth'', ''watthperkg'', ''kwatth'', ''kwattm'',
     ''amph'', ''kamph'', ''mamph'', ''joule'', ''ev'', ''amp'', ''kamp'', ''mamp'', ''volt'',
     ''kvolt'', ''mvolt'', ''dBm'', ''ohm'', ''kohm'', ''Mohm'', ''farad'',
     [CHR 0xB5, CHR ''f'', CHR ''a'', CHR ''r'', CHR ''a'', CHR ''d''], ''nfarad'', ''pfarad'',
     ''ffarad'', ''henry'', ''mhenry'',
     [CHR 0xB5, CHR ''h'', CHR ''e'', CHR ''n'', CHR ''r'', CHR ''y''], ''lumens'', ''flowgpm'',
     ''flowcms'', ''flowcfs'', ''flowcfm'', ''litreh'', ''flowlpm'', ''flowmlpm'', ''lux'',
     ''forceNm'', ''forcekNm'', ''forceN'', ''forcekN'', ''massmg'', ''massg'', ''masslb'',
     ''masskg'', ''masst'', ''lengthmm'', ''lengthin'', ''lengthft'', ''lengthm'', ''lengthkm'',
     ''lengthmi'', ''pressurembar'', ''pressurebar'', ''pressurekbar'', ''pressurepa'',
     ''pressurehpa'', ''pressurekpa'', ''pressurehg'', ''pressurepsi'', ''radbq'', ''radci'',
     ''radgy'', ''radrad'', ''radsv'', ''radmsv'', ''radusv'', ''radrem'', ''radexpckg'',
     ''radr'', ''radsvh'', ''radmsvh'', ''radusvh'', ''rotrpm'', ''rothz'', ''rotrads'',
     ''rotdegs'', ''celsius'', ''fahrenheit'', ''kelvin'', ''velocityms'', ''velocitykmh'',
     ''velocitymph'', ''velocityknot'', ''mlitre'', ''litre'', ''m3'', ''Nm3'', ''dm3'',
     ''gallons'']"

definition common_formats :: "(string \<times> string) list" where
  "common_formats =
    [(''d'', ''d''), (''h'', ''h''), (''min'', ''m''), (''s'', ''s''), (''ms'', ''ms''),
     (''us'', [CHR 0xB5, CHR ''s'']), (''ns'', ''ns''), (''dtdurationms'', ''dtdurationms''),
     (''dtdurations'', ''dtdurations''), (''dthms'', ''dthms''), (''dtdhms'', ''dtdhms''),
     (''timeticks'', ''timeticks''), (''clockms'', ''clockms''), (''clocks'', ''clocks''),
     (''hertz'', ''hertz''), (''By'', ''decbytes''), (''kBy'', ''deckbytes''),
     (''MBy'', ''decmbytes''), (''GBy'', ''decgbytes''), (''TBy'', ''dectbytes''),
     (''PBy'', ''decpbytes''), (''bytes'', ''bytes''), (''KiBy'', ''kbytes''),
     (''MiBy'', ''mbytes''), (''GiBy'', ''gbytes''), (''TiBy'', ''tbytes''),
     (''PiBy'', ''pbytes''), (''By/s'', ''Bps''), (''kBy/s'', ''KBs''), (''MBy/s'', ''MBs''),
     (''GBy/s'', ''GBs''), (''TBy/s'', ''TBs''), (''PBy/s'', ''PBs''), (''pps'', ''pps''),
     (''KiBy/s'', ''KiBs''), (''MiBy/s'', ''MiBs''), (''GiBy/s'', ''GiBs''),
     (''TiBy/s'', ''TiBs''), (''PiBy/s'', ''PiBs''), (''bit'', ''decbits''),
     (''bits'', ''bits''), (''bit/s'', ''bps''), (''kbit/s'', ''Kbits''),
     (''Mbit/s'', ''Mbits''), (''Gbit/s'', ''Gbits''), (''Tbit/s'', ''Tbits''),
     (''Pbit/s'', ''Pbits''), (''Kibit/s'', ''Kibits''), (''Mibit/s'', ''Mibits''),
     (''Gibit/s'', ''Gibits''), (''Tibit/s'', ''Tibits''), (''Pibit/s'', ''Pibits''),
     (''{count}'', ''short''), (''{count}/s'', ''cps''), (''{count}/min'', ''cpm''),
     (''{ops}/s'', ''ops''), (''{ops}/min'', ''opm''), (''{req}/s'', ''reqps''),
     (''{req}/min'', ''reqpm''), (''{read}/s'', ''rps''), (''{write}/s'', ''wps''),
     (''{read}/min'', ''rpm''), (''{write}/min'', ''wpm''), (''{iops}/s'', ''iops''),
     (''%'', ''percent''), (''percentunit'', ''percentunit''), (''{bool}'', ''bool''),
     (''{bool_yn}'', ''bool_yes_no''), (''bool_on_off'', ''bool_on_off''), (''1'', ''none'')]"

definition special_formats :: "(string \<times> string) list" where
  "special_formats =
    [(''Hs'', ''Hs''), (''KHs'', ''KHs''), (''MHs'', ''MHs''), (''GHs'', ''GHs''),
     (''THs'', ''THs''), (''PHs'', ''PHs''), (''EHs'', ''EHs''), (''string'', ''string''),
     (''short'', ''short''), (''humidity'', ''humidity''), (''dB'', ''dB''), (''hex'', ''hex''),
     (''hex0x'', ''hex0x''), (''sci'', ''sci''), (''locale'', ''locale''),
     (''pixel'', ''pixel''), (''accMS2'', ''accMS2''), (''accFS2'', ''accFS2''),
     (''accG'', ''accG''), (''degree'', ''degree''), (''radian'', ''radian''),
     (''grad'', ''grad''), (''arcmin'', ''arcmin''), (''arcsec'', ''arcsec''),
     (''areaM2'', ''areaM2''), (''areaF2'', ''areaF2''), (''areaMI2'', ''areaMI2''),
     (''flops'', ''flops''), (''mflops'', ''mflops''), (''gflops'', ''gflops''),
     (''tflops'', ''tflops''), (''pflops'', ''pflops''), (''eflops'', ''eflops''),
     (''zflops'', ''zflops''), (''yflops'', ''yflops''), (''ppm'', ''ppm''),
     (''conppb'', ''conppb''), (''conngm3'', ''conngm3''), (''conngNm3'', ''conngNm3''),
     (''conmgm3'', ''conmgm3''), (''conmgNm3'', ''conmgNm3''), (''congm3'', ''congm3''),
     (''congNm3'', ''congNm3''), (''conmgdL'', ''conmgdL''), (''conmmolL'', ''conmmolL''),
     (''currencyUSD'', ''currencyUSD''), (''currencyGBP'', ''currencyGBP''),
     (''currencyEUR'', ''currencyEUR''), (''currencyJPY'', ''currencyJPY''),
     (''currencyRUB'', ''currencyRUB''), (''currencyUAH'', ''currencyUAH''),
     (''currencyBRL'', ''currencyBRL''), (''currencyDKK'', ''currencyDKK''),
     (''currencyISK'', ''currencyISK''), (''currencyNOK'', ''currencyNOK''),
     (''currencySEK'', ''currencySEK''), (''currencyCZK'', ''currencyCZK''),
     (''currencyCHF'', ''currencyCHF''), (''currencyPLN'', ''currencyPLN''),
     (''currencyBTC'', ''currencyBTC''), (''currencymBTC'', ''currencymBTC''),
     (''currencyZAR'', ''currencyZAR''), (''currencyINR'', ''currencyINR''),
     (''currencyKRW'', ''currencyKRW''), (''currencyIDR'', ''currencyIDR''),
     (''currencyPHP'', ''currencyPHP''), (''currencyVND'', ''currencyVND''),
     (''dateTimeAsIso'', ''dateTimeAsIso''),
     (''dateTimeAsIsoNoDateIfToday'', ''dateTimeAsIsoNoDateIfToday''),
     (''dateTimeAsUS'', ''dateTimeAsUS''),
     (''dateTimeAsUSNoDateIfToday'', ''dateTimeAsUSNoDateIfToday''),
     (''dateTimeAsLocal'', ''dateTimeAsLocal''),
     (''dateTimeAsLocalNoDateIfToday'', ''dateTimeAsLocalNoDateIfToday''),
     (''dateTimeAsSystem'', ''dateTimeAsSystem''), (''dateTimeFromNow'', ''dateTimeFromNow'')]"

definition physical_formats :: "(string \<times> string) list" where
  "physical_formats =
    [(''watt'', ''watt''), (''kwatt'', ''kwatt''), (''megwatt'', ''megwatt''),
     (''gwatt'', ''gwatt''), (''mwatt'', ''mwatt''), (''Wm2'', ''Wm2''),
     (''voltamp'', ''voltamp''), (''kvoltamp'', ''kvoltamp''),
     (''voltampreact'', ''voltampreact''), (''kvoltampreact'', ''kvoltampreact''),
     (''watth'', ''watth''), (''watthperkg'', ''watthperkg''), (''kwatth'', ''kwatth''),
     (''kwattm'', ''kwattm''), (''amph'', ''amph''), (''kamph'', ''kamph''),
     (''mamph'', ''mamph''), (''joule'', ''joule''), (''ev'', ''ev''), (''amp'', ''amp''),
     (''kamp'', ''kamp''), (''mamp'', ''mamp''), (''volt'', ''volt''), (''kvolt'', ''kvolt''),
     (''mvolt'', ''mvolt''), (''dBm'', ''dBm''), (''ohm'', ''ohm''), (''kohm'', ''kohm''),
     (''Mohm'', ''Mohm''), (''farad'', ''farad''),
     ([CHR 0xB5, CHR ''f'', CHR ''a'', CHR ''r'', CHR ''a'', CHR ''d''], [CHR 0xB5, CHR ''f'', CHR ''a'', CHR ''r'', CHR ''a'', CHR ''d'']),
     (''nfarad'', ''nfarad''), (''pfarad'', ''pfarad''), (''ffarad'', ''ffarad''),
     (''henry'', ''henry''), (''mhenry'', ''mhenry''),
     ([CHR 0xB5, CHR ''h'', CHR ''e'', CHR ''n'', CHR ''r'', CHR ''y''], [CHR 0xB5, CHR ''h'', CHR ''e'', CHR ''n'', CHR ''r'', CHR ''y'']),
     (''lumens'', ''lumens''), (''flowgpm'', ''flowgpm''), (''flowcms'', ''flowcms''),
     (''flowcfs'', ''flowcfs''), (''flowcfm'', ''flowcfm''), (''litreh'', ''litreh''),
     (''flowlpm'', ''flowlpm''), (''flowmlpm'', ''flowmlpm''), (''lux'', ''lux''),
     (''forceNm'', ''forceNm''), (''forcekNm'', ''forcekNm''), (''forceN'', ''forceN''),
     (''forcekN'', ''forcekN''), (''massmg'', ''massmg''), (''massg'', ''massg''),
     (''masslb'', ''masslb''), (''masskg'', ''masskg''), (''masst'', ''masst''),
     (''lengthmm'', ''lengthmm''), (''lengthin'', ''lengthin''), (''lengthft'', ''lengthft''),
     (''lengthm'', ''lengthm''), (''lengthkm'', ''lengthkm''), (''lengthmi'', ''lengthmi''),
     (''pressurembar'', ''pressurembar''), (''pressurebar'', ''pressurebar''),
     (''pressurekbar'', ''pressurekbar''), (''pressurepa'', ''pressurepa''),
     (''pressurehpa'', ''pressurehpa''), (''pressurekpa'', ''pressurekpa''),
     (''pressurehg'', ''pressurehg''), (''pressurepsi'', ''pressurepsi''),
     (''radbq'', ''radbq''), (''radci'', ''radci''), (''radgy'', ''radgy''),
     (''radrad'', ''radrad''), (''radsv'', ''radsv''), (''radmsv'', ''radmsv''),
     (''radusv'', ''radusv''), (''radrem'', ''radrem''), (''radexpckg'', ''radexpckg''),
     (''radr'', ''radr''), (''radsvh'', ''radsvh''), (''radmsvh'', ''radmsvh''),
     (''radusvh'', ''radusvh''), (''rotrpm'', ''rotrpm''), (''rothz'', ''rothz''),
     (''rotrads'', ''rotrads''), (''rotdegs'', ''rotdegs''), (''celsius'', ''celsius''),
     (''fahrenheit'', ''fahrenheit''), (''kelvin'', ''kelvin''),
     (''velocityms'', ''velocityms''), (''velocitykmh'', ''velocitykmh''),
     (''velocitymph'', ''velocitymph''), (''velocityknot'', ''velocityknot''),
     (''mlitre'', ''mlitre''), (''litre'', ''litre''), (''m3'', ''m3''), (''Nm3'', ''Nm3''),
     (''dm3'', ''dm3''), (''gallons'', ''gallons'')]"

definition data_mappings :: "(string \<times> string list) list" where
  "data_mappings =
    [(''ns'', [''ns'', ''nanoseconds'']),
     (''us'', [''Microseconds'', ''us'', ''microseconds'']),
     (''ms'', [''Milliseconds'', ''ms'', ''milliseconds'']),
     (''s'', [''Seconds'', ''s'', ''seconds'']), (''min'', [''min'', ''minutes'']),
     (''h'', [''h'', ''hours'']), (''d'', [''d'', ''days'']),
     (''By'', [''Bytes'', ''By'', ''bytes'']),
     (''kBy'', [''Kilobytes'', ''kBy'', ''kilobytes'']),
     (''MBy'', [''Megabytes'', ''MBy'', ''megabytes'']),
     (''GBy'', [''Gigabytes'', ''GBy'', ''gigabytes'']),
     (''TBy'', [''Terabytes'', ''TBy'', ''terabytes'']),
     (''PBy'', [''Petabytes'', ''PiBy'', ''pebibytes'']),
     (''EBy'', [''Exabytes'', ''EBy'', ''exabytes'']),
     (''ZBy'', [''Zettabytes'', ''ZBy'', ''zettabytes'']),
     (''YBy'', [''Yottabytes'', ''YBy'', ''yottabytes'']),
     (''KiBy'', [''KiBy'', ''kibibytes'']), (''MiBy'', [''MiBy'', ''mebibytes'']),
     (''GiBy'', [''GiBy'', ''gibibytes'']), (''TiBy'', [''TiBy'', ''tebibytes'']),
     (''PiBy'', [''PiBy'', ''pebibytes'']), (''EiBy'', [''EiBy'', ''exbibytes'']),
     (''ZiBy'', [''ZiBy'', ''zebibytes'']), (''YiBy'', [''YiBy'', ''yobibytes''])]"

definition rate_mappings :: "(string \<times> string list) list" where
  "rate_mappings =
    [(''By/s'', [''Bytes/Second'', ''By/s'', ''bytes_per_second'']),
     (''kBy/s'', [''Kilobytes/Second'', ''kBy/s'', ''kilobytes_per_second'']),
     (''MBy/s'', [''Megabytes/Second'', ''MBy/s'', ''megabytes_per_second'']),
     (''GBy/s'', [''Gigabytes/Second'', ''GBy/s'', ''gigabytes_per_second'']),
     (''TBy/s'', [''Terabytes/Second'', ''TBy/s'', ''terabytes_per_second'']),
     (''PBy/s'', [''Petabytes/Second'', ''PBy/s'', ''petabytes_per_second'']),
     (''EBy/s'', [''Exabytes/Second'', ''EBy/s'', ''exabytes_per_second'']),
     (''ZBy/s'', [''Zettabytes/Second'', ''ZBy/s'', ''zettabytes_per_second'']),
     (''YBy/s'', [''Yottabytes/Second'', ''YBy/s'', ''yottabytes_per_second'']),
     (''KiBy/s'', [''KiBy/s'', ''kibibytes_per_second'']),
     (''MiBy/s'', [''MiBy/s'', ''mebibytes_per_second'']),
     (''GiBy/s'', [''GiBy/s'', ''gibibytes_per_second'']),
     (''TiBy/s'', [''TiBy/s'', ''tebibytes_per_second'']),
     (''PiBy/s'', [''PiBy/s'', ''pebibytes_per_second'']),
     (''EiBy/s'', [''EiBy/s'', ''exbibytes_per_second'']),
     (''ZiBy/s'', [''ZiBy/s'', ''zebibytes_per_second'']),
     (''YiBy/s'', [''YiBy/s'', ''yobibytes_per_second''])]"

definition count_mappings :: "(string \<times> string list) list" where
  "count_mappings =
    [(''bit'', [''Bits'', ''bit'', ''bits'']),
     (''kbit'', [''Kilobits'', ''kbit'', ''kilobits'']),
     (''Mbit'', [''Megabits'', ''Mbit'', ''megabits'']),
     (''Gbit'', [''Gigabits'', ''Gbit'', ''gigabits'']),
     (''Tbit'', [''Terabits'', ''Tbit'', ''terabits'']),
     (''Pbit'', [''Petabits'', ''Pbit'', ''petabits'']),
     (''Ebit'', [''Exabits'', ''Ebit'', ''exabits'']),
     (''Zbit'', [''Zettabits'', ''Zbit'', ''zettabits'']),
     (''Ybit'', [''Yottabits'', ''Ybit'', ''yottabits'']),
     (''bit/s'', [''Bits/Second'', ''bit/s'', ''bits_per_second'']),
     (''kbit/s'', [''Kilobits/Second'', ''kbit/s'', ''kilobits_per_second'']),
     (''Mbit/s'', [''Megabits/Second'', ''Mbit/s'', ''megabits_per_second'']),
     (''Gbit/s'', [''Gigabits/Second'', ''Gbit/s'', ''gigabits_per_second'']),
     (''Tbit/s'', [''Terabits/Second'', ''Tbit/s'', ''terabits_per_second'']),
     (''Pbit/s'', [''Petabits/Second'', ''Pbit/s'', ''petabits_per_second'']),
     (''Ebit/s'', [''Exabits/Second'', ''Ebit/s'', ''exabits_per_second'']),
     (''Zbit/s'', [''Zettabits/Second'', ''Zbit/s'', ''zettabits_per_second'']),
     (''Ybit/s'', [''Yottabits/Second'', ''Ybit/s'', ''yottabits_per_second'']),
     (''Kibit/s'', [''Kibit/s'', ''kibibits_per_second'']),
     (''Mibit/s'', [''Mibit/s'', ''mebibits_per_second'']),
     (''Gibit/s'', [''Gibit/s'', ''gibibits_per_second'']),
     (''Tibit/s'', [''Tibit/s'', ''tebibits_per_second'']),
     (''Pibit/s'', [''Pibit/s'', ''pebibits_per_second'']),
     (''Eibit/s'', [''Eibit/s'', ''exbibits_per_second'']),
     (''Zibit/s'', [''Zibit/s'', ''zebibits_per_second'']),
     (''Yibit/s'', [''Yibit/s'', ''yobibits_per_second'']),
     (''{count}'', [''Count'', ''{count}'', ''count'']),
     (''{count}/s'', [''Count/Second'', ''{count}/s'', ''count_per_second'']),
     (''%'', [''Percent'', ''%'', ''ratio'']), (''1'', [''None'', ''1'', ''none'']),
     (''percentunit'', [''percentunit'']),
     (''{count}/min'', [''{count}/min'', ''counts_per_minute'']),
     (''{ops}/s'', [''{ops}/s'', ''ops_per_second'']),
     (''{ops}/min'', [''{ops}/min'', ''ops_per_minute'']),
     (''{req}/s'', [''{requests}/s'', ''requests_per_second'']),
     (''{req}/min'', [''{requests}/min'', ''requests_per_minute'']),
     (''{read}/s'', [''{reads}/s'', ''reads_per_second'']),
     (''{write}/s'', [''{writes}/s'', ''writes_per_second'']),
     (''{read}/min'', [''{reads}/min'', ''reads_per_minute'']),
     (''{write}/min'', [''{writes}/min'', ''writes_per_minute'']),
     (''{iops}/s'', [''{iops}/s'', ''io_ops_per_second'']),
     (''{bool}'', [''{bool}'', ''boolean_true_false'']),
     (''{bool_yn}'', [''{bool}'', ''boolean_yes_no''])]"

definition AdditionalLabelsMappingForGrafanaUnits :: "(string \<times> string) list" where
  "AdditionalLabelsMappingForGrafanaUnits =
    [(''EBy'', ''EB''), (''ZBy'', ''ZB''), (''YBy'', ''YB''), (''EiBy'', ''EiB''),
     (''ZiBy'', ''ZiB''), (''YiBy'', ''YiB''), (''EBy/s'', ''EB/s''), (''ZBy/s'', ''ZB/s''),
     (''YBy/s'', ''YB/s''), (''EiBy/s'', ''EiB/s''), (''ZiBy/s'', ''ZiB/s''),
     (''YiBy/s'', ''YiB/s''), (''bit'', ''b''), (''kbit'', ''kb''), (''Mbit'', ''Mb''),
     (''Gbit'', ''Gb''), (''Tbit'', ''Tb''), (''Pbit'', ''Pb''), (''Ebit'', ''Eb''),
     (''Zbit'', ''Zb''), (''Ybit'', ''Yb''), (''Ebit/s'', ''Eb/s''), (''Zbit/s'', ''Zb/s''),
     (''Ybit/s'', ''Yb/s''), (''Eibit/s'', ''Eib/s''), (''Zibit/s'', ''Zib/s''),
     (''Yibit/s'', ''Yib/s'')]"

definition CUSTOM_SCALING_FAMILIES :: "(string list \<times> rat) list" where
  "CUSTOM_SCALING_FAMILIES =
    [
     ([''bit'', ''kbit'', ''Mbit'', ''Gbit'', ''Tbit'', ''Pbit'', ''Ebit'', ''Zbit'', ''Ybit''], 1000),
     ([''Ebit/s'', ''Zbit/s'', ''Ybit/s''], 1000), ([''EBy'', ''ZBy'', ''YBy''], 1000),
     ([''EBy/s'', ''ZBy/s'', ''YBy/s''], 1000), ([''EiBy'', ''ZiBy'', ''YiBy''], 1024),
     ([''EiBy/s'', ''ZiBy/s'', ''YiBy/s''], 1024),
     ([''Eibit/s'', ''Zibit/s'', ''Yibit/s''], 1024)]"

definition Data_units :: "(string \<times> rat) list" where
  "Data_units =
    [(''bytes'', 1), (''decbytes'', 1), (''bits'', BIT_FACTOR), (''decbits'', BIT_FACTOR),
     (''kbit'', BIT_FACTOR * DECIMAL_FACTOR), (''Mbit'', BIT_FACTOR * DECIMAL_FACTOR ^ 2),
     (''Gbit'', BIT_FACTOR * DECIMAL_FACTOR ^ 3), (''Tbit'', BIT_FACTOR * DECIMAL_FACTOR ^ 4),
     (''Pbit'', BIT_FACTOR * DECIMAL_FACTOR ^ 5), (''Ebit'', BIT_FACTOR * DECIMAL_FACTOR ^ 6),
     (''Zbit'', BIT_FACTOR * DECIMAL_FACTOR ^ 7), (''Ybit'', BIT_FACTOR * DECIMAL_FACTOR ^ 8),
     (''kbytes'', BINARY_FACTOR), (''deckbytes'', DECIMAL_FACTOR),
     (''mbytes'', BINARY_FACTOR ^ 2), (''decmbytes'', DECIMAL_FACTOR ^ 2),
     (''gbytes'', BINARY_FACTOR ^ 3), (''decgbytes'', DECIMAL_FACTOR ^ 3),
     (''tbytes'', BINARY_FACTOR ^ 4), (''dectbytes'', DECIMAL_FACTOR ^ 4),
     (''pbytes'', BINARY_FACTOR ^ 5), (''decpbytes'', DECIMAL_FACTOR ^ 5),
     (''EBy'', DECIMAL_FACTOR ^ 6), (''EiBy'', BINARY_FACTOR ^ 6),
     (''ZBy'', DECIMAL_FACTOR ^ 7), (''ZiBy'', BINARY_FACTOR ^ 7),
     (''YBy'', DECIMAL_FACTOR ^ 8), (''YiBy'', BINARY_FACTOR ^ 8)]"

definition DataRate_units :: "(string \<times> rat) list" where
  "DataRate_units =
    [(''binBps'', 1), (''Bps'', 1), (''binbps'', BIT_FACTOR), (''bps'', BIT_FACTOR),
     (''KiBs'', BINARY_FACTOR), (''Kibits'', BIT_FACTOR * BINARY_FACTOR),
     (''KBs'', DECIMAL_FACTOR), (''Kbits'', BIT_FACTOR * DECIMAL_FACTOR),
     (''MiBs'', BINARY_FACTOR ^ 2), (''Mibits'', BIT_FACTOR * BINARY_FACTOR ^ 2),
     (''EBy/s'', DECIMAL_FACTOR ^ 6), (''ZBy/s'', DECIMAL_FACTOR ^ 7),
     (''YBy/s'', DECIMAL_FACTOR ^ 8), (''EiBy/s'', BINARY_FACTOR ^ 6),
     (''ZiBy/s'', BINARY_FACTOR ^ 7), (''YiBy/s'', BINARY_FACTOR ^ 8),
     (''Ebit/s'', BIT_FACTOR * DECIMAL_FACTOR ^ 6),
     (''Zbit/s'', BIT_FACTOR * DECIMAL_FACTOR ^ 7),
     (''Ybit/s'', BIT_FACTOR * DECIMAL_FACTOR ^ 8),
     (''Eibit/s'', BIT_FACTOR * BINARY_FACTOR ^ 6),
     (''Zibit/s'', BIT_FACTOR * BINARY_FACTOR ^ 7),
     (''Yibit/s'', BIT_FACTOR * BINARY_FACTOR ^ 8)]"

definition Time_units :: "(string \<times> rat) list" where
  "Time_units =
    [(''ns'', 1), ([CHR 0xB5, CHR ''s''], 1000), (''ms'', 1000 * 1000),
     (''s'', 1000 * 1000 * 1000), (''m'', 60 * 1000 * 1000 * 1000),
     (''h'', 60 * 60 * 1000 * 1000 * 1000), (''d'', 24 * 60 * 60 * 1000 * 1000 * 1000)]"

definition Throughput_units :: "(string \<times> rat) list" where
  "Throughput_units =
    [(''cps'', 1), (''ops'', 1), (''reqps'', 1), (''rps'', 1), (''wps'', 1), (''iops'', 1),
     (''cpm'', 60), (''opm'', 60), (''rpm'', 60), (''wpm'', 60)]"

definition Miscellaneous_units :: "(string \<times> rat) list" where
  "Miscellaneous_units =
    [(''percentunit'', 100), (''percent'', 1)]"

definition Boolean_units :: "(string \<times> rat) list" where
  "Boolean_units =
    [(''bool'', 1), (''bool_yes_no'', 1)]"

definition UniversalYAxisUnit :: "string list" where
  "UniversalYAxisUnit = common_units @ special_units @ physical_units"

definition UniversalUnitToGrafanaUnit :: "(string \<times> string) list" where
  "UniversalUnitToGrafanaUnit = common_formats @ special_formats @ physical_formats"

definition UniversalYAxisUnitMappings :: "(string \<times> string list) list" where
  "UniversalYAxisUnitMappings = data_mappings @ rate_mappings @ count_mappings"

definition unitsMapping :: "(string \<times> (string \<times> rat) list) list" where
  "unitsMapping = [(''Data'', Data_units), (''DataRate'', DataRate_units), (''Time'', Time_units),
     (''Throughput'', Throughput_units), (''Miscellaneous'', Miscellaneous_units), (''Boolean'', Boolean_units)]"

end
