(* ===== verification/Units.thy ===== *)
theory Units
  imports UnitTables "HOL-Library.AList"
begin

text \<open>
  Units of an axis: conversion between units (\<^verbatim>\<open>frontend/src/lib/getConvertedValue.ts\<close>), the unit of a
  metric, the categories of the unit selector
  (\<^verbatim>\<open>frontend/src/components/YAxisUnitSelector/utils.tsx\<close>) and the choice of a readable unit
  (\<^verbatim>\<open>formatter.ts\<close> there).  An absent unit is the empty string: both are falsy.
\<close>

section \<open>Conversion\<close>

definition findUnitObject :: "string \<Rightarrow> rat option" where
  "findUnitObject unitValue =
     (case List.map_filter (\<lambda>(label, options). map_of options unitValue) unitsMapping of
        [] \<Rightarrow> None
      | factor # _ \<Rightarrow> Some factor)"

definition isUniversalUnit :: "string \<Rightarrow> bool" where
  "isUniversalUnit format \<longleftrightarrow> format \<in> set UniversalYAxisUnit"

definition getFormattedUnit :: "string \<Rightarrow> string" where
  "getFormattedUnit unit =
     (if isUniversalUnit unit
      then (case map_of UniversalUnitToGrafanaUnit unit of
              None \<Rightarrow> unit
            | Some f \<Rightarrow> if f = [] then unit else f)
      else unit)"

definition convertValue :: "rat \<Rightarrow> string \<Rightarrow> string \<Rightarrow> rat option" where
  "convertValue v currentUnit targetUnit =
     (if targetUnit = ''none'' \<or> currentUnit = [] \<or> targetUnit = [] \<or> currentUnit = targetUnit
      then Some v
      else case (findUnitObject (getFormattedUnit currentUnit), findUnitObject (getFormattedUnit targetUnit)) of
             (Some f, Some g) \<Rightarrow> Some (v * f / g)
           | _ \<Rightarrow> None)"

section \<open>The unit of a metric\<close>

definition unit_matches :: "string \<Rightarrow> string \<Rightarrow> bool" where
  "unit_matches unit u \<longleftrightarrow>
     (case map_of UniversalYAxisUnitMappings u of None \<Rightarrow> False | Some names \<Rightarrow> unit \<in> set names) \<or> unit = u"

definition mapMetricUnitToUniversalUnit :: "string \<Rightarrow> string option" where
  "mapMetricUnitToUniversalUnit unit =
     (if unit = [] then None
      else case find (unit_matches unit) UniversalYAxisUnit of
             Some u \<Rightarrow> if u \<noteq> [] then Some u else Some unit
           | None \<Rightarrow> Some unit)"

section \<open>Categories of the selector\<close>

record YAxisCategory =
  yc_name :: string
  yc_units :: "(string \<times> string) list"

definition merge_category :: "YAxisCategory \<Rightarrow> (string \<times> YAxisCategory) list \<Rightarrow> (string \<times> YAxisCategory) list" where
  "merge_category category m =
     (case map_of m (yc_name category) of
        Some old \<Rightarrow> AList.update (yc_name category)
          \<lparr> yc_name = yc_name category, yc_units = yc_units old @ yc_units category \<rparr> m
      | None \<Rightarrow> AList.update (yc_name category) category m)"

definition mergeCategories :: "YAxisCategory list \<Rightarrow> YAxisCategory list \<Rightarrow> YAxisCategory list" where
  "mergeCategories categories1 categories2 =
     map snd (fold merge_category categories2
       (fold (\<lambda>c. AList.update (yc_name c) c) categories1 []))"

section \<open>A readable unit\<close>

text \<open>The two loops: up while the value reaches the factor, down while it is below 1.\<close>

function scale_up :: "rat \<Rightarrow> nat \<Rightarrow> rat \<Rightarrow> nat \<Rightarrow> rat \<times> nat" where
  "scale_up factor len scaled idx =
     (if scaled \<ge> factor \<and> Suc idx < len then scale_up factor len (scaled / factor) (Suc idx) else (scaled, idx))"
  by pat_completeness auto
termination
  by (relation "measure (\<lambda>(factor, len, scaled, idx). len - idx)") auto

declare scale_up.simps [simp del]

fun scale_down :: "rat \<Rightarrow> rat \<Rightarrow> nat \<Rightarrow> rat \<times> nat" where
  "scale_down factor scaled 0 = (scaled, 0)"
| "scale_down factor scaled (Suc i) =
     (if scaled < 1 then scale_down factor (scaled * factor) i else (scaled, Suc i))"

definition unit_label :: "string \<Rightarrow> string" where
  "unit_label unit = (case map_of AdditionalLabelsMappingForGrafanaUnits unit of None \<Rightarrow> [] | Some l \<Rightarrow> l)"

definition scaleValue :: "rat \<Rightarrow> string \<Rightarrow> string list \<Rightarrow> rat \<Rightarrow> rat \<times> string" where
  "scaleValue v unit family factor =
     (if unit \<notin> set family then (v, unit_label unit)
      else
        let (scaled, idx) = scale_up factor (length family) v (length (takeWhile (\<lambda>u. u \<noteq> unit) family));
            (scaled', idx') = scale_down factor scaled idx
        in (scaled', unit_label (family ! idx')))"

section \<open>Lemmas\<close>

lemma map_of_positive: "list_all (\<lambda>p. 0 < snd p) xs \<Longrightarrow> map_of xs k = Some (f :: rat) \<Longrightarrow> 0 < f"
  by (drule map_of_SomeD) (auto simp: list_all_iff)

lemma factors_positive: "(l, options) \<in> set unitsMapping \<Longrightarrow> list_all (\<lambda>p. 0 < snd p) options"
  by (auto simp: unitsMapping_def Data_units_def DataRate_units_def Time_units_def Throughput_units_def
      Miscellaneous_units_def Boolean_units_def BIT_FACTOR_def DECIMAL_FACTOR_def BINARY_FACTOR_def)

lemma findUnitObject_positive:
  assumes "findUnitObject u = Some f"
  shows "0 < f"
proof -
  from assms have "f \<in> set (List.map_filter (\<lambda>(label, options). map_of options u) unitsMapping)"
    by (auto simp: findUnitObject_def split: list.splits)
  then obtain l options where "(l, options) \<in> set unitsMapping" "map_of options u = Some f"
    by (auto simp: List.map_filter_def)
  then show ?thesis using map_of_positive [OF factors_positive] by blast
qed

lemma convertValue_cases:
  assumes "convertValue v a b = Some w"
  obtains "w = v" "b = ''none'' \<or> a = [] \<or> b = [] \<or> a = b"
  | f g where "a \<noteq> b" "a \<noteq> []" "b \<noteq> []" "b \<noteq> ''none''" "findUnitObject (getFormattedUnit a) = Some f"
      "findUnitObject (getFormattedUnit b) = Some g" "0 < f" "0 < g" "w = v * f / g"
  using assms findUnitObject_positive
  by (auto simp: convertValue_def split: if_splits option.splits)

lemma convertValue_factors:
  assumes "findUnitObject (getFormattedUnit a) = Some f" "findUnitObject (getFormattedUnit b) = Some g"
    and "b \<noteq> ''none''" "a \<noteq> []" "b \<noteq> []"
  shows "convertValue v a b = Some (v * f / g)"
  using assms findUnitObject_positive [OF assms(1)] by (auto simp: convertValue_def)

subsection \<open>The two loops\<close>

lemma scale_up_spec:
  assumes "scale_up factor len v i = (w, j)" "0 < factor" "i < len"
  shows "i \<le> j \<and> j < len \<and> v * factor ^ i = w * factor ^ j \<and> (w < factor \<or> Suc j = len)
    \<and> (i = j \<and> w = v \<or> 1 \<le> w)"
  using assms
proof (induction factor len v i arbitrary: w j rule: scale_up.induct)
  case (1 factor len v i)
  show ?case
  proof (cases "v \<ge> factor \<and> Suc i < len")
    case True
    with 1 have "scale_up factor len (v / factor) (Suc i) = (w, j)" by (simp add: scale_up.simps [of factor len v i])
    with 1 True have "Suc i \<le> j \<and> j < len \<and> v / factor * factor ^ Suc i = w * factor ^ j
        \<and> (w < factor \<or> Suc j = len) \<and> (Suc i = j \<and> w = v / factor \<or> 1 \<le> w)" by blast
    moreover have "1 \<le> v / factor" using True "1.prems" by simp
    ultimately show ?thesis using "1.prems" by auto
  next
    case False
    with 1 have "w = v" "j = i" by (auto simp: scale_up.simps [of factor len v i])
    with False 1 show ?thesis by auto
  qed
qed

lemma scale_down_spec:
  assumes "scale_down factor v i = (w, j)" "0 < factor"
  shows "j \<le> i \<and> v * factor ^ i = w * factor ^ j \<and> (1 \<le> w \<or> j = 0) \<and> (i = j \<and> w = v \<or> w < factor)"
  using assms
proof (induction factor v i arbitrary: w j rule: scale_down.induct)
  case (2 factor v i)
  show ?case
  proof (cases "v < 1")
    case True
    with 2 have "j \<le> i \<and> v * factor * factor ^ i = w * factor ^ j \<and> (1 \<le> w \<or> j = 0)
        \<and> (i = j \<and> w = v * factor \<or> w < factor)" by simp
    moreover have "v * factor < factor" using True "2.prems" by simp
    ultimately show ?thesis by (auto simp: mult_ac)
  next
    case False
    with 2 show ?thesis by auto
  qed
qed auto

lemma index_of_first:
  assumes "u \<in> set xs"
  shows "length (takeWhile (\<lambda>x. x \<noteq> u) xs) < length xs" "xs ! length (takeWhile (\<lambda>x. x \<noteq> u) xs) = u"
proof -
  show l: "length (takeWhile (\<lambda>x. x \<noteq> u) xs) < length xs"
    using assms by (induction xs) auto
  show "xs ! length (takeWhile (\<lambda>x. x \<noteq> u) xs) = u" using nth_length_takeWhile [OF l] by simp
qed

lemma scaleValue_spec:
  assumes "unit \<in> set family" "0 < factor" "scaleValue v unit family factor = (w, label)"
  obtains i j where "i < length family" "family ! i = unit" "j < length family" "label = unit_label (family ! j)"
    "v * factor ^ i = w * factor ^ j" "w < factor \<or> Suc j = length family" "1 \<le> w \<or> j = 0"
proof -
  let ?i = "length (takeWhile (\<lambda>u. u \<noteq> unit) family)"
  obtain s k where up: "scale_up factor (length family) v ?i = (s, k)" by fastforce
  obtain w' j where down: "scale_down factor s k = (w', j)" by fastforce
  from assms(1,3) up down have w: "w' = w" "label = unit_label (family ! j)" by (auto simp: scaleValue_def)
  note u = scale_up_spec [OF up assms(2) index_of_first(1) [OF assms(1)]]
  note d = scale_down_spec [OF down assms(2)]
  show ?thesis
    by (rule that [of ?i j])
      (use u d w assms(1) in \<open>auto simp: index_of_first intro: le_less_trans\<close>)
qed

subsection \<open>The families that are scaled by hand\<close>

definition scaled_units :: "string list" where
  "scaled_units = concat (map fst CUSTOM_SCALING_FAMILIES)"

definition scaled_format :: "string \<Rightarrow> string" where
  "scaled_format u = (if u = ''bit'' then ''decbits'' else u)"

lemma scaled_common: "list_all (\<lambda>(k, v). k \<in> set scaled_units \<longrightarrow> k = ''bit'' \<and> v = ''decbits'') common_formats"
  by (simp add: common_formats_def scaled_units_def CUSTOM_SCALING_FAMILIES_def)

lemma scaled_special: "list_all (\<lambda>(k, v). k \<notin> set scaled_units) special_formats"
  by (simp add: special_formats_def scaled_units_def CUSTOM_SCALING_FAMILIES_def)

lemma scaled_physical: "list_all (\<lambda>(k, v). k \<notin> set scaled_units) physical_formats"
  by (simp add: physical_formats_def scaled_units_def CUSTOM_SCALING_FAMILIES_def)

lemma bit_universal: "isUniversalUnit ''bit''" "(''bit'', ''decbits'') \<in> set common_formats"
  by (simp_all add: isUniversalUnit_def UniversalYAxisUnit_def common_units_def common_formats_def)

lemma scaled_formatted:
  assumes "u \<in> set scaled_units"
  shows "getFormattedUnit u = scaled_format u"
proof -
  have no: "map_of special_formats u = None" "map_of physical_formats u = None"
    using assms scaled_special scaled_physical by (auto simp: list_all_iff map_of_eq_None_iff)
  have "map_of common_formats u = (if u = ''bit'' then Some ''decbits'' else None)"
  proof (cases "map_of common_formats u")
    case None
    then have "(u, ''decbits'') \<notin> set common_formats" by (force simp: map_of_eq_None_iff)
    with None bit_universal(2) show ?thesis by auto
  next
    case (Some f)
    from map_of_SomeD [OF this] scaled_common assms have "u = ''bit'' \<and> f = ''decbits''"
      by (auto simp: list_all_iff)
    with Some show ?thesis by simp
  qed
  with no bit_universal(1) show ?thesis
    by (auto simp: getFormattedUnit_def scaled_format_def UniversalUnitToGrafanaUnit_def map_add_def)
qed

lemma scaled_found:
  "list_all (\<lambda>(family, factor). 1 < factor \<and> family \<noteq> [] \<and> (case findUnitObject (scaled_format (hd family)) of
      None \<Rightarrow> False
    | Some b \<Rightarrow> list_all (\<lambda>i. findUnitObject (scaled_format (family ! i)) = Some (b * factor ^ i)) [0..<length family]))
    CUSTOM_SCALING_FAMILIES"
  by code_simp

lemma scaled_named: "[] \<notin> set scaled_units" "''none'' \<notin> set scaled_units"
  by (simp_all add: scaled_units_def CUSTOM_SCALING_FAMILIES_def)

text \<open>Each unit of a family is the one before times the factor.\<close>

lemma family_factors:
  assumes "(family, factor) \<in> set CUSTOM_SCALING_FAMILIES"
  obtains b where "1 < factor" "family \<noteq> []"
    "\<And>i. i < length family \<Longrightarrow> findUnitObject (getFormattedUnit (family ! i)) = Some (b * factor ^ i)"
    "\<And>i. i < length family \<Longrightarrow> family ! i \<noteq> [] \<and> family ! i \<noteq> ''none''"
proof -
  from assms scaled_found have s: "1 < factor \<and> family \<noteq> [] \<and> (case findUnitObject (scaled_format (hd family)) of
      None \<Rightarrow> False
    | Some b \<Rightarrow> list_all (\<lambda>i. findUnitObject (scaled_format (family ! i)) = Some (b * factor ^ i)) [0..<length family])"
    unfolding list_all_iff by blast
  have m: "family ! i \<in> set scaled_units" if "i < length family" for i
    using that assms nth_mem [OF that] by (force simp: scaled_units_def)
  from s obtain b where "findUnitObject (scaled_format (hd family)) = Some b" by (auto split: option.splits)
  with s have "\<forall>i < length family. findUnitObject (scaled_format (family ! i)) = Some (b * factor ^ i)"
    by (auto simp: list_all_iff)
  with s show ?thesis
    by (intro that [of b]) (use m scaled_formatted scaled_named in \<open>fastforce+\<close>)
qed

lemma family_conversion:
  assumes "(family, factor) \<in> set CUSTOM_SCALING_FAMILIES" "i < length family" "j < length family"
    and "v * factor ^ i = w * factor ^ j"
  shows "convertValue v (family ! i) (family ! j) = Some w"
proof -
  from family_factors [OF assms(1)] obtain b where b: "1 < factor"
    "\<And>i. i < length family \<Longrightarrow> findUnitObject (getFormattedUnit (family ! i)) = Some (b * factor ^ i)"
    "\<And>i. i < length family \<Longrightarrow> family ! i \<noteq> [] \<and> family ! i \<noteq> ''none''" by metis
  have "b * factor ^ j > 0" using findUnitObject_positive [OF b(2) [OF assms(3)]] .
  moreover have "v * (b * factor ^ i) = w * (b * factor ^ j)" using assms(4) by (metis mult.left_commute)
  ultimately have "v * (b * factor ^ i) / (b * factor ^ j) = w"
    by (metis less_irrefl nonzero_mult_div_cancel_right)
  then show ?thesis
    using convertValue_factors [OF b(2) [OF assms(2)] b(2) [OF assms(3)]] b(3) [OF assms(2)] b(3) [OF assms(3)]
    by simp
qed

subsection \<open>Categories\<close>

lemma update_snd_fst:
  "\<forall>(k, c) \<in> set m. yc_name c = k \<Longrightarrow> yc_name c' = k' \<Longrightarrow> \<forall>(k, c) \<in> set (AList.update k' c' m). yc_name c = k"
  by (induction m) auto

definition category_units :: "string \<Rightarrow> YAxisCategory list \<Rightarrow> (string \<times> string) list" where
  "category_units n cs = concat (map yc_units (filter (\<lambda>c. yc_name c = n) cs))"

definition keyed :: "(string \<times> YAxisCategory) list \<Rightarrow> bool" where
  "keyed m \<longleftrightarrow> distinct (map fst m) \<and> (\<forall>(k, c) \<in> set m. yc_name c = k)"

definition found_units :: "(string \<times> YAxisCategory) list \<Rightarrow> string \<Rightarrow> (string \<times> string) list" where
  "found_units m n = (case map_of m n of None \<Rightarrow> [] | Some c \<Rightarrow> yc_units c)"

lemma keyed_update: "keyed m \<Longrightarrow> yc_name c = k \<Longrightarrow> keyed (AList.update k c m)"
  unfolding keyed_def using update_snd_fst [of m c k] distinct_update [of m k c] by simp

lemma merge_category_step:
  assumes "keyed m"
  shows "keyed (merge_category c m)"
    and "found_units (merge_category c m) n = found_units m n @ (if yc_name c = n then yc_units c else [])"
    and "fst ` set (merge_category c m) = insert (yc_name c) (fst ` set m)"
  using assms
  by (auto simp: merge_category_def found_units_def update_conv' keyed_update dom_update split: option.splits)

lemma merge_fold:
  assumes "keyed m"
  shows "keyed (fold merge_category cs m) \<and>
    found_units (fold merge_category cs m) n = found_units m n @ category_units n cs \<and>
    fst ` set (fold merge_category cs m) = fst ` set m \<union> yc_name ` set cs"
  using assms
proof (induction cs arbitrary: m)
  case (Cons c cs)
  from Cons.IH [OF merge_category_step(1) [OF Cons.prems]] merge_category_step [OF Cons.prems]
  show ?case by (simp add: category_units_def)
qed (simp add: category_units_def)

lemma update_fresh: "k \<notin> fst ` set m \<Longrightarrow> AList.update k v m = m @ [(k, v)]"
  by (induction m) auto

lemma first_fold:
  assumes "keyed m" "distinct (map yc_name cs)" "yc_name ` set cs \<inter> fst ` set m = {}"
  shows "fold (\<lambda>c. AList.update (yc_name c) c) cs m = m @ map (\<lambda>c. (yc_name c, c)) cs"
  using assms
proof (induction cs arbitrary: m)
  case (Cons c cs)
  have u: "AList.update (yc_name c) c m = m @ [(yc_name c, c)]"
    using Cons.prems(3) by (intro update_fresh) auto
  from Cons have "keyed (m @ [(yc_name c, c)])" by (auto simp: keyed_def)
  with Cons show ?case by (force simp: u)
qed simp

lemma keyed_lookup: "keyed m \<Longrightarrow> category_units n (map snd m) = found_units m n"
proof (induction m)
  case (Cons p m)
  obtain k c where p: "p = (k, c)" by fastforce
  from Cons have IH: "category_units n (map snd m) = found_units m n" by (auto simp: keyed_def)
  from Cons.prems p have k: "yc_name c = k" "k \<notin> fst ` set m" "\<forall>(k, c) \<in> set m. yc_name c = k"
    by (auto simp: keyed_def)
  have "category_units k (map snd m) = []"
    unfolding category_units_def using k by (force simp: filter_empty_conv)
  with IH p k(1) show ?case by (auto simp: category_units_def found_units_def)
qed (simp add: category_units_def found_units_def)

section \<open>Properties\<close>

text \<open>
  What the names of the units say, apart from the tables of the code: a byte, a bit as an eighth of it, and a second, with
  the decimal and the binary prefixes; a rate has the size of what is counted per second.
\<close>

definition decimal_prefixes :: "(string \<times> rat) list" where
  "decimal_prefixes = [([], 1), (''k'', 10 ^ 3), (''M'', 10 ^ 6), (''G'', 10 ^ 9), (''T'', 10 ^ 12), (''P'', 10 ^ 15),
     (''E'', 10 ^ 18), (''Z'', 10 ^ 21), (''Y'', 10 ^ 24)]"

definition binary_prefixes :: "(string \<times> rat) list" where
  "binary_prefixes = [(''Ki'', 2 ^ 10), (''Mi'', 2 ^ 20), (''Gi'', 2 ^ 30), (''Ti'', 2 ^ 40), (''Pi'', 2 ^ 50), (''Ei'', 2 ^ 60),
     (''Zi'', 2 ^ 70), (''Yi'', 2 ^ 80)]"

definition data_sizes :: "(string \<times> rat) list" where
  "data_sizes = (''bytes'', 1) # (''bits'', 1 / 8) # map (\<lambda>(p, f). (p @ ''By'', f)) (decimal_prefixes @ binary_prefixes)
     @ map (\<lambda>(p, f). (p @ ''bit'', f / 8)) decimal_prefixes"

definition rate_sizes :: "(string \<times> rat) list" where
  "rate_sizes = map (\<lambda>(p, f). (p @ ''By/s'', f)) (decimal_prefixes @ binary_prefixes)
     @ map (\<lambda>(p, f). (p @ ''bit/s'', f / 8)) (decimal_prefixes @ binary_prefixes)"

definition time_sizes :: "(string \<times> rat) list" where
  "time_sizes = [(''ns'', 1), (''us'', 10 ^ 3), (''ms'', 10 ^ 6), (''s'', 10 ^ 9), (''min'', 60 * 10 ^ 9), (''h'', 60 * 60 * 10 ^ 9),
     (''d'', 24 * 60 * 60 * 10 ^ 9)]"

lemma formatted_common:
  assumes "u \<in> set common_units" "map_of common_formats u = Some f" "f \<noteq> []"
  shows "getFormattedUnit u = f"
  using assms
  by (simp add: getFormattedUnit_def isUniversalUnit_def UniversalYAxisUnit_def UniversalUnitToGrafanaUnit_def map_add_def)

text \<open>The rates that the table of factors leaves out.\<close>

definition missing_rates :: "string list" where
  "missing_rates = [''MBy/s'', ''GBy/s'', ''TBy/s'', ''PBy/s'', ''GiBy/s'', ''TiBy/s'', ''PiBy/s'',
     ''Mbit/s'', ''Gbit/s'', ''Tbit/s'', ''Pbit/s'', ''Gibit/s'', ''Tibit/s'', ''Pibit/s'']"

text \<open>The format of a unit is in the first table of formats, or it is one of the units that are scaled by hand.\<close>

definition size_found :: "string \<times> rat \<Rightarrow> bool" where
  "size_found = (\<lambda>(u, f). u \<noteq> [] \<and> u \<noteq> ''none'' \<and> 0 < f \<and> (case map_of common_formats u of
     Some g \<Rightarrow> u \<in> set common_units \<and> g \<noteq> [] \<and> findUnitObject g = (if u \<in> set missing_rates then None else Some f)
   | None \<Rightarrow> u \<in> set scaled_units \<and> u \<notin> set missing_rates \<and> findUnitObject (scaled_format u) = Some f))"

lemma prefixed_found:
  "list_all (\<lambda>(p, f). size_found (p @ ''By'', f)) decimal_prefixes"
  "list_all (\<lambda>(p, f). size_found (p @ ''By'', f)) binary_prefixes"
  "list_all (\<lambda>(p, f). size_found (p @ ''bit'', f / 8)) decimal_prefixes"
  "list_all (\<lambda>(p, f). size_found (p @ ''By/s'', f)) decimal_prefixes"
  "list_all (\<lambda>(p, f). size_found (p @ ''By/s'', f)) binary_prefixes"
  "list_all (\<lambda>(p, f). size_found (p @ ''bit/s'', f / 8)) decimal_prefixes"
  "list_all (\<lambda>(p, f). size_found (p @ ''bit/s'', f / 8)) binary_prefixes"
  by code_simp+

lemma others_found: "list_all size_found [(''bytes'', 1), (''bits'', 1 / 8)]" "list_all size_found time_sizes"
  by code_simp+

lemma sizes_distinct:
  "distinct (map fst data_sizes)" "distinct (map fst rate_sizes)" "distinct (map fst time_sizes)"
  by (simp_all add: data_sizes_def rate_sizes_def time_sizes_def decimal_prefixes_def binary_prefixes_def)

lemma sizes_found: "list_all size_found data_sizes" "list_all size_found rate_sizes"
  using prefixed_found others_found(1) by (auto simp: data_sizes_def rate_sizes_def list_all_iff)

lemma size_foundD:
  assumes "size_found (u, f)"
  shows "u \<noteq> [] \<and> u \<noteq> ''none'' \<and> 0 < f \<and> findUnitObject (getFormattedUnit u) = (if u \<in> set missing_rates then None else Some f)"
proof (cases "map_of common_formats u")
  case None
  with assms show ?thesis by (simp add: size_found_def scaled_formatted)
next
  case (Some g)
  with assms formatted_common [of u g] show ?thesis by (simp add: size_found_def)
qed

text \<open>C38: Between two units of data, two rates of data or two units of time, named with the decimal and binary prefixes,
  \<^verbatim>\<open>convertValue\<close> multiplies by the size of the first and divides by the size of the second that the names say.
  Only between two different rates of which one is among the fourteen that the table leaves out there is no conversion.\<close>

theorem convertValue_exact:
  assumes "sizes \<in> {data_sizes, rate_sizes, time_sizes}" "(a, f) \<in> set sizes" "(b, g) \<in> set sizes"
  shows "convertValue v a b = (if a \<noteq> b \<and> (a \<in> set missing_rates \<or> b \<in> set missing_rates)
     then None else Some (v * f / g))"
proof -
  have "list_all size_found sizes" "distinct (map fst sizes)" using assms(1) sizes_found others_found(2) sizes_distinct by auto
  then have s: "size_found (a, f)" "size_found (b, g)" and e: "a = b \<Longrightarrow> f = g"
    using assms(2,3) by (auto simp: list_all_iff dest: eq_key_imp_eq_value)
  from size_foundD [OF s(1)] size_foundD [OF s(2)] e show ?thesis by (auto simp: convertValue_def)
qed

theorem convertValue_exact_witness: "convertValue 3 ''GiBy'' ''Mbit'' = Some (3 * 2 ^ 30 / (10 ^ 6 / 8))"
proof -
  have "(''GiBy'', 2 ^ 30) \<in> set data_sizes" "(''Mbit'', 10 ^ 6 / 8) \<in> set data_sizes"
    by (simp_all add: data_sizes_def decimal_prefixes_def binary_prefixes_def)
  from convertValue_exact [OF _ this] show ?thesis by (simp add: missing_rates_def)
qed

text \<open>Conversions compose: converting on to a third unit is the same as converting at once, and converting back gives
  the value.\<close>

theorem convertValue_composes:
  assumes "convertValue v a b = Some w" "convertValue w b c = Some u"
    and "a \<notin> {[], ''none''}" "b \<notin> {[], ''none''}" "c \<notin> {[], ''none''}"
  shows "convertValue v a c = Some u \<and> convertValue w b a = Some v"
  using assms(1)
proof (cases rule: convertValue_cases)
  case 1
  with assms show ?thesis by (auto simp: convertValue_def)
next
  case (2 f g)
  have rev_conv: "convertValue w b a = Some v"
    using 2 assms by (simp add: convertValue_factors [OF 2(6,5)])
  from assms(2) have "convertValue v a c = Some u"
  proof (cases rule: convertValue_cases)
    case 1
    with assms show ?thesis by auto
  next
    case (2 f' h)
    with \<open>findUnitObject (getFormattedUnit b) = Some g\<close> have "f' = g" by simp
    with 2 \<open>0 < g\<close> \<open>w = v * f / g\<close> assms
      convertValue_factors [OF \<open>findUnitObject (getFormattedUnit a) = Some f\<close> 2(6), of v]
    show ?thesis by auto
  qed
  with rev_conv show ?thesis by blast
qed

lemma kbit_Mbit:
  "convertValue 3000 ''kbit'' ''Mbit'' = Some 3" "convertValue 3 ''Mbit'' ''Gbit'' = Some (3 / 1000)"
proof -
  have f: "([''bit'', ''kbit'', ''Mbit'', ''Gbit'', ''Tbit'', ''Pbit'', ''Ebit'', ''Zbit'', ''Ybit''], 1000)
      \<in> set CUSTOM_SCALING_FAMILIES" by (simp add: CUSTOM_SCALING_FAMILIES_def)
  show "convertValue 3000 ''kbit'' ''Mbit'' = Some 3"
    using family_conversion [OF f, of 1 2 3000 3] by simp
  show "convertValue 3 ''Mbit'' ''Gbit'' = Some (3 / 1000)"
    using family_conversion [OF f, of 2 3 3 "3 / 1000"] by simp
qed

theorem convertValue_composes_witness:
  "convertValue 3000 ''kbit'' ''Gbit'' = Some (3 / 1000) \<and> convertValue 3 ''Mbit'' ''kbit'' = Some 3000"
  using convertValue_composes [OF kbit_Mbit] by simp

text \<open>A value of a unit that the charting package does not scale is shown in a unit of the same family,
  the shown number is the conversion of the value to that unit, and it is below the factor of the family unless
  the unit is the largest one and at least 1 unless it is the smallest.\<close>

theorem scaleValue_converts:
  assumes "(family, factor) \<in> set CUSTOM_SCALING_FAMILIES" "unit \<in> set family"
    and "scaleValue v unit family factor = (shown, label)"
  shows "\<exists>target \<in> set family. label = unit_label target \<and> convertValue v unit target = Some shown
     \<and> (shown < factor \<or> target = last family) \<and> (1 \<le> shown \<or> target = hd family)"
proof -
  from family_factors [OF assms(1)] have f: "1 < factor" "family \<noteq> []" by auto
  from scaleValue_spec [OF assms(2) _ assms(3)] f obtain i j where
    ij: "i < length family" "family ! i = unit" "j < length family" "label = unit_label (family ! j)"
      "v * factor ^ i = shown * factor ^ j" "shown < factor \<or> Suc j = length family" "1 \<le> shown \<or> j = 0"
    by (metis less_trans zero_less_one)
  from family_conversion [OF assms(1) ij(1,3,5)] ij(2)
  have "convertValue v unit (family ! j) = Some shown" by simp
  moreover have "shown < factor \<or> family ! j = last family"
    using ij(6) f(2) by (metis diff_Suc_1 last_conv_nth)
  moreover have "1 \<le> shown \<or> family ! j = hd family" using ij(7) f(2) by (auto simp: hd_conv_nth)
  ultimately show ?thesis using ij(3,4) nth_mem by blast
qed

lemma bits_scaled: "scaleValue 2500 ''kbit'' [''bit'', ''kbit'', ''Mbit'', ''Gbit'', ''Tbit'', ''Pbit'', ''Ebit'', ''Zbit'', ''Ybit''] 1000
    = (5 / 2, ''Mb'')"
  by (simp add: scaleValue_def scale_up.simps unit_label_def AdditionalLabelsMappingForGrafanaUnits_def numeral_eq_Suc)

theorem scaleValue_converts_witness:
  "\<exists>target \<in> set (fst (hd CUSTOM_SCALING_FAMILIES)). ''Mb'' = unit_label target
     \<and> convertValue 2500 ''kbit'' target = Some (5 / 2)"
proof -
  have "hd CUSTOM_SCALING_FAMILIES = ([''bit'', ''kbit'', ''Mbit'', ''Gbit'', ''Tbit'', ''Pbit'', ''Ebit'', ''Zbit'', ''Ybit''], 1000)"
    "hd CUSTOM_SCALING_FAMILIES \<in> set CUSTOM_SCALING_FAMILIES"
    by (simp_all add: CUSTOM_SCALING_FAMILIES_def)
  then show ?thesis using scaleValue_converts [OF _ _ bits_scaled] by fastforce
qed

text \<open>A negative value is always shown in the smallest unit.\<close>

lemma scale_down_negative: "v \<le> 0 \<Longrightarrow> 0 < factor \<Longrightarrow> snd (scale_down factor v i) = 0"
  by (induction factor v i rule: scale_down.induct) (auto simp: mult_nonpos_nonneg)

theorem negative_smallest_unit:
  assumes "unit \<in> set family" "1 < factor" "v < 0"
  shows "snd (scaleValue v unit family factor) = unit_label (hd family)"
proof -
  have "family \<noteq> []" using assms(1) by auto
  moreover have "scale_up factor n v i = (v, i)" for n i using assms by (simp add: scale_up.simps)
  moreover have "snd (scale_down factor v i) = 0" for i using scale_down_negative assms by simp
  ultimately show ?thesis using assms(1) by (simp add: scaleValue_def split_beta hd_conv_nth)
qed

text \<open>Merging two lists of categories whose first one has distinct names gives categories with distinct
  names, the names of both, and under each name the units of the first list followed by those of
  the second.\<close>

theorem mergeCategories_units:
  assumes "distinct (map yc_name categories1)"
  shows "distinct (map yc_name (mergeCategories categories1 categories2))
     \<and> yc_name ` set (mergeCategories categories1 categories2) = yc_name ` set (categories1 @ categories2)
     \<and> category_units n (mergeCategories categories1 categories2) = category_units n (categories1 @ categories2)"
proof -
  let ?m1 = "map (\<lambda>c. (yc_name c, c)) categories1"
  have f: "fold (\<lambda>c. AList.update (yc_name c) c) categories1 [] = ?m1"
    using first_fold [of "[]" categories1] assms by (simp add: keyed_def)
  have k: "keyed ?m1" using assms by (auto simp: keyed_def comp_def)
  let ?m = "fold merge_category categories2 ?m1"
  note r = merge_fold [OF k, of categories2 n]
  have names: "map yc_name (map snd ?m) = map fst ?m" using r by (auto simp: keyed_def)
  from r have "distinct (map fst ?m)" by (simp add: keyed_def)
  then have "distinct (map yc_name (map snd ?m))" unfolding names .
  moreover have "yc_name ` set (map snd ?m) = fst ` set ?m" using names by (metis list.set_map)
  moreover have "category_units n (map snd ?m) = found_units ?m n" using r keyed_lookup by blast
  moreover have "found_units ?m1 n = category_units n categories1" using keyed_lookup [OF k, of n] by (simp add: comp_def)
  moreover have "category_units n (categories1 @ categories2) = category_units n categories1 @ category_units n categories2"
    by (simp add: category_units_def)
  ultimately show ?thesis using r by (auto simp: mergeCategories_def f image_image image_Un)
qed

theorem mergeCategories_units_witness:
  "category_units ''Data'' (mergeCategories [\<lparr> yc_name = ''Data'', yc_units = [(''bytes'', ''By'')] \<rparr>]
     [\<lparr> yc_name = ''Time'', yc_units = [(''seconds'', ''s'')] \<rparr>, \<lparr> yc_name = ''Data'', yc_units = [(''bits'', ''bit'')] \<rparr>])
   = [(''bytes'', ''By''), (''bits'', ''bit'')]"
  using mergeCategories_units [where ?categories1.0 = "[\<lparr> yc_name = ''Data'', yc_units = [(''bytes'', ''By'')] \<rparr>]"
    and n = "''Data''"]
  by (simp add: category_units_def)

subsection \<open>Rates and the units of metrics\<close>

definition minute_rates :: "(string \<times> string) list" where
  "minute_rates = [(''{count}/min'', ''{count}/s''), (''{ops}/min'', ''{ops}/s''),
     (''{read}/min'', ''{read}/s''), (''{write}/min'', ''{write}/s'')]"

lemma missing_formats:
  "list_all (\<lambda>u. u \<in> set common_units \<and> (case map_of common_formats u of
      None \<Rightarrow> False | Some f \<Rightarrow> f \<noteq> [] \<and> findUnitObject f = None)) missing_rates"
  by code_simp

lemma minute_formats:
  "list_all (\<lambda>(m, s). m \<in> set common_units \<and> s \<in> set common_units \<and>
      (case (map_of common_formats m, map_of common_formats s) of
        (Some f, Some g) \<Rightarrow> f \<noteq> [] \<and> g \<noteq> [] \<and> findUnitObject f = Some 60 \<and> findUnitObject g = Some 1
      | _ \<Rightarrow> False)) minute_rates"
  by code_simp

text \<open>Rates of the selector that the factor table lacks cannot be converted at all, and rates per minute
  are multiplied by 60 on the way to the rate per second instead of being divided.\<close>

theorem rates_misconverted:
  "list_all (\<lambda>u. convertValue v u ''By/s'' = None) missing_rates
   \<and> list_all (\<lambda>(m, s). convertValue v m s = Some (60 * v)) minute_rates"
proof
  have "convertValue v u ''By/s'' = None" if u: "u \<in> set missing_rates" for u
  proof -
    from u missing_formats have "u \<in> set common_units \<and> (case map_of common_formats u of
      None \<Rightarrow> False | Some f \<Rightarrow> f \<noteq> [] \<and> findUnitObject f = None)" unfolding list_all_iff by blast
    then have "findUnitObject (getFormattedUnit u) = None" using formatted_common by (auto split: option.splits)
    moreover have "u \<noteq> [] \<and> u \<noteq> ''By/s''" using u by (auto simp: missing_rates_def)
    ultimately show ?thesis by (simp add: convertValue_def)
  qed
  then show "list_all (\<lambda>u. convertValue v u ''By/s'' = None) missing_rates" by (simp add: list_all_iff)
  have "convertValue v m s = Some (60 * v)" if ms: "(m, s) \<in> set minute_rates" for m s
  proof -
    from ms minute_formats have "m \<in> set common_units \<and> s \<in> set common_units \<and>
      (case (map_of common_formats m, map_of common_formats s) of
        (Some f, Some g) \<Rightarrow> f \<noteq> [] \<and> g \<noteq> [] \<and> findUnitObject f = Some 60 \<and> findUnitObject g = Some 1
      | _ \<Rightarrow> False)" unfolding list_all_iff by blast
    then have "findUnitObject (getFormattedUnit m) = Some 60" "findUnitObject (getFormattedUnit s) = Some 1"
      using formatted_common by (auto split: option.splits)
    moreover have "m \<noteq> []" "s \<noteq> []" "s \<noteq> ''none''" using ms by (auto simp: minute_rates_def)
    ultimately show ?thesis using convertValue_factors [of m 60 s 1 v] by simp
  qed
  then show "list_all (\<lambda>(m, s). convertValue v m s = Some (60 * v)) minute_rates" by (auto simp: list_all_iff)
qed

text \<open>A metric in pebibytes is shown in petabytes.\<close>

lemma find_prefix: "find P xs = Some u \<Longrightarrow> find P (xs @ ys) = Some u"
  by (induction xs) auto

lemma pebi_found: "list_all (\<lambda>unit. find (unit_matches unit) common_units = Some ''PBy'') [''PiBy'', ''pebibytes'']"
  by code_simp

theorem pebibytes_shown_as_petabytes:
  "mapMetricUnitToUniversalUnit ''PiBy'' = Some ''PBy'' \<and> mapMetricUnitToUniversalUnit ''pebibytes'' = Some ''PBy''"
proof -
  have "find (unit_matches unit) UniversalYAxisUnit = Some u" if "find (unit_matches unit) common_units = Some u" for unit u
    unfolding UniversalYAxisUnit_def using that by (rule find_prefix)
  then show ?thesis using pebi_found by (simp add: mapMetricUnitToUniversalUnit_def)
qed

end
