(* ===== verification/ChartScale.thy ===== *)
theory ChartScale
  imports Units JsNumber "HOL-Library.Log_Nat"
begin

text \<open>
  The range of the value axis of a chart: \<^verbatim>\<open>frontend/src/lib/uPlotV2/utils/scale.ts\<close> with
  \<^verbatim>\<open>threshold.ts\<close>, and the older \<^verbatim>\<open>frontend/src/lib/uPlotLib/utils/getYAxisScale.ts\<close>.  The charting
  package computes padded ranges: its \<^verbatim>\<open>rangeNum\<close> and \<^verbatim>\<open>rangeLog\<close> are arguments.  \<^verbatim>\<open>null\<close> is
  \<open>None\<close>.  Logarithms are exact, so that their rounding down and up is the exponent of the power
  of the base next to the number.
\<close>

section \<open>Logarithms\<close>

definition log_floor :: "nat \<Rightarrow> rat \<Rightarrow> int" where
  "log_floor b v = (if 1 \<le> v then int (floorlog b (nat \<lfloor>v\<rfloor>)) - 1 else - int (floorlog b (nat (\<lceil>1 / v\<rceil> - 1))))"

definition log_ceil :: "nat \<Rightarrow> rat \<Rightarrow> int" where
  "log_ceil b v = - log_floor b (1 / v)"

definition log_base :: "nat \<Rightarrow> nat" where
  "log_base logBase = (if logBase = 2 then 2 else 10)"

section \<open>Limits\<close>

datatype DistributionType = Linear | Logarithmic

definition normalizeLogLimit :: "rat option \<Rightarrow> nat \<Rightarrow> (rat \<Rightarrow> int) \<Rightarrow> rat option" where
  "normalizeLogLimit v logBase round_log =
     (case v of
        None \<Rightarrow> None
      | Some x \<Rightarrow> if x \<le> 0 then Some x else Some (of_nat logBase powi round_log x))"

record LogScaleLimits =
  ll_min :: "rat option"
  ll_max :: "rat option"
  ll_softMin :: "rat option"
  ll_softMax :: "rat option"

definition normalizeLogScaleLimits :: "DistributionType option \<Rightarrow> nat \<Rightarrow> LogScaleLimits \<Rightarrow> LogScaleLimits" where
  "normalizeLogScaleLimits distr logBase limits =
     (if distr \<noteq> Some Logarithmic then limits
      else
        let down = log_floor (log_base logBase); up = log_ceil (log_base logBase)
        in \<lparr> ll_min = normalizeLogLimit (ll_min limits) logBase down,
             ll_max = normalizeLogLimit (ll_max limits) logBase up,
             ll_softMin = normalizeLogLimit (ll_softMin limits) logBase down,
             ll_softMax = normalizeLogLimit (ll_softMax limits) logBase up \<rparr>)"

definition getDistributionConfig :: "bool \<Rightarrow> DistributionType option \<Rightarrow> nat option \<Rightarrow> (nat \<times> nat) option" where
  "getDistributionConfig time distr logBase =
     (if time then None
      else Some (if distr = Some Logarithmic then 3 else 1,
        if (case logBase of None \<Rightarrow> 10 | Some b \<Rightarrow> b) = 2 then 2 else 10))"

record range_side =
  rs_pad :: rat
  rs_hard :: js_number
  rs_soft :: "rat option"
  rs_mode :: nat

record RangeFunctionParams =
  rp_config :: "range_side \<times> range_side"
  rp_hardMinOnly :: bool
  rp_hardMaxOnly :: bool
  rp_hasFixedRange :: bool
  rp_min :: "rat option"
  rp_max :: "rat option"

definition getRangeConfig :: "rat option \<Rightarrow> rat option \<Rightarrow> rat option \<Rightarrow> rat option \<Rightarrow> rat \<Rightarrow> rat \<Rightarrow> RangeFunctionParams" where
  "getRangeConfig mn mx softMin softMax padMinBy padMaxBy =
     (let hardMinOnly = softMin = None \<and> mn \<noteq> None;
          hardMaxOnly = softMax = None \<and> mx \<noteq> None
      in \<lparr> rp_config =
             (\<lparr> rs_pad = padMinBy, rs_hard = (case mn of None \<Rightarrow> JInf False | Some v \<Rightarrow> JNum v),
                rs_soft = softMin, rs_mode = (if softMin = None then 3 else 1) \<rparr>,
              \<lparr> rs_pad = padMaxBy, rs_hard = (case mx of None \<Rightarrow> JInf True | Some v \<Rightarrow> JNum v),
                rs_soft = softMax, rs_mode = (if softMax = None then 3 else 1) \<rparr>),
           rp_hardMinOnly = hardMinOnly, rp_hardMaxOnly = hardMaxOnly,
           rp_hasFixedRange = (hardMinOnly \<and> hardMaxOnly), rp_min = mn, rp_max = mx \<rparr>)"

section \<open>The range of a scale\<close>

type_synonym min_max = "js_number option \<times> js_number option"

definition data_range :: "rat option \<Rightarrow> rat option \<Rightarrow> min_max" where
  "data_range dataMin dataMax = (map_option JNum dataMin, map_option JNum dataMax)"

definition getInitialMinMax :: "rat option \<Rightarrow> rat option \<Rightarrow> bool \<Rightarrow> min_max option" where
  "getInitialMinMax dataMin dataMax hasFixedRange =
     (if \<not> hasFixedRange \<and> dataMin = None \<and> dataMax = None then None else Some (data_range dataMin dataMax))"

definition getLinearScaleRange :: "(rat \<Rightarrow> rat \<Rightarrow> range_side \<times> range_side \<Rightarrow> min_max) \<Rightarrow>
    min_max \<Rightarrow> RangeFunctionParams \<Rightarrow> rat option \<Rightarrow> rat option \<Rightarrow> min_max" where
  "getLinearScaleRange rangeNum minMax params dataMin dataMax =
     (case (if rp_hardMinOnly params then rp_min params else dataMin,
            if rp_hardMaxOnly params then rp_max params else dataMax) of
        (Some a, Some b) \<Rightarrow> rangeNum a b (rp_config params)
      | _ \<Rightarrow> minMax)"

definition or_else :: "'a option \<Rightarrow> 'a option \<Rightarrow> 'a option" where
  "or_else a b = (case a of None \<Rightarrow> b | Some x \<Rightarrow> Some x)"

definition getLogScaleRange :: "(rat \<Rightarrow> rat \<Rightarrow> nat \<Rightarrow> bool \<Rightarrow> min_max) \<Rightarrow>
    min_max \<Rightarrow> RangeFunctionParams \<Rightarrow> rat option \<Rightarrow> rat option \<Rightarrow> nat option \<Rightarrow> min_max" where
  "getLogScaleRange rangeLog minMax params dataMin dataMax logBase =
     (case (or_else (rp_min params) dataMin, or_else (rp_max params) dataMax) of
        (Some a, Some b) \<Rightarrow> rangeLog a b (case logBase of None \<Rightarrow> 10 | Some l \<Rightarrow> l) True
      | _ \<Rightarrow> minMax)"

text \<open>\<^verbatim>\<open>logBase ** round(logFn(v))\<close>: zero at zero, where the logarithm is minus infinity, and \<^verbatim>\<open>NaN\<close>
  below.\<close>

definition snap :: "nat \<Rightarrow> (rat \<Rightarrow> int) \<Rightarrow> js_number \<Rightarrow> js_number" where
  "snap logBase round_log v =
     (case v of
        JNaN \<Rightarrow> JNaN
      | JInf True \<Rightarrow> JInf True
      | JInf False \<Rightarrow> JNaN
      | JNum x \<Rightarrow> if x < 0 then JNaN else if x = 0 then JNum 0 else JNum (of_nat logBase powi round_log x))"

definition times_base :: "nat \<Rightarrow> js_number \<Rightarrow> js_number" where
  "times_base logBase v = (case v of JNum x \<Rightarrow> JNum (x * of_nat logBase) | _ \<Rightarrow> v)"

definition adjustLogRange :: "min_max \<Rightarrow> nat \<Rightarrow> nat \<Rightarrow> min_max" where
  "adjustLogRange minMax logBase fnBase =
     (let currentMin = map_option (snap logBase (log_floor fnBase)) (fst minMax);
          currentMax = map_option (snap logBase (log_ceil fnBase)) (snd minMax)
      in (currentMin,
          map_option (\<lambda>mx. if currentMin = Some mx \<and> mx \<noteq> JNaN then times_base logBase mx else mx) currentMax))"

definition applyHardLimits :: "min_max \<Rightarrow> RangeFunctionParams \<Rightarrow> nat \<Rightarrow> min_max" where
  "applyHardLimits minMax params distr =
     (if distr \<noteq> 1 then minMax
      else
        (if rp_hardMinOnly params \<and> rp_min params \<noteq> None then map_option JNum (rp_min params) else fst minMax,
         if rp_hardMaxOnly params \<and> rp_max params \<noteq> None then map_option JNum (rp_max params) else snd minMax))"

fun js_ge :: "js_number \<Rightarrow> js_number \<Rightarrow> bool" where
  "js_ge (JNum a) (JNum b) = (a \<ge> b)"
| "js_ge JNaN _ = False"
| "js_ge _ JNaN = False"
| "js_ge (JInf a) (JInf b) = (a \<or> \<not> b)"
| "js_ge (JInf a) (JNum _) = a"
| "js_ge (JNum _) (JInf b) = (\<not> b)"

definition enforceValidRange :: "min_max \<Rightarrow> nat \<Rightarrow> min_max" where
  "enforceValidRange minMax distr =
     (case minMax of
        (Some a, Some b) \<Rightarrow> if js_ge a b then (Some (JNum (if distr = 3 then 1 else 0)), Some (JNum 100)) else minMax
      | _ \<Rightarrow> minMax)"

text \<open>\<open>distr\<close> and \<open>logBase\<close> are the fields of the scale, which may be absent.\<close>

definition createRangeFunction :: "(rat \<Rightarrow> rat \<Rightarrow> range_side \<times> range_side \<Rightarrow> min_max) \<Rightarrow>
    (rat \<Rightarrow> rat \<Rightarrow> nat \<Rightarrow> bool \<Rightarrow> min_max) \<Rightarrow> RangeFunctionParams \<Rightarrow> nat option \<Rightarrow> nat option \<Rightarrow>
    rat option \<Rightarrow> rat option \<Rightarrow> min_max" where
  "createRangeFunction rangeNum rangeLog params distr logBase dataMin dataMax =
     (case getInitialMinMax dataMin dataMax (rp_hasFixedRange params) of
        None \<Rightarrow> data_range dataMin dataMax
      | Some minMax \<Rightarrow>
          let minMax =
                (if distr = Some 1 then getLinearScaleRange rangeNum minMax params dataMin dataMax
                 else if distr = Some 3 then
                   adjustLogRange (getLogScaleRange rangeLog minMax params dataMin dataMax logBase)
                     (case logBase of None \<Rightarrow> 10 | Some l \<Rightarrow> l) (if logBase = Some 2 then 2 else 10)
                 else minMax);
              d = (case distr of None \<Rightarrow> 1 | Some d \<Rightarrow> d)
          in enforceValidRange (applyHardLimits minMax params d) d)"

section \<open>Thresholds\<close>

record Threshold =
  th_value :: "rat option"
  th_unit :: string

definition threshold_number :: "string \<Rightarrow> Threshold \<Rightarrow> rat option" where
  "threshold_number yAxisUnit t =
     (case th_value t of None \<Rightarrow> None | Some v \<Rightarrow> convertValue v (th_unit t) yAxisUnit)"

definition extend_range :: "rat option \<Rightarrow> rat option \<times> rat option \<Rightarrow> rat option \<times> rat option" where
  "extend_range c = (\<lambda>(mn, mx).
     case c of
       None \<Rightarrow> (mn, mx)
     | Some v \<Rightarrow>
         (if (case mn of None \<Rightarrow> True | Some m \<Rightarrow> v < m) then Some v else mn,
          if (case mx of None \<Rightarrow> True | Some m \<Rightarrow> v > m) then Some v else mx))"

definition findMinMaxThresholdValues :: "Threshold list \<Rightarrow> string \<Rightarrow> rat option \<times> rat option" where
  "findMinMaxThresholdValues thresholds yAxisUnit =
     fold (\<lambda>t. extend_range (threshold_number yAxisUnit t)) thresholds (None, None)"

definition adjustSoftLimitsWithThresholds ::
  "rat option \<Rightarrow> rat option \<Rightarrow> Threshold list \<Rightarrow> string \<Rightarrow> rat option \<times> rat option" where
  "adjustSoftLimitsWithThresholds softMin softMax thresholds yAxisUnit =
     (if thresholds = [] then (softMin, softMax)
      else case findMinMaxThresholdValues thresholds yAxisUnit of
        (None, None) \<Rightarrow> (softMin, softMax)
      | (mn, mx) \<Rightarrow>
          (case mn of None \<Rightarrow> softMin | Some m \<Rightarrow> Some (case softMin of None \<Rightarrow> m | Some s \<Rightarrow> min s m),
           case mx of None \<Rightarrow> softMax | Some m \<Rightarrow> Some (case softMax of None \<Rightarrow> m | Some s \<Rightarrow> max s m)))"

definition getFallbackMinMaxTimeStamp :: "int \<Rightarrow> int \<times> int" where
  "getFallbackMinMaxTimeStamp now = ((now - 86400000) div 1000, now div 1000)"

section \<open>The range of the older charts\<close>

text \<open>The \<^verbatim>\<open>series\<close> of an entry, if any, each the texts of its values.\<close>

type_synonym chart_entry = "string list list option"

definition MAX_SAFE_INTEGER :: rat where
  "MAX_SAFE_INTEGER = 2 ^ 53 - 1"

definition entry_texts :: "chart_entry list \<Rightarrow> string list" where
  "entry_texts data = concat (map (\<lambda>e. case e of None \<Rightarrow> [] | Some ss \<Rightarrow> concat ss) data)"

definition extend_finite :: "string \<Rightarrow> rat \<times> rat \<Rightarrow> rat \<times> rat" where
  "extend_finite s = (\<lambda>(mn, mx). case parseFloat s of JNum v \<Rightarrow> (min mn v, max mx v) | _ \<Rightarrow> (mn, mx))"

definition findMinMaxValues :: "chart_entry list \<Rightarrow> rat \<times> rat" where
  "findMinMaxValues data = fold extend_finite (entry_texts data) (MAX_SAFE_INTEGER, - MAX_SAFE_INTEGER)"

definition first_threshold :: "Threshold list \<Rightarrow> rat \<Rightarrow> rat" where
  "first_threshold thresholds d =
     (case th_value (hd thresholds) of None \<Rightarrow> d | Some v \<Rightarrow> if v = 0 then d else v)"

definition findMinMaxThresholdValues_old :: "Threshold list \<Rightarrow> string \<Rightarrow> rat \<times> rat" where
  "findMinMaxThresholdValues_old thresholds yAxisUnit =
     fold (\<lambda>t (mn, mx). case threshold_number yAxisUnit t of
         None \<Rightarrow> (mn, mx)
       | Some v \<Rightarrow> (min mn v, max mx v)) thresholds
       (first_threshold thresholds MAX_SAFE_INTEGER, first_threshold thresholds (- MAX_SAFE_INTEGER))"

definition getRange :: "Threshold list \<Rightarrow> chart_entry list \<Rightarrow> string \<Rightarrow> rat \<times> rat" where
  "getRange thresholds series yAxisUnit =
     (let (tmin, tmax) = findMinMaxThresholdValues_old thresholds yAxisUnit;
          (smin, smax) = findMinMaxValues series;
          mx = max tmax smax
      in (min tmin smin, if yAxisUnit = ''percentunit'' \<and> mx < 1 then 1 else mx))"

definition areAllSeriesEmpty :: "chart_entry list \<Rightarrow> bool" where
  "areAllSeriesEmpty series \<longleftrightarrow>
     list_all (\<lambda>e. case e of None \<Rightarrow> True | Some ss \<Rightarrow> list_all (\<lambda>s. s = []) ss) series"

datatype axis_scale = AutoScale | SoftRange "rat option" "rat option" | FixedRange rat rat

definition soft_only :: "rat option \<Rightarrow> rat option \<Rightarrow> axis_scale" where
  "soft_only softMin softMax =
     (case (softMin, softMax) of
        (Some a, None) \<Rightarrow> SoftRange (Some a) (Some (a + 100))
      | (None, Some b) \<Rightarrow> SoftRange (Some (b - 100)) (Some b)
      | (Some a, Some b) \<Rightarrow> SoftRange (Some a) (Some b)
      | (None, None) \<Rightarrow> AutoScale)"

text \<open>The end common to three branches: the soft limits extend the range, and a range of one point
  becomes automatic.\<close>

definition with_soft :: "rat option \<Rightarrow> rat option \<Rightarrow> rat \<times> rat \<Rightarrow> axis_scale" where
  "with_soft softMin softMax r =
     (let mn = (case softMin of None \<Rightarrow> fst r | Some s \<Rightarrow> min (fst r) s);
          mx = (case softMax of None \<Rightarrow> snd r | Some s \<Rightarrow> max (snd r) s)
      in if mn = mx then AutoScale else FixedRange mn mx)"

text \<open>Absent thresholds or series are empty lists.  The branches for thresholds without elements and for
  series that are all empty, which the code repeats below its first test, cannot be reached.\<close>

definition getYAxisScale :: "Threshold list \<Rightarrow> chart_entry list \<Rightarrow> string \<Rightarrow> rat option \<Rightarrow> rat option \<Rightarrow> axis_scale" where
  "getYAxisScale thresholds series yAxisUnit softMin softMax =
     (if thresholds = [] \<and> areAllSeriesEmpty series then soft_only softMin softMax
      else if thresholds = [] then
        (if softMax = softMin then AutoScale
         else with_soft softMin softMax (findMinMaxValues series))
      else if areAllSeriesEmpty series then
        with_soft softMin softMax (findMinMaxThresholdValues_old thresholds yAxisUnit)
      else with_soft softMin softMax (getRange thresholds series yAxisUnit))"

section \<open>Lemmas\<close>

lemma of_nat_floor: "1 \<le> (v :: rat) \<Longrightarrow> of_nat (nat \<lfloor>v\<rfloor>) \<le> v \<and> v < of_nat (nat \<lfloor>v\<rfloor>) + 1 \<and> 0 < nat \<lfloor>v\<rfloor>"
  by (auto simp: of_nat_nat) linarith+

lemma of_nat_less_power: "(x :: nat) < b ^ n \<longleftrightarrow> (of_nat x :: rat) + 1 \<le> of_nat b ^ n"
  by (metis Suc_leI Suc_le_lessD of_nat_Suc of_nat_le_iff of_nat_power add.commute)

lemma log_floor_bounds:
  assumes "1 < b" "0 < v"
  shows "of_nat b powi log_floor b v \<le> v \<and> v < of_nat b powi (log_floor b v + 1)"
proof (cases "1 \<le> v")
  case True
  let ?n = "nat \<lfloor>v\<rfloor>"
  have f: "of_nat ?n \<le> v" "v < of_nat ?n + 1" "0 < ?n" using of_nat_floor [OF True] by auto
  have l: "b ^ (floorlog b ?n - 1) \<le> ?n" "?n < b ^ floorlog b ?n" using floorlog_bounds [OF f(3) assms(1)] by auto
  have pos: "1 \<le> floorlog b ?n" using f(3) assms(1) floorlog_eq_zero_iff [of b ?n] by linarith
  have e: "log_floor b v = int (floorlog b ?n - 1)" using True pos by (simp add: log_floor_def of_nat_diff)
  have "of_nat b ^ (floorlog b ?n - 1) \<le> v"
    using l(1) f(1) by (metis of_nat_le_iff of_nat_power order_trans)
  moreover have "v < of_nat b ^ floorlog b ?n" using l(2) f(2) of_nat_less_power [of ?n b "floorlog b ?n"] by linarith
  moreover have "log_floor b v + 1 = int (floorlog b ?n)" using e pos by simp
  ultimately show ?thesis unfolding e by (metis e power_int_of_nat)
next
  case False
  define u where "u = 1 / v"
  have u: "1 < u" using False assms(2) by (simp add: u_def)
  let ?m = "nat (\<lceil>u\<rceil> - 1)"
  have c: "u \<le> of_nat ?m + 1" "of_nat ?m < u" "0 < ?m"
    using u by (auto simp: of_nat_nat) linarith+
  let ?k = "floorlog b ?m"
  have l: "b ^ (?k - 1) \<le> ?m" "?m < b ^ ?k" using floorlog_bounds [OF c(3) assms(1)] by auto
  have pos: "1 \<le> ?k" using c(3) assms(1) floorlog_eq_zero_iff [of b ?m] by linarith
  have e: "log_floor b v = - int ?k" using False by (simp add: log_floor_def u_def)
  have "u \<le> of_nat b ^ ?k" using l(2) c(1) of_nat_less_power [of ?m b ?k] by linarith
  moreover have "of_nat b ^ (?k - 1) < u" using l(1) c(2) by (metis of_nat_le_iff of_nat_power le_less_trans)
  moreover have "0 < (of_nat b :: rat)" using assms(1) by simp
  ultimately have "1 / of_nat b ^ ?k \<le> v \<and> v < 1 / of_nat b ^ (?k - 1)"
    using assms(2) by (auto simp: u_def field_simps)
  moreover have "log_floor b v + 1 = - int (?k - 1)" using e pos by simp
  ultimately show ?thesis unfolding e by (metis e power_int_minus power_int_of_nat inverse_eq_divide)
qed

lemma log_ceil_bounds:
  assumes "1 < b" "0 < v"
  shows "v \<le> of_nat b powi log_ceil b v \<and> of_nat b powi (log_ceil b v - 1) < v"
proof -
  define f where "f = log_floor b (1 / v)"
  have "of_nat b powi f \<le> 1 / v" "1 / v < of_nat b powi (f + 1)"
    using log_floor_bounds [OF assms(1), of "1 / v"] assms(2) by (simp_all add: f_def)
  moreover have "(0 :: rat) < of_nat b powi k" for k using assms(1) by simp
  ultimately have "v \<le> inverse (of_nat b powi f)" "inverse (of_nat b powi (f + 1)) < v"
    using assms(2) by (simp_all add: field_simps)
  moreover have "log_ceil b v = - f" "log_ceil b v - 1 = - (f + 1)" by (simp_all add: log_ceil_def f_def)
  ultimately show ?thesis by (simp only: power_int_minus)
qed

lemma powi_le_exp: "1 < (x :: rat) \<Longrightarrow> x powi i \<le> x powi j \<Longrightarrow> i \<le> j"
  using power_int_strict_increasing [of j i x] by (meson linorder_not_le)

lemma extend_range_step:
  assumes "extend_range c (mn, mx) = (mn', mx')"
  shows "(\<forall>m. mn = Some m \<longrightarrow> (\<exists>m'. mn' = Some m' \<and> m' \<le> m)) \<and> (\<forall>m. mx = Some m \<longrightarrow> (\<exists>m'. mx' = Some m' \<and> m \<le> m'))
    \<and> (\<forall>v. c = Some v \<longrightarrow> (\<exists>a b. mn' = Some a \<and> mx' = Some b \<and> a \<le> v \<and> v \<le> b))"
  using assms by (cases c; cases mn; cases mx) (auto simp: extend_range_def split: if_splits)

lemma extend_range_fold:
  assumes "fold (\<lambda>t. extend_range (f t)) ts (mn, mx) = (mn', mx')"
  shows "(\<forall>m. mn = Some m \<longrightarrow> (\<exists>m'. mn' = Some m' \<and> m' \<le> m)) \<and> (\<forall>m. mx = Some m \<longrightarrow> (\<exists>m'. mx' = Some m' \<and> m \<le> m'))
    \<and> (\<forall>t \<in> set ts. \<forall>v. f t = Some v \<longrightarrow> (\<exists>a b. mn' = Some a \<and> mx' = Some b \<and> a \<le> v \<and> v \<le> b))"
  using assms
proof (induction ts arbitrary: mn mx)
  case (Cons t ts)
  obtain mn1 mx1 where e: "extend_range (f t) (mn, mx) = (mn1, mx1)" by fastforce
  with Cons.prems have "fold (\<lambda>t. extend_range (f t)) ts (mn1, mx1) = (mn', mx')" by simp
  note IH = Cons.IH [OF this]
  note extend_range_step [OF e]
  with IH show ?case by (fastforce intro: order_trans)
qed auto

lemma min_max_fold:
  fixes f :: "'a \<Rightarrow> rat option"
  assumes "fold (\<lambda>t (mn, mx). case f t of None \<Rightarrow> (mn, mx) | Some v \<Rightarrow> (min mn v, max mx v)) ts (a, b) = (mn, mx)"
  shows "mn \<le> a \<and> b \<le> mx \<and> (\<forall>t \<in> set ts. \<forall>v. f t = Some v \<longrightarrow> mn \<le> v \<and> v \<le> mx)"
  using assms
proof (induction ts arbitrary: a b)
  case (Cons t ts)
  then show ?case
    by (cases "f t") (fastforce intro: order_trans)+
qed simp

definition finite_value :: "string \<Rightarrow> rat option" where
  "finite_value s = (case parseFloat s of JNum v \<Rightarrow> Some v | _ \<Rightarrow> None)"

lemma extend_finite_eq:
  "extend_finite s = (\<lambda>(mn, mx). case finite_value s of None \<Rightarrow> (mn, mx) | Some v \<Rightarrow> (min mn v, max mx v))"
  by (auto simp: extend_finite_def finite_value_def split: js_number.splits)

lemma findMinMaxValues_bounds:
  "findMinMaxValues data = (mn, mx) \<Longrightarrow> s \<in> set (entry_texts data) \<Longrightarrow> parseFloat s = JNum v \<Longrightarrow> mn \<le> v \<and> v \<le> mx"
  unfolding findMinMaxValues_def extend_finite_eq [abs_def]
  by (drule min_max_fold) (auto simp: finite_value_def)

lemma thresholds_old_bounds:
  "findMinMaxThresholdValues_old ts u = (mn, mx) \<Longrightarrow> t \<in> set ts \<Longrightarrow> threshold_number u t = Some v \<Longrightarrow> mn \<le> v \<and> v \<le> mx"
  unfolding findMinMaxThresholdValues_old_def by (drule min_max_fold) auto

lemma thresholds_old_first:
  assumes "findMinMaxThresholdValues_old ts u = (mn, mx)" "th_value (hd ts) = Some v" "v \<noteq> 0"
  shows "mn \<le> v \<and> v \<le> mx"
  using min_max_fold [OF assms(1) [unfolded findMinMaxThresholdValues_old_def]] assms(2,3)
  by (simp add: first_threshold_def)

lemma empty_series_texts: "areAllSeriesEmpty series \<Longrightarrow> entry_texts series = []"
  by (auto simp: areAllSeriesEmpty_def entry_texts_def list_all_iff split: option.splits)

lemma with_soft_fixed:
  assumes "with_soft softMin softMax (mn, mx) = FixedRange lo hi"
  shows "lo \<le> mn \<and> mx \<le> hi \<and> lo \<noteq> hi \<and> (\<forall>s. softMin = Some s \<longrightarrow> lo \<le> s) \<and> (\<forall>s. softMax = Some s \<longrightarrow> s \<le> hi)"
  using assms by (auto simp: with_soft_def Let_def split: if_splits option.splits)

text \<open>What a fixed range is computed from.\<close>

lemma fixed_range_cases:
  assumes "getYAxisScale thresholds series u softMin softMax = FixedRange lo hi"
  obtains mn mx where "with_soft softMin softMax (mn, mx) = FixedRange lo hi"
    "\<And>s v. s \<in> set (entry_texts series) \<Longrightarrow> parseFloat s = JNum v \<Longrightarrow> mn \<le> v \<and> v \<le> mx"
    "thresholds = [] \<or> (\<exists>a b. findMinMaxThresholdValues_old thresholds u = (a, b) \<and> mn \<le> a \<and> b \<le> mx)"
proof (cases "thresholds = []")
  case True
  with assms have "with_soft softMin softMax (findMinMaxValues series) = FixedRange lo hi"
    by (auto simp: getYAxisScale_def soft_only_def split: if_splits option.splits)
  with True findMinMaxValues_bounds show ?thesis by (cases "findMinMaxValues series") (auto intro!: that)
next
  case False
  obtain a b where ab: "findMinMaxThresholdValues_old thresholds u = (a, b)" by fastforce
  show ?thesis
  proof (cases "areAllSeriesEmpty series")
    case True
    with False assms ab have "with_soft softMin softMax (a, b) = FixedRange lo hi" by (auto simp: getYAxisScale_def)
    with ab empty_series_texts [OF True] show ?thesis by (auto intro!: that)
  next
    case nonempty: False
    obtain c d where cd: "findMinMaxValues series = (c, d)" by fastforce
    obtain mn mx where r: "getRange thresholds series u = (mn, mx)" by fastforce
    with ab cd have "mn \<le> a" "mn \<le> c" "b \<le> mx" "d \<le> mx"
      by (auto simp: getRange_def Let_def split: if_splits)
    moreover from False nonempty assms r have "with_soft softMin softMax (mn, mx) = FixedRange lo hi"
      by (auto simp: getYAxisScale_def)
    ultimately show ?thesis using ab findMinMaxValues_bounds [OF cd]
      by (intro that [of mn mx]) (auto intro: order_trans)
  qed
qed

text \<open>The numbers that are drawn: the finite values of the series and the thresholds in the unit of the axis.\<close>

definition shown_numbers :: "Threshold list \<Rightarrow> chart_entry list \<Rightarrow> string \<Rightarrow> rat set" where
  "shown_numbers thresholds series u =
     {v. \<exists>s \<in> set (entry_texts series). parseFloat s = JNum v} \<union> {c. \<exists>t \<in> set thresholds. threshold_number u t = Some c}"

definition first_raw :: "Threshold list \<Rightarrow> rat set" where
  "first_raw thresholds = (case thresholds of [] \<Rightarrow> {} | t # _ \<Rightarrow> set_option (th_value t))"

lemma min_max_fold_ends:
  fixes f :: "'a \<Rightarrow> rat option"
  assumes "fold (\<lambda>t (mn, mx). case f t of None \<Rightarrow> (mn, mx) | Some v \<Rightarrow> (min mn v, max mx v)) ts (a, b) = (mn, mx)"
  shows "mn \<in> insert a {v. \<exists>t \<in> set ts. f t = Some v} \<and> mx \<in> insert b {v. \<exists>t \<in> set ts. f t = Some v}"
  using assms
proof (induction ts arbitrary: a b)
  case (Cons t ts)
  then show ?case
  proof (cases "f t")
    case (Some v)
    with Cons.prems Cons.IH [of "min a v" "max b v"] show ?thesis by (auto simp: min_def max_def split: if_splits)
  qed auto
qed simp

lemma finite_value_Some: "finite_value s = Some v \<longleftrightarrow> parseFloat s = JNum v"
  by (auto simp: finite_value_def split: js_number.splits)

lemma value_ends:
  "findMinMaxValues series = (mn, mx) \<Longrightarrow>
   mn \<in> insert MAX_SAFE_INTEGER (shown_numbers ts series u) \<and> mx \<in> insert (- MAX_SAFE_INTEGER) (shown_numbers ts series u)"
  unfolding findMinMaxValues_def extend_finite_eq [abs_def]
  by (drule min_max_fold_ends) (auto simp: finite_value_Some shown_numbers_def)

lemma threshold_ends:
  assumes "findMinMaxThresholdValues_old ts u = (mn, mx)" "ts \<noteq> []"
  shows "mn \<in> insert MAX_SAFE_INTEGER (shown_numbers ts series u \<union> first_raw ts)
     \<and> mx \<in> insert (- MAX_SAFE_INTEGER) (shown_numbers ts series u \<union> first_raw ts)"
  using min_max_fold_ends [OF assms(1) [unfolded findMinMaxThresholdValues_old_def]] assms(2)
  by (cases ts) (auto simp: shown_numbers_def first_raw_def first_threshold_def split: option.splits if_splits)

lemma with_soft_ends:
  assumes "with_soft softMin softMax (mn, mx) = FixedRange lo hi"
  shows "lo \<in> insert mn (set_option softMin) \<and> hi \<in> insert mx (set_option softMax)"
  using assms by (auto simp: with_soft_def Let_def min_def max_def split: if_splits option.splits)

lemma fixed_range_ends:
  assumes "getYAxisScale thresholds series u softMin softMax = FixedRange lo hi"
  shows "lo \<in> insert MAX_SAFE_INTEGER (shown_numbers thresholds series u \<union> first_raw thresholds \<union> set_option softMin)
     \<and> hi \<in> insert (- MAX_SAFE_INTEGER) (shown_numbers thresholds series u \<union> first_raw thresholds \<union> set_option softMax
         \<union> (if u = ''percentunit'' then {1} else {}))"
proof (cases "thresholds = []")
  case True
  with assms have "with_soft softMin softMax (findMinMaxValues series) = FixedRange lo hi"
    by (auto simp: getYAxisScale_def soft_only_def split: if_splits option.splits)
  then show ?thesis
    using with_soft_ends value_ends by (cases "findMinMaxValues series") fastforce
next
  case False
  obtain a b where ab: "findMinMaxThresholdValues_old thresholds u = (a, b)" by fastforce
  note t = threshold_ends [OF ab False, of series]
  show ?thesis
  proof (cases "areAllSeriesEmpty series")
    case True
    with False assms ab have "with_soft softMin softMax (a, b) = FixedRange lo hi" by (auto simp: getYAxisScale_def)
    from with_soft_ends [OF this] t show ?thesis by fastforce
  next
    case nonempty: False
    obtain c d where cd: "findMinMaxValues series = (c, d)" by fastforce
    obtain mn mx where r: "getRange thresholds series u = (mn, mx)" by fastforce
    with ab cd have "mn \<in> {a, c}" "mx \<in> {b, d} \<union> (if u = ''percentunit'' then {1} else {})"
      by (auto simp: getRange_def Let_def min_def max_def split: if_splits)
    moreover from False nonempty assms r have "with_soft softMin softMax (mn, mx) = FixedRange lo hi"
      by (auto simp: getYAxisScale_def)
    note with_soft_ends [OF this]
    ultimately show ?thesis using t value_ends [OF cd, of thresholds u] by fastforce
  qed
qed

section \<open>Properties\<close>

text \<open>C39: On a logarithmic scale the range runs between two different powers of the base and contains the
  range that the charting package computes.\<close>

theorem log_range_powers:
  assumes "base = 2 \<or> base = 10" "or_else (rp_min params) dataMin = Some a" "or_else (rp_max params) dataMax = Some b"
    and "dataMin \<noteq> None \<or> dataMax \<noteq> None \<or> rp_hasFixedRange params"
    and "rangeLog a b base True = (Some (JNum lo), Some (JNum hi))" "0 < lo" "lo \<le> hi"
  shows "\<exists>i j. i < j \<and> of_nat base powi i \<le> lo \<and> hi \<le> of_nat base powi j
     \<and> createRangeFunction rangeNum rangeLog params (Some 3) (Some base) dataMin dataMax
         = (Some (JNum (of_nat base powi i)), Some (JNum (of_nat base powi j)))"
proof -
  have base: "1 < base" "1 < (of_nat base :: rat)" using assms(1) by auto
  define i where "i = log_floor base lo"
  define k where "k = log_ceil base hi"
  define j where "j = (if i = k then k + 1 else k)"
  have i: "of_nat base powi i \<le> lo" using log_floor_bounds [OF base(1) assms(6)] by (simp add: i_def)
  have k: "hi \<le> of_nat base powi k" using log_ceil_bounds [OF base(1), of hi] assms(6,7) by (simp add: k_def)
  have ik: "i \<le> k" using i k assms(7) powi_le_exp [OF base(2), of i k] by linarith
  then have ij: "i < j" by (auto simp: j_def)
  have jk: "of_nat base powi k \<le> (of_nat base powi j :: rat)"
    using base(2) by (intro power_int_increasing) (auto simp: j_def)
  have lt: "(of_nat base powi i :: rat) < of_nat base powi j" using power_int_strict_increasing [OF ij base(2)] .
  have eq: "(of_nat base powi i :: rat) = of_nat base powi k \<longleftrightarrow> i = k"
    using ik powi_le_exp [OF base(2), of k i] by (metis order_antisym order_refl)
  have pw: "of_nat base powi (k + 1) = of_nat base powi k * (of_nat base :: rat)"
    using base(2) by (intro power_int_add_1) simp
  have fn: "(if Some base = Some (2 :: nat) then 2 else 10) = base" using assms(1) by auto
  have "adjustLogRange (Some (JNum lo), Some (JNum hi)) base base = (Some (JNum (of_nat base powi i)), Some (JNum (of_nat base powi j)))"
    using assms(6,7) eq pw
    by (auto simp: adjustLogRange_def snap_def times_base_def i_def [symmetric] k_def [symmetric] j_def Let_def)
  then have "createRangeFunction rangeNum rangeLog params (Some 3) (Some base) dataMin dataMax
      = (Some (JNum (of_nat base powi i)), Some (JNum (of_nat base powi j)))"
    using assms(2-5) lt
    by (auto simp: createRangeFunction_def getInitialMinMax_def getLogScaleRange_def fn [simplified] applyHardLimits_def
        enforceValidRange_def data_range_def Let_def)
  with ij i k jk show ?thesis by (meson order_trans)
qed

definition free_params :: RangeFunctionParams where
  "free_params = getRangeConfig None None None None 0 0"

theorem log_range_powers_witness:
  "\<exists>i j. i < j \<and> 10 powi i \<le> (3 :: rat) \<and> 250 \<le> (10 :: rat) powi j
     \<and> createRangeFunction (\<lambda>_ _ _. (None, None)) (\<lambda>a b _ _. (Some (JNum a), Some (JNum b))) free_params (Some 3) (Some 10) (Some 3) (Some 250)
         = (Some (JNum (10 powi i)), Some (JNum (10 powi j)))"
  using log_range_powers [of 10 free_params "Some 3" 3 "Some 250" 250 "\<lambda>a b _ _. (Some (JNum a), Some (JNum b))" 3 250]
  by (simp add: free_params_def getRangeConfig_def or_else_def)

text \<open>The adjusted soft limits contain every threshold that can be converted to the unit of the axis, and the
  soft limits given.\<close>

theorem soft_limits_contain:
  assumes "adjustSoftLimitsWithThresholds softMin softMax thresholds u = (lo, hi)"
    and "t \<in> set thresholds" "threshold_number u t = Some c"
  shows "\<exists>l h. lo = Some l \<and> hi = Some h \<and> l \<le> c \<and> c \<le> h
     \<and> (\<forall>s. softMin = Some s \<longrightarrow> l \<le> s) \<and> (\<forall>s. softMax = Some s \<longrightarrow> s \<le> h)"
proof -
  obtain mn mx where r: "findMinMaxThresholdValues thresholds u = (mn, mx)" by fastforce
  with assms(2,3) obtain a b where "mn = Some a" "mx = Some b" "a \<le> c" "c \<le> b"
    using extend_range_fold [of "threshold_number u" thresholds None None mn mx]
    unfolding findMinMaxThresholdValues_def by blast
  with assms r show ?thesis
    by (auto simp: adjustSoftLimitsWithThresholds_def split: if_splits option.splits)
qed

lemma threshold_3_Mbit: "threshold_number ''Gbit'' \<lparr> th_value = Some 3, th_unit = ''Mbit'' \<rparr> = Some (3 / 1000)"
  by (simp add: threshold_number_def kbit_Mbit)

theorem soft_limits_contain_witness:
  "\<exists>l. fst (adjustSoftLimitsWithThresholds (Some 1) None [\<lparr> th_value = Some 3, th_unit = ''Mbit'' \<rparr>] ''Gbit'') = Some l \<and> l \<le> 3 / 1000"
proof (cases "adjustSoftLimitsWithThresholds (Some 1) None [\<lparr> th_value = Some 3, th_unit = ''Mbit'' \<rparr>] ''Gbit''")
  case (Pair lo hi)
  from soft_limits_contain [OF Pair _ threshold_3_Mbit] Pair show ?thesis by auto
qed

text \<open>C40: A fixed range of the older charts contains every finite value of the series and every threshold that can be
  converted to the unit of the axis, and is not empty if there is one of them.  It starts at the soft minimum or below it and
  ends at the soft maximum or above it.  Each end is one of these numbers, the soft limit of its side or the first threshold
  as it is written; the upper end also 1 for a percentage; and without such a number the lower end is the greatest safe
  integer and the upper end its negative, so that the range may be empty.\<close>

theorem y_axis_contains:
  assumes "getYAxisScale thresholds series u softMin softMax = FixedRange lo hi"
  shows "(\<forall>v \<in> shown_numbers thresholds series u. lo \<le> v \<and> v \<le> hi)
     \<and> (shown_numbers thresholds series u \<noteq> {} \<longrightarrow> lo < hi)
     \<and> (\<forall>s. softMin = Some s \<longrightarrow> lo \<le> s) \<and> (\<forall>s. softMax = Some s \<longrightarrow> s \<le> hi)
     \<and> lo \<in> insert MAX_SAFE_INTEGER (shown_numbers thresholds series u \<union> first_raw thresholds \<union> set_option softMin)
     \<and> hi \<in> insert (- MAX_SAFE_INTEGER) (shown_numbers thresholds series u \<union> first_raw thresholds \<union> set_option softMax
         \<union> (if u = ''percentunit'' then {1} else {}))"
  using assms
proof (rule fixed_range_cases)
  fix mn mx
  assume w: "with_soft softMin softMax (mn, mx) = FixedRange lo hi"
    and v: "\<And>s v. s \<in> set (entry_texts series) \<Longrightarrow> parseFloat s = JNum v \<Longrightarrow> mn \<le> v \<and> v \<le> mx"
    and th: "thresholds = [] \<or> (\<exists>a b. findMinMaxThresholdValues_old thresholds u = (a, b) \<and> mn \<le> a \<and> b \<le> mx)"
  have "mn \<le> c \<and> c \<le> mx" if "t \<in> set thresholds" "threshold_number u t = Some c" for t c
    using th that thresholds_old_bounds by fastforce
  with v have "mn \<le> n \<and> n \<le> mx" if "n \<in> shown_numbers thresholds series u" for n
    using that by (auto simp: shown_numbers_def)
  with with_soft_fixed [OF w] have n: "\<forall>n \<in> shown_numbers thresholds series u. lo \<le> n \<and> n \<le> hi" by (meson order_trans)
  moreover have "lo < hi" if "shown_numbers thresholds series u \<noteq> {}"
    using that n with_soft_fixed [OF w] by (metis all_not_in_conv antisym_conv2 order_trans)
  ultimately show ?thesis using with_soft_fixed [OF w] fixed_range_ends [OF assms] by simp
qed

lemma fixed_sample: "getYAxisScale [\<lparr> th_value = Some 3, th_unit = ''Mbit'' \<rparr>] [Some [[''5'']]] ''Gbit'' None (Some 9)
    = FixedRange (3 / 1000) 9"
proof -
  have "parseFloat ''5'' = JNum 5" by code_simp
  with threshold_3_Mbit show ?thesis
    by (simp add: getYAxisScale_def areAllSeriesEmpty_def getRange_def findMinMaxThresholdValues_old_def first_threshold_def
        findMinMaxValues_def entry_texts_def extend_finite_def with_soft_def MAX_SAFE_INTEGER_def)
qed

theorem y_axis_contains_witness:
  "\<exists>c. threshold_number ''Gbit'' \<lparr> th_value = Some 3, th_unit = ''Mbit'' \<rparr> = Some c \<and> 3 / 1000 \<le> c \<and> c \<le> 9"
  by (rule exI [of _ "3 / 1000"]) (use y_axis_contains [OF fixed_sample] threshold_3_Mbit in \<open>simp add: shown_numbers_def\<close>)

text \<open>The range of the older charts also contains the first threshold's number as it is written, in whatever
  unit; and a series without finite values gives a range whose lower end is above its upper end.\<close>

theorem y_axis_first_threshold_raw:
  assumes "getYAxisScale (t # ts) series u softMin softMax = FixedRange lo hi" "th_value t = Some v" "v \<noteq> 0"
  shows "lo \<le> v \<and> v \<le> hi
     \<and> getYAxisScale [] [Some [[''NaN'']]] u (Some 0) None = FixedRange 0 (- MAX_SAFE_INTEGER)"
proof -
  have "getYAxisScale [] [Some [[''NaN'']]] u (Some 0) None = FixedRange 0 (- MAX_SAFE_INTEGER)"
  proof -
    have "parseFloat ''NaN'' = JNaN" by code_simp
    then show ?thesis
      by (simp add: getYAxisScale_def areAllSeriesEmpty_def findMinMaxValues_def entry_texts_def extend_finite_def
          with_soft_def MAX_SAFE_INTEGER_def)
  qed
  moreover from assms(1) have "lo \<le> v \<and> v \<le> hi"
    by (rule fixed_range_cases) (use assms(2,3) thresholds_old_first with_soft_fixed in \<open>fastforce intro: order_trans\<close>)
  ultimately show ?thesis by blast
qed

theorem y_axis_first_threshold_raw_witness: "3 / 1000 \<le> (3 :: rat) \<and> (3 :: rat) \<le> 9"
  using y_axis_first_threshold_raw [OF fixed_sample] by simp

end
