(* ===== verification/FilterLexer.thy ===== *)
theory FilterLexer
  imports JsString
begin

text \<open>
  The tokens of a filter expression of the query builder, by the lexer rules of
  \<^verbatim>\<open>grammar/FilterQuery.g4\<close>: the longest match wins, and the earlier rule among equally long ones.  The
  lexer class is generated from the grammar; the components that use it take it as an argument,
  and \<open>lex\<close> is what the grammar prescribes.  A text with a character that no rule accepts has no value
  here: what the lexer's runtime does then is not in the grammar.
\<close>

section \<open>Tokens\<close>

datatype token_type = LPAREN | RPAREN | LBRACK | RBRACK | COMMA
  | EQUALS | NOT_EQUALS | NEQ | LT | LE | GT | GE
  | LIKE | ILIKE | BETWEEN | EXISTS | REGEXP | CONTAINS | IN
  | NOT | AND | OR | HASTOKEN | HAS | HASANY | HASALL
  | BOOL | NUMBER | QUOTED_TEXT | KEY | FREETEXT | EOF

record IToken =
  tk_type :: token_type
  tk_text :: string
  tk_start :: nat
  tk_stop :: nat

definition keyword_types :: "(string \<times> token_type) list" where
  "keyword_types = [(''like'', LIKE), (''ilike'', ILIKE), (''between'', BETWEEN), (''exist'', EXISTS), (''exists'', EXISTS),
     (''regexp'', REGEXP), (''contain'', CONTAINS), (''contains'', CONTAINS), (''in'', IN), (''not'', NOT),
     (''and'', AND), (''or'', OR), (''hastoken'', HASTOKEN), (''has'', HAS), (''hasany'', HASANY),
     (''hasall'', HASALL), (''true'', BOOL), (''false'', BOOL)]"

section \<open>Lengths of matches\<close>

definition is_letter :: "char \<Rightarrow> bool" where
  "is_letter c \<longleftrightarrow> (CHR ''a'' \<le> c \<and> c \<le> CHR ''z'') \<or> (CHR ''A'' \<le> c \<and> c \<le> CHR ''Z'')"

definition seg_start :: "char \<Rightarrow> bool" where
  "seg_start c \<longleftrightarrow> is_letter c \<or> c \<in> set ''$_@#{''"

definition seg_char :: "char \<Rightarrow> bool" where
  "seg_char c \<longleftrightarrow> is_letter c \<or> is_digit c \<or> c \<in> set ''$_@#{}:-/''"

definition is_ws :: "char \<Rightarrow> bool" where
  "is_ws c \<longleftrightarrow> c \<in> {CHR '' '', CHR 0x09, CHR 0x0D, CHR 0x0A}"

definition free_char :: "char \<Rightarrow> bool" where
  "free_char c \<longleftrightarrow> \<not> is_ws c \<and> c \<notin> {CHR ''='', CHR ''('', CHR '')'', CHR 0x27, CHR 0x22, CHR ''<'', CHR ''>'',
     CHR ''!'', CHR '','', CHR ''['', CHR '']''}"

text \<open>The repetition in \<^verbatim>\<open>KEY\<close>.\<close>

function key_tail :: "string \<Rightarrow> nat" where
  "key_tail s =
     (case s of
        [] \<Rightarrow> 0
      | [_] \<Rightarrow> 0
      | c # d # cs \<Rightarrow>
          if c = CHR ''.'' \<and> seg_start d then 2 + length (takeWhile seg_char cs) + key_tail (dropWhile seg_char cs)
          else if c = CHR ''.'' \<and> is_digit d then 2 + length (takeWhile is_digit cs) + key_tail (dropWhile is_digit cs)
          else if c = CHR ''['' \<and> d = CHR '']'' then 2 + key_tail cs
          else if c = CHR ''['' \<and> d = CHR ''*'' \<and> cs \<noteq> [] \<and> hd cs = CHR '']'' then 3 + key_tail (tl cs)
          else 0)"
  by pat_completeness auto
termination
  by (relation "measure length") (auto simp: less_Suc_eq_le intro: le_trans length_dropWhile_le)

declare key_tail.simps [simp del]

definition key_length :: "string \<Rightarrow> nat" where
  "key_length s =
     (case s of
        [] \<Rightarrow> 0
      | c # cs \<Rightarrow> if seg_start c then 1 + length (takeWhile seg_char cs) + key_tail (dropWhile seg_char cs) else 0)"

definition exponent_length :: "string \<Rightarrow> nat" where
  "exponent_length s =
     (case s of
        [] \<Rightarrow> 0
      | e # cs \<Rightarrow>
          if e = CHR ''e'' \<or> e = CHR ''E'' then
            (let ds = takeWhile is_digit (strip_sign cs)
             in if ds = [] then 0 else 1 + (length cs - length (strip_sign cs)) + length ds)
          else 0)"

definition number_length :: "string \<Rightarrow> nat" where
  "number_length s =
     (let u = strip_sign s; sign = length s - length u;
          ds = takeWhile is_digit u; rest = dropWhile is_digit u;
          fs = (if rest \<noteq> [] \<and> hd rest = CHR ''.'' then takeWhile is_digit (tl rest) else []);
          dot = (if rest \<noteq> [] \<and> hd rest = CHR ''.'' \<and> (ds \<noteq> [] \<or> fs \<noteq> []) then 1 else 0)
      in if ds = [] \<and> fs = [] then 0
         else let n = sign + length ds + dot + length fs in n + exponent_length (drop n s))"

fun quoted_body :: "char \<Rightarrow> string \<Rightarrow> nat option" where
  "quoted_body q [] = None"
| "quoted_body q (c # cs) =
     (if c = q then Some 1
      else if c = CHR 0x5C then (case cs of [] \<Rightarrow> None | _ # ds \<Rightarrow> map_option (\<lambda>n. n + 2) (quoted_body q ds))
      else map_option Suc (quoted_body q cs))"

section \<open>The lexer\<close>

definition word_token :: "string \<Rightarrow> (token_type \<times> nat) option" where
  "word_token s =
     (let k = key_length s; n = number_length s; f = length (takeWhile free_char s); m = max k (max n f)
      in if m = 0 then None
         else if k = m \<and> map_of keyword_types (toLowerCase (take k s)) \<noteq> None
              then Some (the (map_of keyword_types (toLowerCase (take k s))), m)
         else if n = m then Some (NUMBER, m)
         else if k = m then Some (KEY, m)
         else Some (FREETEXT, m))"

definition next_token :: "string \<Rightarrow> (token_type \<times> nat) option" where
  "next_token s =
     (case s of
        [] \<Rightarrow> None
      | c # cs \<Rightarrow>
          let followed = (\<lambda>d. cs \<noteq> [] \<and> hd cs = d)
          in if c = CHR ''('' then Some (LPAREN, 1)
             else if c = CHR '')'' then Some (RPAREN, 1)
             else if c = CHR ''['' then Some (LBRACK, 1)
             else if c = CHR '']'' then Some (RBRACK, 1)
             else if c = CHR '','' then Some (COMMA, 1)
             else if c = CHR ''='' then Some (EQUALS, if followed (CHR ''='') then 2 else 1)
             else if c = CHR ''!'' then (if followed (CHR ''='') then Some (NOT_EQUALS, 2) else None)
             else if c = CHR ''<'' then
               Some (if followed (CHR ''>'') then (NEQ, 2) else if followed (CHR ''='') then (LE, 2) else (LT, 1))
             else if c = CHR ''>'' then Some (if followed (CHR ''='') then (GE, 2) else (GT, 1))
             else if c = CHR 0x22 \<or> c = CHR 0x27 then map_option (\<lambda>n. (QUOTED_TEXT, Suc n)) (quoted_body c cs)
             else word_token s)"

lemma next_token_positive: "next_token s = Some (t, n) \<Longrightarrow> 0 < n"
  by (auto simp: next_token_def word_token_def Let_def split: list.splits if_splits)

text \<open>The tokens of \<open>s\<close>, which starts at position \<open>p\<close> of the input, with the end of the input.\<close>

function lex_from :: "nat \<Rightarrow> string \<Rightarrow> IToken list option" where
  "lex_from p s =
     (case s of
        [] \<Rightarrow> Some [\<lparr> tk_type = EOF, tk_text = ''<EOF>'', tk_start = p, tk_stop = p - 1 \<rparr>]
      | c # cs \<Rightarrow>
          if is_ws c then lex_from (Suc p) cs
          else case next_token s of
            None \<Rightarrow> None
          | Some (t, n) \<Rightarrow>
              map_option (\<lambda>ts. \<lparr> tk_type = t, tk_text = take n s, tk_start = p, tk_stop = p + n - 1 \<rparr> # ts)
                (lex_from (p + n) (drop n s)))"
  by pat_completeness auto
termination
  by (relation "measure (\<lambda>(p, s). length s)") (auto dest: next_token_positive)

declare lex_from.simps [simp del]

definition lex :: "string \<Rightarrow> IToken list option" where
  "lex s = lex_from 0 s"

end
