(* ===== verification/QueryPairs.thy ===== *)
theory QueryPairs
  imports FilterLexer
begin

text \<open>
  The comparisons of a filter expression as the query builder reads them off the tokens:
  \<^verbatim>\<open>extractQueryPairs\<close> of \<^verbatim>\<open>frontend/src/utils/queryContextUtils.ts\<close>, with the token classes of
  \<^verbatim>\<open>frontend/src/utils/tokenUtils.ts\<close>.  The tokens are those of the generated lexer, which ends with the
  end of the input and drops white space.  An exception, which the code catches, is \<open>None\<close>.
\<close>

section \<open>Token and operator classes\<close>

definition isOperatorToken :: "token_type \<Rightarrow> bool" where
  "isOperatorToken t \<longleftrightarrow> t \<in> {EQUALS, NOT_EQUALS, NEQ, LT, LE, GT, GE, LIKE, ILIKE, BETWEEN, EXISTS, REGEXP, CONTAINS, IN, NOT}"

definition isValueToken :: "token_type \<Rightarrow> bool" where
  "isValueToken t \<longleftrightarrow> t \<in> {QUOTED_TEXT, NUMBER, BOOL, KEY}"

definition isConjunctionToken :: "token_type \<Rightarrow> bool" where
  "isConjunctionToken t \<longleftrightarrow> t \<in> {AND, OR}"

definition isMultiValueOperator :: "string \<Rightarrow> bool" where
  "isMultiValueOperator operatorToken \<longleftrightarrow> toUpperCase operatorToken = ''IN''"

definition NON_VALUE_OPERATORS :: "string list" where
  "NON_VALUE_OPERATORS = [''EXISTS'']"

definition isNonValueOperator :: "string \<Rightarrow> bool" where
  "isNonValueOperator operator =
     (let upperOperator = toUpperCase operator
      in if upperOperator \<in> set NON_VALUE_OPERATORS then True
         else if starts_with upperOperator ''NOT'' then js_trim (drop 4 upperOperator) \<in> set NON_VALUE_OPERATORS
         else False)"

definition function_names :: "string list" where
  "function_names = [''has'', ''hasAny'', ''hasAll'', ''hasToken'']"

definition isFunctionOperator :: "string \<Rightarrow> bool" where
  "isFunctionOperator operator =
     (let sanitizedOperator = js_trim operator
      in if list_ex (\<lambda>func. toLowerCase func = toLowerCase sanitizedOperator) function_names then True
         else if starts_with (toUpperCase sanitizedOperator) ''NOT''
              then list_ex (\<lambda>func. toLowerCase func = toLowerCase (drop 4 sanitizedOperator)) function_names
         else False)"

section \<open>Pairs\<close>

record pair_position =
  pp_keyStart :: nat
  pp_keyEnd :: nat
  pp_operatorStart :: nat
  pp_operatorEnd :: nat
  pp_valueStart :: "nat option"
  pp_valueEnd :: "nat option"
  pp_negationStart :: nat
  pp_negationEnd :: nat

text \<open>A pair in progress has the same fields as a finished one; an operator not yet read is empty.\<close>

record IQueryPair =
  qp_key :: string
  qp_operator :: string
  qp_value :: "string option"
  qp_valueList :: "string list"
  qp_valuesPosition :: "(nat \<times> nat) list"
  qp_hasNegation :: bool
  qp_isMultiValue :: bool
  qp_position :: pair_position

definition new_pair :: "IToken \<Rightarrow> IQueryPair" where
  "new_pair t = \<lparr> qp_key = tk_text t, qp_operator = [], qp_value = None, qp_valueList = [], qp_valuesPosition = [],
     qp_hasNegation = False, qp_isMultiValue = False,
     qp_position = \<lparr> pp_keyStart = tk_start t, pp_keyEnd = tk_stop t, pp_operatorStart = 0, pp_operatorEnd = 0,
       pp_valueStart = None, pp_valueEnd = None, pp_negationStart = 0, pp_negationEnd = 0 \<rparr> \<rparr>"

definition isComplete :: "IQueryPair \<Rightarrow> bool" where
  "isComplete p \<longleftrightarrow> qp_key p \<noteq> [] \<and> qp_operator p \<noteq> [] \<and> qp_value p \<noteq> None \<and> qp_value p \<noteq> Some []"

section \<open>Reading the tokens\<close>

text \<open>The loop up to the closing bracket, which is left to the main loop.\<close>

fun bracket_values :: "token_type \<Rightarrow> IToken list \<Rightarrow> (IToken list \<times> IToken list) option" where
  "bracket_values closing [] = None"
| "bracket_values closing (t # ts) =
     (if tk_type t = closing then Some ([], t # ts)
      else map_option (\<lambda>(vs, rest). (if isValueToken (tk_type t) then t # vs else vs, rest)) (bracket_values closing ts))"

text \<open>The values after \<^verbatim>\<open>IN\<close>, where they start and end, and the tokens left.\<close>

definition multi_values :: "IToken list \<Rightarrow> (IToken list \<times> (nat \<times> nat) option \<times> IToken list) option" where
  "multi_values ts =
     (case ts of
        [] \<Rightarrow> None
      | t # ts' \<Rightarrow>
          if tk_type t = LPAREN \<or> tk_type t = LBRACK then
            (case bracket_values (if tk_type t = LPAREN then RPAREN else RBRACK) ts' of
               None \<Rightarrow> None
             | Some (vs, rest) \<Rightarrow> Some (vs, Some (tk_start t, tk_stop (hd rest)), rest))
          else if isValueToken (tk_type t) then Some ([t], Some (tk_start t, tk_stop t), ts')
          else Some ([], None, ts))"

lemma bracket_values_length: "bracket_values c ts = Some (vs, rest) \<Longrightarrow> length rest \<le> length ts"
  by (induction ts arbitrary: vs) (auto split: if_splits)

lemma multi_values_length: "multi_values ts = Some (vs, se, rest) \<Longrightarrow> length rest \<le> length ts"
  by (auto simp: multi_values_def dest: bracket_values_length split: list.splits if_splits option.splits)

definition or_nonzero :: "nat option \<Rightarrow> nat option \<Rightarrow> nat option" where
  "or_nonzero a b = (if a = None \<or> a = Some 0 then b else a)"

text \<open>\<^verbatim>\<open>query.substring(i, j + 1)\<close> for \<open>i \<le> j + 1\<close>.\<close>

definition text_between :: "string \<Rightarrow> nat \<Rightarrow> nat \<Rightarrow> string" where
  "text_between query i j = take (Suc j - i) (drop i query)"

definition with_values :: "string \<Rightarrow> IToken list \<Rightarrow> (nat \<times> nat) option \<Rightarrow> IQueryPair \<Rightarrow> IQueryPair" where
  "with_values query vs se p =
     p\<lparr> qp_isMultiValue := True, qp_valueList := map tk_text vs,
        qp_valuesPosition := map (\<lambda>t. (tk_start t, tk_stop t)) vs,
        qp_value := (case se of
           Some (s, e) \<Rightarrow> if s \<noteq> 0 \<and> e \<noteq> 0 then Some (text_between query s e) else qp_value p
         | None \<Rightarrow> qp_value p) \<rparr>"

definition with_operator :: "IToken \<Rightarrow> (nat \<times> nat) option \<Rightarrow> IQueryPair \<Rightarrow> IQueryPair" where
  "with_operator t se p =
     p\<lparr> qp_operator := tk_text t,
        qp_position := (qp_position p)\<lparr> pp_operatorStart := tk_start t, pp_operatorEnd := tk_stop t,
          pp_valueStart := or_nonzero (map_option fst se) (pp_valueStart (qp_position p)),
          pp_valueEnd := or_nonzero (map_option snd se) (pp_valueEnd (qp_position p)) \<rparr> \<rparr>"

definition with_negation :: "IToken \<Rightarrow> IQueryPair \<Rightarrow> IQueryPair" where
  "with_negation t p =
     p\<lparr> qp_hasNegation := True,
        qp_position := (qp_position p)\<lparr> pp_negationStart := tk_start t, pp_negationEnd := tk_stop t \<rparr> \<rparr>"

definition with_value :: "IToken \<Rightarrow> IQueryPair \<Rightarrow> IQueryPair" where
  "with_value t p =
     p\<lparr> qp_value := Some (tk_text t),
        qp_position := (qp_position p)\<lparr> pp_valueStart := Some (tk_start t), pp_valueEnd := Some (tk_stop t) \<rparr> \<rparr>"

definition has_key :: "IQueryPair option \<Rightarrow> bool" where
  "has_key cur \<longleftrightarrow> (case cur of None \<Rightarrow> False | Some p \<Rightarrow> qp_key p \<noteq> [])"

definition finished :: "IQueryPair option \<Rightarrow> IQueryPair list" where
  "finished cur = (if has_key cur then [the cur] else [])"

definition expects_value :: "IQueryPair option \<Rightarrow> bool" where
  "expects_value cur \<longleftrightarrow> has_key cur \<and> qp_operator (the cur) \<noteq> [] \<and> \<not> isNonValueOperator (qp_operator (the cur))
     \<and> (qp_value (the cur) = None \<or> qp_value (the cur) = Some [])"

text \<open>The main loop: the tokens to come, the current pair and the pairs found.\<close>

function extract_pairs :: "string \<Rightarrow> IToken list \<Rightarrow> IQueryPair option \<Rightarrow> IQueryPair list \<Rightarrow> IQueryPair list option" where
  "extract_pairs query [] cur found = Some (found @ finished cur)"
| "extract_pairs query (t # ts) cur found =
     (if tk_type t = EOF then extract_pairs query ts cur found
      else if tk_type t = KEY \<and> \<not> has_key cur then extract_pairs query ts (Some (new_pair t)) found
      else if tk_type t = NOT \<and> cur \<noteq> None then extract_pairs query ts (Some (with_negation t (the cur))) found
      else if isOperatorToken (tk_type t) \<and> has_key cur \<and> qp_operator (the cur) = [] then
        (if isMultiValueOperator (tk_text t) then
           (case multi_values ts of
              None \<Rightarrow> None
            | Some (vs, se, rest) \<Rightarrow>
                extract_pairs query rest (Some (with_operator t se (with_values query vs se (the cur)))) found)
         else extract_pairs query ts (Some (with_operator t None (the cur))) found)
      else if isValueToken (tk_type t) \<and> expects_value cur then
        extract_pairs query ts (Some (with_value t (the cur))) found
      else if has_key cur \<and> (isConjunctionToken (tk_type t) \<or> tk_type t = KEY) then
        extract_pairs query ts (if tk_type t = KEY then Some (new_pair t) else None) (found @ finished cur)
      else extract_pairs query ts cur found)"
  by pat_completeness auto
termination
  by (relation "measure (\<lambda>(query, ts, cur, found). length ts)") (auto dest: multi_values_length)

declare extract_pairs.simps(2) [simp del]

definition extractQueryPairs :: "(string \<Rightarrow> IToken list) \<Rightarrow> string \<Rightarrow> IQueryPair list" where
  "extractQueryPairs lexer query = (case extract_pairs query (lexer query) None [] of None \<Rightarrow> [] | Some ps \<Rightarrow> ps)"

end
