(* ===== verification/FilterExpression.thy ===== *)
theory FilterExpression
  imports QueryPairs JsNumber
begin

text \<open>
  Filters of the query builder and filter expressions: the conversions of
  \<^verbatim>\<open>frontend/src/components/QueryBuilderV2/utils.ts\<close>, with \<^verbatim>\<open>frontend/src/utils/stringUtils.ts\<close> and the
  operators of \<^verbatim>\<open>frontend/src/constants/antlrQueryConstants.ts\<close>.  Of a filter's key only the name is kept,
  and generated identifiers are left out.
\<close>

section \<open>Values and operators\<close>

datatype filter_scalar = VStr string | VNum js_number | VBool bool

datatype filter_value = VOne filter_scalar | VMany "filter_scalar list"

record TagFilterItem =
  fi_key :: string
  fi_op :: string
  fi_value :: filter_value

definition DEPRECATED_OPERATORS_MAP :: "(string \<times> string) list" where
  "DEPRECATED_OPERATORS_MAP = [(''regex'', ''REGEXP''), (''nin'', ''NOT IN''), (''nregex'', ''NOT REGEXP''),
     (''nlike'', ''NOT LIKE''), (''nilike'', ''NOT ILIKE''), (''nexists'', ''NOT EXISTS''),
     (''ncontains'', ''NOT CONTAINS''), (''nhas'', ''NOT has''), (''nhasany'', ''NOT hasAny''),
     (''nhasall'', ''NOT hasAll'')]"

definition current_operator :: "string \<Rightarrow> string" where
  "current_operator op = (case map_of DEPRECATED_OPERATORS_MAP op of None \<Rightarrow> op | Some new \<Rightarrow> new)"

definition unquote :: "string \<Rightarrow> string" where
  "unquote str =
     (let trimmed = js_trim str
      in if trimmed \<noteq> [] \<and> (hd trimmed = CHR 0x22 \<or> hd trimmed = CHR 0x27) \<and> hd trimmed = last trimmed
         then tl (butlast trimmed) else trimmed)"

text \<open>\<^verbatim>\<open>/^(["'`])(.*)\1$/\<close>: the dot does not match the end of a line.\<close>

definition isQuoted :: "string \<Rightarrow> bool" where
  "isQuoted str =
     (let trimmed = js_trim str
      in 2 \<le> length trimmed \<and> hd trimmed \<in> {CHR 0x22, CHR 0x27, CHR 0x60} \<and> last trimmed = hd trimmed
         \<and> list_all (\<lambda>c. c \<noteq> CHR 0x0A \<and> c \<noteq> CHR 0x0D) (tl (butlast trimmed)))"

definition isArrayOperator :: "string \<Rightarrow> bool" where
  "isArrayOperator operator \<longleftrightarrow> operator \<in> {''in'', ''not in'', ''IN'', ''NOT IN''}"

definition variable_text :: "filter_scalar \<Rightarrow> bool" where
  "variable_text v = (case v of VStr s \<Rightarrow> starts_with (js_trim s) ''$'' | _ \<Rightarrow> False)"

definition isVariable :: "filter_value \<Rightarrow> bool" where
  "isVariable v = (case v of VMany vs \<Rightarrow> list_ex variable_text vs | VOne s \<Rightarrow> variable_text s)"

section \<open>From filters to an expression\<close>

definition escape_single :: "string \<Rightarrow> string" where
  "escape_single s = concat (map (\<lambda>c. if c = CHR 0x27 then [CHR 0x5C, CHR 0x27] else [c]) s)"

definition value_text :: "filter_scalar \<Rightarrow> string" where
  "value_text v = (case v of VStr s \<Rightarrow> s | VNum n \<Rightarrow> number_text n | VBool b \<Rightarrow> if b then ''true'' else ''false'')"

definition formatSingleValue :: "filter_scalar \<Rightarrow> string" where
  "formatSingleValue v =
     (case v of
        VStr s \<Rightarrow> if isQuoted s then s else [CHR 0x27] @ escape_single s @ [CHR 0x27]
      | _ \<Rightarrow> value_text v)"

definition bracketed :: "filter_scalar list \<Rightarrow> string" where
  "bracketed vs = ''['' @ join '', '' (map formatSingleValue vs) @ '']''"

definition formatValueForExpression :: "filter_value \<Rightarrow> string \<Rightarrow> string" where
  "formatValueForExpression v operator =
     (if isVariable v then (case v of VMany vs \<Rightarrow> join '','' (map value_text vs) | VOne s \<Rightarrow> value_text s)
      else case v of
        VMany vs \<Rightarrow> bracketed vs
      | VOne s \<Rightarrow> if isArrayOperator operator then bracketed [s] else formatSingleValue s)"

definition function_name :: "string \<Rightarrow> string" where
  "function_name operator =
     (case find (\<lambda>func. toLowerCase func = toLowerCase operator) function_names of
        None \<Rightarrow> operator
      | Some func \<Rightarrow> func)"

definition filter_expression :: "TagFilterItem \<Rightarrow> string" where
  "filter_expression item =
     (if fi_key item = [] then []
      else
        let operator = current_operator (toLowerCase (js_trim (fi_op item)))
        in if isNonValueOperator operator then fi_key item @ '' '' @ operator
           else if isFunctionOperator operator then
             function_name operator @ ''('' @ fi_key item @ '', '' @ formatValueForExpression (fi_value item) operator @ '')''
           else fi_key item @ '' '' @ operator @ '' '' @ formatValueForExpression (fi_value item) operator)"

definition convertFiltersToExpression :: "TagFilterItem list \<Rightarrow> string" where
  "convertFiltersToExpression items = join '' AND '' (filter (\<lambda>e. e \<noteq> []) (map filter_expression items))"

section \<open>From an expression to filters\<close>

definition getOperatorValue :: "string \<Rightarrow> string" where
  "getOperatorValue op =
     (case map_of [(''IN'', ''in''), (''NOT_IN'', ''not in''), (''REGEX'', ''regex''), (''HAS'', ''has''), (''NHAS'', ''not has''),
        (''NOT_REGEX'', ''not regex''), (''LIKE'', ''like''), (''ILIKE'', ''ilike''), (''NOT_LIKE'', ''not like''),
        (''NOT_ILIKE'', ''not ilike''), (''EXISTS'', ''exists''), (''NOT_EXISTS'', ''not exists''),
        (''CONTAINS'', ''contains''), (''NOT_CONTAINS'', ''not contains'')] op of
       None \<Rightarrow> op
     | Some v \<Rightarrow> v)"

definition formatSingleValueForFilter :: "string \<Rightarrow> filter_scalar" where
  "formatSingleValueForFilter s =
     (let trimmed = js_trim s
      in if trimmed \<noteq> [] \<and> number_of_text trimmed \<noteq> JNaN then VNum (number_of_text trimmed)
         else if trimmed = ''true'' \<or> trimmed = ''false'' then VBool (trimmed = ''true'')
         else if isQuoted s then VStr (unquote s)
         else VStr s)"

definition pair_filter :: "IQueryPair \<Rightarrow> TagFilterItem" where
  "pair_filter p =
     \<lparr> fi_key = qp_key p,
       fi_op = (if qp_hasNegation p then getOperatorValue (toUpperCase (''NOT_'' @ qp_operator p))
                else getOperatorValue (toUpperCase (qp_operator p))),
       fi_value = (if qp_isMultiValue p then VMany (map formatSingleValueForFilter (qp_valueList p))
                   else VOne (case qp_value p of None \<Rightarrow> VStr [] | Some v \<Rightarrow> formatSingleValueForFilter v)) \<rparr>"

definition convertExpressionToFilters :: "(string \<Rightarrow> IToken list) \<Rightarrow> string \<Rightarrow> TagFilterItem list" where
  "convertExpressionToFilters lexer expression =
     (if expression = [] then [] else map pair_filter (extractQueryPairs lexer expression))"

end
