(* ===== verification/FilterPrinting.thy ===== *)
theory FilterPrinting
  imports FilterExpression
begin

text \<open>
  What the grammar's lexer makes of a printed filter expression: first of a text put together from words,
  then of values, operators and whole filters; and how a printed value is read.
\<close>

section \<open>Lexing a text of words\<close>

definition shape :: "IToken \<Rightarrow> token_type \<times> string" where
  "shape t = (tk_type t, tk_text t)"

definition stops :: "string \<Rightarrow> bool" where
  "stops rest \<longleftrightarrow> rest = [] \<or> hd rest \<in> {CHR '' '', CHR '','', CHR '')'', CHR '']''}"

text \<open>The tokens of \<open>s\<close>, which starts at position \<open>p\<close>: the first one starts with it and the last one ends with it.\<close>

definition placed :: "nat \<Rightarrow> string \<Rightarrow> IToken list \<Rightarrow> bool" where
  "placed p s ts \<longleftrightarrow> (s = [] \<longrightarrow> ts = []) \<and> (\<forall>t \<in> set ts. Suc (tk_stop t) = tk_start t + length (tk_text t)) \<and>
     (s \<noteq> [] \<and> \<not> is_ws (hd s) \<longrightarrow> ts \<noteq> [] \<and> tk_start (hd ts) = p) \<and>
     (s \<noteq> [] \<and> \<not> is_ws (last s) \<longrightarrow> ts \<noteq> [] \<and> Suc (tk_stop (last ts)) = p + length s)"

definition lexes :: "string \<Rightarrow> (token_type \<times> string) list \<Rightarrow> bool" where
  "lexes s ws \<longleftrightarrow> (\<forall>p rest ts. stops rest \<longrightarrow> lex_from (p + length s) rest = Some ts \<longrightarrow>
     (\<exists>ts'. lex_from p (s @ rest) = Some (ts' @ ts) \<and> map shape ts' = ws \<and> placed p s ts'))"

lemma lexesD:
  assumes "lexes s ws" "stops rest" "lex_from (p + length s) rest = Some ts"
  obtains ts' where "lex_from p (s @ rest) = Some (ts' @ ts)" "map shape ts' = ws" "placed p s ts'"
  using assms unfolding lexes_def by blast

lemma placed_append: "placed p a ta \<Longrightarrow> placed (p + length a) b tb \<Longrightarrow> placed p (a @ b) (ta @ tb)"
  by (cases "a = []"; cases "b = []") (auto simp: placed_def)

lemma placed_skip: "placed (Suc p) b tb \<Longrightarrow> placed p (CHR '' '' # b) tb"
  by (auto simp: placed_def is_ws_def)

lemma placed_Nil: "placed p [] []"
  by (simp add: placed_def)

lemma stops_simps [simp]:
  "stops []" "stops (CHR '' '' # s)" "stops (CHR '','' # s)" "stops (CHR '')'' # s)" "stops (CHR '']'' # s)"
  by (auto simp: stops_def)

lemma lex_from_space: "lex_from p (CHR '' '' # s) = lex_from (Suc p) s"
  by (subst lex_from.simps) (simp add: is_ws_def)

lemma lex_from_token:
  assumes "s \<noteq> []" "\<not> is_ws (hd s)" "next_token s = Some (ty, n)" "lex_from (p + n) (drop n s) = Some ts"
  shows "\<exists>t. lex_from p s = Some (t # ts) \<and> shape t = (ty, take n s) \<and> tk_start t = p \<and> Suc (tk_stop t) = p + n"
  using assms next_token_positive [OF assms(3)]
  by (subst lex_from.simps) (auto simp: shape_def split: list.splits)

lemma lexes_word:
  assumes "w \<noteq> []" "\<not> is_ws (hd w)" "\<And>rest. stops rest \<Longrightarrow> next_token (w @ rest) = Some (ty, length w)"
  shows "lexes w [(ty, w)]"
  unfolding lexes_def
proof (intro allI impI)
  fix p rest ts assume "stops rest" "lex_from (p + length w) rest = Some ts"
  with lex_from_token [of "w @ rest" ty "length w" p ts] assms
  obtain t where "lex_from p (w @ rest) = Some (t # ts)" "shape t = (ty, w)" "tk_start t = p" "Suc (tk_stop t) = p + length w"
    by auto
  then show "\<exists>ts'. lex_from p (w @ rest) = Some (ts' @ ts) \<and> map shape ts' = [(ty, w)] \<and> placed p w ts'"
    using assms(1) by (intro exI [of _ "[t]"]) (simp add: placed_def shape_def)
qed

text \<open>Two texts one after the other, and with a space between them.\<close>

lemma lexes_two:
  assumes "lexes a wa" "lexes b wb" "stops (b @ rest)" "stops rest" "lex_from (p + length a + length b) rest = Some ts"
  obtains ta tb where "lex_from p (a @ b @ rest) = Some (ta @ tb @ ts)" "map shape ta = wa" "map shape tb = wb"
    "placed p a ta" "placed (p + length a) b tb"
proof -
  obtain tb where tb: "lex_from (p + length a) (b @ rest) = Some (tb @ ts)" "map shape tb = wb" "placed (p + length a) b tb"
    by (rule lexesD [OF assms(2,4,5)])
  from lexesD [OF assms(1,3) tb(1)] tb(2,3) that show thesis by metis
qed

lemma lexes_append:
  assumes "lexes a wa" "lexes b wb" "\<And>rest. stops rest \<Longrightarrow> stops (b @ rest)"
  shows "lexes (a @ b) (wa @ wb)"
  unfolding lexes_def
proof (intro allI impI)
  fix p rest ts assume r: "stops rest" "lex_from (p + length (a @ b)) rest = Some ts"
  then have "lex_from (p + length a + length b) rest = Some ts" by (simp add: add.assoc)
  from lexes_two [OF assms(1,2) assms(3) [OF r(1)] r(1) this] obtain ta tb where
    "lex_from p (a @ b @ rest) = Some (ta @ tb @ ts)" "map shape ta = wa" "map shape tb = wb"
    "placed p a ta" "placed (p + length a) b tb" by metis
  then show "\<exists>ts'. lex_from p ((a @ b) @ rest) = Some (ts' @ ts) \<and> map shape ts' = wa @ wb \<and> placed p (a @ b) ts'"
    using placed_append by (intro exI [of _ "ta @ tb"]) simp
qed

lemma lexes_skip: "lexes b wb \<Longrightarrow> lexes (CHR '' '' # b) wb"
  unfolding lexes_def by (auto simp: lex_from_space) (metis add_Suc placed_skip)

lemma lexes_spaced_two:
  assumes "lexes a wa" "lexes b wb" "stops rest" "lex_from (p + length a + 1 + length b) rest = Some ts"
  obtains ta tb where "lex_from p (a @ '' '' @ b @ rest) = Some (ta @ tb @ ts)" "map shape ta = wa" "map shape tb = wb"
    "placed p a ta" "placed (p + length a + 1) b tb"
proof -
  obtain tb where tb: "lex_from (p + length a + 1) (b @ rest) = Some (tb @ ts)" "map shape tb = wb"
    "placed (p + length a + 1) b tb" by (rule lexesD [OF assms(2-4)])
  from tb(1) have "lex_from (p + length a) ('' '' @ b @ rest) = Some (tb @ ts)" by (simp add: lex_from_space)
  moreover have "stops ('' '' @ b @ rest)" by simp
  ultimately show thesis using lexesD [OF assms(1)] tb(2,3) that by metis
qed

lemma lexes_punctuation:
  assumes "lexes b wb" "\<And>rest. next_token (c # rest) = Some (ty, 1)" "\<not> is_ws c"
  shows "lexes (c # b) ((ty, [c]) # wb)"
  unfolding lexes_def
proof (intro allI impI)
  fix p rest ts assume r: "stops rest" "lex_from (p + length (c # b)) rest = Some ts"
  then have "lex_from (Suc p + length b) rest = Some ts" by simp
  with assms(1) r(1) obtain tb where tb: "lex_from (Suc p) (b @ rest) = Some (tb @ ts)" "map shape tb = wb" "placed (Suc p) b tb"
    by (rule lexesD)
  then obtain t where t: "lex_from p (c # b @ rest) = Some (t # tb @ ts)" "shape t = (ty, [c])" "tk_start t = p"
      "Suc (tk_stop t) = p + 1"
    using lex_from_token [of "c # b @ rest" ty 1 p "tb @ ts"] assms(2,3) by auto
  have "placed p (c # b) (t # tb)"
    using t(2-4) tb(3) by (cases "b = []") (auto simp: placed_def shape_def)
  with t(1,2) tb(2) show "\<exists>ts'. lex_from p ((c # b) @ rest) = Some (ts' @ ts) \<and> map shape ts' = (ty, [c]) # wb \<and> placed p (c # b) ts'"
    by (intro exI [of _ "t # tb"]) simp
qed

lemma lexes_spaced: "lexes a wa \<Longrightarrow> lexes b wb \<Longrightarrow> lexes (a @ '' '' @ b) (wa @ wb)"
  using lexes_append [of a wa "'' '' @ b" wb] lexes_skip by simp

lemma lexes_comma:
  assumes "lexes a wa" "lexes b wb"
  shows "lexes (a @ '', '' @ b) (wa @ (COMMA, '','') # wb)"
proof -
  have "lexes ('', '' @ b) ((COMMA, '','') # wb)"
    using lexes_punctuation [OF lexes_skip [OF assms(2)], of "CHR '',''" COMMA]
    by (simp add: next_token_def is_ws_def)
  with lexes_append [OF assms(1), of "'', '' @ b"] show ?thesis by simp
qed

lemma lexes_Nil: "lexes [] []"
  by (auto simp: lexes_def placed_Nil)

lemma lexes_brackets:
  assumes "lexes a wa"
  shows "lexes (''['' @ a @ '']'') ((LBRACK, ''['') # wa @ [(RBRACK, '']'')])"
proof -
  have "lexes '']'' [(RBRACK, '']'')]"
    using lexes_punctuation [OF lexes_Nil, of "CHR '']''" RBRACK] by (simp add: next_token_def is_ws_def)
  from lexes_append [OF assms this] have "lexes (a @ '']'') (wa @ [(RBRACK, '']'')])" by simp
  from lexes_punctuation [OF this, of "CHR ''[''" LBRACK] show ?thesis by (simp add: next_token_def is_ws_def)
qed

definition end_token :: "nat \<Rightarrow> IToken" where
  "end_token n = \<lparr> tk_type = EOF, tk_text = ''<EOF>'', tk_start = n, tk_stop = n - 1 \<rparr>"

lemma lex_from_end: "lex_from p [] = Some [end_token p]"
  by (subst lex_from.simps) (simp add: end_token_def)

lemma lexes_lex:
  assumes "lexes s ws"
  obtains ts e where "lex s = Some (ts @ [e])" "map shape ts = ws" "tk_type e = EOF"
proof -
  from lexesD [OF assms stops_simps(1) lex_from_end, of 0] obtain ts where
    "lex_from 0 (s @ []) = Some (ts @ [end_token (0 + length s)])" "map shape ts = ws" by metis
  then show ?thesis by (intro that [of ts]) (auto simp: lex_def end_token_def)
qed

section \<open>Words\<close>

lemma stops_hd: "stops (c # cs) \<Longrightarrow> \<not> free_char c \<and> c \<noteq> CHR ''.'' \<and> c \<noteq> CHR ''[''"
  by (auto simp: stops_def free_char_def is_ws_def)

lemma stops_takeWhile:
  assumes "stops rest" "\<And>c. P c \<Longrightarrow> free_char c"
  shows "takeWhile P (w @ rest) = takeWhile P w" "dropWhile P (w @ rest) = dropWhile P w @ rest"
proof -
  have "takeWhile P rest = []" "dropWhile P rest = rest"
    using assms stops_hd by (cases rest; auto)+
  then show "takeWhile P (w @ rest) = takeWhile P w" "dropWhile P (w @ rest) = dropWhile P w @ rest"
    by (induction w) auto
qed

lemma letter_free: "is_letter c \<Longrightarrow> free_char c"
  by (auto simp: is_letter_def free_char_def is_ws_def less_eq_char_def)

lemma digit_free: "is_digit c \<Longrightarrow> free_char c"
  by (auto simp: is_digit_def free_char_def is_ws_def less_eq_char_def)

lemma seg_char_free: "seg_char c \<Longrightarrow> free_char c"
  using letter_free digit_free by (auto simp: seg_char_def) (auto simp: free_char_def is_ws_def)

lemma seg_start_free: "seg_start c \<Longrightarrow> free_char c"
  using letter_free by (auto simp: seg_start_def) (auto simp: free_char_def is_ws_def)

lemma stops_key_tail: "stops rest \<Longrightarrow> key_tail rest = 0"
  using stops_hd by (cases rest) (simp_all add: key_tail.simps [of "[]"] key_tail.simps [of "_ # _"] split: list.splits)

lemma stops_second:
  assumes "stops rest" "rest \<noteq> []"
  shows "hd rest \<noteq> CHR ''.''" "hd rest \<noteq> CHR ''[''" "\<not> seg_start (hd rest)" "\<not> is_digit (hd rest)"
  using assms stops_hd [of "hd rest" "tl rest"] seg_start_free digit_free by auto

text \<open>What follows a key made of free characters does not lengthen it.\<close>

lemma key_tail_append:
  assumes "stops rest" "list_all free_char w"
  shows "key_tail (w @ rest) = key_tail w"
  using assms(2)
proof (induction w rule: key_tail.induct)
  case (1 w)
  show ?case
  proof (cases w)
    case Nil
    then show ?thesis using stops_key_tail [OF assms(1)] by (simp add: key_tail.simps [of "[]"])
  next
    case (Cons c w1)
    have nb: "c \<noteq> CHR ''[''" using "1.prems" Cons by (auto simp: free_char_def)
    show ?thesis
    proof (cases w1)
      case Nil
      have "key_tail (c # rest) = 0"
        using stops_second [OF assms(1)] nb by (subst key_tail.simps) (auto split: list.splits)
      then show ?thesis using Cons Nil by (simp add: key_tail.simps [of "[c]"])
    next
      case (Cons d cs)
      with \<open>w = c # w1\<close> have w: "w = c # d # cs" by simp
      have free: "list_all free_char cs" using "1.prems" w by simp
      have dw: "list_all free_char (dropWhile P cs)" for P
        using free by (auto simp: list_all_iff dest: set_dropWhileD)
      note tw = stops_takeWhile [OF assms(1) seg_char_free] stops_takeWhile [OF assms(1) digit_free]
      consider "c = CHR ''.''" "seg_start d" | "c = CHR ''.''" "\<not> seg_start d" "is_digit d" | "\<not> (c = CHR ''.'' \<and> (seg_start d \<or> is_digit d))"
        by blast
      then show ?thesis
      proof cases
        case 1
        with "1.IH"(1) [OF w] dw w show ?thesis
          by (simp add: key_tail.simps [of "CHR ''.'' # d # cs @ rest"] key_tail.simps [of "CHR ''.'' # d # cs"] tw)
      next
        case 2
        with "1.IH"(2) [OF w] dw w show ?thesis
          by (simp add: key_tail.simps [of "CHR ''.'' # d # cs @ rest"] key_tail.simps [of "CHR ''.'' # d # cs"] tw)
      next
        case 3
        with nb w show ?thesis
          by (auto simp: key_tail.simps [of "c # d # cs @ rest"] key_tail.simps [of "c # d # cs"])
      qed
    qed
  qed
qed

lemma key_length_append:
  assumes "stops rest" "list_all free_char w" "w \<noteq> []"
  shows "key_length (w @ rest) = key_length w"
proof -
  obtain c cs where w: "w = c # cs" using assms(3) by (cases w) auto
  have "list_all free_char (dropWhile seg_char cs)"
    using assms(2) w by (auto simp: list_all_iff dest: set_dropWhileD)
  with key_tail_append [OF assms(1) this] show ?thesis
    by (simp add: key_length_def w stops_takeWhile [OF assms(1) seg_char_free])
qed

lemma free_length: "stops rest \<Longrightarrow> list_all free_char w \<Longrightarrow> length (takeWhile free_char (w @ rest)) = length w"
  using stops_takeWhile(1) [of rest free_char w] takeWhile_eq_all_conv [THEN iffD2, of w free_char]
  by (metis list_all_iff)

lemma seg_start_kind: "seg_start c \<Longrightarrow> \<not> is_digit c \<and> c \<noteq> CHR ''+'' \<and> c \<noteq> CHR ''-'' \<and> c \<noteq> CHR ''.''"
  by (auto simp: seg_start_def is_letter_def is_digit_def less_eq_char_def)

lemma seg_start_not_number: "seg_start c \<Longrightarrow> number_length (c # cs) = 0"
  using seg_start_kind [of c] by (simp add: number_length_def strip_sign_def Let_def)

lemma seg_start_plain: "seg_start c \<Longrightarrow> next_token (c # cs) = word_token (c # cs)"
  using seg_start_free [of c] by (auto simp: next_token_def free_char_def Let_def)

lemma key_length_start: "key_length (c # cs) \<noteq> 0 \<Longrightarrow> seg_start c"
  by (simp add: key_length_def split: if_splits)

text \<open>A word that \<^verbatim>\<open>KEY\<close> accepts as a whole is a keyword or a key.\<close>

definition key_like :: "string \<Rightarrow> bool" where
  "key_like w \<longleftrightarrow> w \<noteq> [] \<and> list_all free_char w \<and> key_length w = length w"

definition word_type :: "string \<Rightarrow> token_type" where
  "word_type w = (case map_of keyword_types (toLowerCase w) of None \<Rightarrow> KEY | Some t \<Rightarrow> t)"

lemma lexes_key_like:
  assumes "key_like w"
  shows "lexes w [(word_type w, w)]"
proof (rule lexes_word)
  from assms obtain c cs where w: "w = c # cs" by (cases w) (auto simp: key_like_def)
  with assms have c: "seg_start c" using key_length_start [of c cs] by (auto simp: key_like_def)
  show "w \<noteq> []" using w by simp
  show "\<not> is_ws (hd w)" using seg_start_free [OF c] w by (simp add: free_char_def)
  fix rest assume s: "stops rest"
  have k: "key_length (w @ rest) = length w" using key_length_append [OF s] assms by (simp add: key_like_def)
  have f: "length (takeWhile free_char (w @ rest)) = length w" using free_length [OF s] assms by (simp add: key_like_def)
  have n: "number_length (w @ rest) = 0" using seg_start_not_number [OF c] w by simp
  have pos: "0 < length w" using w by simp
  have "word_token (w @ rest) = Some (word_type w, length w)"
    unfolding word_token_def k f n Let_def word_type_def using pos by (auto split: option.splits)
  then show "next_token (w @ rest) = Some (word_type w, length w)" using seg_start_plain [OF c] w by simp
qed

lemma lexes_keyword:
  assumes "key_like w" "map_of keyword_types (toLowerCase w) = Some ty"
  shows "lexes w [(ty, w)]"
  using lexes_key_like [OF assms(1)] assms(2) by (simp add: word_type_def)

definition key_word :: "string \<Rightarrow> bool" where
  "key_word w \<longleftrightarrow> key_like w \<and> map_of keyword_types (toLowerCase w) = None"

lemma lexes_key: "key_word w \<Longrightarrow> lexes w [(KEY, w)]"
  using lexes_key_like [of w] by (simp add: key_word_def word_type_def)

lemma lexes_operator:
  "lexes ''='' [(EQUALS, ''='')]" "lexes ''!='' [(NOT_EQUALS, ''!='')]" "lexes ''<'' [(LT, ''<'')]"
  "lexes ''<='' [(LE, ''<='')]" "lexes ''>'' [(GT, ''>'')]" "lexes ''>='' [(GE, ''>='')]"
  by (rule lexes_word; force simp: is_ws_def next_token_def stops_def Let_def)+

lemma lexes_quoted:
  assumes "list_all (\<lambda>c. c \<noteq> CHR 0x27 \<and> c \<noteq> CHR 0x5C) s"
  shows "lexes ([CHR 0x27] @ s @ [CHR 0x27]) [(QUOTED_TEXT, [CHR 0x27] @ s @ [CHR 0x27])]"
proof (rule lexes_word)
  have "quoted_body (CHR 0x27) (s @ [CHR 0x27] @ rest) = Some (Suc (length s))" for rest
    using assms by (induction s) auto
  then show "next_token (([CHR 0x27] @ s @ [CHR 0x27]) @ rest) = Some (QUOTED_TEXT, length ([CHR 0x27] @ s @ [CHR 0x27]))" for rest
    by (simp add: next_token_def)
qed (simp_all add: is_ws_def)

lemma digits_number_length:
  assumes "stops rest" "list_all is_digit ds" "ds \<noteq> []" "sign = [] \<or> sign = ''-''"
  shows "number_length ((sign @ ds) @ rest) = length (sign @ ds)"
proof -
  obtain d ds' where ds: "ds = d # ds'" "is_digit d" using assms(2,3) by (cases ds) auto
  have strip: "strip_sign ((sign @ ds) @ rest) = ds @ rest"
    using assms(4) ds digit_not_sign [of d] by (auto simp: strip_sign_def)
  have tw: "takeWhile is_digit (ds @ rest) = ds" "dropWhile is_digit (ds @ rest) = rest"
    using stops_takeWhile [where P = is_digit and w = ds, OF assms(1) digit_free] takeWhile_digits [OF assms(2)]
    by (metis append_Nil)+
  have dot: "\<not> (rest \<noteq> [] \<and> hd rest = CHR ''.'')" using stops_second(1) [OF assms(1)] by blast
  have e: "exponent_length rest = 0"
    using assms(1) by (cases rest) (auto simp: exponent_length_def stops_def)
  have n: "length ((sign @ ds) @ rest) - length (ds @ rest) = length sign" by simp
  show ?thesis
    unfolding number_length_def strip Let_def tw n using dot e assms(3) by (auto simp: add.commute)
qed

lemma minus_free: "free_char (CHR ''-'')"
  by (simp add: free_char_def is_ws_def)

lemma free_plain: "free_char c \<Longrightarrow> next_token (c # cs) = word_token (c # cs)"
  by (simp add: next_token_def free_char_def Let_def)

lemma lexes_number:
  assumes "list_all is_digit ds" "ds \<noteq> []" "sign = [] \<or> sign = ''-''"
  shows "lexes (sign @ ds) [(NUMBER, sign @ ds)]"
proof (rule lexes_word)
  have free: "list_all free_char (sign @ ds)"
    using assms(1,3) digit_free minus_free by (auto simp: list_all_iff)
  obtain c cs where w: "sign @ ds = c # cs" using assms(2) by (cases "sign @ ds") auto
  with assms have c: "is_digit c \<or> c = CHR ''-''" by (cases ds) auto
  then have ns: "\<not> seg_start c" using seg_start_kind by blast
  show "sign @ ds \<noteq> []" using assms(2) by simp
  show "\<not> is_ws (hd (sign @ ds))" using free w by (simp add: free_char_def)
  fix rest assume s: "stops rest"
  have k: "key_length ((sign @ ds) @ rest) = 0" using w ns by (simp add: key_length_def)
  have f: "length (takeWhile free_char ((sign @ ds) @ rest)) = length (sign @ ds)" using free_length [OF s free] .
  have n: "number_length ((sign @ ds) @ rest) = length (sign @ ds)" using digits_number_length [OF s assms] .
  have "word_token ((sign @ ds) @ rest) = Some (NUMBER, length (sign @ ds))"
    unfolding word_token_def k f n Let_def using assms(2) by auto
  moreover have "next_token ((sign @ ds) @ rest) = word_token ((sign @ ds) @ rest)"
    using w free free_plain [of c "cs @ rest"] by simp
  ultimately show "next_token ((sign @ ds) @ rest) = Some (NUMBER, length (sign @ ds))" by simp
qed

lemma lexes_int: "lexes (int_str i) [(NUMBER, int_str i)]"
  using lexes_number [of "nat_str (nat i)" "[]"] lexes_number [of "nat_str (nat (- i))" "''-''"] nat_str_digits
  by (simp add: int_str_def)

section \<open>Values\<close>

definition plain_text :: "string \<Rightarrow> bool" where
  "plain_text s \<longleftrightarrow> list_all (\<lambda>c. c \<notin> {CHR 0x27, CHR 0x5C, CHR 0x0A, CHR 0x0D}) s \<and> \<not> isQuoted s
     \<and> \<not> starts_with (js_trim s) ''$''"

definition scalar_ok :: "filter_scalar \<Rightarrow> bool" where
  "scalar_ok v = (case v of VStr s \<Rightarrow> plain_text s | VNum (JNum q) \<Rightarrow> q = of_int \<lfloor>q\<rfloor> | VNum _ \<Rightarrow> False | VBool b \<Rightarrow> True)"

definition scalar_type :: "filter_scalar \<Rightarrow> token_type" where
  "scalar_type v = (case v of VStr _ \<Rightarrow> QUOTED_TEXT | VNum _ \<Rightarrow> NUMBER | VBool _ \<Rightarrow> BOOL)"

lemma scalar_ok_cases:
  assumes "scalar_ok v"
  obtains s where "v = VStr s" "plain_text s" | i where "v = VNum (JNum (of_int i))" | b where "v = VBool b"
proof (cases v)
  case (VNum n)
  show ?thesis
  proof (cases n)
    case (JNum q)
    with VNum assms have "v = VNum (JNum (of_int \<lfloor>q\<rfloor>))" by (simp add: scalar_ok_def)
    then show ?thesis by (rule that(2))
  qed (use VNum assms in \<open>simp_all add: scalar_ok_def\<close>)
qed (use assms that in \<open>simp_all add: scalar_ok_def\<close>)

lemma escape_plain: "list_all (\<lambda>c. c \<noteq> CHR 0x27) s \<Longrightarrow> escape_single s = s"
  by (induction s) (auto simp: escape_single_def)

lemma format_string: "plain_text s \<Longrightarrow> formatSingleValue (VStr s) = [CHR 0x27] @ s @ [CHR 0x27]"
  by (simp add: formatSingleValue_def plain_text_def escape_plain list_all_iff)

lemma bool_words: "key_like ''true''" "key_like ''false''" "key_like ''AND''"
  by code_simp+

lemma lexes_scalar:
  assumes "scalar_ok v"
  shows "lexes (formatSingleValue v) [(scalar_type v, formatSingleValue v)]"
  using assms
proof (cases rule: scalar_ok_cases)
  case (1 s)
  then have "list_all (\<lambda>c. c \<noteq> CHR 0x27 \<and> c \<noteq> CHR 0x5C) s" by (auto simp: plain_text_def list_all_iff)
  from lexes_quoted [OF this] 1 show ?thesis by (simp add: format_string scalar_type_def)
next
  case (2 i)
  with lexes_int [of i] show ?thesis by (simp add: formatSingleValue_def value_text_def number_text_int scalar_type_def)
next
  case (3 b)
  have "map_of keyword_types (toLowerCase ''true'') = Some BOOL" "map_of keyword_types (toLowerCase ''false'') = Some BOOL"
    by code_simp+
  with 3 lexes_keyword [OF bool_words(1)] lexes_keyword [OF bool_words(2)] show ?thesis
    by (cases b) (simp_all add: formatSingleValue_def value_text_def scalar_type_def)
qed

text \<open>Texts that are numbers have only characters of numbers.\<close>

lemma split_on_set: "x \<in> set s \<Longrightarrow> x \<noteq> c \<Longrightarrow> \<exists>w \<in> set (split_on c s). x \<in> set w"
  by (induction s) (auto split: list.splits)

lemma mantissa_char: "is_mantissa s \<Longrightarrow> x \<in> set s \<Longrightarrow> is_digit x \<or> x = CHR ''.''"
  using split_on_set [of x s "CHR ''.''"]
  by (auto simp: is_mantissa_def digits1_def list_all_iff split: list.splits)

lemma strip_sign_set: "x \<in> set s \<Longrightarrow> x \<in> set (strip_sign s) \<or> x = CHR ''+'' \<or> x = CHR ''-''"
  by (cases s) (auto simp: strip_sign_def)

lemma decimal_char:
  assumes "is_decimal s" "x \<in> set s"
  shows "is_digit x \<or> x \<in> {CHR ''.'', CHR ''e'', CHR ''E'', CHR ''+'', CHR ''-''}"
proof (rule ccontr)
  assume no: "\<not> ?thesis"
  let ?f = "\<lambda>c. if c = CHR ''E'' then CHR ''e'' else c"
  from no have e: "x \<noteq> CHR ''e''" "x \<noteq> CHR ''E''" by blast+
  from e(2) have f: "?f x = x" by (rule if_not_P)
  have "?f x \<in> ?f ` set s" using assms(2) by (rule imageI)
  then have "x \<in> set (map ?f s)" unfolding f set_map .
  note this e(1)
  then obtain w where w: "w \<in> set (split_on (CHR ''e'') (map ?f s))" and "x \<in> set w"
    using split_on_set [of x "map ?f s" "CHR ''e''"] by blast
  moreover from w have "is_mantissa w \<or> digits1 (strip_sign w)"
    using assms(1) by (auto simp: is_decimal_def split: list.splits)
  ultimately have "is_digit x \<or> x = CHR ''.'' \<or> x = CHR ''+'' \<or> x = CHR ''-''"
    using mantissa_char strip_sign_set [of x w] unfolding digits1_def list_all_iff by blast
  with no show False by blast
qed

lemma no_number:
  assumes "js_trim s = s" "s \<noteq> []" "x \<in> set s" "\<not> is_digit x" "x \<notin> set ''.eE+-xXoObB''" "\<not> is_hex_digit x" "x \<notin> set ''Infinity''"
  shows "number_of_text s = JNaN"
proof -
  have "\<not> is_radix_literal s"
  proof
    assume r: "is_radix_literal s"
    then obtain z k ds where s: "s = z # k # ds" by (auto simp: is_radix_literal_def split: list.splits)
    have digits: "is_digit (CHR ''0'')" "is_digit (CHR ''1'')"
      "\<And>c. CHR ''0'' \<le> c \<and> c \<le> CHR ''7'' \<Longrightarrow> is_hex_digit c"
      by (auto simp: is_digit_def is_hex_digit_def less_eq_char_def)
    from r have z: "z = CHR ''0''"
      and k: "k \<in> {CHR ''x'', CHR ''X''} \<and> list_all is_hex_digit ds
        \<or> k \<in> {CHR ''o'', CHR ''O''} \<and> list_all (\<lambda>c. CHR ''0'' \<le> c \<and> c \<le> CHR ''7'') ds
        \<or> k \<in> {CHR ''b'', CHR ''B''} \<and> list_all (\<lambda>c. c = CHR ''0'' \<or> c = CHR ''1'') ds"
      by (simp_all add: is_radix_literal_def s)
    from k have "list_all is_hex_digit ds"
      using digits unfolding list_all_iff is_hex_digit_def [symmetric] by (metis is_hex_digit_def)
    then have "x \<notin> set ds" using assms(6) by (auto simp: list_all_iff)
    moreover from k have "k \<in> set ''.eE+-xXoObB''" by auto
    ultimately show False using assms(3-5) z digits s by auto
  qed
  moreover have "\<not> is_decimal (strip_sign s)"
    using decimal_char [of "strip_sign s" x] strip_sign_set [OF assms(3)] assms(4,5) by auto
  moreover have "strip_sign s \<noteq> ''Infinity''"
    using strip_sign_set [OF assms(3)] assms(5,7) by auto
  ultimately show ?thesis using assms(1,2) by (simp add: number_of_text_def)
qed

lemma quoted_back:
  assumes "plain_text s"
  shows "formatSingleValueForFilter ([CHR 0x27] @ s @ [CHR 0x27]) = VStr s"
proof -
  let ?q = "[CHR 0x27] @ s @ [CHR 0x27]"
  have sp: "\<not> is_space (CHR 0x27)" by (simp add: is_space_def)
  have trim: "js_trim ?q = ?q" by (rule js_trim_id) (simp add: sp)
  have "\<not> is_digit (CHR 0x27)" "\<not> is_hex_digit (CHR 0x27)"
    by (simp_all add: is_digit_def is_hex_digit_def less_eq_char_def lower_char_def)
  with no_number [OF trim, of "CHR 0x27"] have n: "number_of_text ?q = JNaN" by simp
  have lines: "list_all (\<lambda>c. c \<noteq> CHR 0x0A \<and> c \<noteq> CHR 0x0D) s"
    using assms by (auto simp: plain_text_def list_all_iff)
  have iq: "isQuoted ?q"
    unfolding isQuoted_def trim Let_def using lines by (simp add: butlast_append)
  have uq: "unquote ?q = s"
    unfolding unquote_def trim Let_def by (simp add: butlast_append)
  have "?q \<noteq> ''true''" "?q \<noteq> ''false''" by simp_all
  with iq uq n trim show ?thesis by (simp add: formatSingleValueForFilter_def Let_def)
qed

lemma digits_decimal:
  assumes "list_all is_digit ds" "ds \<noteq> []"
  shows "is_decimal ds"
proof -
  have plain: "\<not> is_digit (CHR ''e'')" "\<not> is_digit (CHR ''E'')" "\<not> is_digit (CHR ''.'')"
    by (simp_all add: is_digit_def less_eq_char_def)
  then have "CHR ''e'' \<notin> set ds" "CHR ''E'' \<notin> set ds" "CHR ''.'' \<notin> set ds"
    using assms(1) unfolding list_all_iff by blast+
  moreover from this have "map (\<lambda>c. if c = CHR ''E'' then CHR ''e'' else c) ds = ds"
    by (intro map_idI) auto
  ultimately show ?thesis
    using assms by (simp add: is_decimal_def is_mantissa_def digits1_def)
qed

lemma int_back: "formatSingleValueForFilter (int_str i) = VNum (JNum (of_int i))"
proof -
  let ?s = "int_str i"
  obtain sign ds where s: "?s = sign @ ds" "sign = [] \<or> sign = ''-''" "list_all is_digit ds" "ds \<noteq> []"
  proof (cases "i < 0")
    case True
    then show ?thesis
      using nat_str_digits [of "nat (- i)"] that [of "''-''" "nat_str (nat (- i))"] by (simp add: int_str_def)
  next
    case False
    then show ?thesis
      using nat_str_digits [of "nat i"] that [of "[]" "nat_str (nat i)"] by (simp add: int_str_def)
  qed
  obtain d ds' where ds: "ds = d # ds'" "is_digit d" using s(3,4) by (cases ds) auto
  have "\<not> is_space (CHR ''-'')" by (simp add: is_space_def)
  moreover have "is_digit (last ds)" using s(3,4) by (auto simp: list_all_iff)
  ultimately have trim: "js_trim ?s = ?s"
    using s ds digit_not_sign by (intro js_trim_id) auto
  have strip: "strip_sign ?s = ds" using s(1,2) ds digit_not_sign [of d] by (auto simp: strip_sign_def)
  have "\<not> is_radix_literal ?s"
  proof
    assume r: "is_radix_literal ?s"
    then obtain z k r' where zk: "?s = z # k # r'" "z = CHR ''0''" "k \<in> set ''xXoObB''"
      by (auto simp: is_radix_literal_def split: list.splits)
    with s(1,2) have "k \<in> set ds" by (cases sign; cases ds) auto
    then have "is_digit k" using s(3) by (auto simp: list_all_iff)
    with zk(3) show False by (auto simp: is_digit_def less_eq_char_def)
  qed
  moreover have "is_decimal (strip_sign ?s)" using digits_decimal [OF s(3,4)] strip by simp
  moreover have "?s \<noteq> []" using s(1,4) by simp
  ultimately have "number_of_text ?s = JNum (of_int i)"
    using trim by (simp add: number_of_text_def parseFloat_int_str)
  with trim \<open>?s \<noteq> []\<close> show ?thesis by (simp add: formatSingleValueForFilter_def)
qed

lemma bool_back:
  "formatSingleValueForFilter ''true'' = VBool True" "formatSingleValueForFilter ''false'' = VBool False"
  by code_simp+

lemma scalar_back: "scalar_ok v \<Longrightarrow> formatSingleValueForFilter (formatSingleValue v) = v"
proof (erule scalar_ok_cases)
  fix s assume "v = VStr s" "plain_text s"
  then show "formatSingleValueForFilter (formatSingleValue v) = v"
    using quoted_back [of s] by (simp only: format_string)
qed (auto simp: formatSingleValue_def value_text_def number_text_int int_back bool_back)

section \<open>Filters\<close>

definition compare_operators :: "(string \<times> (token_type \<times> string) list) list" where
  "compare_operators = [(''='', [(EQUALS, ''='')]), (''!='', [(NOT_EQUALS, ''!='')]), (''<'', [(LT, ''<'')]),
     (''<='', [(LE, ''<='')]), (''>'', [(GT, ''>'')]), (''>='', [(GE, ''>='')]),
     (''like'', [(LIKE, ''like'')]), (''ilike'', [(ILIKE, ''ilike'')]), (''contains'', [(CONTAINS, ''contains'')]),
     (''not like'', [(NOT, ''not''), (LIKE, ''like'')]), (''not ilike'', [(NOT, ''not''), (ILIKE, ''ilike'')]),
     (''not contains'', [(NOT, ''not''), (CONTAINS, ''contains'')])]"

definition member_operators :: "(string \<times> (token_type \<times> string) list) list" where
  "member_operators = [(''in'', [(IN, ''in'')]), (''not in'', [(NOT, ''not''), (IN, ''in'')])]"

definition exist_operators :: "(string \<times> (token_type \<times> string) list) list" where
  "exist_operators = [(''exists'', [(EXISTS, ''exists'')]), (''not exists'', [(NOT, ''not''), (EXISTS, ''exists'')])]"

text \<open>The filters that come back unchanged: their keys are words of the grammar and no keywords, their operators those
  above (regular expressions and \<^verbatim>\<open>has\<close> are not among them), and their values texts without single quotes,
  backslashes and line ends that are neither quoted themselves nor variables, whole numbers or booleans.\<close>

definition filter_ok :: "TagFilterItem \<Rightarrow> bool" where
  "filter_ok item \<longleftrightarrow> key_word (fi_key item) \<and>
     (case fi_value item of
        VMany vs \<Rightarrow> fi_op item \<in> fst ` set member_operators \<and> list_all scalar_ok vs
      | VOne v \<Rightarrow> (fi_op item \<in> fst ` set compare_operators \<and> scalar_ok v)
          \<or> (fi_op item \<in> fst ` set exist_operators \<and> v = VStr []))"

fun value_list_shape :: "filter_scalar list \<Rightarrow> (token_type \<times> string) list" where
  "value_list_shape [] = []"
| "value_list_shape [v] = [(scalar_type v, formatSingleValue v)]"
| "value_list_shape (v # vs) = (scalar_type v, formatSingleValue v) # (COMMA, '','') # value_list_shape vs"

lemma lexes_value_list:
  "list_all scalar_ok vs \<Longrightarrow> lexes (join '', '' (map formatSingleValue vs)) (value_list_shape vs)"
proof (induction vs rule: value_list_shape.induct)
  case (3 v w vs)
  then have "lexes (join '', '' (map formatSingleValue (w # vs))) (value_list_shape (w # vs))" by simp
  from lexes_comma [OF lexes_scalar this] 3 show ?case by simp
qed (simp_all add: lexes_Nil lexes_scalar)

lemma operator_words:
  "list_all key_like [''like'', ''ilike'', ''contains'', ''not'', ''in'', ''exists'']"
  "map (\<lambda>w. map_of keyword_types (toLowerCase w)) [''like'', ''ilike'', ''contains'', ''not'', ''in'', ''exists'', ''AND'']
     = map Some [LIKE, ILIKE, CONTAINS, NOT, IN, EXISTS, AND]"
  by code_simp+

lemma lexes_words:
  "lexes ''like'' [(LIKE, ''like'')]" "lexes ''ilike'' [(ILIKE, ''ilike'')]" "lexes ''contains'' [(CONTAINS, ''contains'')]"
  "lexes ''not'' [(NOT, ''not'')]" "lexes ''in'' [(IN, ''in'')]" "lexes ''exists'' [(EXISTS, ''exists'')]"
  "lexes ''AND'' [(AND, ''AND'')]"
  using operator_words bool_words(3) by (auto intro!: lexes_keyword)

lemma lexes_not: "lexes w ws \<Longrightarrow> lexes (''not '' @ w) ((NOT, ''not'') # ws)"
  using lexes_spaced [OF lexes_words(4), of w ws] by simp

lemma lexes_operators:
  "list_all (\<lambda>(op, ws). lexes op ws) (compare_operators @ member_operators @ exist_operators)"
proof -
  have "lexes ''not like'' [(NOT, ''not''), (LIKE, ''like'')]" "lexes ''not ilike'' [(NOT, ''not''), (ILIKE, ''ilike'')]"
    "lexes ''not contains'' [(NOT, ''not''), (CONTAINS, ''contains'')]" "lexes ''not in'' [(NOT, ''not''), (IN, ''in'')]"
    "lexes ''not exists'' [(NOT, ''not''), (EXISTS, ''exists'')]"
    using lexes_words(1-3,5-6) [THEN lexes_not] by simp_all
  then show ?thesis
    by (simp add: compare_operators_def member_operators_def exist_operators_def lexes_operator lexes_words)
qed

text \<open>The operators are printed as they are.\<close>

lemma operator_printed:
  "list_all (\<lambda>(op, ws). current_operator (toLowerCase (js_trim op)) = op \<and> \<not> isNonValueOperator op \<and> \<not> isFunctionOperator op)
     (compare_operators @ member_operators)"
  "list_all (\<lambda>(op, ws). current_operator (toLowerCase (js_trim op)) = op \<and> isNonValueOperator op) exist_operators"
  "list_all (\<lambda>(op, ws). \<not> isArrayOperator op) compare_operators"
  by code_simp+

definition operator_shape :: "string \<Rightarrow> (token_type \<times> string) list" where
  "operator_shape op = the (map_of (compare_operators @ member_operators @ exist_operators) op)"

lemma all_operators_distinct: "distinct (map fst (compare_operators @ member_operators @ exist_operators))"
  by code_simp

lemma operator_shape_in:
  assumes "op \<in> fst ` set (compare_operators @ member_operators @ exist_operators)"
  shows "(op, operator_shape op) \<in> set (compare_operators @ member_operators @ exist_operators)"
proof -
  from assms obtain ws where "map_of (compare_operators @ member_operators @ exist_operators) op = Some ws"
    by (metis domIff dom_map_of_conv_image_fst option.exhaust)
  then show ?thesis unfolding operator_shape_def by (simp add: map_of_SomeD del: set_append)
qed

lemma plain_not_variable: "scalar_ok v \<Longrightarrow> \<not> variable_text v"
  by (auto simp: scalar_ok_def variable_text_def plain_text_def split: filter_scalar.splits)

lemma exist_not_compare: "op \<in> fst ` set exist_operators \<Longrightarrow> op \<notin> fst ` set (compare_operators @ member_operators)"
  using all_operators_distinct by (auto simp: distinct_append)

text \<open>The printed filter: the key and the operator, and the value if the operator has one.\<close>

definition has_value :: "TagFilterItem \<Rightarrow> bool" where
  "has_value item \<longleftrightarrow> fi_op item \<notin> fst ` set exist_operators"

definition item_head :: "TagFilterItem \<Rightarrow> string" where
  "item_head item = fi_key item @ '' '' @ fi_op item"

definition item_tail :: "TagFilterItem \<Rightarrow> string" where
  "item_tail item = (case fi_value item of VMany vs \<Rightarrow> bracketed vs | VOne v \<Rightarrow> formatSingleValue v)"

definition tail_shape :: "TagFilterItem \<Rightarrow> (token_type \<times> string) list" where
  "tail_shape item = (case fi_value item of
     VMany vs \<Rightarrow> (LBRACK, ''['') # value_list_shape vs @ [(RBRACK, '']'')]
   | VOne v \<Rightarrow> [(scalar_type v, formatSingleValue v)])"

lemma filter_ok_op:
  "filter_ok item \<Longrightarrow> fi_op item \<in> fst ` set (compare_operators @ member_operators @ exist_operators)"
  by (auto simp: filter_ok_def split: filter_value.splits)

lemma exist_not_member: "op \<in> fst ` set member_operators \<Longrightarrow> op \<notin> fst ` set exist_operators"
  using exist_not_compare by auto

lemma filter_ok_key: "filter_ok item \<Longrightarrow> key_word (fi_key item) \<and> fi_key item \<noteq> []"
  by (auto simp: filter_ok_def key_word_def key_like_def)

text \<open>The three kinds of filters.\<close>

lemma filter_ok_cases:
  assumes "filter_ok item"
  obtains (many) vs where "fi_value item = VMany vs" "fi_op item \<in> fst ` set member_operators" "list_all scalar_ok vs" "has_value item"
  | (one) v where "fi_value item = VOne v" "fi_op item \<in> fst ` set compare_operators" "scalar_ok v" "has_value item"
  | (none) "fi_value item = VOne (VStr [])" "fi_op item \<in> fst ` set exist_operators" "\<not> has_value item"
proof (cases "fi_value item")
  case (VMany vs)
  with assms exist_not_member many show thesis by (simp add: filter_ok_def has_value_def)
next
  case (VOne v)
  with assms consider "fi_op item \<in> fst ` set compare_operators" "scalar_ok v"
    | "fi_op item \<in> fst ` set exist_operators" "v = VStr []"
    by (auto simp: filter_ok_def)
  then show thesis
    using VOne one none exist_not_compare [of "fi_op item"] by cases (auto simp: has_value_def)
qed

lemma item_formatted:
  assumes "filter_ok item" "has_value item"
  shows "formatValueForExpression (fi_value item) (fi_op item) = item_tail item"
  using assms(1)
proof (cases rule: filter_ok_cases)
  case (many vs)
  then have "\<not> list_ex variable_text vs" using plain_not_variable by (auto simp: list_all_iff list_ex_iff)
  with many show ?thesis by (simp add: formatValueForExpression_def isVariable_def item_tail_def)
next
  case (one v)
  then have "\<not> isArrayOperator (fi_op item)" using operator_printed(3) unfolding list_all_iff by auto
  with one plain_not_variable [OF one(3)] show ?thesis
    by (simp add: formatValueForExpression_def isVariable_def item_tail_def)
qed (use assms in simp)

lemma filter_expression_text:
  assumes "filter_ok item"
  shows "filter_expression item = (if has_value item then item_head item @ '' '' @ item_tail item else item_head item)"
  using assms
proof (cases rule: filter_ok_cases)
  case none
  then have "current_operator (toLowerCase (js_trim (fi_op item))) = fi_op item" "isNonValueOperator (fi_op item)"
    using operator_printed(2) unfolding list_all_iff by auto
  with none filter_ok_key [OF assms] show ?thesis by (simp add: filter_expression_def item_head_def)
next
  case (many vs)
  then have "current_operator (toLowerCase (js_trim (fi_op item))) = fi_op item" "\<not> isNonValueOperator (fi_op item)"
      "\<not> isFunctionOperator (fi_op item)"
    using operator_printed(1) unfolding list_all_iff by auto
  with many filter_ok_key [OF assms] item_formatted [OF assms] show ?thesis
    by (simp add: filter_expression_def item_head_def)
next
  case (one v)
  then have "current_operator (toLowerCase (js_trim (fi_op item))) = fi_op item" "\<not> isNonValueOperator (fi_op item)"
      "\<not> isFunctionOperator (fi_op item)"
    using operator_printed(1) unfolding list_all_iff by auto
  with one filter_ok_key [OF assms] item_formatted [OF assms] show ?thesis
    by (simp add: filter_expression_def item_head_def)
qed

lemma lexes_head: "filter_ok item \<Longrightarrow> lexes (item_head item) ((KEY, fi_key item) # operator_shape (fi_op item))"
  unfolding item_head_def
  using lexes_spaced [OF lexes_key, of "fi_key item" "fi_op item" "operator_shape (fi_op item)"] filter_ok_key
    operator_shape_in [OF filter_ok_op] lexes_operators unfolding list_all_iff by fastforce

lemma lexes_tail:
  assumes "filter_ok item" "has_value item"
  shows "lexes (item_tail item) (tail_shape item)"
  using assms(1)
proof (cases rule: filter_ok_cases)
  case (many vs)
  then show ?thesis
    using lexes_brackets [OF lexes_value_list] by (simp add: item_tail_def tail_shape_def bracketed_def)
next
  case (one v)
  then show ?thesis using lexes_scalar by (simp add: item_tail_def tail_shape_def)
qed (use assms in simp)

text \<open>The tokens of a printed filter and of a printed list, from the position where it starts.\<close>

definition item_tokens :: "nat \<Rightarrow> TagFilterItem \<Rightarrow> IToken list \<Rightarrow> bool" where
  "item_tokens p item ts \<longleftrightarrow> (\<exists>ta tb. ts = ta @ tb \<and>
     map shape ta = (KEY, fi_key item) # operator_shape (fi_op item) \<and> placed p (item_head item) ta \<and>
     (if has_value item then map shape tb = tail_shape item \<and> placed (p + length (item_head item) + 1) (item_tail item) tb
      else tb = []))"

fun items_tokens :: "nat \<Rightarrow> TagFilterItem list \<Rightarrow> IToken list \<Rightarrow> bool" where
  "items_tokens p [] ts = (ts = [end_token p])"
| "items_tokens p [i] ts = (\<exists>ti. ts = ti @ [end_token (p + length (filter_expression i))] \<and> item_tokens p i ti)"
| "items_tokens p (i # is) ts = (\<exists>ti a tr. ts = ti @ a # tr \<and> item_tokens p i ti \<and> tk_type a = AND \<and>
     items_tokens (p + length (filter_expression i) + 5) is tr)"

lemma item_lexes:
  assumes "filter_ok item" "stops rest" "lex_from (p + length (filter_expression item)) rest = Some ts"
  shows "\<exists>ti. lex_from p (filter_expression item @ rest) = Some (ti @ ts) \<and> item_tokens p item ti"
proof (cases "has_value item")
  case True
  with assms have "lex_from (p + length (item_head item) + 1 + length (item_tail item)) rest = Some ts"
    by (simp add: filter_expression_text add.assoc)
  from lexes_spaced_two [OF lexes_head [OF assms(1)] lexes_tail [OF assms(1) True] assms(2) this]
  obtain ta tb where "lex_from p (item_head item @ '' '' @ item_tail item @ rest) = Some (ta @ tb @ ts)"
    "item_tokens p item (ta @ tb)" unfolding item_tokens_def using True by metis
  with True assms(1) show ?thesis by (auto simp: filter_expression_text)
next
  case False
  with assms have "lex_from (p + length (item_head item)) rest = Some ts" by (simp add: filter_expression_text)
  from lexesD [OF lexes_head [OF assms(1)] assms(2) this]
  obtain ta where "lex_from p (item_head item @ rest) = Some (ta @ ts)" "item_tokens p item ta"
    unfolding item_tokens_def using False by (metis append_Nil2)
  with False assms(1) show ?thesis by (auto simp: filter_expression_text)
qed

lemma filter_expression_nonempty: "filter_ok item \<Longrightarrow> filter_expression item \<noteq> []"
  using filter_ok_key by (simp add: filter_expression_text item_head_def)

lemma convert_join:
  assumes "list_all filter_ok items"
  shows "convertFiltersToExpression items = join '' AND '' (map filter_expression items)"
proof -
  have "filter (\<lambda>e. e \<noteq> []) (map filter_expression items) = map filter_expression items"
    using assms filter_expression_nonempty by (auto simp: list_all_iff filter_id_conv)
  then show ?thesis by (simp add: convertFiltersToExpression_def)
qed

lemma lexes_and:
  assumes "lex_from (Suc p + length ''AND'') ('' '' @ rest) = Some ts"
  shows "\<exists>a. lex_from p ('' AND '' @ rest) = Some (a # ts) \<and> tk_type a = AND"
proof -
  have "stops ('' '' @ rest)" by simp
  from lexesD [OF lexes_words(7) this assms] obtain ta where
    ta: "lex_from (Suc p) (''AND'' @ '' '' @ rest) = Some (ta @ ts)" "map shape ta = [(AND, ''AND'')]" by metis
  from ta(2) obtain a where "ta = [a]" "tk_type a = AND" by (auto simp: shape_def)
  with ta(1) lex_from_space [of p "''AND '' @ rest"] show ?thesis by simp
qed

lemma items_lex:
  assumes "list_all filter_ok items"
  shows "\<exists>ts. lex_from p (join '' AND '' (map filter_expression items)) = Some ts \<and> items_tokens p items ts"
  using assms
proof (induction items arbitrary: p rule: induct_list012)
  case 1
  then show ?case by (simp add: lex_from_end)
next
  case (2 i)
  then show ?case using item_lexes [OF _ stops_simps(1) lex_from_end, of i p] by auto
next
  case (3 i j js)
  let ?rest = "join '' AND '' (map filter_expression (j # js))"
  have ok: "filter_ok i" "list_all filter_ok (j # js)" using "3.prems" by simp_all
  let ?p = "p + length (filter_expression i)"
  from "3.IH"(2) [OF ok(2), of "?p + 5"] obtain tr where
    tr: "lex_from (?p + 5) ?rest = Some tr" "items_tokens (?p + 5) (j # js) tr" by blast
  have "lex_from (Suc ?p + length ''AND'') ('' '' @ ?rest) = Some tr"
    using tr(1) lex_from_space [of "?p + 4" ?rest] by (simp add: numeral_eq_Suc)
  from lexes_and [OF this] obtain a where a: "lex_from ?p ('' AND '' @ ?rest) = Some (a # tr)" "tk_type a = AND" by blast
  from item_lexes [OF ok(1) _ a(1)] obtain ti where
    "lex_from p (filter_expression i @ '' AND '' @ ?rest) = Some (ti @ a # tr)" "item_tokens p i ti" by auto
  with tr(2) a(2) show ?case by (intro exI [of _ "ti @ a # tr"]) auto
qed

end
