(* ===== verification/FilterRoundtrip.thy ===== *)
theory FilterRoundtrip
  imports FilterPrinting
begin

text \<open>
  Printing filters and reading the expression again: what is read off the tokens of one filter, and the
  round trip of a list of filters.
\<close>

section \<open>Reading the tokens of one filter\<close>

lemma shape_Cons:
  assumes "map shape ts = (ty, w) # ws"
  obtains t ts' where "ts = t # ts'" "tk_type t = ty" "tk_text t = w" "map shape ts' = ws"
  using assms by (cases ts) (auto simp: shape_def)

lemma shape_append:
  assumes "map shape ts = ws @ ws'"
  obtains ts1 ts2 where "ts = ts1 @ ts2" "map shape ts1 = ws" "map shape ts2 = ws'"
  using assms by (auto simp: map_eq_append_conv)

text \<open>The values between the brackets.\<close>

lemma scalar_type_value: "isValueToken (scalar_type v)" "scalar_type v \<noteq> RBRACK"
  by (auto simp: isValueToken_def scalar_type_def split: filter_scalar.splits)

lemma bracket_values_list:
  assumes "map shape ts = value_list_shape vs" "tk_type rb = RBRACK"
  shows "\<exists>us. map tk_text us = map formatSingleValue vs \<and>
    (\<forall>rest. bracket_values RBRACK (ts @ rb # rest) = Some (us, rb # rest))"
  using assms(1)
proof (induction vs arbitrary: ts rule: value_list_shape.induct)
  case 1
  then show ?case using assms(2) by simp
next
  case (2 v)
  then obtain t where "ts = [t]" "tk_type t = scalar_type v" "tk_text t = formatSingleValue v"
    by (auto simp: shape_def)
  then show ?case using assms(2) scalar_type_value [of v] by (intro exI [of _ "[t]"]) simp
next
  case (3 v w vs)
  then obtain t c ts' where ts: "ts = t # c # ts'" "tk_type t = scalar_type v" "tk_text t = formatSingleValue v"
      "tk_type c = COMMA" "map shape ts' = value_list_shape (w # vs)"
    by (auto elim!: shape_Cons)
  from "3.IH" [OF ts(5)] obtain us where us: "map tk_text us = map formatSingleValue (w # vs)"
    "\<And>rest. bracket_values RBRACK (ts' @ rb # rest) = Some (us, rb # rest)" by blast
  show ?case
    by (rule exI [of _ "t # us"]) (use ts us scalar_type_value [of v] in \<open>simp add: isValueToken_def\<close>)
qed

lemma upper_in: "isMultiValueOperator ''in''"
  by code_simp

lemma operator_tokens:
  "list_all (\<lambda>(op, ws). \<not> isMultiValueOperator (snd (last ws)) \<and> \<not> isNonValueOperator (snd (last ws))) compare_operators"
  "list_all (\<lambda>(op, ws). \<not> isMultiValueOperator (snd (last ws)) \<and> isNonValueOperator (snd (last ws))) exist_operators"
  "list_all (\<lambda>(op, ws). (if length ws = 2 then getOperatorValue (toUpperCase (''NOT_'' @ snd (last ws)))
      else getOperatorValue (toUpperCase (snd (last ws)))) = op)
     (compare_operators @ member_operators @ exist_operators)"
  by code_simp+

lemma operator_tokens_shape:
  "list_all (\<lambda>(op, ws). ws \<noteq> [] \<and> (length ws = 1 \<or> length ws = 2 \<and> ws ! 0 = (NOT, ''not'')) \<and> snd (last ws) \<noteq> [] \<and>
      isOperatorToken (fst (last ws)) \<and> fst (last ws) \<noteq> NOT \<and> fst (last ws) \<noteq> EOF \<and> fst (last ws) \<noteq> KEY)
     (compare_operators @ member_operators @ exist_operators)"
  by (simp add: compare_operators_def member_operators_def exist_operators_def isOperatorToken_def)

lemma extract_key:
  "tk_type t = KEY \<Longrightarrow> extract_pairs q (t # ts) None found = extract_pairs q ts (Some (new_pair t)) found"
  by (simp add: extract_pairs.simps(2) has_key_def)

lemma extract_not:
  "tk_type t = NOT \<Longrightarrow> extract_pairs q (t # ts) (Some p) found = extract_pairs q ts (Some (with_negation t p)) found"
  by (simp add: extract_pairs.simps(2))

lemma extract_operator:
  assumes "isOperatorToken (tk_type t)" "tk_type t \<notin> {NOT, EOF, KEY}" "qp_key p \<noteq> []" "qp_operator p = []"
  shows "\<not> isMultiValueOperator (tk_text t) \<Longrightarrow>
      extract_pairs q (t # ts) (Some p) found = extract_pairs q ts (Some (with_operator t None p)) found"
    and "isMultiValueOperator (tk_text t) \<Longrightarrow> multi_values ts = Some (vs, se, rest) \<Longrightarrow>
      extract_pairs q (t # ts) (Some p) found
        = extract_pairs q rest (Some (with_operator t se (with_values q vs se p))) found"
  using assms by (simp_all add: extract_pairs.simps(2) has_key_def)

lemma extract_value:
  assumes "isValueToken (tk_type t)" "expects_value (Some p)"
  shows "extract_pairs q (t # ts) (Some p) found = extract_pairs q ts (Some (with_value t p)) found"
  using assms by (auto simp: extract_pairs.simps(2) isValueToken_def isOperatorToken_def expects_value_def has_key_def)

lemma extract_closing:
  "tk_type t = RBRACK \<Longrightarrow> extract_pairs q (t # ts) (Some p) found = extract_pairs q ts (Some p) found"
  by (simp add: extract_pairs.simps(2) isOperatorToken_def isValueToken_def isConjunctionToken_def)

lemma extract_and:
  "tk_type t = AND \<Longrightarrow> qp_key p \<noteq> [] \<Longrightarrow>
    extract_pairs q (t # ts) (Some p) found = extract_pairs q ts None (found @ [p])"
  by (simp add: extract_pairs.simps(2) isOperatorToken_def isValueToken_def isConjunctionToken_def has_key_def finished_def)

lemma extract_end:
  "tk_type t = EOF \<Longrightarrow> qp_key p \<noteq> [] \<Longrightarrow> extract_pairs q [t] (Some p) found = Some (found @ [p])"
  by (simp add: extract_pairs.simps(2) has_key_def finished_def)

lemma member_in: "list_all (\<lambda>(op, ws). snd (last ws) = ''in'') member_operators"
  by (simp add: member_operators_def)

lemma operator_unique:
  assumes "(op, ws) \<in> set (compare_operators @ member_operators @ exist_operators)"
    and "(op, ws') \<in> set (compare_operators @ member_operators @ exist_operators)"
  shows "ws = ws'"
  using all_operators_distinct assms by (rule eq_key_imp_eq_value)

lemma operator_property:
  assumes "list_all (\<lambda>(op, ws). P op ws) tab" "op \<in> fst ` set tab"
    and "set tab \<subseteq> set (compare_operators @ member_operators @ exist_operators)"
  shows "P op (operator_shape op)"
proof -
  from assms(2) obtain ws where ws: "(op, ws) \<in> set tab" by auto
  then have "op \<in> fst ` set (compare_operators @ member_operators @ exist_operators)"
    using assms(3) by (metis fst_conv image_eqI subsetD)
  from operator_unique [OF operator_shape_in [OF this], of ws] ws assms(3) have "operator_shape op = ws" by blast
  then show ?thesis using ws assms(1) unfolding list_all_iff by auto
qed

text \<open>The key and a negation, up to the operator.\<close>

definition opened :: "string \<Rightarrow> nat \<Rightarrow> nat \<Rightarrow> bool \<Rightarrow> IQueryPair \<Rightarrow> bool" where
  "opened k start stop neg p \<longleftrightarrow> pp_keyEnd (qp_position p) = stop \<and> qp_key p = k \<and> qp_operator p = [] \<and> qp_value p = None \<and> qp_valueList p = [] \<and>
     qp_hasNegation p = neg \<and> \<not> qp_isMultiValue p \<and> pp_keyStart (qp_position p) = start \<and>
     pp_valueStart (qp_position p) = None \<and> pp_valueEnd (qp_position p) = None"

lemma extract_opening:
  assumes "map shape ts = (KEY, k) # ws"
    and "ws \<noteq> [] \<and> (length ws = 1 \<or> length ws = 2 \<and> ws ! 0 = (NOT, ''not''))"
  shows "\<exists>p o1. opened k (tk_start (hd ts)) (tk_stop (hd ts)) (length ws = 2) p \<and> shape o1 = last ws \<and> o1 = last ts \<and>
    (\<forall>rest found. extract_pairs q (ts @ rest) None found = extract_pairs q (o1 # rest) (Some p) found)"
proof -
  from assms(1) obtain t ts' where t: "ts = t # ts'" "tk_type t = KEY" "tk_text t = k" "map shape ts' = ws"
    by (rule shape_Cons)
  have new: "opened k (tk_start t) (tk_stop t) False (new_pair t)" using t(3) by (simp add: opened_def new_pair_def)
  from assms(2) consider w where "ws = [w]" | w where "ws = [(NOT, ''not''), w]"
    by (auto simp: length_Suc_conv numeral_2_eq_2)
  then show ?thesis
  proof cases
    case 1
    with t(4) obtain o1 where "ts' = [o1]" "shape o1 = w" by auto
    then show ?thesis
      by (intro exI [of _ "new_pair t"] exI [of _ o1]) (simp add: t new 1 extract_key)
  next
    case 2
    with t(4) obtain n o1 where n: "ts' = [n, o1]" "tk_type n = NOT" "shape o1 = w" by (auto simp: shape_def)
    have "opened k (tk_start t) (tk_stop t) True (with_negation n (new_pair t))" using new by (simp add: opened_def with_negation_def)
    then show ?thesis
      by (intro exI [of _ "with_negation n (new_pair t)"] exI [of _ o1]) (simp add: t n 2 extract_key extract_not)
  qed
qed

lemma pair_operator:
  assumes "(fi_op item, ws) \<in> set (compare_operators @ member_operators @ exist_operators)"
    and "qp_hasNegation p \<longleftrightarrow> length ws = 2" "qp_operator p = snd (last ws)"
  shows "fi_op (pair_filter p) = fi_op item"
  using operator_tokens(3) assms unfolding list_all_iff by (fastforce simp: pair_filter_def)

text \<open>What is read off a printed filter that starts at position \<open>p\<close>.\<close>

definition read_pair :: "nat \<Rightarrow> TagFilterItem \<Rightarrow> IQueryPair \<Rightarrow> bool" where
  "read_pair p item P \<longleftrightarrow> pair_filter P = item \<and> qp_key P \<noteq> [] \<and> qp_operator P \<noteq> [] \<and>
     fi_op item = (if qp_hasNegation P then ''not '' else []) @ qp_operator P \<and>
     pp_keyStart (qp_position P) = p \<and> Suc (pp_keyEnd (qp_position P)) = p + length (fi_key item) \<and>
     Suc (pp_operatorEnd (qp_position P)) = p + length (item_head item) \<and>
     qp_valueList P = (case fi_value item of VMany vs \<Rightarrow> map formatSingleValue vs | VOne _ \<Rightarrow> []) \<and>
     (if has_value item
      then qp_value P = Some (item_tail item)
        \<and> pp_valueStart (qp_position P) = Some (p + length (item_head item) + 1)
        \<and> pp_valueEnd (qp_position P) = Some (p + length (filter_expression item) - 1)
      else qp_value P = None \<and> pp_valueStart (qp_position P) = None \<and> pp_valueEnd (qp_position P) = None)"

lemma operator_text:
  "list_all (\<lambda>(op, ws). op = (if length ws = 2 then ''not '' else []) @ snd (last ws))
     (compare_operators @ member_operators @ exist_operators)"
  by (simp add: compare_operators_def member_operators_def exist_operators_def)

lemma operator_ends:
  "list_all (\<lambda>(op, ws). op \<noteq> [] \<and> \<not> is_ws (last op)) (compare_operators @ member_operators @ exist_operators)"
  by (simp add: compare_operators_def member_operators_def exist_operators_def is_ws_def)

text \<open>The ends of a printed value are not white space.\<close>

lemma tail_ends:
  assumes "filter_ok item" "has_value item"
  shows "item_tail item \<noteq> [] \<and> \<not> is_ws (hd (item_tail item)) \<and> \<not> is_ws (last (item_tail item))"
  using assms(1)
proof (cases rule: filter_ok_cases)
  case (many vs)
  then show ?thesis by (simp add: item_tail_def bracketed_def is_ws_def)
next
  case (one v)
  have t: "item_tail item = formatSingleValue v" using one by (simp add: item_tail_def)
  from one(3) show ?thesis
  proof (cases rule: scalar_ok_cases)
    case (1 s)
    then show ?thesis by (simp only: t format_string) (simp add: is_ws_def)
  next
    case (2 i)
    have "int_str i \<noteq> []" "hd (int_str i) = CHR ''-'' \<or> is_digit (hd (int_str i))" "is_digit (last (int_str i))"
      using nat_str_digits [of "nat i"] nat_str_digits [of "nat (- i)"]
      by (auto simp: int_str_def list_all_iff)
    moreover have "\<not> is_ws (CHR ''-'')" "\<not> is_ws c" if "is_digit c" for c
      using that by (auto simp: is_ws_def is_digit_def less_eq_char_def)
    ultimately show ?thesis using 2 by (auto simp: t formatSingleValue_def value_text_def number_text_int is_ws_def)
  next
    case (3 b)
    then show ?thesis by (auto simp: t formatSingleValue_def value_text_def is_ws_def)
  qed
qed (use assms in simp)

lemma key_start_ws: "filter_ok item \<Longrightarrow> \<not> is_ws (hd (fi_key item))"
  using filter_ok_key [of item] by (cases "fi_key item") (auto simp: key_word_def key_like_def free_char_def)

lemma operator_end: "filter_ok item \<Longrightarrow> fi_op item \<noteq> [] \<and> \<not> is_ws (last (fi_op item))"
  using operator_property [OF operator_ends filter_ok_op subset_refl] by simp

lemma extract_item:
  assumes ok: "filter_ok item" and tok: "item_tokens p item ts"
    and q: "q = pre @ filter_expression item @ post" "length pre = p"
  shows "\<exists>P. read_pair p item P \<and>
    (\<forall>rest found. extract_pairs q (ts @ rest) None found = extract_pairs q rest (Some P) found)"
proof -
  let ?ws = "operator_shape (fi_op item)"
  note key = filter_ok_key [OF ok, THEN conjunct2]
  note ws = operator_shape_in [OF filter_ok_op [OF ok]]
  have wsok: "?ws \<noteq> [] \<and> (length ?ws = 1 \<or> length ?ws = 2 \<and> ?ws ! 0 = (NOT, ''not''))" "snd (last ?ws) \<noteq> []"
    "isOperatorToken (fst (last ?ws))" "fst (last ?ws) \<notin> {NOT, EOF, KEY}"
    using operator_property [OF operator_tokens_shape filter_ok_op [OF ok] subset_refl] by simp_all
  have op_text: "fi_op item = (if length ?ws = 2 then ''not '' else []) @ snd (last ?ws)"
    by (rule operator_property [OF operator_text filter_ok_op [OF ok] subset_refl])
  from tok [unfolded item_tokens_def] obtain ta tb where tt: "ts = ta @ tb \<and>
     map shape ta = (KEY, fi_key item) # ?ws \<and> placed p (item_head item) ta \<and>
     (if has_value item then map shape tb = tail_shape item \<and> placed (p + length (item_head item) + 1) (item_tail item) tb
      else tb = [])" by (elim exE)
  note ts = tt [THEN conjunct1] tt [THEN conjunct2, THEN conjunct1] tt [THEN conjunct2, THEN conjunct2, THEN conjunct1]
    and tb = tt [THEN conjunct2, THEN conjunct2, THEN conjunct2]
  have "tk_start (hd ta) = p"
    using ts(3) key key_start_ws [OF ok] by (simp add: placed_def item_head_def)
  moreover have "tk_text (hd ta) = fi_key item" "ta \<noteq> []" using ts(2) by (auto simp: shape_def)
  then have "Suc (tk_stop (hd ta)) = tk_start (hd ta) + length (fi_key item)"
    using ts(3) by (simp add: placed_def)
  moreover have "Suc (tk_stop (last ta)) = p + length (item_head item)"
    using ts(3) operator_end [OF ok] by (simp add: placed_def item_head_def)
  ultimately obtain P o1 where P: "opened (fi_key item) p (p + length (fi_key item) - 1) (length ?ws = 2) P" "shape o1 = last ?ws"
    "\<And>rest found. extract_pairs q (ta @ rest) None found = extract_pairs q (o1 # rest) (Some P) found"
    and stops: "Suc (p + length (fi_key item) - 1) = p + length (fi_key item)" "Suc (tk_stop o1) = p + length (item_head item)"
    using extract_opening [OF ts(2) wsok(1)] key by (metis Suc_pred' add_diff_cancel_left' add_gr_0 diff_Suc_1 length_greater_0_conv)
  have o1: "isOperatorToken (tk_type o1)" "tk_type o1 \<notin> {NOT, EOF, KEY}" "tk_text o1 = snd (last ?ws)"
    using wsok P(2) by (auto simp: shape_def prod_eq_iff)
  have po: "qp_key P \<noteq> []" "qp_operator P = []" using P(1) key by (simp_all add: opened_def)
  note op = extract_operator [OF o1(1,2) po]
  have op_item: "fi_op (pair_filter P') = fi_op item"
    if "qp_hasNegation P' = qp_hasNegation P" "qp_operator P' = tk_text o1" for P'
    using P(1) o1(3) that by (intro pair_operator [OF ws]) (simp_all add: opened_def)
  have single: "\<not> isMultiValueOperator (tk_text o1)"
    if "fi_op item \<in> fst ` set compare_operators \<or> fi_op item \<in> fst ` set exist_operators"
    using that o1(3) operator_property [OF operator_tokens(1)] operator_property [OF operator_tokens(2)] by auto
  note ends = tail_ends [OF ok]
  show ?thesis
    using ok
  proof (cases rule: filter_ok_cases)
    case (many ws')
    from many(2) have "snd (last ?ws) = ''in''" using operator_property [OF member_in] by auto
    with o1(3) upper_in have mv: "isMultiValueOperator (tk_text o1)" by simp
    from tb many have sh: "map shape tb = (LBRACK, ''['') # value_list_shape ws' @ [(RBRACK, '']'')]"
      and pl: "placed (p + length (item_head item) + 1) (item_tail item) tb" by (simp_all add: tail_shape_def)
    from sh obtain lb us rb where ts2: "tb = lb # us @ [rb]" "tk_type lb = LBRACK" "map shape us = value_list_shape ws'"
        "tk_type rb = RBRACK"
      by (auto simp: shape_def map_eq_Cons_conv map_eq_append_conv)
    from pl ends many(4) ts2(1) have st: "tk_start lb = p + length (item_head item) + 1"
      "Suc (tk_stop rb) = p + length (item_head item) + 1 + length (item_tail item)" by (auto simp: placed_def)
    from bracket_values_list [OF ts2(3,4)] obtain vt where vt: "map tk_text vt = map formatSingleValue ws'"
      "\<And>rest. bracket_values RBRACK (us @ rb # rest) = Some (vt, rb # rest)" by blast
    let ?se = "Some (tk_start lb, tk_stop rb)"
    let ?P = "with_operator o1 ?se (with_values q vt ?se P)"
    have "multi_values (tb @ rest) = Some (vt, ?se, rb # rest)" for rest
      using ts2(1,2) vt(2) by (simp add: multi_values_def)
    with op(2) [OF mv] extract_closing [OF ts2(4)] ts(1) P(3)
    have "extract_pairs q (ts @ rest) None found = extract_pairs q rest (Some ?P) found" for rest found by simp
    moreover have "read_pair p item ?P"
    proof -
      have "text_between q (tk_start lb) (tk_stop rb) = item_tail item"
        using q st many(4) ok by (simp add: text_between_def filter_expression_text)
      moreover have "0 < tk_stop rb" using st ends many(4) by (cases "item_tail item") simp_all
      ultimately have v: "qp_value ?P = Some (item_tail item)"
        using st by (simp add: with_operator_def with_values_def)
      have "fi_op (pair_filter ?P) = fi_op item"
        by (rule op_item) (simp_all add: with_operator_def with_values_def)
      moreover have "fi_value (pair_filter ?P) = VMany (map formatSingleValueForFilter (map formatSingleValue ws'))"
        using vt(1) by (simp add: pair_filter_def with_operator_def with_values_def)
      moreover have "map formatSingleValueForFilter (map formatSingleValue ws') = ws'"
        using many(3) scalar_back by (simp add: list_all_iff map_idI)
      moreover have "fi_key (pair_filter ?P) = fi_key item"
        using P(1) by (simp add: pair_filter_def with_operator_def with_values_def opened_def)
      ultimately have "pair_filter ?P = item" using many(1) by simp
      with v P(1) po(1) op_text wsok(2) stops o1(3) vt(1) st many \<open>0 < tk_stop rb\<close> show ?thesis
        by (simp add: read_pair_def opened_def with_operator_def with_values_def or_nonzero_def filter_expression_text [OF ok])
    qed
    ultimately show ?thesis by blast
  next
    case none
    let ?P = "with_operator o1 None P"
    have "tb = []" using tb none by simp
    with op(1) [OF single] none ts(1) P(3)
    have "extract_pairs q (ts @ rest) None found = extract_pairs q rest (Some ?P) found" for rest found by simp
    note ex = this
    have "pair_filter ?P = item"
      using op_item [of ?P] P(1) none by (auto simp: with_operator_def opened_def pair_filter_def)
    moreover have "qp_key ?P = qp_key P" "qp_hasNegation ?P = qp_hasNegation P" "qp_operator ?P = tk_text o1"
        "qp_value ?P = qp_value P" "qp_valueList ?P = qp_valueList P" "pp_keyStart (qp_position ?P) = pp_keyStart (qp_position P)"
        "pp_keyEnd (qp_position ?P) = pp_keyEnd (qp_position P)" "pp_operatorEnd (qp_position ?P) = tk_stop o1"
        "pp_valueStart (qp_position ?P) = pp_valueStart (qp_position P)" "pp_valueEnd (qp_position ?P) = pp_valueEnd (qp_position P)"
      by (simp_all add: with_operator_def or_nonzero_def)
    ultimately have "read_pair p item ?P"
      using P(1) po(1) op_text wsok(2) stops o1(3) none by (simp add: read_pair_def opened_def)
    with ex show ?thesis by blast
  next
    case (one v)
    let ?P = "with_operator o1 None P"
    from tb one obtain t where t: "tb = [t]" "tk_type t = scalar_type v" "tk_text t = formatSingleValue v"
      "placed (p + length (item_head item) + 1) (item_tail item) [t]"
      by (auto simp: shape_def tail_shape_def)
    have st: "tk_start t = p + length (item_head item) + 1"
      "Suc (tk_stop t) = p + length (item_head item) + 1 + length (item_tail item)"
      using t(4) ends one(4) by (auto simp: placed_def)
    let ?P' = "with_value t ?P"
    have "\<not> isNonValueOperator (tk_text o1)"
      using one(2) o1(3) operator_property [OF operator_tokens(1)] by auto
    then have "expects_value (Some ?P)"
      using P(1) po(1) o1(3) wsok(2) by (simp add: expects_value_def has_key_def with_operator_def opened_def)
    with extract_value [of t ?P] t scalar_type_value [of v] op(1) [OF single] one(2) ts(1) P(3)
    have "extract_pairs q (ts @ rest) None found = extract_pairs q rest (Some ?P') found" for rest found by simp
    note ex = this
    have "pair_filter ?P' = item"
      using op_item [of ?P'] P(1) one(1) scalar_back [OF one(3)] t(3)
      by (auto simp: with_operator_def with_value_def opened_def pair_filter_def)
    moreover have "qp_key ?P' = qp_key P" "qp_hasNegation ?P' = qp_hasNegation P" "qp_operator ?P' = tk_text o1"
        "qp_value ?P' = Some (tk_text t)" "qp_valueList ?P' = qp_valueList P" "pp_keyStart (qp_position ?P') = pp_keyStart (qp_position P)"
        "pp_keyEnd (qp_position ?P') = pp_keyEnd (qp_position P)" "pp_operatorEnd (qp_position ?P') = tk_stop o1"
        "pp_valueStart (qp_position ?P') = Some (tk_start t)" "pp_valueEnd (qp_position ?P') = Some (tk_stop t)"
      by (simp_all add: with_operator_def with_value_def)
    ultimately have "read_pair p item ?P'"
      using P(1) po(1) op_text wsok(2) stops o1(3) one st t(3)
      by (simp add: read_pair_def opened_def item_tail_def filter_expression_text [OF ok])
    with ex show ?thesis by blast
  qed
qed

text \<open>What is read off a printed list.\<close>

fun read_pairs :: "nat \<Rightarrow> TagFilterItem list \<Rightarrow> IQueryPair list \<Rightarrow> bool" where
  "read_pairs p [] Ps = (Ps = [])"
| "read_pairs p (i # is) Ps = (\<exists>P Ps'. Ps = P # Ps' \<and> read_pair p i P \<and>
     read_pairs (p + length (filter_expression i) + 5) is Ps')"

lemma extract_items:
  assumes "list_all filter_ok items" "items_tokens p items ts"
    and "q = pre @ join '' AND '' (map filter_expression items)" "length pre = p"
  shows "\<exists>Ps. extract_pairs q ts None found = Some (found @ Ps) \<and> read_pairs p items Ps"
  using assms
proof (induction items arbitrary: p ts pre found rule: induct_list012)
  case 1
  then show ?case by (simp add: extract_pairs.simps(2) finished_def has_key_def end_token_def)
next
  case (2 i)
  then obtain ti where ti: "ts = ti @ [end_token (p + length (filter_expression i))]" "item_tokens p i ti" by auto
  from extract_item [OF _ ti(2), of q pre "[]"] 2 obtain P where P: "read_pair p i P"
    "\<And>rest found. extract_pairs q (ti @ rest) None found = extract_pairs q rest (Some P) found" by auto
  then have "qp_key P \<noteq> []" by (simp add: read_pair_def)
  with P ti(1) show ?case
    by (intro exI [of _ "[P]"]) (simp add: extract_end end_token_def)
next
  case (3 i j js)
  from "3.prems"(2) obtain ti a tr where ts: "ts = ti @ a # tr" "item_tokens p i ti" "tk_type a = AND"
    "items_tokens (p + length (filter_expression i) + 5) (j # js) tr" by auto
  from extract_item [OF _ ts(2), of q pre "'' AND '' @ join '' AND '' (map filter_expression (j # js))"] "3.prems"
  obtain P where P: "read_pair p i P"
    "\<And>rest found. extract_pairs q (ti @ rest) None found = extract_pairs q rest (Some P) found" by auto
  then have k: "qp_key P \<noteq> []" by (simp add: read_pair_def)
  have "q = (pre @ filter_expression i @ '' AND '') @ join '' AND '' (map filter_expression (j # js))"
    using "3.prems"(3) by simp
  from "3.IH"(2) [OF _ ts(4) this, of "found @ [P]"] "3.prems"(1,4) obtain Ps where
    "extract_pairs q tr None (found @ [P]) = Some ((found @ [P]) @ Ps)"
    "read_pairs (p + length (filter_expression i) + 5) (j # js) Ps" by auto
  with ts(1) P k extract_and [OF ts(3) k] show ?case by (intro exI [of _ "P # Ps"]) simp
qed

lemma read_pairs_filters: "read_pairs p items Ps \<Longrightarrow> map pair_filter Ps = items"
  by (induction items arbitrary: p Ps) (auto simp: read_pair_def)

lemma printed_pairs:
  assumes "\<And>s ts. lex s = Some ts \<Longrightarrow> lexer s = ts" "list_all filter_ok items"
  shows "read_pairs 0 items (extractQueryPairs lexer (convertFiltersToExpression items))"
proof -
  let ?e = "convertFiltersToExpression items"
  note e = convert_join [OF assms(2)]
  from items_lex [OF assms(2), of 0] obtain ts where ts: "lex ?e = Some ts" "items_tokens 0 items ts"
    by (auto simp: e lex_def)
  from extract_items [OF assms(2) ts(2), of ?e "[]" "[]"] e obtain Ps where
    "extract_pairs ?e ts None [] = Some Ps" "read_pairs 0 items Ps" by auto
  with assms(1) [OF ts(1)] show ?thesis by (simp add: extractQueryPairs_def)
qed

lemma convert_nonempty: "list_all filter_ok items \<Longrightarrow> items \<noteq> [] \<Longrightarrow> convertFiltersToExpression items \<noteq> []"
  using filter_expression_nonempty by (cases items; cases "tl items") (auto simp: convert_join)

section \<open>Properties\<close>

text \<open>C5: Take filters whose keys are single words of the grammar and no keywords, whose operators are, in lower case, =, !=, <,
  <=, >, >=, like, ilike, contains, in or exists or, of the last five, the form with not before it, and whose values are texts without
  single quotes, backslashes and line ends that neither are in quotes themselves nor start with a dollar sign, whole numbers
  or booleans (a list of these for in and not in, the empty text for exists and not exists).  Converted to an expression and
  back they are unchanged, for every lexer that does what the grammar says.  (Regular expressions, has and their
  negations, which the builder offers too, are not covered.)\<close>

theorem filters_expression_roundtrip:
  assumes "\<And>s ts. lex s = Some ts \<Longrightarrow> lexer s = ts" "list_all filter_ok items"
  shows "convertExpressionToFilters lexer (convertFiltersToExpression items) = items"
proof (cases "items = []")
  case True
  then show ?thesis by (simp add: convertExpressionToFilters_def convertFiltersToExpression_def)
next
  case False
  with convert_nonempty [OF assms(2)] read_pairs_filters [OF printed_pairs [OF assms]] show ?thesis
    by (simp add: convertExpressionToFilters_def)
qed

definition grammar_lexer :: "string \<Rightarrow> IToken list" where
  "grammar_lexer s = (case lex s of None \<Rightarrow> [] | Some ts \<Rightarrow> ts)"

definition sample_filters :: "TagFilterItem list" where
  "sample_filters = [\<lparr> fi_key = ''service.name'', fi_op = ''not in'', fi_value = VMany [VStr ''a b'', VNum (JNum 3)] \<rparr>,
     \<lparr> fi_key = ''status'', fi_op = ''exists'', fi_value = VOne (VStr []) \<rparr>,
     \<lparr> fi_key = ''ok'', fi_op = ''='', fi_value = VOne (VBool True) \<rparr>]"

theorem filters_expression_roundtrip_witness:
  "convertExpressionToFilters grammar_lexer (convertFiltersToExpression sample_filters) = sample_filters"
proof (rule filters_expression_roundtrip)
  have keys: "list_all key_word [''service.name'', ''status'', ''ok'']" by code_simp
  have "plain_text ''a b''" by code_simp
  with keys show "list_all filter_ok sample_filters"
    by (simp add: sample_filters_def filter_ok_def scalar_ok_def member_operators_def exist_operators_def compare_operators_def)
qed (simp add: grammar_lexer_def)

text \<open>Not every filter comes back: a quote in a value stays escaped, a negated regular expression comes back
  with an operator that no one prints, a filter by a function loses its operator and value, and one list
  that is not closed loses all filters of the expression.\<close>

theorem filters_expression_lossy:
  "convertExpressionToFilters grammar_lexer (convertFiltersToExpression
     [\<lparr> fi_key = ''k'', fi_op = ''='', fi_value = VOne (VStr [CHR 0x27]) \<rparr>])
     = [\<lparr> fi_key = ''k'', fi_op = ''='', fi_value = VOne (VStr [CHR 0x5C, CHR 0x27]) \<rparr>]
   \<and> convertExpressionToFilters grammar_lexer (convertFiltersToExpression
     [\<lparr> fi_key = ''k'', fi_op = ''nregex'', fi_value = VOne (VStr ''x'') \<rparr>])
     = [\<lparr> fi_key = ''k'', fi_op = ''NOT_REGEXP'', fi_value = VOne (VStr ''x'') \<rparr>]
   \<and> convertExpressionToFilters grammar_lexer (convertFiltersToExpression
     [\<lparr> fi_key = ''k'', fi_op = ''has'', fi_value = VOne (VStr ''x'') \<rparr>])
     = [\<lparr> fi_key = ''k'', fi_op = [], fi_value = VOne (VStr []) \<rparr>]
   \<and> convertExpressionToFilters grammar_lexer ''k = 1 AND m in (2''  = []"
  by code_simp

end
