(* ===== verification/FilterEditing.thy ===== *)
theory FilterEditing
  imports FilterExpression
begin

text \<open>
  Editing a filter expression in place: merging the items of the filter form into an existing
  expression, and removing keys from it, from \<^verbatim>\<open>frontend/src/components/QueryBuilderV2/utils.ts\<close>.  A
  \<^verbatim>\<open>Map\<close> is an association list in the order of its insertions.
\<close>

section \<open>The comparisons of a query by key and operator\<close>

definition lower_trim :: "string \<Rightarrow> string" where
  "lower_trim s = toLowerCase (js_trim s)"

definition pair_map_key :: "IQueryPair \<Rightarrow> string" where
  "pair_map_key p =
     (if qp_hasNegation p then lower_trim (qp_key p @ ''-not '' @ qp_operator p)
      else lower_trim (qp_key p @ ''-'' @ qp_operator p))"

definition getQueryPairsMap :: "(string \<Rightarrow> IToken list) \<Rightarrow> string \<Rightarrow> IQueryPair jsobj" where
  "getQueryPairsMap lexer query =
     fold (\<lambda>p m. obj_set (pair_map_key p) p m) (extractQueryPairs lexer query) []"

definition item_map_key :: "string \<Rightarrow> string \<Rightarrow> string" where
  "item_map_key k op = lower_trim (k @ ''-'' @ op)"

section \<open>Merging filters into a query\<close>

definition replace_deprecated :: "TagFilterItem \<Rightarrow> TagFilterItem" where
  "replace_deprecated item =
     (case map_of DEPRECATED_OPERATORS_MAP (toLowerCase (fi_op item)) of
        None \<Rightarrow> item
      | Some new \<Rightarrow> item\<lparr> fi_op := toLowerCase new \<rparr>)"

text \<open>\<^verbatim>\<open>query.slice(0, start) + text + query.slice(stop)\<close>.\<close>

definition splice :: "string \<Rightarrow> nat \<Rightarrow> nat \<Rightarrow> string \<Rightarrow> string" where
  "splice query start stop txt = take start query @ txt @ drop stop query"

text \<open>The state of the loop over the filters.\<close>

record edit_state =
  es_nonExisting :: "TagFilterItem list"
  es_query :: string
  es_visited :: "string set"
  es_map :: "IQueryPair jsobj"

definition value_span :: "IQueryPair \<Rightarrow> (nat \<times> nat) option" where
  "value_span p =
     (case (pp_valueStart (qp_position p), pp_valueEnd (qp_position p)) of
        (Some s, Some e) \<Rightarrow> if s \<noteq> 0 \<and> e \<noteq> 0 then Some (s, e) else None
      | _ \<Rightarrow> None)"

text \<open>The new text goes in and the comparisons are read again.\<close>

definition rewrite :: "(string \<Rightarrow> IToken list) \<Rightarrow> nat \<Rightarrow> nat \<Rightarrow> string \<Rightarrow> edit_state \<Rightarrow> edit_state" where
  "rewrite lexer start stop txt st =
     (let query = splice (es_query st) start stop txt
      in st\<lparr> es_query := query, es_map := getQueryPairsMap lexer query \<rparr>)"

definition visit :: "string \<Rightarrow> edit_state \<Rightarrow> edit_state" where
  "visit k st = st\<lparr> es_visited := insert k (es_visited st) \<rparr>"

definition clean_value :: "filter_scalar \<Rightarrow> filter_scalar" where
  "clean_value v = (case v of VStr s \<Rightarrow> VStr (unquote s) | _ \<Rightarrow> v)"

text \<open>The values of a list in some order; \<^verbatim>\<open>sortBy\<close> is an argument.\<close>

definition same_values :: "(filter_scalar list \<Rightarrow> filter_scalar list) \<Rightarrow> string list \<Rightarrow> filter_scalar list \<Rightarrow> bool" where
  "same_values sortBy existing new =
     (let cleanExistingValues = map (\<lambda>s. clean_value (VStr s)) existing; cleanFilterValues = map clean_value new
      in length cleanExistingValues = length cleanFilterValues
         \<and> sortBy cleanExistingValues = sortBy cleanFilterValues)"

text \<open>A list of the same key and operator is in the query: its values are replaced, unless they are the same.\<close>

definition replace_list ::
  "(filter_scalar list \<Rightarrow> filter_scalar list) \<Rightarrow> (string \<Rightarrow> IToken list) \<Rightarrow> TagFilterItem \<Rightarrow> IQueryPair \<Rightarrow> nat \<times> nat
     \<Rightarrow> edit_state \<Rightarrow> edit_state" where
  "replace_list sortBy lexer item p se st =
     (let st1 = visit (item_map_key (fi_key item) (fi_op item)) st
      in if (case fi_value item of VMany vs \<Rightarrow> same_values sortBy (qp_valueList p) vs | VOne v \<Rightarrow> False)
         then st1\<lparr> es_query := splice (es_query st1) (fst se) (Suc (snd se))
                (case qp_value p of None \<Rightarrow> ''undefined'' | Some v \<Rightarrow> v) \<rparr>
         else rewrite lexer (fst se) (Suc (snd se)) (formatValueForExpression (fi_value item) (fi_op item)) st1)"

text \<open>Another operator of the key gives way to the list: from where it starts to the end of its value.\<close>

definition take_over ::
  "(string \<Rightarrow> IToken list) \<Rightarrow> string \<Rightarrow> (pair_position \<Rightarrow> nat) \<Rightarrow> string \<Rightarrow> string \<Rightarrow> edit_state \<Rightarrow> edit_state" where
  "take_over lexer k start operator formatted st =
     (let st1 = visit k st
      in case obj_get (es_map st1) k of
           None \<Rightarrow> st1
         | Some p \<Rightarrow>
             (case pp_valueEnd (qp_position p) of
                None \<Rightarrow> st1
              | Some e \<Rightarrow>
                  if e = 0 then st1
                  else rewrite lexer (start (qp_position p)) (Suc e) (operator @ '' '' @ formatted @ '' '') st1))"

definition merge_list :: "(string \<Rightarrow> IToken list) \<Rightarrow> TagFilterItem \<Rightarrow> edit_state \<Rightarrow> edit_state \<times> bool" where
  "merge_list lexer item st =
     (let formatted = formatValueForExpression (fi_value item) (fi_op item);
          known = (\<lambda>k. obj_get (es_map st) k \<noteq> None);
          notIn = lower_trim (fi_key item @ ''-'' @ ''NOT '' @ fi_op item);
          equals = lower_trim (fi_key item @ ''-='');
          notEquals = lower_trim (fi_key item @ ''-!='')
      in if toUpperCase (js_trim (fi_op item)) = ''IN'' then
           (if known notIn then (take_over lexer notIn pp_negationStart ''IN'' formatted st, False)
            else if known equals then (take_over lexer equals pp_operatorStart ''IN'' formatted st, False)
            else if known notEquals then (take_over lexer notEquals pp_operatorStart ''IN'' formatted st, False)
            else (st, True))
         else if known notEquals then (take_over lexer notEquals pp_operatorStart ''NOT IN'' formatted st, False)
         else (st, True))"

definition is_list_operator :: "string \<Rightarrow> bool" where
  "is_list_operator op \<longleftrightarrow> toUpperCase (js_trim op) \<in> {''IN'', ''NOT IN''}"

text \<open>After the lists: the value of a comparison that is in the query is replaced, another one is kept for later.\<close>

definition replace_value :: "(string \<Rightarrow> IToken list) \<Rightarrow> TagFilterItem \<Rightarrow> bool \<Rightarrow> edit_state \<Rightarrow> edit_state" where
  "replace_value lexer item shouldAdd st =
     (let k = item_map_key (fi_key item) (fi_op item);
          st1 = (case obj_get (es_map st) k of
                   None \<Rightarrow> st
                 | Some p \<Rightarrow> visit k
                     (case value_span p of
                        None \<Rightarrow> st
                      | Some (s, e) \<Rightarrow> rewrite lexer s (Suc e) (formatValueForExpression (fi_value item) (fi_op item)) st))
      in if shouldAdd \<and> obj_get (es_map st1) k = None then st1\<lparr> es_nonExisting := es_nonExisting st1 @ [item] \<rparr> else st1)"

definition edit_filter ::
  "(filter_scalar list \<Rightarrow> filter_scalar list) \<Rightarrow> (string \<Rightarrow> IToken list) \<Rightarrow> TagFilterItem \<Rightarrow> edit_state \<Rightarrow> edit_state" where
  "edit_filter sortBy lexer item st =
     (let existing = (case obj_get (es_map st) (item_map_key (fi_key item) (fi_op item)) of
            None \<Rightarrow> None
          | Some p \<Rightarrow> map_option (\<lambda>se. (p, se)) (value_span p))
      in if is_list_operator (fi_op item) then
           (case existing of
              Some (p, se) \<Rightarrow> replace_list sortBy lexer item p se st
            | None \<Rightarrow> (case merge_list lexer item st of (st1, shouldAdd) \<Rightarrow> replace_value lexer item shouldAdd st1))
         else replace_value lexer item True st)"

definition convertFiltersToExpressionWithExistingQuery ::
  "(filter_scalar list \<Rightarrow> filter_scalar list) \<Rightarrow> (string \<Rightarrow> IToken list) \<Rightarrow> TagFilterItem list \<Rightarrow> string
     \<Rightarrow> TagFilterItem list \<times> string" where
  "convertFiltersToExpressionWithExistingQuery sortBy lexer items existingQuery =
     (let updated = map replace_deprecated items
      in if existingQuery = [] then (updated, convertFiltersToExpression updated)
         else
           let st = fold (edit_filter sortBy lexer) items
                 \<lparr> es_nonExisting = [], es_query = existingQuery, es_visited = {},
                   es_map = getQueryPairsMap lexer existingQuery \<rparr>;
               newItems = map (\<lambda>(k, p). pair_filter p) (filter (\<lambda>(k, p). k \<notin> es_visited st) (es_map st));
               added = convertFiltersToExpression (es_nonExisting st)
           in (updated @ newItems,
               if added = [] then es_query st else js_trim (es_query st) @ '' '' @ added))"

section \<open>Removing keys\<close>

definition word_in :: "string list \<Rightarrow> string \<Rightarrow> nat option" where
  "word_in ws s = map_option length (find (\<lambda>w. toUpperCase (take (length w) s) = w) ws)"

text \<open>The length of the match of \<^verbatim>\<open>/^(\s*((AND|OR)\s+)?)/i\<close>.\<close>

definition conjunction_length :: "string \<Rightarrow> nat" where
  "conjunction_length s =
     (let spaces = length (takeWhile is_space s); s' = dropWhile is_space s
      in case word_in [''AND'', ''OR''] s' of
           None \<Rightarrow> spaces
         | Some n \<Rightarrow>
             let after = length (takeWhile is_space (drop n s'))
             in if after = 0 then spaces else spaces + n + after)"

text \<open>\<^verbatim>\<open>s.replace(/\s+(AND|OR)\s*$/i, '')\<close>: white space, the word and white space up to the end.\<close>

definition drop_trailing_conjunction :: "string \<Rightarrow> string" where
  "drop_trailing_conjunction s =
     (let r = dropWhile is_space (rev s)
      in case word_in [''DNA'', ''RO''] r of
           None \<Rightarrow> s
         | Some n \<Rightarrow> if takeWhile is_space (drop n r) = [] then s else rev (dropWhile is_space (drop n r)))"

text \<open>\<^verbatim>\<open>s.replace(/^(AND|OR)\s+/i, '')\<close>.\<close>

definition drop_leading_conjunction :: "string \<Rightarrow> string" where
  "drop_leading_conjunction s =
     (case word_in [''AND'', ''OR''] s of
        None \<Rightarrow> s
      | Some n \<Rightarrow> if takeWhile is_space (drop n s) = [] then s else dropWhile is_space (drop n s))"

definition variable_pair :: "string \<Rightarrow> IQueryPair \<Rightarrow> bool" where
  "variable_pair key p \<longleftrightarrow> lower_trim (qp_key p) = lower_trim key \<and>
     (case qp_value p of None \<Rightarrow> False | Some v \<Rightarrow> js_trim v \<noteq> [] \<and> CHR ''$'' \<in> set (js_trim v))"

text \<open>The last comparison with the key.\<close>

definition current_pair :: "(string \<Rightarrow> IToken list) \<Rightarrow> bool \<Rightarrow> string \<Rightarrow> string \<Rightarrow> IQueryPair option" where
  "current_pair lexer onlyVariables key expression =
     (let pairs = extractQueryPairs lexer expression;
          filtered = (if onlyVariables then filter (variable_pair key) pairs else pairs)
      in obj_get (fold (\<lambda>p m. obj_set (lower_trim (qp_key p)) p m) filtered []) (lower_trim key))"

definition remove_key :: "(string \<Rightarrow> IToken list) \<Rightarrow> bool \<Rightarrow> string \<Rightarrow> string \<Rightarrow> string" where
  "remove_key lexer onlyVariables key expression =
     (case current_pair lexer onlyVariables key expression of
        None \<Rightarrow> expression
      | Some p \<Rightarrow>
          if isComplete p then
            let pos = qp_position p;
                pairEnd = (case pp_valueEnd pos of None \<Rightarrow> pp_operatorEnd pos | Some e \<Rightarrow> e);
                queryPairEnd = pairEnd + conjunction_length (drop (Suc pairEnd) expression)
            in js_trim (splice expression (pp_keyStart pos) (Suc queryPairEnd) [])
          else expression)"

definition removeKeysFromExpression :: "(string \<Rightarrow> IToken list) \<Rightarrow> string \<Rightarrow> string list \<Rightarrow> bool \<Rightarrow> string" where
  "removeKeysFromExpression lexer expression keysToRemove onlyVariables =
     (if keysToRemove = [] \<or> expression = [] then expression
      else js_trim (drop_leading_conjunction (drop_trailing_conjunction
        (fold (remove_key lexer onlyVariables) keysToRemove expression))))"

section \<open>Having and aggregations\<close>

datatype having_value = HOne js_number | HMany "js_number list"

record Having =
  hv_columnName :: string
  hv_op :: string
  hv_value :: having_value

definition having_expression :: "Having \<Rightarrow> string" where
  "having_expression h =
     (if hv_columnName h = [] then []
      else hv_columnName h @ '' '' @ hv_op h @ '' '' @
        (case hv_value h of
           HMany ns \<Rightarrow> ''['' @ join '', '' (map number_text ns) @ '']''
         | HOne n \<Rightarrow> number_text n))"

definition convertHavingToExpression :: "Having list \<Rightarrow> string" where
  "convertHavingToExpression having = join '' AND '' (filter (\<lambda>e. e \<noteq> []) (map having_expression having))"

end
