(* ===== verification/FilterEditingProperties.thy ===== *)
theory FilterEditingProperties
  imports FilterRoundtrip FilterEditing
begin

text \<open>
  Editing an expression that was printed from filters: changed values land where the old ones were, new
  filters are appended, and removing a key removes its filter and one conjunction.
\<close>

section \<open>A printed expression around one filter\<close>

definition before_text :: "TagFilterItem list \<Rightarrow> string" where
  "before_text xs = concat (map (\<lambda>x. filter_expression x @ '' AND '') xs)"

definition after_text :: "TagFilterItem list \<Rightarrow> string" where
  "after_text ys = concat (map (\<lambda>y. '' AND '' @ filter_expression y) ys)"

lemma join_Cons: "join s (x # xs) = x @ concat (map (\<lambda>y. s @ y) xs)"
  by (induction s "x # xs" arbitrary: x xs rule: join.induct) auto

lemma printed_split:
  assumes "list_all filter_ok (xs @ i # ys)"
  shows "convertFiltersToExpression (xs @ i # ys) = before_text xs @ filter_expression i @ after_text ys"
proof -
  have "join '' AND '' (map filter_expression (xs @ i # ys)) = before_text xs @ filter_expression i @ after_text ys"
    by (induction xs rule: induct_list012)
      (auto simp: join_Cons before_text_def after_text_def comp_def)
  then show ?thesis by (simp only: convert_join [OF assms])
qed

lemma before_text_Cons: "length (before_text (x # xs)) = length (filter_expression x) + 5 + length (before_text xs)"
  by (simp add: before_text_def)

lemma read_pairs_split:
  assumes "read_pairs p (xs @ i # ys) Ps"
  shows "\<exists>Pa P Pb. Ps = Pa @ P # Pb \<and> read_pairs p xs Pa \<and> read_pair (p + length (before_text xs)) i P \<and>
    read_pairs (p + length (before_text xs) + length (filter_expression i) + 5) ys Pb"
  using assms
proof (induction xs arbitrary: p Ps)
  case Nil
  then obtain P Pb where "Ps = P # Pb" "read_pair p i P" "read_pairs (p + length (filter_expression i) + 5) ys Pb" by auto
  then show ?case by (intro exI [of _ "[]"] exI [of _ P] exI [of _ Pb]) (simp add: before_text_def)
next
  case (Cons x xs)
  then obtain P0 Ps' where P0: "Ps = P0 # Ps'" "read_pair p x P0"
    "read_pairs (p + length (filter_expression x) + 5) (xs @ i # ys) Ps'" by auto
  from Cons.IH [OF P0(3)] obtain Pa P Pb where "Ps' = Pa @ P # Pb"
    "read_pairs (p + length (filter_expression x) + 5) xs Pa"
    "read_pair (p + length (filter_expression x) + 5 + length (before_text xs)) i P"
    "read_pairs (p + length (filter_expression x) + 5 + length (before_text xs) + length (filter_expression i) + 5) ys Pb" by blast
  then have "Ps = (P0 # Pa) @ P # Pb" "read_pairs p (x # xs) (P0 # Pa)" "read_pair (p + length (before_text (x # xs))) i P"
    "read_pairs (p + length (before_text (x # xs)) + length (filter_expression i) + 5) ys Pb"
    using P0 by (simp_all add: before_text_Cons add.assoc)
  then show ?case by blast
qed

lemma read_pairs_member:
  assumes "read_pairs p items Ps" "P \<in> set Ps"
  shows "\<exists>xs i ys. items = xs @ i # ys \<and> read_pair (p + length (before_text xs)) i P"
  using assms
proof (induction items arbitrary: p Ps)
  case (Cons i "is")
  then obtain P0 Ps' where P0: "Ps = P0 # Ps'" "read_pair p i P0" "read_pairs (p + length (filter_expression i) + 5) is Ps'" by auto
  show ?case
  proof (cases "P \<in> set Ps'")
    case True
    from Cons.IH [OF P0(3) this] obtain xs j ys where "is = xs @ j # ys"
      "read_pair (p + length (filter_expression i) + 5 + length (before_text xs)) j P" by blast
    then show ?thesis
      by (intro exI [of _ "i # xs"] exI [of _ j] exI [of _ ys]) (simp only: append_Cons before_text_Cons add.assoc simp_thms)
  next
    case False
    with Cons.prems P0 show ?thesis by (intro exI [of _ "[]"]) (auto simp: before_text_def)
  qed
qed simp

definition follows_grammar :: "(string \<Rightarrow> IToken list) \<Rightarrow> bool" where
  "follows_grammar lexer \<longleftrightarrow> (\<forall>s ts. lex s = Some ts \<longrightarrow> lexer s = ts)"

section \<open>The comparisons by key and operator\<close>

definition filter_map_key :: "TagFilterItem \<Rightarrow> string" where
  "filter_map_key i = item_map_key (fi_key i) (fi_op i)"

lemma read_pair_key: "read_pair p i P \<Longrightarrow> qp_key P = fi_key i"
  by (auto simp: read_pair_def pair_filter_def)

lemma read_pair_op: "read_pair p i P \<Longrightarrow> fi_op i = (if qp_hasNegation P then ''not '' else []) @ qp_operator P"
  unfolding read_pair_def by (elim conjE)

lemma read_pair_map_key: "read_pair p i P \<Longrightarrow> pair_map_key P = filter_map_key i"
  using read_pair_key [of p i P] read_pair_op [of p i P]
  by (simp add: pair_map_key_def filter_map_key_def item_map_key_def)

lemma read_pairs_map_keys: "read_pairs p items Ps \<Longrightarrow> map pair_map_key Ps = map filter_map_key items"
  by (induction items arbitrary: p Ps) (auto dest: read_pair_map_key)

lemma read_pairs_keys: "read_pairs p items Ps \<Longrightarrow> map qp_key Ps = map fi_key items"
  by (induction items arbitrary: p Ps) (auto dest: read_pair_key)

lemma obj_set_new: "k \<notin> fst ` set m \<Longrightarrow> obj_set k v m = m @ [(k, v)]"
  by (induction m) auto

lemma fold_obj_set_distinct:
  "distinct (map f xs) \<Longrightarrow> fst ` set m \<inter> f ` set xs = {} \<Longrightarrow>
     fold (\<lambda>x m. obj_set (f x) x m) xs m = m @ map (\<lambda>x. (f x, x)) xs"
proof (induction xs arbitrary: m)
  case (Cons x xs)
  then have "obj_set (f x) x m = m @ [(f x, x)]" by (intro obj_set_new) auto
  with Cons.IH [of "m @ [(f x, x)]"] Cons.prems show ?case by auto
qed simp

lemma obj_get_zip: "distinct (map f (xs @ x # ys)) \<Longrightarrow> obj_get (map (\<lambda>x. (f x, x)) (xs @ x # ys)) (f x) = Some x"
  by (induction xs) (auto simp: obj_get_def)

lemma printed_map:
  assumes lexer: "follows_grammar lexer"
    and ok: "list_all filter_ok items" and dist: "distinct (map filter_map_key items)"
  shows "\<exists>Ps. read_pairs 0 items Ps \<and>
    getQueryPairsMap lexer (convertFiltersToExpression items) = map (\<lambda>P. (pair_map_key P, P)) Ps"
proof -
  let ?Ps = "extractQueryPairs lexer (convertFiltersToExpression items)"
  have r: "read_pairs 0 items ?Ps" using printed_pairs [OF _ ok] lexer by (simp add: follows_grammar_def)
  have "distinct (map pair_map_key ?Ps)" using read_pairs_map_keys [OF r] dist by simp
  then have "getQueryPairsMap lexer (convertFiltersToExpression items) = map (\<lambda>P. (pair_map_key P, P)) ?Ps"
    using fold_obj_set_distinct [of pair_map_key ?Ps "[]"] by (simp add: getQueryPairsMap_def)
  with r show ?thesis by blast
qed

lemma printed_map_keys:
  assumes "follows_grammar lexer" "list_all filter_ok items" "distinct (map filter_map_key items)"
  shows "fst ` set (getQueryPairsMap lexer (convertFiltersToExpression items)) = filter_map_key ` set items"
proof -
  from printed_map [OF assms] obtain Ps where Ps: "read_pairs 0 items Ps"
    "getQueryPairsMap lexer (convertFiltersToExpression items) = map (\<lambda>P. (pair_map_key P, P)) Ps" by blast
  then have "map fst (getQueryPairsMap lexer (convertFiltersToExpression items)) = map filter_map_key items"
    using read_pairs_map_keys [OF Ps(1)] by (simp add: comp_def)
  from arg_cong [OF this, of set] show ?thesis by simp
qed

lemma printed_map_get:
  assumes lexer: "follows_grammar lexer"
    and ok: "list_all filter_ok (xs @ i # ys)" and dist: "distinct (map filter_map_key (xs @ i # ys))"
  shows "\<exists>P. obj_get (getQueryPairsMap lexer (convertFiltersToExpression (xs @ i # ys))) (filter_map_key i) = Some P
    \<and> read_pair (length (before_text xs)) i P"
proof -
  from printed_map [OF lexer ok dist] obtain Ps where Ps: "read_pairs 0 (xs @ i # ys) Ps"
    "getQueryPairsMap lexer (convertFiltersToExpression (xs @ i # ys)) = map (\<lambda>P. (pair_map_key P, P)) Ps" by blast
  from read_pairs_split [OF Ps(1)] obtain Pa P Pb where P: "Ps = Pa @ P # Pb" "read_pair (length (before_text xs)) i P"
    by auto
  have "distinct (map pair_map_key Ps)" using read_pairs_map_keys [OF Ps(1)] dist by simp
  then show ?thesis
    using obj_get_zip [of pair_map_key Pa P Pb] P Ps(2) read_pair_map_key [OF P(2)] by auto
qed

section \<open>Removing a key\<close>

definition end_char :: "char \<Rightarrow> bool" where
  "end_char c \<longleftrightarrow> \<not> is_space c \<and> upper_char c \<noteq> CHR ''D'' \<and> upper_char c \<noteq> CHR ''R''"

lemma digit_end_char: "is_digit c \<Longrightarrow> end_char c"
  by (auto simp: end_char_def is_space_def upper_char_def is_digit_def less_eq_char_def Let_def)

lemma end_chars: "list_all end_char (CHR 0x27 # '']es'')"
  by code_simp

lemma tail_end:
  assumes "filter_ok item" "has_value item"
  shows "end_char (last (item_tail item))"
  using assms(1)
proof (cases rule: filter_ok_cases)
  case (many vs)
  then show ?thesis using end_chars by (simp add: item_tail_def bracketed_def)
next
  case (one v)
  from one(3) show ?thesis
  proof (cases rule: scalar_ok_cases)
    case (1 s)
    then show ?thesis using one(1) end_chars by (simp only: item_tail_def filter_value.case format_string) simp
  next
    case (2 i)
    have "is_digit (last (int_str i))"
      using nat_str_digits [of "nat i"] nat_str_digits [of "nat (- i)"] by (auto simp: int_str_def list_all_iff)
    with digit_end_char 2 one(1) show ?thesis by (simp add: item_tail_def formatSingleValue_def value_text_def number_text_int)
  next
    case (3 b)
    then show ?thesis using one(1) end_chars by (auto simp: item_tail_def formatSingleValue_def value_text_def)
  qed
qed (use assms in simp)

lemma exist_ends: "list_all (\<lambda>(op, ws). op \<noteq> [] \<and> end_char (last op)) exist_operators"
  by code_simp

lemma printed_end: "filter_ok i \<Longrightarrow> end_char (last (filter_expression i))"
proof (cases "has_value i")
  case True
  assume "filter_ok i"
  with True tail_end tail_ends show ?thesis by (simp add: filter_expression_text)
next
  case False
  assume "filter_ok i"
  moreover from this False have "fi_op i \<noteq> [] \<and> end_char (last (fi_op i))"
    using exist_ends by (cases rule: filter_ok_cases) (auto simp: list_all_iff)
  ultimately show ?thesis using False by (simp add: filter_expression_text item_head_def)
qed

lemma seg_start_no_space: "seg_start c \<Longrightarrow> \<not> is_space c"
  by (auto simp: seg_start_def is_letter_def is_space_def less_eq_char_def)

lemma seg_char_no_space: "seg_char c \<Longrightarrow> \<not> is_space c"
  by (auto simp: seg_char_def is_letter_def is_digit_def is_space_def less_eq_char_def)

lemma digit_no_space: "is_digit c \<Longrightarrow> \<not> is_space c"
  by (auto simp: is_digit_def is_space_def less_eq_char_def)

lemma take_takeWhile:
  "(\<And>c. P c \<Longrightarrow> \<not> is_space c) \<Longrightarrow> list_all (\<lambda>c. \<not> is_space c) (take n (dropWhile P cs)) \<Longrightarrow>
     list_all (\<lambda>c. \<not> is_space c) (take (length (takeWhile P cs) + n) cs)"
  by (induction cs) auto

lemma key_tail_chars: "list_all (\<lambda>c. \<not> is_space c) (take (key_tail s) s)"
proof (induction s rule: key_tail.induct)
  case (1 s)
  have plain: "\<not> is_space (CHR ''.'')" "\<not> is_space (CHR ''['')" "\<not> is_space (CHR '']'')" "\<not> is_space (CHR ''*'')"
    by (simp_all add: is_space_def)
  consider "s = []" | c where "s = [c]" | c d cs where "s = c # d # cs" by (cases s; cases "tl s") auto
  then show ?case
  proof cases
    case 3
    note step = key_tail.simps [of "c # d # cs", simplified]
      and tw = take_takeWhile [of seg_char "key_tail (dropWhile seg_char cs)" cs, OF seg_char_no_space]
        take_takeWhile [of is_digit "key_tail (dropWhile is_digit cs)" cs, OF digit_no_space]
    consider (seg) "c = CHR ''.'' \<and> seg_start d" | (digit) "c = CHR ''.'' \<and> is_digit d" "\<not> seg_start d"
      | (list) "c = CHR ''[''" "d = CHR '']''"
      | (star) ds where "c = CHR ''[''" "d = CHR ''*''" "cs = CHR '']'' # ds"
      | (stop) "key_tail (c # d # cs) = 0"
      using step by (cases cs) (auto split: if_splits)
    then show ?thesis
    proof cases
      case seg
      then have "key_tail (c # d # cs) = 2 + length (takeWhile seg_char cs) + key_tail (dropWhile seg_char cs)"
        unfolding step by simp
      with seg show ?thesis using "1.IH"(1) [OF 3 refl] tw(1) plain(1) seg_start_no_space by (simp add: 3)
    next
      case digit
      then have "key_tail (c # d # cs) = 2 + length (takeWhile is_digit cs) + key_tail (dropWhile is_digit cs)"
        unfolding step by simp
      with digit show ?thesis using "1.IH"(2) [OF 3 refl] tw(2) plain(1) digit_no_space by (simp add: 3)
    next
      case list
      then have "key_tail (c # d # cs) = 2 + key_tail cs" by (simp add: key_tail.simps [of "_ # CHR '']'' # _"])
      with list show ?thesis using "1.IH"(3) [OF 3 refl] plain by (simp add: 3)
    next
      case star
      then have "key_tail (c # d # cs) = Suc (Suc (Suc (key_tail ds)))" by (simp add: key_tail.simps [of "_ # CHR ''*'' # _"])
      with star show ?thesis using "1.IH"(4) [OF 3 refl] plain by (simp add: 3)
    qed (simp add: 3)
  qed (simp_all add: key_tail.simps [of "[]"] key_tail.simps [of "[_]"])
qed

lemma key_chars:
  assumes "key_like w"
  shows "list_all (\<lambda>c. \<not> is_space c) w"
proof -
  obtain c cs where w: "w = c # cs" using assms by (cases w) (auto simp: key_like_def)
  have "seg_start c" using assms w key_length_start [of c cs] by (simp add: key_like_def)
  moreover have "list_all (\<lambda>c. \<not> is_space c) (take (length (takeWhile seg_char cs) + key_tail (dropWhile seg_char cs)) cs)"
    by (rule take_takeWhile [OF seg_char_no_space key_tail_chars])
  ultimately show ?thesis
    using assms w seg_start_no_space by (simp add: key_like_def key_length_def)
qed

lemma key_start: "filter_ok i \<Longrightarrow> \<not> is_space (hd (fi_key i))"
  using filter_ok_key [of i] key_chars [of "fi_key i"] by (cases "fi_key i") (auto simp: key_word_def)

lemma printed_start: "filter_ok i \<Longrightarrow> \<not> is_space (hd (filter_expression i))"
  using key_start filter_ok_key by (simp add: filter_expression_text item_head_def)

lemma upper_eq:
  assumes "upper_char c = u"
  shows "c = u \<or> c = char_of (of_char u + 32 :: nat)"
proof (cases "upper_char c = c")
  case False
  let ?n = "of_char c :: nat"
  from False have u: "u = char_of (?n - 32)" "32 \<le> ?n" using assms by (auto simp: upper_char_def Let_def split: if_splits)
  have "?n < 256" using of_char_mod_256 [of c, where 'a = nat] mod_less_divisor [of 256 ?n] by linarith
  then have "(?n - 32) mod 256 = ?n - 32" by (intro mod_less) linarith
  with u(1) have "(of_char u :: nat) = ?n - 32" by simp
  with u(2) have "of_char u + 32 = ?n" by simp
  then show ?thesis by simp
qed (use assms in simp)

lemma and_or_lower: "list_all (\<lambda>u. lower_char (char_of (of_char u + 32 :: nat)) = lower_char u) ''ANDOR''"
proof -
  have "char_of (97 :: nat) = CHR ''a''" "char_of (110 :: nat) = CHR ''n''" "char_of (100 :: nat) = CHR ''d''"
    "char_of (111 :: nat) = CHR ''o''" "char_of (114 :: nat) = CHR ''r''"
    by (simp_all add: char_of_eq_iff)
  then show ?thesis by (simp add: lower_char_def)
qed

lemma upper_lower:
  assumes "toUpperCase w \<in> {''AND'', ''OR''}"
  shows "toLowerCase w \<in> {''and'', ''or''}"
proof -
  have "lower_char c = lower_char (upper_char c)" if "c \<in> set w" for c
  proof -
    from assms have "set (toUpperCase w) \<subseteq> set ''ANDOR''" by auto
    with that have "upper_char c \<in> set ''ANDOR''" by (auto simp: toUpperCase_def)
    with and_or_lower have "lower_char (char_of (of_char (upper_char c) + 32 :: nat)) = lower_char (upper_char c)"
      unfolding list_all_iff by blast
    with upper_eq [OF refl, of c] show ?thesis by metis
  qed
  then have "toLowerCase w = toLowerCase (toUpperCase w)" by (simp add: toLowerCase_def toUpperCase_def)
  moreover have "map toLowerCase [''AND'', ''OR''] = [''and'', ''or'']" by code_simp
  ultimately show ?thesis using assms by auto
qed

text \<open>The ends of a printed expression: trimming and the two clean-ups leave it alone.\<close>

lemma printed_ends:
  assumes "list_all filter_ok items" "items \<noteq> []"
  shows "\<not> is_space (hd (convertFiltersToExpression items)) \<and> end_char (last (convertFiltersToExpression items))"
proof
  obtain i js where i: "items = i # js" using assms(2) by (cases items) auto
  have "convertFiltersToExpression items = filter_expression i @ after_text js"
    using printed_split [of "[]" i js] assms(1) i by (simp add: before_text_def)
  with assms(1) i show "\<not> is_space (hd (convertFiltersToExpression items))"
    using printed_start [of i] filter_expression_nonempty [of i] by simp
next
  obtain js i where i: "items = js @ [i]" using assms(2) by (cases items rule: rev_cases) auto
  have "convertFiltersToExpression items = before_text js @ filter_expression i"
    using printed_split [of js i "[]"] assms(1) i by (simp add: after_text_def)
  with assms(1) i show "end_char (last (convertFiltersToExpression items))"
    using printed_end [of i] filter_expression_nonempty [of i] by simp
qed

lemma printed_trim: "list_all filter_ok items \<Longrightarrow> js_trim (convertFiltersToExpression items) = convertFiltersToExpression items"
  using printed_ends [of items] by (intro js_trim_id) (cases "items = []"; auto simp: end_char_def convertFiltersToExpression_def)

lemma word_in_None: "s = [] \<or> upper_char (hd s) \<notin> hd ` set ws \<Longrightarrow> [] \<notin> set ws \<Longrightarrow> word_in ws s = None"
proof -
  assume a: "s = [] \<or> upper_char (hd s) \<notin> hd ` set ws" "[] \<notin> set ws"
  have "toUpperCase (take (length w) s) \<noteq> w" if w: "w \<in> set ws" for w
  proof
    assume e: "toUpperCase (take (length w) s) = w"
    from w a(2) have "w \<noteq> []" by metis
    then obtain c cs where c: "w = c # cs" by (cases w) auto
    with e obtain d ds where "s = d # ds" "upper_char d = c" by (cases s) (auto simp: toUpperCase_def)
    with a(1) w c show False by force
  qed
  then show ?thesis by (simp add: word_in_def find_None_iff)
qed

lemma trailing_kept:
  assumes "s = [] \<or> end_char (last s)"
  shows "drop_trailing_conjunction s = s"
proof -
  have "dropWhile is_space (rev s) = rev s" using assms by (intro dropWhile_hd) (auto simp: end_char_def hd_rev)
  moreover have "word_in [''DNA'', ''RO''] (rev s) = None"
    using assms by (intro word_in_None) (auto simp: end_char_def hd_rev)
  ultimately show ?thesis by (simp add: drop_trailing_conjunction_def)
qed

lemma trailing_dropped:
  assumes "end_char (last s)" "s \<noteq> []"
  shows "drop_trailing_conjunction (s @ '' AND'') = s"
proof -
  have d: "dropWhile is_space (rev s) = rev s" using assms by (intro dropWhile_hd) (auto simp: end_char_def hd_rev)
  have sp: "is_space (CHR '' '')" "\<not> is_space (CHR ''D'')" by (simp_all add: is_space_def)
  have w: "word_in [''DNA'', ''RO''] (''DNA'' @ CHR '' '' # rev s) = Some 3"
    by (simp add: word_in_def toUpperCase_def upper_char_def)
  show ?thesis using d sp w by (simp add: drop_trailing_conjunction_def)
qed

lemma key_not_word: "key_word k \<Longrightarrow> toUpperCase k \<notin> {''AND'', ''OR''}"
proof
  assume k: "key_word k" "toUpperCase k \<in> {''AND'', ''OR''}"
  have "map_of keyword_types ''and'' \<noteq> None" "map_of keyword_types ''or'' \<noteq> None" by (simp_all add: keyword_types_def)
  with k upper_lower [OF k(2)] show False by (auto simp: key_word_def)
qed

lemma leading_kept:
  assumes "list_all filter_ok items"
  shows "drop_leading_conjunction (convertFiltersToExpression items) = convertFiltersToExpression items"
proof (cases items)
  case Nil
  then show ?thesis by (simp add: convertFiltersToExpression_def drop_leading_conjunction_def split: option.splits)
next
  case (Cons i js)
  let ?k = "fi_key i"
  have ok: "filter_ok i" using assms Cons by simp
  obtain rest where r: "convertFiltersToExpression items = ?k @ CHR '' '' # rest"
    using printed_split [of "[]" i js] assms Cons
    by (cases "has_value i") (auto simp: before_text_def filter_expression_text [OF ok] item_head_def)
  have chars: "list_all (\<lambda>c. \<not> is_space c) ?k" using filter_ok_key [OF ok] key_chars by (simp add: key_word_def)
  have "takeWhile is_space (drop n (?k @ CHR '' '' # rest)) = []"
    if n: "word_in [''AND'', ''OR''] (?k @ CHR '' '' # rest) = Some n" for n
  proof -
    from n obtain w where "find (\<lambda>w. toUpperCase (take (length w) (?k @ CHR '' '' # rest)) = w) [''AND'', ''OR''] = Some w"
      and nw: "n = length w" by (auto simp: word_in_def simp del: find.simps)
    from find_Some_in_set [OF this(1)] have w: "w \<in> {''AND'', ''OR''}" "toUpperCase (take n (?k @ CHR '' '' # rest)) = w" "n = length w"
      using nw by auto
    have "n \<noteq> length ?k" using w key_not_word filter_ok_key [OF ok] by auto
    moreover have "\<not> length ?k < n"
    proof
      assume l: "length ?k < n"
      then have "CHR '' '' \<in> set (take n (?k @ CHR '' '' # rest))" by (cases "n - length ?k") auto
      then have "upper_char (CHR '' '') \<in> set w" unfolding w(2) [symmetric] toUpperCase_def by (simp del: take_append)
      with w(1) show False by (auto simp: upper_char_def)
    qed
    ultimately have "n < length ?k" by simp
    with chars show ?thesis by (auto simp: takeWhile_eq_Nil_iff list_all_iff hd_drop_conv_nth hd_append)
  qed
  then show ?thesis by (auto simp: drop_leading_conjunction_def r split: option.splits)
qed

definition item_key :: "TagFilterItem \<Rightarrow> string" where
  "item_key i = lower_trim (fi_key i)"

text \<open>The comparison with a key that occurs once.\<close>

lemma printed_current:
  assumes lexer: "follows_grammar lexer" and ok: "list_all filter_ok (xs @ i # ys)"
    and dist: "distinct (map item_key (xs @ i # ys))" and k: "lower_trim k = item_key i"
  shows "\<exists>P. current_pair lexer False k (convertFiltersToExpression (xs @ i # ys)) = Some P
    \<and> read_pair (length (before_text xs)) i P"
proof -
  let ?Ps = "extractQueryPairs lexer (convertFiltersToExpression (xs @ i # ys))"
  have r: "read_pairs 0 (xs @ i # ys) ?Ps" using printed_pairs [OF _ ok] lexer by (simp add: follows_grammar_def)
  from read_pairs_split [OF r] obtain Pa P Pb where P: "?Ps = Pa @ P # Pb" "read_pair (length (before_text xs)) i P"
    by auto
  have "map (\<lambda>P. lower_trim (qp_key P)) ?Ps = map (\<lambda>i. lower_trim (fi_key i)) (xs @ i # ys)"
    using arg_cong [OF read_pairs_keys [OF r], of "map lower_trim"] by (simp add: comp_def)
  with dist have "distinct (map (\<lambda>P. lower_trim (qp_key P)) ?Ps)" by (simp add: item_key_def [abs_def])
  then have "obj_get (map (\<lambda>P. (lower_trim (qp_key P), P)) ?Ps) (lower_trim (qp_key P)) = Some P"
      "fold (\<lambda>p m. obj_set (lower_trim (qp_key p)) p m) ?Ps [] = map (\<lambda>P. (lower_trim (qp_key P), P)) ?Ps"
    using obj_get_zip [of "\<lambda>P. lower_trim (qp_key P)" Pa P Pb] fold_obj_set_distinct [of "\<lambda>P. lower_trim (qp_key P)" ?Ps "[]"]
    unfolding P(1) by (simp_all del: map_append fold_append)
  then show ?thesis
    using P(2) k by (simp add: current_pair_def read_pair_key [OF P(2)] item_key_def del: fold_simps)
qed

lemma printed_absent:
  assumes lexer: "follows_grammar lexer" and ok: "list_all filter_ok items" and k: "lower_trim k \<notin> item_key ` set items"
  shows "current_pair lexer False k (convertFiltersToExpression items) = None"
proof -
  let ?Ps = "extractQueryPairs lexer (convertFiltersToExpression items)"
  have r: "read_pairs 0 items ?Ps" using printed_pairs [OF _ ok] lexer by (simp add: follows_grammar_def)
  have keys: "fst ` set (fold (\<lambda>p m. obj_set (lower_trim (qp_key p)) p m) Ps m) = (\<lambda>P. lower_trim (qp_key P)) ` set Ps \<union> fst ` set m"
    for Ps and m :: "IQueryPair jsobj"
    by (induction Ps arbitrary: m) auto
  have "set (map lower_trim (map qp_key ?Ps)) = set (map lower_trim (map fi_key items))"
    by (simp only: read_pairs_keys [OF r])
  then have "(\<lambda>P. lower_trim (qp_key P)) ` set ?Ps = item_key ` set items"
    by (simp add: item_key_def [abs_def] image_image)
  with k show ?thesis by (simp add: current_pair_def obj_get_eq_None keys)
qed

lemma conjunction_length_after:
  assumes "list_all filter_ok ys"
  shows "conjunction_length (after_text ys) = (if ys = [] then 0 else 5)"
proof (cases ys)
  case Nil
  have "word_in [''AND'', ''OR''] [] = None" by (intro word_in_None) auto
  then show ?thesis using Nil by (simp add: after_text_def conjunction_length_def)
next
  case (Cons y zs)
  have sp: "is_space (CHR '' '')" "\<not> is_space (CHR ''A'')" by (simp_all add: is_space_def)
  obtain c cs where c: "filter_expression y = c # cs" using filter_expression_nonempty [of y] assms Cons
    by (cases "filter_expression y") auto
  then have nc: "\<not> is_space c" using printed_start [of y] assms Cons by simp
  have w: "word_in [''AND'', ''OR''] (''AND '' @ s) = Some 3" for s
    by (simp add: word_in_def toUpperCase_def upper_char_def)
  have "conjunction_length ('' AND '' @ (c # s)) = 5" for s
    using sp nc w [of "c # s"] by (simp add: conjunction_length_def)
  then show ?thesis using Cons c by (simp add: after_text_def)
qed

text \<open>Cutting one printed filter out, with the conjunction after it.\<close>

lemma remove_printed:
  assumes lexer: "follows_grammar lexer" and ok: "list_all filter_ok (xs @ i # ys)"
    and dist: "distinct (map item_key (xs @ i # ys))" and k: "lower_trim k = item_key i"
  shows "remove_key lexer False k (convertFiltersToExpression (xs @ i # ys)) =
    (if has_value i then js_trim (before_text xs @ drop 5 (after_text ys)) else convertFiltersToExpression (xs @ i # ys))"
proof -
  let ?q = "convertFiltersToExpression (xs @ i # ys)" and ?e = "filter_expression i"
  from printed_current [OF assms] obtain P where P: "current_pair lexer False k ?q = Some P"
    "read_pair (length (before_text xs)) i P" by blast
  have oki: "filter_ok i" and oky: "list_all filter_ok ys" using ok by simp_all
  have ne: "?e \<noteq> []" by (rule filter_expression_nonempty [OF oki])
  have q: "?q = before_text xs @ ?e @ after_text ys" by (rule printed_split [OF ok])
  show ?thesis
  proof (cases "has_value i")
    case True
    have c: "isComplete P" "pp_keyStart (qp_position P) = length (before_text xs)"
      "pp_valueEnd (qp_position P) = Some (length (before_text xs) + length ?e - 1)"
      using P(2) True tail_ends [OF oki True] filter_ok_key [OF oki] by (auto simp: read_pair_def isComplete_def)
    have s: "Suc (length (before_text xs) + length ?e - 1) = length (before_text xs) + length ?e"
      using ne by (cases ?e) simp_all
    have d: "drop (length (before_text xs) + length ?e) ?q = after_text ys" by (simp add: q)
    let ?c = "conjunction_length (after_text ys)"
    have "remove_key lexer False k ?q =
        js_trim (splice ?q (length (before_text xs)) (length (before_text xs) + length ?e + ?c) [])"
      using c s d by (simp add: remove_key_def P(1) Let_def flip: add_Suc)
    also have "\<dots> = js_trim (before_text xs @ drop ?c (after_text ys))"
      by (simp add: splice_def q)
    also have "drop ?c (after_text ys) = drop 5 (after_text ys)"
      unfolding conjunction_length_after [OF oky] by (simp add: after_text_def)
    finally show ?thesis using True by simp
  next
    case False
    then have "\<not> isComplete P" using P(2) by (simp add: read_pair_def isComplete_def)
    with False show ?thesis by (simp add: remove_key_def P(1))
  qed
qed

lemma cut_text:
  assumes "list_all filter_ok (xs @ ys)"
  shows "js_trim (before_text xs @ drop 5 (after_text ys)) =
    (if ys = [] \<and> xs \<noteq> [] then convertFiltersToExpression xs @ '' AND'' else convertFiltersToExpression (xs @ ys))"
proof (cases ys)
  case (Cons y zs)
  have "before_text xs @ drop 5 (after_text ys) = convertFiltersToExpression (xs @ ys)"
    using printed_split [of xs y zs] assms Cons by (simp add: after_text_def)
  with Cons printed_trim [OF assms] show ?thesis by simp
next
  case Nil
  show ?thesis
  proof (cases xs rule: rev_cases)
    case Nil
    then show ?thesis using \<open>ys = []\<close>
      by (simp add: before_text_def after_text_def js_trim_def convertFiltersToExpression_def)
  next
    case (snoc ws w)
    let ?p = "convertFiltersToExpression xs"
    have ok: "list_all filter_ok xs" using assms by simp
    have "before_text xs = ?p @ '' AND''  @ '' ''"
      using printed_split [of ws w "[]"] ok snoc by (simp add: before_text_def after_text_def)
    moreover have "js_trim (?p @ '' AND''  @ '' '') = ?p @ '' AND''"
    proof -
      have sp: "is_space (CHR '' '')" "\<not> is_space (CHR ''D'')" by (simp_all add: is_space_def)
      have "?p \<noteq> []" "\<not> is_space (hd ?p)" using printed_ends [OF ok] convert_nonempty [OF ok] snoc by auto
      then have "dropWhile is_space (?p @ '' AND''  @ '' '') = ?p @ '' AND''  @ '' ''"
        by (intro dropWhile_hd) simp
      then show ?thesis using sp by (simp add: js_trim_def)
    qed
    ultimately show ?thesis using snoc \<open>ys = []\<close> by (simp add: after_text_def)
  qed
qed

text \<open>C12: Let an expression be printed from filters of the kind that comes back unchanged, with different keys.  Removing a
  key from it gives the expression printed without the filter of that key if that filter has a value; a filter that only
  asks whether the key exists is kept, as are all filters of other keys.\<close>

theorem remove_key_printed:
  assumes "follows_grammar lexer" "list_all filter_ok items" "distinct (map item_key items)"
  shows "removeKeysFromExpression lexer (convertFiltersToExpression items) [k] False =
    convertFiltersToExpression (filter (\<lambda>i. item_key i \<noteq> lower_trim k \<or> \<not> has_value i) items)"
proof (cases "lower_trim k \<in> item_key ` set items")
  case False
  let ?q = "convertFiltersToExpression items"
  have "remove_key lexer False k ?q = ?q"
    by (simp add: remove_key_def printed_absent [OF assms(1,2) False])
  moreover have "drop_trailing_conjunction ?q = ?q"
    using printed_ends [OF assms(2)] by (intro trailing_kept) (cases "items = []"; simp add: convertFiltersToExpression_def)
  moreover have "filter (\<lambda>i. item_key i \<noteq> lower_trim k \<or> \<not> has_value i) items = items"
    using False by (intro filter_True) force
  ultimately show ?thesis
    by (simp add: removeKeysFromExpression_def leading_kept [OF assms(2)] printed_trim [OF assms(2)])
next
  case True
  then obtain xs i ys where i: "items = xs @ i # ys" "lower_trim k = item_key i"
    by (metis (no_types, opaque_lifting) imageE in_set_conv_decomp)
  have ok: "list_all filter_ok (xs @ ys)" and okx: "list_all filter_ok xs" using assms(2) i(1) by simp_all
  let ?kept = "filter (\<lambda>i. item_key i \<noteq> lower_trim k \<or> \<not> has_value i) items"
  have others: "filter (\<lambda>j. item_key j \<noteq> lower_trim k \<or> \<not> has_value j) zs = zs" if "set zs \<subseteq> set xs \<union> set ys" for zs
  proof (intro filter_True ballI disjI1)
    fix x assume "x \<in> set zs"
    with that have "x \<in> set xs \<or> x \<in> set ys" by blast
    then show "item_key x \<noteq> lower_trim k" using assms(3) i by (auto simp: image_iff)
  qed
  have kept: "?kept = xs @ (if has_value i then [] else [i]) @ ys"
    using others [of xs] others [of ys] i by simp
  have ne: "convertFiltersToExpression items \<noteq> []" using convert_nonempty [OF assms(2)] i by simp
  have "drop_leading_conjunction (drop_trailing_conjunction (remove_key lexer False k (convertFiltersToExpression items)))
      = convertFiltersToExpression ?kept"
  proof (cases "has_value i \<and> ys = [] \<and> xs \<noteq> []")
    case True
    have "drop_trailing_conjunction (convertFiltersToExpression xs @ '' AND'') = convertFiltersToExpression xs"
      using printed_ends [OF okx] convert_nonempty [OF okx] True by (intro trailing_dropped) auto
    with True kept leading_kept [OF okx] show ?thesis
      using remove_printed [OF assms(1) assms(2,3) [unfolded i(1)] i(2)] cut_text [OF ok] by (simp add: i(1))
  next
    case False
    have okk: "list_all filter_ok ?kept" using assms(2) by (simp add: list_all_iff)
    have "remove_key lexer False k (convertFiltersToExpression items) = convertFiltersToExpression ?kept"
      using False kept remove_printed [OF assms(1) assms(2,3) [unfolded i(1)] i(2)] cut_text [OF ok] by (auto simp: i(1))
    moreover have "drop_trailing_conjunction (convertFiltersToExpression ?kept) = convertFiltersToExpression ?kept"
      using printed_ends [OF okk] by (intro trailing_kept) (cases "?kept = []"; simp add: convertFiltersToExpression_def)
    ultimately show ?thesis by (simp only: leading_kept [OF okk])
  qed
  moreover have "list_all filter_ok ?kept" using assms(2) by (simp add: list_all_iff)
  ultimately show ?thesis using ne by (simp add: removeKeysFromExpression_def printed_trim)
qed

section \<open>Merging\<close>

text \<open>A filter in the same place: the same key and operator with another value.  A list whose values are the
  same in some order stays as it is.\<close>

definition same_place :: "TagFilterItem \<Rightarrow> TagFilterItem \<Rightarrow> bool" where
  "same_place i j \<longleftrightarrow> fi_key i = fi_key j \<and> fi_op i = fi_op j"

definition kept_filter :: "(filter_scalar list \<Rightarrow> filter_scalar list) \<Rightarrow> TagFilterItem \<Rightarrow> TagFilterItem \<Rightarrow> TagFilterItem" where
  "kept_filter sortBy i j =
     (case (fi_value i, fi_value j) of
        (VMany vs, VMany ws) \<Rightarrow> if same_values sortBy (map formatSingleValue vs) ws then i else j
      | _ \<Rightarrow> j)"

lemma list_operators:
  "list_all (\<lambda>(op, ws). is_list_operator op) member_operators"
  "list_all (\<lambda>(op, ws). \<not> is_list_operator op) (compare_operators @ exist_operators)"
  by code_simp+

lemma no_deprecated: "list_all (\<lambda>(op, ws). map_of DEPRECATED_OPERATORS_MAP (toLowerCase op) = None)
    (compare_operators @ member_operators @ exist_operators)"
  by code_simp

lemma table_op: "list_all (\<lambda>(op, ws). P op) tab \<Longrightarrow> op \<in> fst ` set tab \<Longrightarrow> P op"
  by (auto simp: list_all_iff)

lemma list_operator_iff:
  assumes "filter_ok i"
  shows "is_list_operator (fi_op i) \<longleftrightarrow> (\<exists>vs. fi_value i = VMany vs)"
  using assms
proof (cases rule: filter_ok_cases)
  case (many vs)
  then show ?thesis using table_op [OF list_operators(1)] by blast
next
  case (one v)
  then have "\<not> is_list_operator (fi_op i)" by (intro table_op [OF list_operators(2)]) (simp add: image_Un)
  with one show ?thesis by simp
next
  case none
  then have "\<not> is_list_operator (fi_op i)" by (intro table_op [OF list_operators(2)]) (simp add: image_Un)
  with none show ?thesis by simp
qed

lemma replace_deprecated_ok: "filter_ok i \<Longrightarrow> replace_deprecated i = i"
  using table_op [OF no_deprecated filter_ok_op] by (simp add: replace_deprecated_def)

lemma same_place_head: "same_place i j \<Longrightarrow> item_head i = item_head j \<and> has_value i = has_value j \<and> filter_map_key i = filter_map_key j"
  by (simp add: same_place_def item_head_def has_value_def filter_map_key_def)

lemma same_place_exists: "filter_ok i \<Longrightarrow> filter_ok j \<Longrightarrow> same_place i j \<Longrightarrow> \<not> has_value i \<Longrightarrow> i = j"
  using same_place_head [of i j] by (elim filter_ok_cases [of i] filter_ok_cases [of j]) (auto simp: same_place_def)

text \<open>New text in place of the value.\<close>

lemma splice_value:
  assumes ok: "list_all filter_ok (xs @ i # ys)" "filter_ok j" and place: "same_place i j" "has_value i"
  shows "splice (convertFiltersToExpression (xs @ i # ys)) (length (before_text xs) + length (item_head i) + 1)
      (length (before_text xs) + length (filter_expression i)) (item_tail j) = convertFiltersToExpression (xs @ j # ys)"
proof -
  have oki: "filter_ok i" and okj: "list_all filter_ok (xs @ j # ys)" using ok by simp_all
  have i: "filter_expression i = item_head i @ '' '' @ item_tail i" using place(2) by (simp add: filter_expression_text [OF oki])
  have j: "filter_expression j = item_head i @ '' '' @ item_tail j"
    using place same_place_head [OF place(1)] by (simp add: filter_expression_text [OF ok(2)])
  show ?thesis
    unfolding printed_split [OF ok(1)] printed_split [OF okj] i j by (simp add: splice_def)
qed

text \<open>The state of the loop while the query is a printed list.\<close>

definition printed_state :: "(string \<Rightarrow> IToken list) \<Rightarrow> TagFilterItem list \<Rightarrow> TagFilterItem list \<Rightarrow> string set \<Rightarrow> edit_state" where
  "printed_state lexer items rest visited =
     \<lparr> es_nonExisting = rest, es_query = convertFiltersToExpression items, es_visited = visited,
       es_map = getQueryPairsMap lexer (convertFiltersToExpression items) \<rparr>"

lemma rewrite_value:
  assumes "list_all filter_ok (xs @ i # ys)" "filter_ok j" "same_place i j" "has_value i"
  shows "rewrite lexer (length (before_text xs) + length (item_head i) + 1)
      (length (before_text xs) + length (filter_expression i)) (item_tail j) (printed_state lexer (xs @ i # ys) rest visited)
    = printed_state lexer (xs @ j # ys) rest visited"
  using splice_value [OF assms] by (simp add: rewrite_def printed_state_def Let_def)

lemma edit_same_place:
  assumes lexer: "follows_grammar lexer" and ok: "list_all filter_ok (xs @ i # ys)" "filter_ok j"
    and dist: "distinct (map filter_map_key (xs @ i # ys))" and place: "same_place i j"
  shows "edit_filter sortBy lexer j (printed_state lexer (xs @ i # ys) rest visited) =
    printed_state lexer (xs @ kept_filter sortBy i j # ys) rest (insert (filter_map_key j) visited)"
proof -
  have oki: "filter_ok i" and okj: "list_all filter_ok (xs @ j # ys)" using ok by simp_all
  have distj: "distinct (map filter_map_key (xs @ j # ys))" using dist same_place_head [OF place] by simp
  have ne: "filter_expression i \<noteq> []" "filter_expression j \<noteq> []" using filter_expression_nonempty oki ok(2) by auto
  from printed_map_get [OF lexer ok(1) dist] obtain P where
    P: "obj_get (getQueryPairsMap lexer (convertFiltersToExpression (xs @ i # ys))) (filter_map_key j) = Some P"
    "read_pair (length (before_text xs)) i P" using same_place_head [OF place] by auto
  from printed_map_get [OF lexer okj distj] have
    pj: "obj_get (getQueryPairsMap lexer (convertFiltersToExpression (xs @ j # ys))) (filter_map_key j) \<noteq> None" by auto
  have list: "is_list_operator (fi_op j) \<longleftrightarrow> (\<exists>vs. fi_value i = VMany vs)" "is_list_operator (fi_op j) \<longleftrightarrow> (\<exists>vs. fi_value j = VMany vs)"
    using list_operator_iff [OF oki] list_operator_iff [OF ok(2)] place by (simp_all add: same_place_def)
  let ?s = "length (before_text xs) + length (item_head i) + 1" and ?e = "length (before_text xs) + length (filter_expression i)"
  show ?thesis
  proof (cases "has_value i")
    case False
    then have ij: "i = j" using same_place_exists oki ok(2) place by blast
    have none: "value_span P = None" using P(2) False by (simp add: read_pair_def value_span_def)
    have "\<not> is_list_operator (fi_op j)" using oki False by (cases rule: filter_ok_cases) (auto simp: list)
    moreover have "kept_filter sortBy i j = j" using ij by (simp add: kept_filter_def split: filter_value.split)
    ultimately show ?thesis
      using P(1) none ij
      by (simp add: edit_filter_def replace_value_def filter_map_key_def printed_state_def visit_def)
  next
    case True
    have form: "formatValueForExpression (fi_value j) (fi_op j) = item_tail j"
      using item_formatted [OF ok(2)] True same_place_head [OF place] by simp
    have span: "value_span P = Some (?s, ?e - 1)"
    proof -
      have "2 \<le> length (filter_expression i)" using True by (simp add: filter_expression_text [OF oki] item_head_def)
      moreover have "pp_valueStart (qp_position P) = Some ?s" "pp_valueEnd (qp_position P) = Some (?e - 1)"
        using P(2) True by (simp_all add: read_pair_def)
      ultimately show ?thesis by (simp add: value_span_def)
    qed
    have e: "Suc (?e - 1) = ?e" using ne(1) by (cases "filter_expression i") simp_all
    note rw = rewrite_value [OF ok place True]
    show ?thesis
    proof (cases "is_list_operator (fi_op j)")
      case False
      then have "kept_filter sortBy i j = j" using list by (auto simp: kept_filter_def split: filter_value.split)
      with False span rw [of lexer rest visited] P(1) pj e form show ?thesis
        by (auto simp: edit_filter_def replace_value_def filter_map_key_def printed_state_def visit_def Let_def)
    next
      case True
      then obtain vs ws where v: "fi_value i = VMany vs" "fi_value j = VMany ws" using list by auto
      have old: "splice (convertFiltersToExpression (xs @ i # ys)) ?s ?e (item_tail i) = convertFiltersToExpression (xs @ i # ys)"
        using splice_value [OF ok(1) oki _ \<open>has_value i\<close>] by (simp add: same_place_def)
      have vals: "qp_valueList P = map formatSingleValue vs" "qp_value P = Some (item_tail i)"
        using P(2) v \<open>has_value i\<close> by (auto simp: read_pair_def)
      have vis: "visit k (printed_state lexer items rest visited) = printed_state lexer items rest (insert k visited)" for k items
        by (simp add: visit_def printed_state_def)
      have "edit_filter sortBy lexer j (printed_state lexer (xs @ i # ys) rest visited) =
          replace_list sortBy lexer j P (?s, ?e - 1) (printed_state lexer (xs @ i # ys) rest visited)"
        using True span P(1) by (simp add: edit_filter_def printed_state_def filter_map_key_def)
      also have "\<dots> = printed_state lexer (xs @ kept_filter sortBy i j # ys) rest (insert (filter_map_key j) visited)"
        using v vals old rw [of lexer rest "insert (filter_map_key j) visited"] e form
        by (simp add: replace_list_def kept_filter_def vis filter_map_key_def)
          (simp add: printed_state_def)
      finally show ?thesis .
    qed
  qed
qed

lemma kept_ok: "filter_ok i \<Longrightarrow> filter_ok j \<Longrightarrow> same_place i j \<Longrightarrow>
    filter_ok (kept_filter sortBy i j) \<and> filter_map_key (kept_filter sortBy i j) = filter_map_key i"
  using same_place_head [of i j] by (auto simp: kept_filter_def split: filter_value.split)

lemma edit_same_places:
  assumes "follows_grammar lexer" "list_all2 same_place is js" "list_all filter_ok (xs @ is)" "list_all filter_ok js"
    and "distinct (map filter_map_key (xs @ is))"
  shows "fold (edit_filter sortBy lexer) js (printed_state lexer (xs @ is) rest visited) =
    printed_state lexer (xs @ map2 (kept_filter sortBy) is js) rest (filter_map_key ` set is \<union> visited)"
  using assms(2-)
proof (induction "is" js arbitrary: xs visited rule: list_all2_induct)
  case (Cons i "is" j js)
  let ?k = "kept_filter sortBy i j"
  have k: "filter_ok ?k" "filter_map_key ?k = filter_map_key i" using kept_ok [of i j sortBy] Cons by auto
  have "edit_filter sortBy lexer j (printed_state lexer (xs @ i # is) rest visited) =
      printed_state lexer ((xs @ [?k]) @ is) rest (insert (filter_map_key j) visited)"
    using edit_same_place [OF assms(1), of xs i "is" j] Cons.hyps Cons.prems by simp
  moreover have "fold (edit_filter sortBy lexer) js (printed_state lexer ((xs @ [?k]) @ is) rest (insert (filter_map_key j) visited))
      = printed_state lexer ((xs @ [?k]) @ map2 (kept_filter sortBy) is js) rest
          (filter_map_key ` set is \<union> insert (filter_map_key j) visited)"
    using Cons k by (intro Cons.IH) simp_all
  ultimately show ?case using same_place_head [OF Cons.hyps(1)] by simp
qed simp

text \<open>A filter whose key is compared with none of the operators that could take it over.\<close>

definition fresh_filter :: "TagFilterItem list \<Rightarrow> TagFilterItem \<Rightarrow> bool" where
  "fresh_filter items j \<longleftrightarrow>
     (\<forall>op \<in> {fi_op j, ''in'', ''not in'', ''='', ''!=''}. item_map_key (fi_key j) op \<notin> filter_map_key ` set items)"

lemma not_in_key:
  assumes "filter_ok j"
  shows "lower_trim (fi_key j @ ''-NOT in'') = item_map_key (fi_key j) ''not in''"
    and "lower_trim (fi_key j @ ''-NOT not in'') = lower_trim (fi_key j @ ''-not not in'')"
proof -
  have "\<not> is_space (hd (fi_key j))" "fi_key j \<noteq> []" using key_start [OF assms] filter_ok_key [OF assms] by auto
  moreover have "\<not> is_space (CHR ''n'')" by (simp add: is_space_def)
  ultimately have t: "js_trim (fi_key j @ ''-NOT in'') = fi_key j @ ''-NOT in''" "js_trim (fi_key j @ ''-not in'') = fi_key j @ ''-not in''"
    "js_trim (fi_key j @ ''-NOT not in'') = fi_key j @ ''-NOT not in''" "js_trim (fi_key j @ ''-not not in'') = fi_key j @ ''-not not in''"
    by (auto intro!: js_trim_id)
  have l: "map lower_char ''-NOT in'' = map lower_char ''-not in''" "map lower_char ''-NOT not in'' = map lower_char ''-not not in''"
    by code_simp+
  show "lower_trim (fi_key j @ ''-NOT in'') = item_map_key (fi_key j) ''not in''"
    "lower_trim (fi_key j @ ''-NOT not in'') = lower_trim (fi_key j @ ''-not not in'')"
    using t l by (simp_all add: lower_trim_def item_map_key_def toLowerCase_def)
qed

lemma edit_fresh:
  assumes lexer: "follows_grammar lexer" and ok: "list_all filter_ok items" "distinct (map filter_map_key items)"
    and j: "filter_ok j" "fresh_filter items j"
  shows "edit_filter sortBy lexer j (printed_state lexer items rest visited) = printed_state lexer items (rest @ [j]) visited"
proof -
  have absent: "obj_get (getQueryPairsMap lexer (convertFiltersToExpression items)) (item_map_key (fi_key j) op) = None"
    if "op \<in> {fi_op j, ''in'', ''not in'', ''='', ''!=''}" for op
    using that j(2) printed_map_keys [OF lexer ok] by (auto simp: fresh_filter_def obj_get_eq_None)
  note a = absent [of "fi_op j", simplified] absent [of "''in''", simplified] absent [of "''not in''", simplified]
    absent [of "''=''", simplified, unfolded item_map_key_def, simplified]
    absent [of "''!=''", simplified, unfolded item_map_key_def, simplified]
  have r: "replace_value lexer j True (printed_state lexer items rest visited) = printed_state lexer items (rest @ [j]) visited"
    using a(1) by (simp add: replace_value_def printed_state_def Let_def)
  show ?thesis
  proof (cases "is_list_operator (fi_op j)")
    case False
    then show ?thesis using r by (simp add: edit_filter_def Let_def)
  next
    case True
    then have "fi_op j \<in> {''in'', ''not in''}"
      using list_operator_iff [OF j(1)] j(1) by (auto simp: filter_ok_def member_operators_def)
    then have "merge_list lexer j (printed_state lexer items rest visited) = (printed_state lexer items rest visited, True)"
    proof (elim insertE)
      assume op: "fi_op j = ''in''"
      have "toUpperCase (js_trim ''in'') = ''IN''" by code_simp
      with op a not_in_key(1) [OF j(1)] show ?thesis
        by (simp add: merge_list_def printed_state_def Let_def)
    next
      assume op: "fi_op j = ''not in''"
      have "toUpperCase (js_trim ''not in'') \<noteq> ''IN''" by code_simp
      with op a show ?thesis by (simp add: merge_list_def printed_state_def Let_def)
    qed simp
    then show ?thesis
      using True a(1) r by (simp add: edit_filter_def printed_state_def Let_def)
  qed
qed

lemma edit_freshes:
  assumes "follows_grammar lexer" "list_all filter_ok items" "distinct (map filter_map_key items)"
  shows "list_all filter_ok js \<Longrightarrow> list_all (fresh_filter items) js \<Longrightarrow>
    fold (edit_filter sortBy lexer) js (printed_state lexer items rest visited) = printed_state lexer items (rest @ js) visited"
  by (induction js arbitrary: rest) (simp_all add: edit_fresh [OF assms])

lemma kept_list:
  assumes "list_all2 same_place is js" "list_all filter_ok is" "list_all filter_ok js"
  shows "list_all filter_ok (map2 (kept_filter sortBy) is js) \<and>
    map filter_map_key (map2 (kept_filter sortBy) is js) = map filter_map_key is"
  using assms by (induction rule: list_all2_induct) (simp_all add: kept_ok)


section \<open>Samples\<close>

lemma grammar_lexer_ok: "follows_grammar grammar_lexer"
  by (simp add: follows_grammar_def grammar_lexer_def)

definition number_filter :: "string \<Rightarrow> string \<Rightarrow> int \<Rightarrow> TagFilterItem" where
  "number_filter k op n = \<lparr> fi_key = k, fi_op = op, fi_value = VOne (VNum (JNum (of_int n))) \<rparr>"

lemma number_filter_ok: "list_all key_word [''a'', ''b'', ''c''] \<and> {''='', ''<'', ''>''} \<subseteq> fst ` set compare_operators"
  by code_simp

lemma number_filters_ok:
  "k \<in> set [''a'', ''b'', ''c''] \<Longrightarrow> op \<in> {''='', ''<'', ''>''} \<Longrightarrow> filter_ok (number_filter k op n)"
  using number_filter_ok by (auto simp: filter_ok_def number_filter_def scalar_ok_def list_all_iff)

lemma sample_keys:
  "map lower_trim [''a'', ''b'', ''c''] = [''a'', ''b'', ''c'']"
  "map (\<lambda>(k, op). item_map_key k op)
     [(''a'', ''=''), (''b'', ''<''), (''c'', ''>''), (''c'', ''in''), (''c'', ''not in''), (''c'', ''=''), (''c'', ''!='')]
   = [''a-='', ''b-<'', ''c->'', ''c-in'', ''c-not in'', ''c-='', ''c-!='']"
  by code_simp+

theorem remove_key_printed_witness:
  "removeKeysFromExpression grammar_lexer
     (convertFiltersToExpression [number_filter ''a'' ''='' 1, number_filter ''b'' ''<'' 2]) [''b''] False
   = convertFiltersToExpression [number_filter ''a'' ''='' 1]"
proof -
  let ?items = "[number_filter ''a'' ''='' 1, number_filter ''b'' ''<'' 2]"
  have "list_all filter_ok ?items" by (simp add: number_filters_ok)
  moreover have keys: "item_key (number_filter ''a'' ''='' 1) = ''a''" "item_key (number_filter ''b'' ''<'' 2) = ''b''"
    using sample_keys(1) by (simp_all add: item_key_def number_filter_def)
  moreover have "has_value (number_filter k ''<'' n)" for k n
    by (simp add: has_value_def number_filter_def exist_operators_def)
  ultimately show ?thesis
    using remove_key_printed [of grammar_lexer ?items "''b''"] grammar_lexer_ok sample_keys(1) by simp
qed


text \<open>Where editing goes wrong: removing the last key and then the first leaves the conjunction; only the last
  of two comparisons of a key is removed; an existence test is not removed; a comparison in brackets leaves
  the empty brackets; a negation is left to negate what follows; a filter with an old operator is appended
  although it is there; and a filter appended to an alternative restricts only its last branch.\<close>

theorem filter_edits_flawed:
  "removeKeysFromExpression grammar_lexer ''a = 1 AND b = 2'' [''b'', ''a''] False = ''AND''
   \<and> removeKeysFromExpression grammar_lexer ''a > 1 AND a < 5'' [''a''] False = ''a > 1''
   \<and> removeKeysFromExpression grammar_lexer ''a exists AND b = 2'' [''a''] False = ''a exists AND b = 2''
   \<and> removeKeysFromExpression grammar_lexer ''(a = 1) AND b = 2'' [''a''] False = ''() AND b = 2''
   \<and> removeKeysFromExpression grammar_lexer ''NOT a = 1 AND b = 2'' [''a''] False = ''NOT b = 2''
   \<and> convertFiltersToExpressionWithExistingQuery id grammar_lexer
       [\<lparr> fi_key = ''b'', fi_op = ''nin'', fi_value = VMany [VBool True] \<rparr>] ''b NOT IN [true]''
     = ([\<lparr> fi_key = ''b'', fi_op = ''not in'', fi_value = VMany [VBool True] \<rparr>,
         \<lparr> fi_key = ''b'', fi_op = ''not in'', fi_value = VMany [VBool True] \<rparr>],
        ''b NOT IN [true] b NOT IN [true]'')
   \<and> snd (convertFiltersToExpressionWithExistingQuery id grammar_lexer
       [\<lparr> fi_key = ''c'', fi_op = ''='', fi_value = VOne (VBool True) \<rparr>] ''a = 1 OR b = 2'')
     = ''a = 1 OR b = 2 c = true''"
  by code_simp

end
