(* ===== verification/QueryContext.thy ===== *)
theory QueryContext
  imports QueryPairs
begin

text \<open>
  What stands at the cursor of a filter expression, for the suggestions of the editor:
  \<^verbatim>\<open>getQueryContextAtCursor\<close> of \<^verbatim>\<open>frontend/src/utils/queryContextUtils.ts\<close> and what it calls.  The tokens
  that the listener of \<^verbatim>\<open>frontend/src/parser/analyzeQuery.ts\<close> collects from the generated parser's tree are
  an argument.  The lexer drops white space, so every token is on the default channel.
\<close>

section \<open>The pair at the cursor\<close>

definition nonzero_or :: "nat option \<Rightarrow> nat \<Rightarrow> nat" where
  "nonzero_or a b = (case a of None \<Rightarrow> b | Some n \<Rightarrow> if n = 0 then b else n)"

definition pair_end :: "IQueryPair \<Rightarrow> nat" where
  "pair_end p = nonzero_or (pp_valueEnd (qp_position p)) (nonzero_or (Some (pp_operatorEnd (qp_position p))) (pp_keyEnd (qp_position p)))"

definition skip_blanks :: "string \<Rightarrow> nat \<Rightarrow> nat" where
  "skip_blanks query n = n + length (takeWhile (\<lambda>c. c = CHR '' '') (drop n query))"

definition getEndIndexAfterSpaces :: "IQueryPair \<Rightarrow> string \<Rightarrow> nat" where
  "getEndIndexAfterSpaces p query = skip_blanks query (Suc (pair_end p))"

definition at_cursor :: "string \<Rightarrow> nat \<Rightarrow> IQueryPair \<Rightarrow> bool" where
  "at_cursor query cursor p \<longleftrightarrow>
     (cursor \<le> pair_end p \<and> pp_keyStart (qp_position p) \<le> cursor)
   \<or> (\<not> isComplete p \<and> pp_keyStart (qp_position p) \<le> cursor \<and> cursor \<le> getEndIndexAfterSpaces p query)"

definition better_match :: "string \<Rightarrow> nat \<Rightarrow> IQueryPair \<Rightarrow> IQueryPair option \<Rightarrow> IQueryPair option" where
  "better_match query cursor p best =
     (if at_cursor query cursor p \<and> (case best of None \<Rightarrow> True | Some b \<Rightarrow> pair_end b < pair_end p) then Some p else best)"

definition getCurrentQueryPair :: "IQueryPair list \<Rightarrow> string \<Rightarrow> nat \<Rightarrow> IQueryPair option" where
  "getCurrentQueryPair pairs query cursor =
     (case fold (better_match query cursor) pairs None of
        Some p \<Rightarrow> Some p
      | None \<Rightarrow> if pairs \<noteq> [] \<and> cursor \<noteq> 0 \<and> length query \<le> cursor then Some (last pairs) else None)"

text \<open>The index of the value of a list that contains the cursor.\<close>

fun value_index :: "(nat \<times> nat) list \<Rightarrow> nat \<Rightarrow> nat option" where
  "value_index [] cursor = None"
| "value_index ((s, e) # ps) cursor = (if s \<le> cursor \<and> cursor \<le> e then Some 0 else map_option Suc (value_index ps cursor))"

definition getCurrentValueIndexAtCursor :: "(nat \<times> nat) list \<Rightarrow> nat \<Rightarrow> nat option" where
  "getCurrentValueIndexAtCursor valuesPosition cursor = value_index valuesPosition cursor"

section \<open>The context of one token\<close>

datatype token_class = KeyClass | ValueClass | OperatorClass

definition analyzeQuery :: "(string \<Rightarrow> (token_class \<times> IToken) list) \<Rightarrow> string \<Rightarrow> IToken \<Rightarrow> token_class option" where
  "analyzeQuery tracked input lastToken =
     map_option fst (find (\<lambda>(c, t). tk_text t = tk_text lastToken \<and> tk_start t = tk_start lastToken \<and> tk_stop t = tk_stop lastToken)
       (tracked (js_trim input)))"

definition isBracketToken :: "token_type \<Rightarrow> bool" where
  "isBracketToken t \<longleftrightarrow> t \<in> {LPAREN, RPAREN, LBRACK, RBRACK}"

definition isFunctionToken :: "token_type \<Rightarrow> bool" where
  "isFunctionToken t \<longleftrightarrow> t \<in> {HAS, HASANY, HASALL, HASTOKEN}"

definition isKeyToken :: "token_type \<Rightarrow> bool" where
  "isKeyToken t \<longleftrightarrow> t = KEY"

definition isNonValueOperatorToken :: "token_type \<Rightarrow> bool" where
  "isNonValueOperatorToken t \<longleftrightarrow> t = EXISTS"

record token_context =
  isInKey :: bool
  isInNegation :: bool
  isInOperator :: bool
  isInValue :: bool
  isInFunction :: bool
  isInConjunction :: bool
  isInParenthesis :: bool

definition determineTokenContext :: "(string \<Rightarrow> (token_class \<times> IToken) list) \<Rightarrow> IToken \<Rightarrow> string \<Rightarrow> token_context" where
  "determineTokenContext tracked t query =
     (let ty = tk_type t; found = analyzeQuery tracked query t
      in \<lparr> isInKey = (case found of None \<Rightarrow> isKeyToken ty | Some c \<Rightarrow> c = KeyClass),
           isInNegation = (ty = NOT),
           isInOperator = (case found of None \<Rightarrow> isOperatorToken ty | Some c \<Rightarrow> c = OperatorClass),
           isInValue = (case found of None \<Rightarrow> isValueToken ty | Some c \<Rightarrow> c = ValueClass),
           isInFunction = isFunctionToken ty, isInConjunction = isConjunctionToken ty,
           isInParenthesis = isBracketToken ty \<rparr>)"

section \<open>The bracket at the cursor\<close>

text \<open>Does a bracket belong to \<^verbatim>\<open>IN\<close>?  The tokens before it from right to left, and the one last seen; values
  are passed over in one of the two places where the code looks back.\<close>

fun look_back :: "bool \<Rightarrow> IToken \<Rightarrow> IToken list \<Rightarrow> bool" where
  "look_back over_values after [] = False"
| "look_back over_values after (t # ts) =
     (if tk_type t = IN \<or> (tk_type t = NOT \<and> tk_type after = IN) then True
      else if over_values \<and> isValueToken (tk_type t) then look_back over_values t ts
      else False)"

definition opens :: "IToken \<Rightarrow> bool" where
  "opens t \<longleftrightarrow> tk_type t = LBRACK \<or> tk_type t = LPAREN"

definition closes :: "IToken \<Rightarrow> bool" where
  "closes t \<longleftrightarrow> tk_type t = RBRACK \<or> tk_type t = RPAREN"

definition blank_at :: "string \<Rightarrow> nat \<Rightarrow> bool" where
  "blank_at query n \<longleftrightarrow> n < length query \<and> query ! n = CHR '' ''"

definition within :: "IToken \<Rightarrow> nat \<Rightarrow> bool" where
  "within t cursor \<longleftrightarrow> tk_start t \<le> cursor \<and> cursor \<le> tk_stop t + 1"

text \<open>The loop over the tokens: those seen, from right to left, those to come, and the open brackets.\<close>

fun bracket_context ::
  "string \<Rightarrow> nat \<Rightarrow> IToken list \<Rightarrow> IToken list \<Rightarrow> (IToken \<times> bool) list \<Rightarrow> (nat \<times> nat \<times> bool) option" where
  "bracket_context query cursor seen [] opened = None"
| "bracket_context query cursor seen (t # ts) opened =
     (let opened' = (if opens t then (t, look_back True t seen) # opened
                     else if closes t \<and> opened \<noteq> [] then tl opened else opened)
      in if closes t \<and> opened \<noteq> [] \<and>
            ((tk_start (fst (hd opened)) \<le> cursor \<and> cursor \<le> tk_stop t + 1)
             \<or> (tk_stop t + 1 < cursor \<and> cursor \<le> tk_stop t + 2 \<and> blank_at query (tk_stop t + 1)))
         then Some (tk_start (fst (hd opened)), tk_stop t, snd (hd opened))
         else if within t cursor \<and> opens t then Some (tk_start t, tk_stop t, look_back False t seen)
         else if within t cursor \<and> closes t then
           (case opened' of
              [] \<Rightarrow> Some (tk_start t, tk_stop t, False)
            | (o1, list) # _ \<Rightarrow> Some (tk_start o1, tk_stop t, list))
         else bracket_context query cursor (t # seen) ts opened')"

section \<open>Boundaries\<close>

record boundaries =
  cb_key :: "(nat \<times> nat) option"
  cb_negation :: "(nat \<times> nat) option"
  cb_operator :: "(nat \<times> nat) option"
  cb_value :: "(nat \<times> nat) option"
  cb_conjunction :: "(nat \<times> nat) option"
  cb_bracket :: "(nat \<times> nat \<times> bool) option"

definition no_boundaries :: "(nat \<times> nat \<times> bool) option \<Rightarrow> boundaries" where
  "no_boundaries b = \<lparr> cb_key = None, cb_negation = None, cb_operator = None, cb_value = None, cb_conjunction = None, cb_bracket = b \<rparr>"

definition pair_boundaries :: "string \<Rightarrow> IToken list \<Rightarrow> (nat \<times> nat \<times> bool) option \<Rightarrow> IQueryPair \<Rightarrow> boundaries" where
  "pair_boundaries query tokens bracket p =
     (let pos = qp_position p;
          ended = (case pp_valueEnd pos of None \<Rightarrow> None | Some e \<Rightarrow> if e = 0 then None else Some e);
          list = (case bracket of Some (s, e, True) \<Rightarrow> isMultiValueOperator (qp_operator p) | _ \<Rightarrow> False)
      in \<lparr> cb_key = Some (pp_keyStart pos, pp_keyEnd pos),
           cb_negation = Some (pp_negationStart pos, pp_negationEnd pos),
           cb_operator = Some (skip_blanks query (pp_keyEnd pos + 1), pp_operatorEnd pos),
           cb_value = (if list then map_option (\<lambda>(s, e, _). (s, e)) bracket
                       else map_option (\<lambda>e. (skip_blanks query (pp_operatorEnd pos + 1), e)) ended),
           cb_conjunction = (case ended of None \<Rightarrow> None
             | Some e \<Rightarrow> let s = skip_blanks query (e + 1)
                 in map_option (\<lambda>t. (s, tk_stop t)) (find (\<lambda>t. tk_start t = s \<and> isConjunctionToken (tk_type t)) tokens)),
           cb_bracket = bracket \<rparr>)"

definition token_boundaries :: "(nat \<times> nat \<times> bool) option \<Rightarrow> IToken \<Rightarrow> boundaries" where
  "token_boundaries bracket t =
     (let span = Some (tk_start t, tk_stop t); ty = tk_type t
      in if ty = KEY then (no_boundaries bracket)\<lparr> cb_key := span \<rparr>
         else if ty = NOT then (no_boundaries bracket)\<lparr> cb_negation := span \<rparr>
         else if isOperatorToken ty then (no_boundaries bracket)\<lparr> cb_operator := span \<rparr>
         else if isValueToken ty then (no_boundaries bracket)\<lparr> cb_value := span \<rparr>
         else if isConjunctionToken ty then (no_boundaries bracket)\<lparr> cb_conjunction := span \<rparr>
         else no_boundaries bracket)"

definition determineContextBoundaries :: "string \<Rightarrow> nat \<Rightarrow> IToken list \<Rightarrow> IQueryPair list \<Rightarrow> boundaries" where
  "determineContextBoundaries query cursor tokens pairs =
     (let bracket = bracket_context query cursor [] tokens []
      in case (if pairs = [] then None else getCurrentQueryPair pairs query cursor) of
           Some p \<Rightarrow> pair_boundaries query tokens bracket p
         | None \<Rightarrow>
             (case find (\<lambda>t. within t cursor) tokens of
                Some t \<Rightarrow> token_boundaries bracket t
              | None \<Rightarrow> no_boundaries bracket))"

section \<open>The context at the cursor\<close>

record IQueryContext = token_context +
  qc_tokenType :: "token_type option"
  qc_text :: string
  qc_start :: nat
  qc_stop :: nat
  qc_currentToken :: string
  qc_isInBracketList :: bool
  qc_keyToken :: "string option"
  qc_operatorToken :: "string option"
  qc_valueToken :: "string option"
  qc_queryPairs :: "IQueryPair list"
  qc_currentPair :: "IQueryPair option"

text \<open>No flag is set; the token type \<^verbatim>\<open>-1\<close> is \<open>None\<close>.\<close>

definition blank_context :: "nat \<Rightarrow> IQueryPair list \<Rightarrow> IQueryPair option \<Rightarrow> IQueryContext" where
  "blank_context cursor pairs cur =
     \<lparr> isInKey = False, isInNegation = False, isInOperator = False, isInValue = False, isInFunction = False,
       isInConjunction = False, isInParenthesis = False, qc_tokenType = None, qc_text = [], qc_start = cursor,
       qc_stop = cursor, qc_currentToken = [], qc_isInBracketList = False, qc_keyToken = None,
       qc_operatorToken = None, qc_valueToken = None, qc_queryPairs = pairs, qc_currentPair = cur \<rparr>"

definition after_token :: "IToken \<Rightarrow> nat \<Rightarrow> IQueryPair list \<Rightarrow> IQueryPair option \<Rightarrow> IQueryContext" where
  "after_token t cursor pairs cur =
     (blank_context cursor pairs cur)\<lparr> qc_tokenType := Some (tk_type t), qc_text := tk_text t, qc_currentToken := tk_text t \<rparr>"

definition in_boundary :: "(nat \<times> nat) option \<Rightarrow> nat \<Rightarrow> bool" where
  "in_boundary b cursor \<longleftrightarrow> (case b of None \<Rightarrow> False | Some (s, e) \<Rightarrow> (s \<le> cursor \<and> cursor \<le> e) \<or> cursor = e + 1)"

definition pair_text :: "(IQueryPair \<Rightarrow> string) \<Rightarrow> IQueryPair option \<Rightarrow> string" where
  "pair_text f cur = (case cur of None \<Rightarrow> [] | Some p \<Rightarrow> f p)"

definition value_of_pair :: "IQueryPair \<Rightarrow> string" where
  "value_of_pair p = (case qp_value p of None \<Rightarrow> [] | Some v \<Rightarrow> v)"

text \<open>The boundaries decide, if the cursor is in one of them.\<close>

definition boundary_context :: "string \<Rightarrow> nat \<Rightarrow> IQueryPair list \<Rightarrow> IQueryPair option \<Rightarrow> boundaries \<Rightarrow> IQueryContext option" where
  "boundary_context query cursor pairs cur b =
     (let key = in_boundary (cb_key b) cursor; negation = in_boundary (cb_negation b) cursor;
          operator = in_boundary (cb_operator b) cursor; val = in_boundary (cb_value b) cursor;
          conjunction = in_boundary (cb_conjunction b) cursor;
          bracketed = (\<lambda>list. case cb_bracket b of None \<Rightarrow> False | Some (s, e, l) \<Rightarrow> l = list \<and> s \<le> cursor \<and> cursor \<le> e + 1);
          after_list = (case cb_bracket b of None \<Rightarrow> False | Some (s, e, l) \<Rightarrow> l \<and> cursor = e + 2 \<and> blank_at query (e + 1));
          finalValue = (val \<or> (bracketed True \<and> isMultiValueOperator (pair_text qp_operator cur)))
      in if key \<or> negation \<or> operator \<or> val \<or> conjunction \<or> bracketed True \<or> after_list then
           Some ((blank_context cursor pairs cur)\<lparr> isInKey := key, isInNegation := negation, isInOperator := operator,
             isInValue := finalValue, isInConjunction := conjunction \<or> after_list, isInParenthesis := bracketed False,
             qc_isInBracketList := bracketed True,
             qc_keyToken := (if key \<or> operator \<or> finalValue then Some (pair_text qp_key cur) else None),
             qc_operatorToken := (if operator \<or> finalValue then Some (pair_text qp_operator cur) else None),
             qc_valueToken := (if finalValue then Some (pair_text value_of_pair cur) else None) \<rparr>)
         else None)"

text \<open>After a blank: from key to operator to value to conjunction to key.\<close>

definition progressed_context ::
  "token_context \<Rightarrow> IToken \<Rightarrow> nat \<Rightarrow> IQueryPair list \<Rightarrow> IQueryPair option \<Rightarrow> IQueryContext option" where
  "progressed_context tc t cursor pairs cur =
     (let c = after_token t cursor pairs cur
      in if isInKey tc \<or> isInNegation tc then Some (c\<lparr> isInOperator := True, qc_keyToken := Some (tk_text t) \<rparr>)
         else if isInOperator tc then
           Some (c\<lparr> isInValue := \<not> isNonValueOperatorToken (tk_type t), isInConjunction := isNonValueOperatorToken (tk_type t),
             qc_operatorToken := Some (tk_text t), qc_keyToken := Some (pair_text qp_key cur) \<rparr>)
         else if isInValue tc then
           Some (c\<lparr> isInConjunction := True, qc_valueToken := Some (tk_text t), qc_keyToken := Some (pair_text qp_key cur),
             qc_operatorToken := Some (pair_text qp_operator cur) \<rparr>)
         else if isInConjunction tc then Some (c\<lparr> isInKey := True \<rparr>)
         else if isInParenthesis tc \<and> tk_type t = RPAREN then Some (c\<lparr> isInConjunction := True \<rparr>)
         else None)"

definition copy_flags :: "token_context \<Rightarrow> IQueryContext \<Rightarrow> IQueryContext" where
  "copy_flags tc c =
     c\<lparr> isInKey := isInKey tc, isInNegation := isInNegation tc, isInOperator := isInOperator tc, isInValue := isInValue tc,
        isInFunction := isInFunction tc, isInConjunction := isInConjunction tc, isInParenthesis := isInParenthesis tc \<rparr>"

definition or_none :: "string \<Rightarrow> string option" where
  "or_none s = (if s = [] then None else Some s)"

text \<open>The cursor is at the end of a token, or in it.\<close>

definition token_end_context ::
  "token_context \<Rightarrow> IToken \<Rightarrow> IQueryPair list \<Rightarrow> IQueryPair option \<Rightarrow> IQueryContext" where
  "token_end_context tc t pairs cur =
     (copy_flags tc (after_token t (tk_start t) pairs cur))\<lparr> qc_stop := tk_stop t,
        qc_keyToken := (if isInKey tc then Some (tk_text t) else or_none (pair_text qp_key cur)),
        qc_operatorToken := (if isInOperator tc then Some (tk_text t) else or_none (pair_text qp_operator cur)),
        qc_valueToken := (if isInValue tc then Some (tk_text t) else or_none (pair_text value_of_pair cur)) \<rparr>"

definition on_token_context ::
  "token_context \<Rightarrow> IToken \<Rightarrow> IQueryPair list \<Rightarrow> IQueryPair option \<Rightarrow> IQueryContext" where
  "on_token_context tc t pairs cur =
     (copy_flags tc (after_token t (tk_start t) pairs cur))\<lparr> qc_stop := tk_stop t,
        qc_keyToken := (if isInKey tc then Some (tk_text t)
          else if isInOperator tc \<or> isInValue tc then Some (pair_text qp_key cur) else None),
        qc_operatorToken := (if isInOperator tc then Some (tk_text t)
          else if isInValue tc then Some (pair_text qp_operator cur) else None),
        qc_valueToken := (if isInValue tc then Some (tk_text t) else None) \<rparr>"

text \<open>Between two tokens the one before decides.\<close>

definition between_context ::
  "token_context \<Rightarrow> IToken \<Rightarrow> nat \<Rightarrow> IQueryPair list \<Rightarrow> IQueryPair option \<Rightarrow> IQueryContext option" where
  "between_context tc t cursor pairs cur =
     (let c = after_token t cursor pairs cur
      in if isInOperator tc then
           Some (c\<lparr> isInValue := True, qc_operatorToken := Some (tk_text t), qc_keyToken := Some (pair_text qp_key cur) \<rparr>)
         else if isInKey tc then Some (c\<lparr> isInOperator := True, qc_keyToken := Some (tk_text t) \<rparr>)
         else if isInValue tc then
           Some (c\<lparr> isInConjunction := True, qc_valueToken := Some (tk_text t), qc_keyToken := Some (pair_text qp_key cur),
             qc_operatorToken := Some (pair_text qp_operator cur) \<rparr>)
         else if isInConjunction tc then Some (c\<lparr> isInKey := True \<rparr>)
         else None)"

text \<open>The last token that ends before the cursor, among those before the first that starts after it.\<close>

fun last_before :: "nat \<Rightarrow> IToken list \<Rightarrow> IToken option \<Rightarrow> IToken option" where
  "last_before cursor [] found = found"
| "last_before cursor (t # ts) found =
     (if tk_type t = EOF then last_before cursor ts found
      else
        let found' = (if tk_stop t < cursor \<or> tk_stop t + 1 = cursor then Some t else found)
        in if cursor < tk_start t then found' else last_before cursor ts found')"

definition last_of :: "'a list \<Rightarrow> 'a option" where
  "last_of xs = (if xs = [] then None else Some (last xs))"

text \<open>The token at the cursor with the one before it in the list.\<close>

fun exact_token :: "nat \<Rightarrow> IToken option \<Rightarrow> IToken list \<Rightarrow> (IToken \<times> IToken option) option" where
  "exact_token cursor prev [] = None"
| "exact_token cursor prev (t # ts) =
     (if tk_type t \<noteq> EOF \<and> within t cursor then Some (t, prev) else exact_token cursor (Some t) ts)"

fun token_gap :: "nat \<Rightarrow> IToken list \<Rightarrow> IToken option" where
  "token_gap cursor (t # u # ts) =
     (if tk_type t \<noteq> EOF \<and> tk_type u \<noteq> EOF \<and> tk_stop t + 1 < cursor \<and> cursor < tk_start u then Some t
      else token_gap cursor (u # ts))"
| "token_gap cursor _ = None"

definition tokens_at :: "string \<Rightarrow> nat \<Rightarrow> IToken list \<Rightarrow> IToken option \<times> IToken option" where
  "tokens_at input cursor tokens =
     (if length input \<le> cursor \<and> tokens \<noteq> [] then
        (case last_of (filter (\<lambda>t. tk_type t \<noteq> EOF) tokens) of
           None \<Rightarrow> (None, None)
         | Some t \<Rightarrow> (Some t, last_of (filter (\<lambda>u. tk_stop u < tk_start t) tokens)))
      else
        (case exact_token cursor None tokens of
           Some (t, prev) \<Rightarrow> (Some t, prev)
         | None \<Rightarrow> (None, token_gap cursor tokens)))"

definition first_some :: "'a option list \<Rightarrow> 'a option" where
  "first_some xs = (case filter (\<lambda>x. x \<noteq> None) xs of [] \<Rightarrow> None | x # _ \<Rightarrow> x)"

definition getQueryContextAtCursor ::
  "(string \<Rightarrow> IToken list) \<Rightarrow> (string \<Rightarrow> (token_class \<times> IToken) list) \<Rightarrow> string \<Rightarrow> nat \<Rightarrow> IQueryContext" where
  "getQueryContextAtCursor lexer tracked query cursor =
     (let isAtSpace = blank_at query cursor;
          isAfterSpace = (0 < cursor \<and> blank_at query (cursor - 1));
          isAfterToken = (0 < cursor \<and> \<not> blank_at query (cursor - 1));
          isTransitionPoint = ((isAtSpace \<and> isAfterToken) \<or> (cursor = length query \<and> isAfterToken));
          allTokens = lexer query;
          lastToken = last_before cursor allTokens None;
          pairs = extractQueryPairs lexer query;
          cur = (if pairs = [] then None else getCurrentQueryPair pairs query cursor);
          b = determineContextBoundaries query cursor allTokens pairs
      in case boundary_context query cursor pairs cur b of
           Some c \<Rightarrow> c
         | None \<Rightarrow>
             (case tokens_at query cursor allTokens of (exact, previous) \<Rightarrow>
                if exact = None \<and> previous = None \<and> lastToken = None
                then (blank_context cursor pairs None)\<lparr> isInKey := True \<rparr>
                else
                  case first_some
                    [case lastToken of
                       None \<Rightarrow> None
                     | Some t \<Rightarrow>
                         if isAtSpace \<or> isAfterSpace \<or> isTransitionPoint
                         then progressed_context (determineTokenContext tracked t query) t cursor pairs cur else None,
                     case exact of
                       None \<Rightarrow> None
                     | Some t \<Rightarrow>
                         if cursor = tk_stop t + 1 then Some (token_end_context (determineTokenContext tracked t query) t pairs cur)
                         else Some (on_token_context (determineTokenContext tracked t query) t pairs cur),
                     case previous of
                       None \<Rightarrow> None
                     | Some t \<Rightarrow> between_context (determineTokenContext tracked t query) t cursor pairs cur] of
                    Some c \<Rightarrow> c
                  | None \<Rightarrow> (blank_context cursor pairs cur)\<lparr> isInKey := True \<rparr>))"

end
