(* ===== verification/QueryContextProperties.thy ===== *)
theory QueryContextProperties
  imports FilterEditingProperties QueryContext
begin

text \<open>
  The context at the cursor of a printed expression: the pair at the cursor is the filter it stands in, and the
  context names the part of it.
\<close>

section \<open>The pair at the cursor\<close>

lemma skip_blanks_at: "query = pre @ c # post \<Longrightarrow> c \<noteq> CHR '' '' \<Longrightarrow> skip_blanks query (length pre) = length pre"
  by (simp add: skip_blanks_def)

lemma skip_blanks_one: "query = pre @ CHR '' '' # c # post \<Longrightarrow> c \<noteq> CHR '' '' \<Longrightarrow> skip_blanks query (length pre) = Suc (length pre)"
  by (simp add: skip_blanks_def)

lemma read_pair_end:
  assumes "filter_ok i" "read_pair p i P"
  shows "Suc (pair_end P) = p + length (filter_expression i)"
proof (cases "has_value i")
  case True
  have "2 \<le> length (filter_expression i)" using True by (simp add: filter_expression_text [OF assms(1)] item_head_def)
  moreover from assms(2) True have "pp_valueEnd (qp_position P) = Some (p + length (filter_expression i) - 1)"
    by (simp add: read_pair_def)
  ultimately show ?thesis by (simp add: pair_end_def nonzero_or_def)
next
  case False
  have "fi_key i \<noteq> []" using filter_ok_key [OF assms(1)] by simp
  moreover from assms(2) False have "pp_valueEnd (qp_position P) = None"
    "Suc (pp_operatorEnd (qp_position P)) = p + length (item_head i)" by (simp_all add: read_pair_def)
  ultimately show ?thesis
    using False by (simp add: pair_end_def nonzero_or_def filter_expression_text [OF assms(1)] item_head_def)
qed

lemma read_pair_start: "read_pair p i P \<Longrightarrow> pp_keyStart (qp_position P) = p"
  by (simp add: read_pair_def)

lemma before_text_append: "before_text (xs @ ys) = before_text xs @ before_text ys"
  by (simp add: before_text_def)

lemma passed_over:
  assumes ok: "list_all filter_ok (ws @ x # vs)" and q: "query = before_text (ws @ x # vs) @ rest"
    and P: "read_pair (length (before_text ws)) x P" and c: "length (before_text (ws @ x # vs)) \<le> c"
  shows "\<not> at_cursor query c P"
proof -
  have okx: "filter_ok x" using ok by simp
  have e: "Suc (pair_end P) = length (before_text ws @ filter_expression x)" using read_pair_end [OF okx P] by simp
  have "query = (before_text ws @ filter_expression x) @ CHR '' '' # CHR ''A'' # ''ND '' @ before_text vs @ rest"
    using q by (simp add: before_text_append before_text_def)
  from skip_blanks_one [OF this] have s: "getEndIndexAfterSpaces P query = Suc (Suc (pair_end P))"
    unfolding getEndIndexAfterSpaces_def e by simp
  have "Suc (Suc (pair_end P)) < length (before_text (ws @ x # vs))"
    using e by (simp add: before_text_append before_text_Cons)
  with s c show ?thesis by (simp add: at_cursor_def)
qed

lemma fold_better_none: "\<forall>P \<in> set Ps. \<not> at_cursor q c P \<Longrightarrow> fold (better_match q c) Ps best = best"
  by (induction Ps) (auto simp: better_match_def)

lemma printed_current_pair:
  assumes lexer: "follows_grammar lexer" and ok: "list_all filter_ok (xs @ i # ys)"
    and c: "length (before_text xs) \<le> c" "c < length (before_text xs) + length (filter_expression i)"
  defines "q \<equiv> convertFiltersToExpression (xs @ i # ys)"
  shows "\<exists>P. extractQueryPairs lexer q \<noteq> [] \<and> getCurrentQueryPair (extractQueryPairs lexer q) q c = Some P \<and>
    read_pair (length (before_text xs)) i P"
proof -
  let ?Ps = "extractQueryPairs lexer q"
  have r: "read_pairs 0 (xs @ i # ys) ?Ps" using printed_pairs [OF _ ok] lexer by (simp add: follows_grammar_def q_def)
  from read_pairs_split [OF r] obtain Pa P Pb where P: "?Ps = Pa @ P # Pb" "read_pairs 0 xs Pa"
    "read_pair (length (before_text xs)) i P"
    "read_pairs (length (before_text xs) + length (filter_expression i) + 5) ys Pb" by auto
  have okx: "list_all filter_ok xs" and oki: "filter_ok i" using ok by simp_all
  have q: "q = before_text xs @ filter_expression i @ after_text ys" unfolding q_def by (rule printed_split [OF ok])
  have before: "\<not> at_cursor q c P'" if "P' \<in> set Pa" for P'
  proof -
    from read_pairs_member [OF P(2) that] obtain ws x vs where x: "xs = ws @ x # vs" "read_pair (length (before_text ws)) x P'" by auto
    show ?thesis
      using okx c(1) q x(1) by (intro passed_over [OF _ _ x(2), of vs _ "filter_expression i @ after_text ys"]) simp_all
  qed
  have after: "\<not> at_cursor q c P'" if "P' \<in> set Pb" for P'
    using read_pairs_member [OF P(4) that] c(2) by (auto simp: at_cursor_def dest!: read_pair_start)
  have "at_cursor q c P"
    using c read_pair_end [OF oki P(3)] read_pair_start [OF P(3)] by (simp add: at_cursor_def)
  then have "fold (better_match q c) ?Ps None = Some P"
    unfolding P(1) using before after fold_better_none [of Pa q c None] fold_better_none [of Pb q c "Some P"]
    by (simp add: better_match_def)
  with P(1,3) show ?thesis by (simp add: getCurrentQueryPair_def)
qed

section \<open>No bracket at the cursor\<close>

text \<open>The tokens of a lexer that follows the grammar are in order, and none but the end is empty.\<close>

definition in_order :: "IToken list \<Rightarrow> bool" where
  "in_order ts \<longleftrightarrow> sorted_wrt (\<lambda>t u. tk_stop t < tk_start u) ts \<and> (\<forall>t \<in> set ts. tk_type t = EOF \<or> tk_start t \<le> tk_stop t)"

lemma lex_in_order: "lex_from p s = Some ts \<Longrightarrow> in_order ts \<and> (\<forall>t \<in> set ts. p \<le> tk_start t)"
proof (induction p s arbitrary: ts rule: lex_from.induct)
  case (1 p s)
  show ?case
  proof (cases s)
    case Nil
    with "1.prems" show ?thesis by (auto simp: lex_from.simps in_order_def)
  next
    case (Cons c cs)
    show ?thesis
    proof (cases "is_ws c")
      case True
      with "1.prems" have "lex_from (Suc p) cs = Some ts" unfolding Cons by (simp add: lex_from.simps [of p "c # cs"])
      from "1.IH"(1) [OF Cons True this] show ?thesis by fastforce
    next
      case False
      with "1.prems" obtain t n us where n: "next_token s = Some (t, n)" "lex_from (p + n) (drop n s) = Some us"
        and ts: "ts = \<lparr> tk_type = t, tk_text = take n s, tk_start = p, tk_stop = p + n - 1 \<rparr> # us"
        unfolding Cons by (auto simp: lex_from.simps [of p "c # cs"] split: option.splits)
      have "0 < n" using next_token_positive [OF n(1)] by simp
      moreover have "in_order us \<and> (\<forall>t \<in> set us. p + n \<le> tk_start t)"
        using "1.IH"(2) [OF Cons False n(1) refl n(2)] .
      ultimately show ?thesis unfolding ts by (fastforce simp: in_order_def)
    qed
  qed
qed

definition plain_token :: "IToken \<Rightarrow> bool" where
  "plain_token t \<longleftrightarrow> \<not> opens t \<and> \<not> closes t"

lemma pass_plain:
  "list_all plain_token ts \<Longrightarrow> bracket_context q c seen (ts @ rest) os = bracket_context q c (rev ts @ seen) rest os"
  by (induction ts arbitrary: seen) (simp_all add: plain_token_def Let_def)

lemma pass_list:
  assumes "opens t" "\<not> closes t" "closes u" "\<not> opens u" "list_all plain_token vs" "in_order (t # vs @ [u])"
    and "tk_type t \<noteq> EOF" "c < tk_start t \<or> tk_stop u + 2 < c"
  shows "bracket_context q c seen (t # vs @ u # rest) [] = bracket_context q c (u # rev vs @ t # seen) rest []"
proof -
  have o: "tk_start t \<le> tk_stop t" "tk_stop t < tk_start u" "tk_start u \<le> tk_stop u"
    using assms(3,6,7) by (auto simp: in_order_def closes_def)
  have "\<not> QueryContext.within t c" "\<not> QueryContext.within u c" using o assms(8) by (auto simp: within_def)
  moreover have "bracket_context q c (t # seen) (vs @ u # rest) [(t, l)] = bracket_context q c (rev vs @ t # seen) (u # rest) [(t, l)]" for l
    by (rule pass_plain [OF assms(5)])
  ultimately show ?thesis using assms(1-4,8) o by (auto simp: Let_def)
qed

lemma operator_tokens_plain: "list_all (\<lambda>(op, ws). list_all (\<lambda>(t, _). t \<notin> {LBRACK, RBRACK, LPAREN, RPAREN}) ws)
    (compare_operators @ member_operators @ exist_operators)"
  by (simp add: compare_operators_def member_operators_def exist_operators_def)

lemma scalar_token_plain: "scalar_type v \<notin> {LBRACK, RBRACK, LPAREN, RPAREN, EOF}"
  by (cases v) (simp_all add: scalar_type_def)

lemma value_tokens_plain: "list_all (\<lambda>(t, _). t \<notin> {LBRACK, RBRACK, LPAREN, RPAREN}) (value_list_shape vs)"
  using scalar_token_plain by (induction vs rule: value_list_shape.induct) auto

lemma plain_shapes: "list_all (\<lambda>(t, _). t \<notin> {LBRACK, RBRACK, LPAREN, RPAREN}) (map shape ts) \<Longrightarrow> list_all plain_token ts"
  by (auto simp: list_all_iff shape_def plain_token_def opens_def closes_def)

lemma head_tokens_plain:
  assumes "filter_ok i" "map shape ta = (KEY, fi_key i) # operator_shape (fi_op i)"
  shows "list_all plain_token ta"
proof -
  have "list_all (\<lambda>(t, _). t \<notin> {LBRACK, RBRACK, LPAREN, RPAREN}) (operator_shape (fi_op i))"
    using operator_tokens_plain operator_shape_in [OF filter_ok_op [OF assms(1)]] unfolding list_all_iff by fast
  then show ?thesis by (intro plain_shapes) (simp add: assms(2))
qed

text \<open>The cursor is not at the brackets of the filter that starts at \<open>p\<close>.\<close>

definition clear_of :: "nat \<Rightarrow> TagFilterItem \<Rightarrow> nat \<Rightarrow> bool" where
  "clear_of p i c \<longleftrightarrow> (\<exists>v. fi_value i = VOne v) \<or> c \<le> p + length (item_head i) \<or> p + length (filter_expression i) + 1 < c"

lemma pass_item:
  assumes ok: "filter_ok i" and ti: "item_tokens p i ti" and ord: "in_order ti" and c: "clear_of p i c"
  shows "bracket_context q c seen (ti @ rest) [] = bracket_context q c (rev ti @ seen) rest []"
proof -
  from ti obtain ta tb where t: "ti = ta @ tb" and ta: "map shape ta = (KEY, fi_key i) # operator_shape (fi_op i)"
    and tb: "if has_value i then map shape tb = tail_shape i \<and> placed (p + length (item_head i) + 1) (item_tail i) tb else tb = []"
    unfolding item_tokens_def by (elim exE conjE) (rule that; assumption)
  note pa = head_tokens_plain [OF ok ta]
  show ?thesis
  proof (cases "list_all plain_token tb")
    case True
    with pa have "list_all plain_token ti" by (simp add: t)
    then show ?thesis by (rule pass_plain)
  next
    case False
    obtain vs where vs: "fi_value i = VMany vs" "has_value i"
      using ok
    proof (cases rule: filter_ok_cases)
      case (one v)
      with tb have "map shape tb = [(scalar_type v, formatSingleValue v)]" by (simp add: tail_shape_def)
      then have "list_all plain_token tb" using scalar_token_plain [of v] by (intro plain_shapes) simp
      with False show thesis by simp
    next
      case none
      with tb False show thesis by simp
    qed simp
    then have sh: "map shape tb = (LBRACK, ''['') # value_list_shape vs @ [(RBRACK, '']'')]" using tb by (simp add: tail_shape_def)
    then obtain t1 tv t2 where b: "tb = t1 # tv @ [t2]" "tk_type t1 = LBRACK" "tk_type t2 = RBRACK" "map shape tv = value_list_shape vs"
      by (auto simp: map_eq_Cons_conv map_eq_append_conv shape_def)
    have pv: "list_all plain_token tv" using value_tokens_plain [of vs] by (intro plain_shapes) (simp add: b(4))
    have pl: "placed (p + length (item_head i) + 1) (item_tail i) tb" using tb vs(2) by simp
    have e: "hd (item_tail i) = CHR ''[''" "last (item_tail i) = CHR '']''" "item_tail i \<noteq> []"
      using vs(1) by (simp_all add: item_tail_def bracketed_def)
    then have pos: "tk_start t1 = p + length (item_head i) + 1" "Suc (tk_stop t2) = p + length (filter_expression i)"
      using pl vs(2) by (auto simp: placed_def b(1) is_ws_def filter_expression_text [OF ok])
    have "in_order tb" using ord by (auto simp: in_order_def t sorted_wrt_append)
    then have "in_order (t1 # tv @ [t2])" by (simp only: b(1))
    moreover have "c < tk_start t1 \<or> tk_stop t2 + 2 < c" using c vs(1) pos by (auto simp: clear_of_def)
    ultimately have "bracket_context q c (rev ta @ seen) (t1 # tv @ t2 # rest) [] = bracket_context q c (t2 # rev tv @ t1 # rev ta @ seen) rest []"
      by (intro pass_list pv) (simp_all add: b opens_def closes_def)
    then show ?thesis using pass_plain [OF pa] by (simp add: t b(1))
  qed
qed

fun clear_of_all :: "nat \<Rightarrow> TagFilterItem list \<Rightarrow> nat \<Rightarrow> bool" where
  "clear_of_all p [] c = True"
| "clear_of_all p (i # is) c = (clear_of p i c \<and> clear_of_all (p + length (filter_expression i) + 5) is c)"

lemma in_order_append: "in_order (xs @ ys) \<Longrightarrow> in_order xs \<and> in_order ys"
  by (auto simp: in_order_def sorted_wrt_append)

lemma no_bracket:
  "items_tokens p items ts \<Longrightarrow> list_all filter_ok items \<Longrightarrow> in_order ts \<Longrightarrow> clear_of_all p items c \<Longrightarrow>
     bracket_context q c seen ts [] = None"
proof (induction items arbitrary: p ts seen rule: induct_list012)
  case 1
  then show ?case by (simp add: Let_def end_token_def opens_def closes_def)
next
  case (2 i)
  then obtain ti where t: "ts = ti @ [end_token (p + length (filter_expression i))]" "item_tokens p i ti" by auto
  with 2 in_order_append [of ti] have "bracket_context q c seen ts [] = bracket_context q c (rev ti @ seen) [end_token (p + length (filter_expression i))] []"
    unfolding t(1) by (intro pass_item [OF _ t(2)]) auto
  then show ?case by (simp add: Let_def end_token_def opens_def closes_def)
next
  case (3 i j js)
  then obtain ti a tr where t: "ts = ti @ a # tr" "item_tokens p i ti" "tk_type a = AND"
    "items_tokens (p + length (filter_expression i) + 5) (j # js) tr" by auto
  have o: "in_order ti" "in_order tr" using "3.prems"(3) in_order_append [of ti "a # tr"] in_order_append [of "[a]" tr] t(1) by auto
  have "bracket_context q c seen ts [] = bracket_context q c (rev ti @ seen) (a # tr) []"
    unfolding t(1) using "3.prems" o by (intro pass_item [OF _ t(2)]) auto
  also have "\<dots> = bracket_context q c (a # rev ti @ seen) tr []" using t(3) by (simp add: Let_def opens_def closes_def)
  also have "\<dots> = None" using "3.IH"(2) [OF t(4)] "3.prems" o(2) by simp
  finally show ?case .
qed

lemma clear_later: "c < p \<Longrightarrow> clear_of_all p items c"
  by (induction items arbitrary: p) (auto simp: clear_of_def)

lemma clear_all:
  "length (before_text xs) + p \<le> c \<Longrightarrow> c < p + length (before_text xs) + length (filter_expression i) \<Longrightarrow>
   c \<le> p + length (before_text xs) + length (item_head i) \<or> (\<exists>v. fi_value i = VOne v) \<Longrightarrow> clear_of_all p (xs @ i # ys) c"
proof (induction xs arbitrary: p)
  case Nil
  then show ?case using clear_later by (auto simp: clear_of_def before_text_def)
next
  case (Cons x xs)
  have l: "length (before_text (x # xs)) = length (filter_expression x) + 5 + length (before_text xs)"
    by (simp add: before_text_Cons)
  with Cons.prems Cons.IH [of "p + length (filter_expression x) + 5"] show ?case
    by (auto simp: clear_of_def)
qed

lemma printed_no_bracket:
  assumes lexer: "follows_grammar lexer" and ok: "list_all filter_ok (xs @ i # ys)"
    and c: "length (before_text xs) \<le> c" "c < length (before_text xs) + length (filter_expression i)"
    and part: "c \<le> length (before_text xs) + length (item_head i) \<or> (\<exists>v. fi_value i = VOne v)"
  defines "q \<equiv> convertFiltersToExpression (xs @ i # ys)"
  shows "bracket_context q c [] (lexer q) [] = None" and "in_order (lexer q)"
proof -
  from items_lex [OF ok, of 0] obtain ts where ts: "lex_from 0 q = Some ts" "items_tokens 0 (xs @ i # ys) ts"
    by (auto simp: q_def convert_join [OF ok])
  then have l: "lexer q = ts" using lexer by (simp add: follows_grammar_def lex_def)
  show o: "in_order (lexer q)" using lex_in_order [OF ts(1)] by (simp add: l)
  have "clear_of_all 0 (xs @ i # ys) c" using c part by (intro clear_all) auto
  with no_bracket [OF ts(2) ok] o show "bracket_context q c [] (lexer q) [] = None" by (simp add: l)
qed

section \<open>The context\<close>

lemma boundary_flags:
  assumes "boundary_context q c pairs cur b = Some x" "cb_bracket b = None"
  shows "isInKey x = in_boundary (cb_key b) c" "isInOperator x = in_boundary (cb_operator b) c"
    "isInValue x = in_boundary (cb_value b) c" "qc_currentPair x = cur"
    "isInConjunction x = in_boundary (cb_conjunction b) c" "\<not> isInFunction x" "\<not> isInParenthesis x" "\<not> qc_isInBracketList x"
    "qc_keyToken x = (if isInKey x \<or> isInOperator x \<or> isInValue x then Some (pair_text qp_key cur) else None)"
    "qc_operatorToken x = (if isInOperator x \<or> isInValue x then Some (pair_text qp_operator cur) else None)"
    "qc_valueToken x = (if isInValue x then Some (pair_text value_of_pair cur) else None)"
  using assms by (auto simp: boundary_context_def Let_def blank_context_def split: if_splits)

lemma boundary_some:
  "in_boundary (cb_key b) c \<or> in_boundary (cb_operator b) c \<or> in_boundary (cb_value b) c \<Longrightarrow>
     boundary_context q c pairs cur b \<noteq> None"
  by (auto simp: boundary_context_def Let_def)

lemma skip_blanks_ge: "n \<le> skip_blanks q n"
  by (simp add: skip_blanks_def)

lemma conjunction_after:
  assumes "in_order tokens" "pp_valueEnd (qp_position P) = None \<or> (\<exists>e. pp_valueEnd (qp_position P) = Some e \<and> c \<le> e)"
  shows "\<not> in_boundary (cb_conjunction (pair_boundaries q tokens br P)) c"
proof -
  have "\<not> (tk_stop t + 1 = c)" if "tk_start t = skip_blanks q (e + 1)" "isConjunctionToken (tk_type t)" "t \<in> set tokens" "c \<le> e" for t e
  proof -
    have "tk_start t \<le> tk_stop t" using assms(1) that(2,3) by (auto simp: in_order_def isConjunctionToken_def)
    with that(1,4) skip_blanks_ge [of "e + 1" q] show ?thesis by simp
  qed
  moreover have "\<not> skip_blanks q (e + 1) \<le> c" if "c \<le> e" for e using that skip_blanks_ge [of "e + 1" q] by simp
  ultimately show ?thesis
    using assms(2) by (auto simp: pair_boundaries_def in_boundary_def Let_def find_Some_iff split: option.splits if_splits)
      (metis Suc_eq_plus1 nth_mem)+
qed

lemma operator_starts: "list_all (\<lambda>(op, ws). op \<noteq> [] \<and> hd op \<noteq> CHR '' '') (compare_operators @ member_operators @ exist_operators)"
  by (simp add: compare_operators_def member_operators_def exist_operators_def)

lemma operator_start: "filter_ok i \<Longrightarrow> fi_op i \<noteq> [] \<and> hd (fi_op i) \<noteq> CHR '' ''"
  by (rule table_op [OF operator_starts filter_ok_op])

lemma compare_not_member: "op \<in> fst ` set compare_operators \<Longrightarrow> op \<notin> fst ` set member_operators"
  using all_operators_distinct by (auto simp: distinct_append)

lemma boundaries_in_filter:
  assumes ok: "list_all filter_ok (xs @ i # ys)" and start: "start = length (before_text xs)"
    and c: "start \<le> c" "c < start + length (filter_expression i)" and P: "read_pair start i P"
    and printed: "q = convertFiltersToExpression (xs @ i # ys)"
  shows "in_boundary (cb_key (pair_boundaries q tokens br P)) c \<longleftrightarrow> c \<le> start + length (fi_key i)"
    and "in_boundary (cb_operator (pair_boundaries q tokens br P)) c
      \<longleftrightarrow> start + length (fi_key i) < c \<and> c \<le> start + length (item_head i)"
    and "in_boundary (cb_value (pair_boundaries q tokens None P)) c \<longleftrightarrow> start + length (item_head i) < c"
    and "start + length (item_head i) < c \<Longrightarrow> value_of_pair P = item_tail i"
proof -
  have oki: "filter_ok i" using ok by simp
  have q: "q = before_text xs @ filter_expression i @ after_text ys" unfolding printed by (rule printed_split [OF ok])
  note pos = read_pair_start [OF P]
  have ends: "Suc (pp_keyEnd (qp_position P)) = start + length (fi_key i)"
    "Suc (pp_operatorEnd (qp_position P)) = start + length (item_head i)" using P by (simp_all add: read_pair_def)
  show "in_boundary (cb_key (pair_boundaries q tokens br P)) c \<longleftrightarrow> c \<le> start + length (fi_key i)"
    using c pos ends(1) by (auto simp: pair_boundaries_def in_boundary_def Let_def)
  have opstart: "skip_blanks q (pp_keyEnd (qp_position P) + 1) = start + length (fi_key i) + 1"
  proof -
    obtain o1 os where o: "fi_op i = o1 # os" "o1 \<noteq> CHR '' ''"
      using operator_start [OF oki] by (cases "fi_op i") auto
    then obtain post where "q = (before_text xs @ fi_key i) @ CHR '' '' # o1 # post"
      using q by (cases "has_value i") (auto simp: filter_expression_text [OF oki] item_head_def)
    from skip_blanks_one [OF this o(2)] show ?thesis using ends(1) start by simp
  qed
  have "length (fi_key i) < length (item_head i)" by (simp add: item_head_def)
  then show "in_boundary (cb_operator (pair_boundaries q tokens br P)) c
      \<longleftrightarrow> start + length (fi_key i) < c \<and> c \<le> start + length (item_head i)"
    using opstart ends(2) by (auto simp: pair_boundaries_def in_boundary_def Let_def)
  have hv: "has_value i" if "start + length (item_head i) < c"
    using that c(2) by (cases "has_value i") (simp_all add: filter_expression_text [OF oki])
  show "value_of_pair P = item_tail i" if "start + length (item_head i) < c"
    using P hv [OF that] by (simp add: read_pair_def value_of_pair_def)
  show "in_boundary (cb_value (pair_boundaries q tokens None P)) c \<longleftrightarrow> start + length (item_head i) < c"
  proof (cases "has_value i")
    case False
    then have "pp_valueEnd (qp_position P) = None" "filter_expression i = item_head i"
      using P by (simp_all add: read_pair_def filter_expression_text [OF oki])
    with c(2) show ?thesis by (simp add: pair_boundaries_def in_boundary_def Let_def)
  next
    case True
    obtain t1 tl where t: "item_tail i = t1 # tl" "t1 \<noteq> CHR '' ''"
      using tail_ends [OF oki True] by (cases "item_tail i") (auto simp: is_ws_def)
    have "q = (before_text xs @ item_head i) @ CHR '' '' # t1 # tl @ after_text ys"
      using q True t(1) by (simp add: filter_expression_text [OF oki])
    from skip_blanks_one [OF this t(2)] have "skip_blanks q (pp_operatorEnd (qp_position P) + 1) = start + length (item_head i) + 1"
      using ends(2) start by simp
    moreover have "pp_valueEnd (qp_position P) = Some (start + length (filter_expression i) - 1)" using P True by (simp add: read_pair_def)
    moreover have "length (item_head i) + 2 \<le> length (filter_expression i)" using True t(1) by (simp add: filter_expression_text [OF oki])
    ultimately have "cb_value (pair_boundaries q tokens None P) = Some (start + length (item_head i) + 1, start + length (filter_expression i) - 1)"
      by (simp add: pair_boundaries_def Let_def)
    then show ?thesis using c(2) by (auto simp: in_boundary_def)
  qed
qed

text \<open>C13: In an expression printed from filters, let the cursor be in a filter, but not inside a list of values.  The
  current pair is that filter.  The context is its key when the cursor is on the key or right behind it, its operator from
  there to the end of the operator, and its value from there on; of key, operator, value, function, conjunction, parenthesis
  and bracket list no other is the context.  The tokens of the context are the parts of the filter up to the cursor.  (The
  flag of the negation is not spoken of.)\<close>

theorem cursor_in_filter:
  assumes lexer: "follows_grammar lexer" and ok: "list_all filter_ok (xs @ i # ys)"
    and start: "start = length (before_text xs)" and c: "start \<le> c" "c < start + length (filter_expression i)"
    and part: "c \<le> start + length (item_head i) \<or> (\<exists>v. fi_value i = VOne v)"
  shows "\<exists>P x. getQueryContextAtCursor lexer tracked (convertFiltersToExpression (xs @ i # ys)) c = x \<and>
     qc_currentPair x = Some P \<and> pair_filter P = i \<and>
     (isInKey x \<longleftrightarrow> c \<le> start + length (fi_key i)) \<and>
     (isInOperator x \<longleftrightarrow> start + length (fi_key i) < c \<and> c \<le> start + length (item_head i)) \<and>
     (isInValue x \<longleftrightarrow> start + length (item_head i) < c) \<and>
     \<not> isInFunction x \<and> \<not> isInConjunction x \<and> \<not> isInParenthesis x \<and> \<not> qc_isInBracketList x \<and>
     qc_keyToken x = Some (fi_key i) \<and>
     qc_operatorToken x = (if c \<le> start + length (fi_key i) then None else Some (qp_operator P)) \<and>
     qc_valueToken x = (if c \<le> start + length (item_head i) then None else Some (item_tail i))"
proof -
  let ?q = "convertFiltersToExpression (xs @ i # ys)"
  let ?Ps = "extractQueryPairs lexer ?q"
  from printed_current_pair [OF lexer ok c [unfolded start]] obtain P where P: "?Ps \<noteq> []"
    "getCurrentQueryPair ?Ps ?q c = Some P" "read_pair start i P" unfolding start by blast
  let ?b = "determineContextBoundaries ?q c (lexer ?q) ?Ps"
  note nb = printed_no_bracket [OF lexer ok c [unfolded start] part [unfolded start]]
  have b: "?b = pair_boundaries ?q (lexer ?q) None P" using P nb(1) by (simp add: determineContextBoundaries_def)
  note parts = boundaries_in_filter(1-2) [where tokens = "lexer ?q" and br = None, OF ok start c P(3) refl, folded b]
    boundaries_in_filter(3) [where tokens = "lexer ?q", OF ok start c P(3) refl, folded b]
  obtain x where x: "boundary_context ?q c ?Ps (Some P) ?b = Some x"
    using boundary_some [of ?b c ?q ?Ps "Some P"] parts by fastforce
  then have ctx: "getQueryContextAtCursor lexer tracked ?q c = x"
    using P(1,2) by (simp add: getQueryContextAtCursor_def Let_def)
  have "pp_valueEnd (qp_position P) = None \<or> (\<exists>e. pp_valueEnd (qp_position P) = Some e \<and> c \<le> e)"
    using P(3) c(2) by (auto simp: read_pair_def split: if_splits)
  then have conj: "\<not> in_boundary (cb_conjunction ?b) c" unfolding b by (rule conjunction_after [OF nb(2)])
  have texts: "pair_text qp_key (Some P) = fi_key i" "pair_text qp_operator (Some P) = qp_operator P"
    "start + length (item_head i) < c \<Longrightarrow> pair_text value_of_pair (Some P) = item_tail i"
    using boundaries_in_filter(4) [OF ok start c P(3) refl] by (simp_all add: pair_text_def read_pair_key [OF P(3)])
  have "cb_bracket ?b = None" by (simp add: b pair_boundaries_def Let_def)
  note f = boundary_flags [OF x this]
  have len: "length (fi_key i) < length (item_head i)" by (simp add: item_head_def)
  have flags: "isInKey x \<longleftrightarrow> c \<le> start + length (fi_key i)"
    "isInOperator x \<longleftrightarrow> start + length (fi_key i) < c \<and> c \<le> start + length (item_head i)"
    "isInValue x \<longleftrightarrow> start + length (item_head i) < c"
    using f(1-3) parts by blast+
  have "qc_keyToken x = Some (fi_key i)" unfolding f(9) flags texts(1) by auto
  moreover have "qc_operatorToken x = (if c \<le> start + length (fi_key i) then None else Some (qp_operator P))"
    unfolding f(10) flags texts(2) using len by auto
  moreover have "qc_valueToken x = (if c \<le> start + length (item_head i) then None else Some (item_tail i))"
    unfolding f(11) flags using texts(3) by simp
  moreover have "pair_filter P = i" using P(3) by (simp add: read_pair_def)
  ultimately show ?thesis using ctx f(4-8) conj flags by blast
qed

theorem cursor_in_filter_witness:
  "\<exists>P x. getQueryContextAtCursor grammar_lexer (\<lambda>_. []) (convertFiltersToExpression [number_filter ''a'' ''='' 12]) 5 = x \<and>
     qc_currentPair x = Some P \<and> isInValue x \<and> qc_keyToken x = Some ''a'' \<and> qc_valueToken x = Some ''12''"
proof -
  let ?i = "number_filter ''a'' ''='' 12"
  have ok: "list_all filter_ok ([] @ ?i # [])" by (simp add: number_filters_ok)
  have tail: "item_tail ?i = ''12''" "length (item_head ?i) = 3" "fi_key ?i = ''a''" "\<exists>v. fi_value ?i = VOne v"
    using number_text_int [of 12] by (simp_all add: item_tail_def item_head_def number_filter_def formatSingleValue_def
        value_text_def int_str_def nat_str.simps char_of_eq_iff)
  moreover have "has_value ?i" by (simp add: has_value_def number_filter_def exist_operators_def)
  ultimately have "length (filter_expression ?i) = 6" using ok by (simp add: filter_expression_text)
  with cursor_in_filter [OF grammar_lexer_ok ok refl, of 5 "\<lambda>_. []"] tail show ?thesis
    by (auto simp: before_text_def)
qed

text \<open>Where the context goes wrong: without a negation its boundary is taken to be the first position, so at the
  start of a query the cursor is on a negation; right after a value the context is a value without key
  and operator; and after a list followed by a bracket it is no context at all.\<close>

theorem cursor_context_flawed:
  "isInNegation (getQueryContextAtCursor grammar_lexer (\<lambda>_. []) ''a = 1'' 0)
   \<and> (let x = getQueryContextAtCursor grammar_lexer (\<lambda>_. []) ''a = 1 AND b = 2'' 5
      in isInValue x \<and> qc_currentPair x = None \<and> qc_keyToken x = Some [] \<and> qc_operatorToken x = Some [])
   \<and> (let x = getQueryContextAtCursor grammar_lexer (\<lambda>_. []) ''a IN [1] AND b = 2'' 8
      in qc_isInBracketList x \<and> \<not> isInValue x \<and> qc_keyToken x = None)"
  by code_simp

end
