(* ===== verification/QueryBuilder.thy ===== *)
theory QueryBuilder
  imports FilterEditing VariableReference
begin

text \<open>
  The data of the query builder under \<^verbatim>\<open>frontend/src/types/api\<close>: the queries the user edits
  (\<^verbatim>\<open>queryBuilder/queryBuilderData.ts\<close>) and the envelopes of the query service
  (\<^verbatim>\<open>v5/queryRange.ts\<close>).  An optional field is an option; \<^verbatim>\<open>undefined\<close> and \<^verbatim>\<open>null\<close> are both
  \<open>None\<close>, and a missing list of a query is the empty one, since the code never tells them apart.
\<close>

section \<open>JavaScript's or\<close>

definition js_or :: "string option \<Rightarrow> string option \<Rightarrow> string option" where
  "js_or a b = (case a of None \<Rightarrow> b | Some s \<Rightarrow> if s = [] then b else a)"

definition or_text :: "string option \<Rightarrow> string \<Rightarrow> string" where
  "or_text a d = (case a of None \<Rightarrow> d | Some s \<Rightarrow> if s = [] then d else s)"

definition int_or :: "int option \<Rightarrow> int option \<Rightarrow> int option" where
  "int_or a b = (case a of None \<Rightarrow> b | Some n \<Rightarrow> if n = 0 then b else a)"

definition nullish :: "'a option \<Rightarrow> 'a option \<Rightarrow> 'a option" where
  "nullish a b = (case a of None \<Rightarrow> b | Some _ \<Rightarrow> a)"

definition nonempty :: "'a list \<Rightarrow> 'a list option" where
  "nonempty xs = (if xs = [] then None else Some xs)"

definition keep :: "'a \<Rightarrow> 'a option \<Rightarrow> 'a" where
  "keep d x = (case x of None \<Rightarrow> d | Some v \<Rightarrow> v)"

lemma keep_simps [simp]: "keep d None = d" "keep d (Some v) = v"
  by (simp_all add: keep_def)

lemma or_text_simps [simp]: "or_text None d = d" "or_text (Some []) d = d" "s \<noteq> [] \<Longrightarrow> or_text (Some s) d = s"
  by (simp_all add: or_text_def)

lemma js_or_simps [simp]: "js_or None b = b" "js_or (Some []) b = b" "s \<noteq> [] \<Longrightarrow> js_or (Some s) b = Some s"
  by (simp_all add: js_or_def)

lemma nullish_simps [simp]: "nullish None b = b" "nullish (Some x) b = Some x"
  by (simp_all add: nullish_def)

section \<open>Queries as the user edits them\<close>

datatype DataSource = METRICS | TRACES | LOGS

datatype PANEL_TYPES = TIME_SERIES | VALUE | TABLE | LIST | TRACE | BAR | PIE | HISTOGRAM | EMPTY_WIDGET

record BaseAutocompleteData =
  ac_key :: string
  ac_dataType :: "string option"
  ac_type :: "string option"
  ac_description :: "string option"
  ac_unit :: "string option"
  ac_signal :: "string option"
  ac_materialized :: "bool option"
  ac_temporality :: "string option"

text \<open>A selected column is either a \<^verbatim>\<open>BaseAutocompleteData\<close> or a \<^verbatim>\<open>TelemetryFieldKey\<close>.\<close>

record select_column =
  sc_key :: "string option"
  sc_name :: "string option"
  sc_fieldDataType :: "string option"
  sc_dataType :: "string option"
  sc_fieldContext :: "string option"
  sc_type :: "string option"
  sc_signal :: "string option"

record OrderByPayload =
  ob_columnName :: string
  ob_order :: string

datatype query_having = HavingItems "Having list" | HavingExpression string

record FunctionArg =
  fa_name :: "string option"
  fa_value :: scalar

record QueryFunction =
  fn_name :: string
  fn_args :: "FunctionArg list option"
  fn_namedArgs :: "scalar jsobj"

record ExpressionAggregation =
  ea_expression :: string
  ea_alias :: "string option"

record MetricAggregation =
  ma_metricName :: "string option"
  ma_temporality :: "string option"
  ma_timeAggregation :: "string option"
  ma_spaceAggregation :: "string option"
  ma_reduceTo :: "string option"

datatype Aggregation = AggExpression ExpressionAggregation | AggMetric MetricAggregation

record IBuilderQuery =
  bq_queryName :: string
  bq_dataSource :: DataSource
  bq_aggregateOperator :: "string option"
  bq_aggregateAttribute :: "BaseAutocompleteData option"
  bq_aggregations :: "Aggregation list"
  bq_timeAggregation :: "string option"
  bq_spaceAggregation :: "string option"
  bq_temporality :: "string option"
  bq_functions :: "QueryFunction list"
  bq_filter :: "string option"
  bq_filters :: "TagFilterItem list"
  bq_groupBy :: "BaseAutocompleteData list"
  bq_expression :: string
  bq_disabled :: bool
  bq_having :: query_having
  bq_limit :: "int option"
  bq_stepInterval :: "int option"
  bq_orderBy :: "OrderByPayload list"
  bq_reduceTo :: "string option"
  bq_legend :: "string option"
  bq_pageSize :: "int option"
  bq_offset :: "int option"
  bq_selectColumns :: "select_column list"
  bq_source :: "string option"

record IBuilderFormula =
  bf_queryName :: string
  bf_expression :: string
  bf_disabled :: bool
  bf_legend :: "string option"
  bf_limit :: "int option"
  bf_orderBy :: "OrderByPayload list option"

record IClickHouseQuery =
  rq_name :: string
  rq_legend :: "string option"
  rq_disabled :: bool
  rq_query :: string

record IPromQLQuery = IClickHouseQuery +
  pq_stepInterval :: "int option"

record query =
  q_queryType :: EQueryType
  q_promql :: "IPromQLQuery list"
  q_clickhouse_sql :: "IClickHouseQuery list"
  q_queryData :: "IBuilderQuery list"
  q_queryFormulas :: "IBuilderFormula list"
  q_queryTraceOperator :: "IBuilderQuery list"

section \<open>Envelopes of the query service\<close>

datatype RequestType = R_scalar | R_time_series | R_trace | R_raw | R_distribution | R_none

record TelemetryFieldKey =
  tf_name :: string
  tf_description :: "string option"
  tf_unit :: "string option"
  tf_signal :: "string option"
  tf_fieldContext :: "string option"
  tf_fieldDataType :: "string option"
  tf_materialized :: "bool option"

record OrderBy =
  or_key :: string
  or_direction :: string

record BaseBuilderQuery =
  bs_stepInterval :: "int option"
  bs_disabled :: "bool option"
  bs_filter :: "string option"
  bs_groupBy :: "TelemetryFieldKey list option"
  bs_limit :: "int option"
  bs_offset :: "int option"
  bs_order :: "OrderBy list option"
  bs_legend :: "string option"
  bs_having :: "query_having option"
  bs_functions :: "QueryFunction list option"
  bs_selectFields :: "TelemetryFieldKey list option"

record BuilderQuery =
  bu_name :: string
  bu_signal :: string
  bu_source :: "string option"
  bu_base :: BaseBuilderQuery
  bu_aggregations :: "Aggregation list option"

record TraceOperatorQuery =
  tq_name :: string
  tq_base :: BaseBuilderQuery
  tq_expression :: string
  tq_aggregations :: "Aggregation list option"

record QueryBuilderFormula =
  qf_name :: string
  qf_expression :: string
  qf_disabled :: bool
  qf_limit :: "int option"
  qf_legend :: "string option"
  qf_order :: "OrderBy list option"

record ClickHouseQuery =
  cq_name :: string
  cq_query :: string
  cq_disabled :: bool
  cq_legend :: "string option"

record PromQuery = ClickHouseQuery +
  pm_step :: "int option"
  pm_stats :: bool

datatype QueryEnvelope =
    Builder_query BuilderQuery
  | Builder_formula QueryBuilderFormula
  | Builder_trace_operator TraceOperatorQuery
  | Promql PromQuery
  | Clickhouse_sql ClickHouseQuery

fun envelope_name :: "QueryEnvelope \<Rightarrow> string" where
  "envelope_name (Builder_query s) = bu_name s"
| "envelope_name (Builder_formula s) = qf_name s"
| "envelope_name (Builder_trace_operator s) = tq_name s"
| "envelope_name (Promql s) = cq_name s"
| "envelope_name (Clickhouse_sql s) = cq_name s"

end
