(* ===== verification/QueryPayload.thy ===== *)
theory QueryPayload
  imports QueryBuilder GlobalTime
begin

text \<open>
  From the query the user edits to the request of the query service:
  \<^verbatim>\<open>frontend/src/api/v5/queryRange/prepareQueryRangePayloadV5.ts\<close> with
  \<^verbatim>\<open>lib/newQueryBuilder/queryBuilderMappers/mapQueryDataToApi.ts\<close>,
  \<^verbatim>\<open>utils/functionNameNormalizer.ts\<close> and \<^verbatim>\<open>lib/getStartEndRangeTime.ts\<close>.  The regular expression of
  \<^verbatim>\<open>parseAggregations\<close> is deterministic (the longest word before a bracket, the first closing bracket,
  an optional alias), so its matcher needs no backtracking.  Dashboard variables have values of
  an arbitrary type.  The time range of the store is in nanoseconds that are whole milliseconds.
\<close>

section \<open>Request types, signals and fields\<close>

definition mapPanelTypeToRequestType :: "PANEL_TYPES \<Rightarrow> RequestType" where
  "mapPanelTypeToRequestType panelType =
     (case panelType of
        TIME_SERIES \<Rightarrow> R_time_series
      | BAR \<Rightarrow> R_time_series
      | TABLE \<Rightarrow> R_scalar
      | PIE \<Rightarrow> R_scalar
      | VALUE \<Rightarrow> R_scalar
      | TRACE \<Rightarrow> R_trace
      | LIST \<Rightarrow> R_raw
      | HISTOGRAM \<Rightarrow> R_distribution
      | EMPTY_WIDGET \<Rightarrow> R_none)"

definition getSignalType :: "DataSource \<Rightarrow> string" where
  "getSignalType dataSource =
     (case dataSource of TRACES \<Rightarrow> ''traces'' | LOGS \<Rightarrow> ''logs'' | METRICS \<Rightarrow> ''metrics'')"

definition isDeprecatedField :: "string \<Rightarrow> bool" where
  "isDeprecatedField fieldName \<longleftrightarrow>
     fieldName \<in> set [''traceID'', ''spanID'', ''parentSpanID'', ''spanKind'', ''durationNano'', ''statusCode'',
       ''statusMessage'', ''statusCodeString'']
     \<or> fieldName \<in> set [''responseStatusCode'', ''externalHttpUrl'', ''httpUrl'', ''externalHttpMethod'', ''httpMethod'',
       ''httpHost'', ''dbName'', ''dbOperation'', ''hasError'', ''isRemote'', ''serviceName'', ''httpRoute'', ''msgSystem'',
       ''msgOperation'', ''dbSystem'', ''rpcSystem'', ''rpcService'', ''rpcMethod'', ''peerService'']"

definition functionNameMap :: "(string \<times> string) list" where
  "functionNameMap =
     [(''timeshift'', ''timeShift''), (''cutoffmin'', ''cutOffMin''), (''cutoffmax'', ''cutOffMax''),
      (''clampmin'', ''clampMin''), (''clampmax'', ''clampMax''), (''absolut'', ''absolute''),
      (''runningdiff'', ''runningDiff''), (''log2'', ''log2''), (''log10'', ''log10''),
      (''cumulativesum'', ''cumulativeSum''), (''ewma3'', ''ewma3''), (''ewma5'', ''ewma5''), (''ewma7'', ''ewma7''),
      (''median3'', ''median3''), (''median5'', ''median5''), (''median7'', ''median7''), (''anomaly'', ''anomaly''),
      (''fillzero'', ''fillZero'')]"

definition normalizeFunctionName :: "string \<Rightarrow> string" where
  "normalizeFunctionName functionName =
     or_text (map_of functionNameMap (toLowerCase functionName)) functionName"

definition getFilter :: "IBuilderQuery \<Rightarrow> string" where
  "getFilter q =
     or_text (bq_filter q) (if bq_filters q \<noteq> [] then convertFiltersToExpression (bq_filters q) else [])"

definition group_by_key :: "BaseAutocompleteData \<Rightarrow> TelemetryFieldKey" where
  "group_by_key item =
     \<lparr> tf_name = ac_key item, tf_description = ac_description item, tf_unit = ac_unit item,
       tf_signal = ac_signal item, tf_fieldContext = Some (or_text (ac_type item) []),
       tf_fieldDataType = Some (or_text (ac_dataType item) []), tf_materialized = ac_materialized item \<rparr>"

definition order_by :: "OrderByPayload \<Rightarrow> OrderBy" where
  "order_by ob = \<lparr> or_key = ob_columnName ob, or_direction = ob_order ob \<rparr>"

definition request_limit :: "PANEL_TYPES option \<Rightarrow> IBuilderQuery \<Rightarrow> int option" where
  "request_limit panelType q =
     (if panelType = Some TABLE \<or> panelType = Some LIST
      then int_or (bq_limit q) (int_or (bq_pageSize q) None) else int_or (bq_limit q) None)"

definition request_offset :: "RequestType \<Rightarrow> IBuilderQuery \<Rightarrow> int option" where
  "request_offset requestType q =
     (if requestType = R_raw \<or> requestType = R_trace then bq_offset q else None)"

definition legend_spec :: "string option \<Rightarrow> string option" where
  "legend_spec legend = js_or legend None"

definition having_spec :: "query_having \<Rightarrow> query_having option" where
  "having_spec having = (if having = HavingItems [] then None else Some having)"

definition query_function :: "QueryFunction \<Rightarrow> QueryFunction" where
  "query_function func =
     \<lparr> fn_name = normalizeFunctionName (fn_name func),
       fn_args = (if fn_namedArgs func = []
                  then map_option (map (\<lambda>arg. \<lparr> fa_name = None, fa_value = fa_value arg \<rparr>)) (fn_args func)
                  else Some (map (\<lambda>(name, v). \<lparr> fa_name = Some name, fa_value = v \<rparr>) (obj_entries (fn_namedArgs func)))),
       fn_namedArgs = [] \<rparr>"

definition column_present :: "select_column \<Rightarrow> bool" where
  "column_present c =
     (case sc_key c of Some k \<Rightarrow> k \<noteq> [] | None \<Rightarrow> (case sc_name c of Some n \<Rightarrow> n \<noteq> [] | None \<Rightarrow> False))"

definition field_name :: "select_column \<Rightarrow> string" where
  "field_name c = (case nullish (sc_name c) (sc_key c) of Some n \<Rightarrow> n | None \<Rightarrow> [])"

definition select_field :: "(string \<Rightarrow> bool) \<Rightarrow> select_column \<Rightarrow> TelemetryFieldKey" where
  "select_field with_context c =
     \<lparr> tf_name = field_name c, tf_description = None, tf_unit = None, tf_signal = sc_signal c,
       tf_fieldContext = (if with_context (field_name c) then nullish (sc_fieldContext c) (sc_type c) else None),
       tf_fieldDataType = nullish (sc_fieldDataType c) (sc_dataType c), tf_materialized = None \<rparr>"

definition createBaseSpec :: "IBuilderQuery \<Rightarrow> RequestType \<Rightarrow> PANEL_TYPES option \<Rightarrow> BaseBuilderQuery" where
  "createBaseSpec q requestType panelType =
     \<lparr> bs_stepInterval = int_or (bq_stepInterval q) None,
       bs_disabled = Some (bq_disabled q),
       bs_filter = Some (getFilter q),
       bs_groupBy = map_option (map group_by_key) (nonempty (bq_groupBy q)),
       bs_limit = request_limit panelType q,
       bs_offset = request_offset requestType q,
       bs_order = map_option (map order_by) (nonempty (bq_orderBy q)),
       bs_legend = legend_spec (bq_legend q),
       bs_having = having_spec (bq_having q),
       bs_functions = map_option (map query_function) (nonempty (bq_functions q)),
       bs_selectFields =
         map_option (map (select_field (\<lambda>fieldName. \<not> isDeprecatedField fieldName \<and> fieldName \<noteq> ''name'')))
           (nonempty (filter column_present (bq_selectColumns q))) \<rparr>"

section \<open>Aggregations\<close>

text \<open>\<^verbatim>\<open>[a-zA-Z0-9_]+\([^)]*\)\<close> at the start of the text: the match and the rest.\<close>

definition match_call :: "string \<Rightarrow> (string \<times> string) option" where
  "match_call s =
     (let w = takeWhile is_word s; r = dropWhile is_word s; body = takeWhile (\<lambda>c. c \<noteq> CHR '')'') r;
          after = dropWhile (\<lambda>c. c \<noteq> CHR '')'') r
      in if w \<noteq> [] \<and> r \<noteq> [] \<and> hd r = CHR ''('' \<and> after \<noteq> [] then Some (w @ body @ '')'', tl after) else None)"

definition is_alias_char :: "char \<Rightarrow> bool" where
  "is_alias_char c \<longleftrightarrow> is_word c \<or> c = CHR ''-''"

definition match_quoted :: "char \<Rightarrow> string \<Rightarrow> (string \<times> string) option" where
  "match_quoted q s =
     (case s of [] \<Rightarrow> None
      | c # cs \<Rightarrow>
          if c = q \<and> dropWhile (\<lambda>x. x \<noteq> q) cs \<noteq> []
          then Some (q # takeWhile (\<lambda>x. x \<noteq> q) cs @ [q], tl (dropWhile (\<lambda>x. x \<noteq> q) cs)) else None)"

definition match_alias_word :: "string \<Rightarrow> (string \<times> string) option" where
  "match_alias_word s =
     (let w = takeWhile is_alias_char s in if w = [] then None else Some (w, dropWhile is_alias_char s))"

definition match_alias_text :: "string \<Rightarrow> (string \<times> string) option" where
  "match_alias_text s =
     nullish (match_quoted (CHR 0x27) s) (nullish (match_quoted (CHR 0x22) s) (match_alias_word s))"

text \<open>\<^verbatim>\<open>\s*as\s+(...)\<close>; \<open>None\<close> when the optional group matches nothing.\<close>

definition match_alias :: "string \<Rightarrow> (string \<times> string) option" where
  "match_alias s =
     (let t = dropWhile is_space s
      in if starts_with t ''as'' \<and> drop 2 t \<noteq> [] \<and> is_space (hd (drop 2 t))
         then match_alias_text (dropWhile is_space (drop 2 t)) else None)"

definition strip_quotes :: "string \<Rightarrow> string" where
  "strip_quotes s =
     (let quote = (\<lambda>c. c = CHR 0x27 \<or> c = CHR 0x22); t = (if s \<noteq> [] \<and> quote (hd s) then tl s else s)
      in if t \<noteq> [] \<and> quote (last t) then butlast t else t)"

definition aggregation_match :: "string option \<Rightarrow> string \<Rightarrow> string option \<Rightarrow> ExpressionAggregation" where
  "aggregation_match availableAlias expr alias =
     \<lparr> ea_expression = expr, ea_alias = map_option strip_quotes (js_or alias (js_or availableAlias None)) \<rparr>"

lemma match_call_shorter: "match_call s = Some (e, r) \<Longrightarrow> length r < length s"
proof -
  assume "match_call s = Some (e, r)"
  then have r: "r = tl (dropWhile (\<lambda>c. c \<noteq> CHR '')'') (dropWhile is_word s))"
    and w: "takeWhile is_word s \<noteq> []" by (auto simp: match_call_def Let_def split: if_splits)
  have "length (dropWhile is_word s) < length s"
    using w by (metis append_eq_conv_conj length_append less_add_same_cancel2 length_greater_0_conv takeWhile_dropWhile_id)
  then show ?thesis using r length_dropWhile_le [of "\<lambda>c. c \<noteq> CHR '')''" "dropWhile is_word s"] by simp
qed

lemma match_quoted_shorter: "match_quoted q s = Some (a, r) \<Longrightarrow> length r \<le> length s"
  using length_dropWhile_le [of "\<lambda>x. x \<noteq> q" "tl s"]
  by (cases s) (auto simp: match_quoted_def split: if_splits)

lemma match_alias_word_shorter: "match_alias_word s = Some (a, r) \<Longrightarrow> length r \<le> length s"
  using length_dropWhile_le [of is_alias_char s] by (auto simp: match_alias_word_def Let_def split: if_splits)

lemma match_alias_shorter: "match_alias s = Some (a, r) \<Longrightarrow> length r \<le> length s"
proof -
  assume a: "match_alias s = Some (a, r)"
  let ?t = "dropWhile is_space (drop 2 (dropWhile is_space s))"
  have "match_alias_text ?t = Some (a, r)" using a by (simp add: match_alias_def Let_def split: if_splits)
  then have "match_quoted (CHR 0x27) ?t = Some (a, r) \<or> match_quoted (CHR 0x22) ?t = Some (a, r)
      \<or> match_alias_word ?t = Some (a, r)"
    by (simp add: match_alias_text_def nullish_def split: option.splits)
  then have "length r \<le> length ?t" using match_quoted_shorter match_alias_word_shorter by blast
  also have "\<dots> \<le> length s"
    using length_dropWhile_le [of is_space "drop 2 (dropWhile is_space s)"] length_dropWhile_le [of is_space s] by simp
  finally show ?thesis .
qed

text \<open>The loop over \<^verbatim>\<open>regex.exec\<close>: at a match it goes on after it, elsewhere one character further.\<close>

function parse_aggregations :: "string option \<Rightarrow> string \<Rightarrow> ExpressionAggregation list" where
  "parse_aggregations availableAlias s =
     (case s of [] \<Rightarrow> []
      | c # cs \<Rightarrow>
          (case match_call s of
             None \<Rightarrow> parse_aggregations availableAlias cs
           | Some (expr, after) \<Rightarrow>
               (case match_alias after of
                  None \<Rightarrow> aggregation_match availableAlias expr None # parse_aggregations availableAlias after
                | Some (alias, rest) \<Rightarrow>
                    aggregation_match availableAlias expr (Some alias) # parse_aggregations availableAlias rest)))"
  by pat_completeness auto
termination
proof (relation "measure (length \<circ> snd)")
  show "wf (measure (length \<circ> snd))" by simp
next
  fix availableAlias s and c :: char and cs
  assume "s = c # cs"
  then show "((availableAlias, cs), availableAlias, s) \<in> measure (length \<circ> snd)" by simp
next
  fix availableAlias :: "string option" and s e after and c :: char and cs and p :: "string \<times> string"
  assume "s = c # cs" "match_call s = Some p" "(e, after) = p"
  then show "((availableAlias, after), availableAlias, s) \<in> measure (length \<circ> snd)"
    using match_call_shorter [of s e after] by auto
next
  fix availableAlias :: "string option" and s e after a rest and c :: char and cs and p q :: "string \<times> string"
  assume "s = c # cs" "match_call s = Some p" "(e, after) = p" "match_alias after = Some q" "(a, rest) = q"
  then show "((availableAlias, rest), availableAlias, s) \<in> measure (length \<circ> snd)"
    using match_call_shorter [of s e after] match_alias_shorter [of after a rest] by auto
qed

declare parse_aggregations.simps [simp del]

definition parseAggregations :: "string \<Rightarrow> string option \<Rightarrow> ExpressionAggregation list" where
  "parseAggregations expression availableAlias = parse_aggregations availableAlias expression"

definition count_aggregation :: ExpressionAggregation where
  "count_aggregation = \<lparr> ea_expression = ''count()'', ea_alias = None \<rparr>"

definition have_reduce_to :: "PANEL_TYPES option \<Rightarrow> bool" where
  "have_reduce_to panelType \<longleftrightarrow> panelType \<in> {Some TABLE, Some PIE, Some VALUE}"

text \<open>A field of the first aggregation; an aggregation of another signal does not have it.\<close>

definition first_metric :: "(MetricAggregation \<Rightarrow> string option) \<Rightarrow> Aggregation list \<Rightarrow> string option" where
  "first_metric field aggs = (case aggs of AggMetric m # _ \<Rightarrow> field m | _ \<Rightarrow> None)"

definition metric_aggregation :: "IBuilderQuery \<Rightarrow> PANEL_TYPES option \<Rightarrow> MetricAggregation" where
  "metric_aggregation q panelType =
     \<lparr> ma_metricName = js_or (first_metric ma_metricName (bq_aggregations q)) (map_option ac_key (bq_aggregateAttribute q)),
       ma_temporality = js_or (first_metric ma_temporality (bq_aggregations q))
         (Option.bind (bq_aggregateAttribute q) ac_temporality),
       ma_timeAggregation = js_or (first_metric ma_timeAggregation (bq_aggregations q)) (bq_timeAggregation q),
       ma_spaceAggregation = js_or (first_metric ma_spaceAggregation (bq_aggregations q)) (bq_spaceAggregation q),
       ma_reduceTo = (if have_reduce_to panelType
         then js_or (first_metric ma_reduceTo (bq_aggregations q)) (bq_reduceTo q) else None) \<rparr>"

text \<open>A metric aggregation has no expression, and \<^verbatim>\<open>exec(undefined)\<close> finds no call.\<close>

definition expression_aggregations :: "Aggregation \<Rightarrow> ExpressionAggregation list" where
  "expression_aggregations agg =
     (let parsed = (case agg of AggExpression a \<Rightarrow> parseAggregations (ea_expression a) (ea_alias a) | AggMetric m \<Rightarrow> [])
      in if parsed = [] then [count_aggregation] else parsed)"

definition createAggregation :: "IBuilderQuery \<Rightarrow> PANEL_TYPES option \<Rightarrow> Aggregation list" where
  "createAggregation q panelType =
     (if bq_dataSource q = METRICS then [AggMetric (metric_aggregation q panelType)]
      else if bq_aggregations q \<noteq> [] then map AggExpression (concat (map expression_aggregations (bq_aggregations q)))
      else [AggExpression count_aggregation])"

section \<open>Envelopes\<close>

definition request_aggregations :: "IBuilderQuery \<Rightarrow> RequestType \<Rightarrow> PANEL_TYPES option \<Rightarrow> Aggregation list option" where
  "request_aggregations q requestType panelType =
     (if requestType = R_raw then None else Some (createAggregation q panelType))"

definition builder_query :: "RequestType \<Rightarrow> PANEL_TYPES option \<Rightarrow> string \<times> IBuilderQuery \<Rightarrow> BuilderQuery" where
  "builder_query requestType panelType = (\<lambda>(queryName, q).
     \<lparr> bu_name = queryName, bu_signal = getSignalType (bq_dataSource q),
       bu_source = (if bq_dataSource q = METRICS then Some (or_text (bq_source q) []) else None),
       bu_base = createBaseSpec q requestType panelType,
       bu_aggregations = request_aggregations q requestType panelType \<rparr>)"

definition convertBuilderQueriesToV5 ::
  "IBuilderQuery jsobj \<Rightarrow> RequestType \<Rightarrow> PANEL_TYPES option \<Rightarrow> QueryEnvelope list" where
  "convertBuilderQueriesToV5 builderQueries requestType panelType =
     map (\<lambda>e. Builder_query (builder_query requestType panelType e)) (obj_entries builderQueries)"

definition trace_group_by_key :: "BaseAutocompleteData \<Rightarrow> TelemetryFieldKey" where
  "trace_group_by_key item =
     (group_by_key item)\<lparr> tf_fieldContext := ac_type item, tf_fieldDataType := ac_dataType item \<rparr>"

definition createTraceOperatorBaseSpec ::
  "IBuilderQuery \<Rightarrow> RequestType \<Rightarrow> PANEL_TYPES option \<Rightarrow> BaseBuilderQuery" where
  "createTraceOperatorBaseSpec q requestType panelType =
     \<lparr> bs_stepInterval = int_or (bq_stepInterval q) None,
       bs_disabled = None,
       bs_filter = None,
       bs_groupBy = map_option (map trace_group_by_key) (nonempty (bq_groupBy q)),
       bs_limit = request_limit panelType q,
       bs_offset = request_offset requestType q,
       bs_order = map_option (map order_by) (nonempty (bq_orderBy q)),
       bs_legend = legend_spec (bq_legend q),
       bs_having = having_spec (bq_having q),
       bs_functions = None,
       bs_selectFields = map_option (map (select_field (\<lambda>_. True))) (nonempty (filter column_present (bq_selectColumns q))) \<rparr>"

definition convertTraceOperatorToV5 ::
  "IBuilderQuery jsobj \<Rightarrow> RequestType \<Rightarrow> PANEL_TYPES option \<Rightarrow> QueryEnvelope list" where
  "convertTraceOperatorToV5 traceOperator requestType panelType =
     map (\<lambda>(queryName, q). Builder_trace_operator
         \<lparr> tq_name = queryName, tq_base = createTraceOperatorBaseSpec q requestType panelType,
           tq_expression = bq_expression q, tq_aggregations = request_aggregations q requestType panelType \<rparr>)
       (obj_entries traceOperator)"

definition convertPromQueriesToV5 :: "IPromQLQuery jsobj \<Rightarrow> QueryEnvelope list" where
  "convertPromQueriesToV5 promQueries =
     map (\<lambda>(queryName, q). Promql
         \<lparr> cq_name = queryName, cq_query = rq_query q, cq_disabled = rq_disabled q, cq_legend = legend_spec (rq_legend q),
           pm_step = pq_stepInterval q, pm_stats = False \<rparr>)
       (obj_entries promQueries)"

definition convertClickHouseQueriesToV5 :: "IClickHouseQuery jsobj \<Rightarrow> QueryEnvelope list" where
  "convertClickHouseQueriesToV5 chQueries =
     map (\<lambda>(queryName, q). Clickhouse_sql
         \<lparr> cq_name = queryName, cq_query = rq_query q, cq_disabled = rq_disabled q, cq_legend = legend_spec (rq_legend q) \<rparr>)
       (obj_entries chQueries)"

section \<open>The payload\<close>

type_synonym legend_map = "string option jsobj"

definition legend_of :: "legend_map \<Rightarrow> string \<Rightarrow> string option" where
  "legend_of legendMap queryName = (case obj_get legendMap queryName of None \<Rightarrow> None | Some legend \<Rightarrow> legend)"

definition reduceQueriesToObject ::
  "'q IClickHouseQuery_scheme list \<Rightarrow> 'q IClickHouseQuery_scheme jsobj \<times> legend_map" where
  "reduceQueriesToObject queryArray =
     fold (\<lambda>item (queries, legends).
         if rq_query item = [] then (queries, legends)
         else (obj_set (rq_name item) item queries, obj_set (rq_name item) (rq_legend item) legends))
       queryArray ([], [])"

definition mapQueryDataToApi ::
  "('q \<Rightarrow> string) \<Rightarrow> ('q \<Rightarrow> string option) \<Rightarrow> ('q \<Rightarrow> 'q) \<Rightarrow> 'q list \<Rightarrow> 'q jsobj \<times> legend_map" where
  "mapQueryDataToApi name legend with_params qs =
     fold (\<lambda>q (acc, newLegendMap). (obj_set (name q) (with_params q) acc, obj_set (name q) (legend q) newLegendMap)) qs ([], [])"

record table_params =
  tp_pagination :: "(int \<times> int) option"
  tp_selectColumns :: "select_column list option"

definition with_table_params :: "table_params option \<Rightarrow> IBuilderQuery \<Rightarrow> IBuilderQuery" where
  "with_table_params params q =
     (case params of None \<Rightarrow> q
      | Some p \<Rightarrow>
          (let q' = (case tp_pagination p of None \<Rightarrow> q
                     | Some (offset, limit) \<Rightarrow> q\<lparr> bq_offset := Some offset, bq_limit := Some limit \<rparr>)
           in case tp_selectColumns p of None \<Rightarrow> q' | Some cols \<Rightarrow> q'\<lparr> bq_selectColumns := cols \<rparr>))"

text \<open>Spreading a second object into a first: \<^verbatim>\<open>{...a, ...b}\<close>.\<close>

definition obj_spread :: "'v jsobj \<Rightarrow> 'v jsobj \<Rightarrow> 'v jsobj" where
  "obj_spread a b = fold (\<lambda>(k, v). obj_set k v) (obj_entries b) a"

definition convert_formula :: "string \<times> IBuilderFormula \<Rightarrow> QueryEnvelope" where
  "convert_formula = (\<lambda>(queryName, f). Builder_formula
     \<lparr> qf_name = queryName, qf_expression = bf_expression f, qf_disabled = bf_disabled f, qf_limit = bf_limit f,
       qf_legend = legend_spec (bf_legend f), qf_order = map_option (map order_by) (bf_orderBy f) \<rparr>)"

definition js_truncate :: "rat \<Rightarrow> int" where
  "js_truncate r = (if r < 0 then - \<lfloor>- r\<rfloor> else \<lfloor>r\<rfloor>)"

definition getStartEndRangeTime :: "int \<Rightarrow> time_range \<Rightarrow> string \<Rightarrow> string \<Rightarrow> (rat \<times> rat) option" where
  "getStartEndRangeTime now globalTime ty interval =
     map_option (\<lambda>minMax. GetStartAndEndTime now ty (GetMaxMinTime False minMax))
       (GetMinMax now interval (Some (rg_minTime globalTime div 1000000, rg_maxTime globalTime div 1000000)))"

record 'v GetQueryResultsProps =
  gp_query :: query
  gp_globalSelectedInterval :: "string option"
  gp_graphType :: PANEL_TYPES
  gp_selectedTime :: string
  gp_tableParams :: "table_params option"
  gp_variables :: "'v jsobj"
  gp_start :: "int option"
  gp_end :: "int option"
  gp_formatForWeb :: bool
  gp_originalGraphType :: "PANEL_TYPES option"
  gp_fillGaps :: bool
  gp_dynamicVariables :: "(string \<times> string) list"

record 'v QueryRangePayloadV5 =
  rp_schemaVersion :: string
  rp_start :: int
  rp_end :: int
  rp_requestType :: RequestType
  rp_queries :: "QueryEnvelope list"
  rp_formatTableResultForUI :: bool
  rp_fillGaps :: bool
  rp_variables :: "('v \<times> string option) jsobj"

definition request_queries :: "'v GetQueryResultsProps \<Rightarrow> QueryEnvelope list \<times> legend_map" where
  "request_queries p =
     (let q = gp_query p; requestType = mapPanelTypeToRequestType (gp_graphType p); graphType = Some (gp_graphType p)
      in case q_queryType q of
        QUERY_BUILDER \<Rightarrow>
          (let (dat, dataLegends) =
                 mapQueryDataToApi bq_queryName bq_legend (with_table_params (gp_tableParams p)) (q_queryData q);
               (formulas, formulaLegends) = mapQueryDataToApi bf_queryName bf_legend id (q_queryFormulas q);
               (operators, operatorLegends) =
                 mapQueryDataToApi bq_queryName bq_legend (with_table_params (gp_tableParams p))
                   (filter (\<lambda>t. js_trim (bq_expression t) \<noteq> []) (q_queryTraceOperator q))
           in (convertBuilderQueriesToV5 dat requestType graphType @ map convert_formula (obj_entries formulas)
                 @ convertTraceOperatorToV5 operators requestType graphType,
               obj_spread (obj_spread (obj_spread [] dataLegends) formulaLegends) operatorLegends))
      | PROM \<Rightarrow>
          (let (queries, legends) = reduceQueriesToObject (q_promql q)
           in (convertPromQueriesToV5 queries, legends))
      | CLICKHOUSE \<Rightarrow>
          (let (queries, legends) = reduceQueriesToObject (q_clickhouse_sql q)
           in (convertClickHouseQueriesToV5 queries, legends)))"

definition request_variables :: "'v GetQueryResultsProps \<Rightarrow> ('v \<times> string option) jsobj" where
  "request_variables p =
     fold (\<lambda>(key, v). obj_set key (v, map_option toLowerCase (map_of (gp_dynamicVariables p) key)))
       (obj_entries (gp_variables p)) []"

text \<open>\<open>None\<close> is the error of \<^verbatim>\<open>getMinMax\<close> for an interval it does not know.\<close>

definition prepareQueryRangePayloadV5 ::
  "int \<Rightarrow> time_range \<Rightarrow> 'v GetQueryResultsProps \<Rightarrow> ('v QueryRangePayloadV5 \<times> legend_map) option" where
  "prepareQueryRangePayloadV5 now globalTime p =
     (let (queries, legendMap) = request_queries p
      in map_option (\<lambda>(start, finish).
           (\<lparr> rp_schemaVersion = ''v1'',
              rp_start = (case int_or (gp_start p) None of Some s \<Rightarrow> s * 1000 | None \<Rightarrow> js_truncate start * 1000),
              rp_end = (case int_or (gp_end p) None of Some e \<Rightarrow> e * 1000 | None \<Rightarrow> js_truncate finish * 1000),
              rp_requestType = mapPanelTypeToRequestType (gp_graphType p),
              rp_queries = queries,
              rp_formatTableResultForUI = (gp_formatForWeb p \<or>
                (case gp_originalGraphType p of Some g \<Rightarrow> g = TABLE | None \<Rightarrow> gp_graphType p = TABLE)),
              rp_fillGaps = gp_fillGaps p,
              rp_variables = request_variables p \<rparr>, legendMap))
           (getStartEndRangeTime now globalTime (gp_selectedTime p)
              (case gp_globalSelectedInterval p of Some i \<Rightarrow> i | None \<Rightarrow> ''custom'')))"

end
