(* ===== verification/QueryComposite.thy ===== *)
theory QueryComposite
  imports QueryPayload
begin

text \<open>
  Saving a query with a view or an alert rule and reading it back, under \<^verbatim>\<open>frontend/src\<close>:
  \<^verbatim>\<open>lib/newQueryBuilder/queryBuilderMappers/mapCompositeQueryFromQuery.ts\<close> and
  \<^verbatim>\<open>mapQueryDataFromApi.ts\<close>, \<^verbatim>\<open>utils/compositeQueryToQueryEnvelope.ts\<close>,
  \<^verbatim>\<open>utils/convertNewToOldQueryBuilder.ts\<close>, \<^verbatim>\<open>lib/newQueryBuilder/transformQueryBuilderDataModel.ts\<close>;
  and the conversions of aggregations in \<^verbatim>\<open>components/QueryBuilderV2/utils.ts\<close> and
  \<^verbatim>\<open>utils/aggregationConverter.ts\<close>.

  The object \<^verbatim>\<open>defaultCompositeQuery\<close> is shared by all calls and each call assigns to it: it is a state
  that is passed along.  What is read back has been JSON, so a field that was undefined is absent.
\<close>

section \<open>The composite query\<close>

datatype builder_item = ItemQuery IBuilderQuery | ItemFormula IBuilderFormula

record ICompositeMetricQuery =
  cm_builderQueries :: "builder_item jsobj option"
  cm_promQueries :: "IPromQLQuery jsobj option"
  cm_chQueries :: "IClickHouseQuery jsobj option"
  cm_queryType :: EQueryType
  cm_panelType :: PANEL_TYPES
  cm_unit :: "string option"
  cm_queries :: "QueryEnvelope list"

definition TRACE_OPERATOR_QUERY_NAME :: string where
  "TRACE_OPERATOR_QUERY_NAME = ''Trace Operator''"

definition convertFormulasToV5 :: "IBuilderFormula jsobj \<Rightarrow> QueryEnvelope list" where
  "convertFormulasToV5 formulas =
     map (\<lambda>(queryName, f). Builder_formula
         \<lparr> qf_name = queryName, qf_expression = bf_expression f, qf_disabled = bf_disabled f, qf_limit = bf_limit f,
           qf_legend = bf_legend f, qf_order = map_option (map order_by) (bf_orderBy f) \<rparr>)
       (obj_entries formulas)"

text \<open>A formula with the name of the trace operator is taken for one: the fields it does not have are undefined.\<close>

definition formula_as_operator :: "IBuilderFormula \<Rightarrow> IBuilderQuery" where
  "formula_as_operator f =
     \<lparr> bq_queryName = bf_queryName f, bq_dataSource = TRACES, bq_aggregateOperator = None, bq_aggregateAttribute = None,
       bq_aggregations = [], bq_timeAggregation = None, bq_spaceAggregation = None, bq_temporality = None,
       bq_functions = [], bq_filter = None, bq_filters = [], bq_groupBy = [], bq_expression = bf_expression f,
       bq_disabled = bf_disabled f, bq_having = HavingItems [], bq_limit = bf_limit f, bq_stepInterval = None,
       bq_orderBy = (case bf_orderBy f of None \<Rightarrow> [] | Some ob \<Rightarrow> ob), bq_reduceTo = None, bq_legend = bf_legend f,
       bq_pageSize = None, bq_offset = None, bq_selectColumns = [], bq_source = None \<rparr>"

record split_queries =
  sq_regular :: "IBuilderQuery jsobj"
  sq_formulas :: "IBuilderFormula jsobj"
  sq_operators :: "IBuilderQuery jsobj"

definition split_item :: "string \<times> builder_item \<Rightarrow> split_queries \<Rightarrow> split_queries" where
  "split_item = (\<lambda>(queryName, item) st.
     (case item of
        ItemQuery q \<Rightarrow>
          if bq_queryName q = TRACE_OPERATOR_QUERY_NAME then st\<lparr> sq_operators := obj_set queryName q (sq_operators st) \<rparr>
          else st\<lparr> sq_regular := obj_set queryName q (sq_regular st) \<rparr>
      | ItemFormula f \<Rightarrow>
          if bf_queryName f = TRACE_OPERATOR_QUERY_NAME
          then st\<lparr> sq_operators := obj_set queryName (formula_as_operator f) (sq_operators st) \<rparr>
          else st\<lparr> sq_formulas := obj_set queryName f (sq_formulas st) \<rparr>))"

definition split_items :: "builder_item jsobj \<Rightarrow> split_queries" where
  "split_items builderQueries =
     fold split_item (obj_entries builderQueries) \<lparr> sq_regular = [], sq_formulas = [], sq_operators = [] \<rparr>"

definition or_empty :: "'v jsobj option \<Rightarrow> 'v jsobj" where
  "or_empty ob = (case ob of None \<Rightarrow> [] | Some kvs \<Rightarrow> kvs)"

definition compositeQueryToQueryEnvelope :: "ICompositeMetricQuery \<Rightarrow> ICompositeMetricQuery" where
  "compositeQueryToQueryEnvelope cm =
     (let items = split_items (or_empty (cm_builderQueries cm)); requestType = mapPanelTypeToRequestType (cm_panelType cm);
          panelType = Some (cm_panelType cm)
      in cm\<lparr> cm_queries := (case cm_queryType cm of
               QUERY_BUILDER \<Rightarrow> convertBuilderQueriesToV5 (sq_regular items) requestType panelType
                 @ convertFormulasToV5 (sq_formulas items) @ convertTraceOperatorToV5 (sq_operators items) requestType panelType
             | PROM \<Rightarrow> convertPromQueriesToV5 (or_empty (cm_promQueries cm))
             | CLICKHOUSE \<Rightarrow> convertClickHouseQueriesToV5 (or_empty (cm_chQueries cm))),
             cm_builderQueries := None, cm_promQueries := None, cm_chQueries := None \<rparr>)"

definition defaultCompositeQuery :: ICompositeMetricQuery where
  "defaultCompositeQuery =
     \<lparr> cm_builderQueries = Some [], cm_promQueries = Some [], cm_chQueries = Some [], cm_queryType = QUERY_BUILDER,
       cm_panelType = TIME_SERIES, cm_unit = None, cm_queries = [] \<rparr>"

definition panel_or_default :: "PANEL_TYPES option \<Rightarrow> PANEL_TYPES" where
  "panel_or_default panelType = (case panelType of None \<Rightarrow> TIME_SERIES | Some p \<Rightarrow> p)"

definition buildBuilderQuery :: "query \<Rightarrow> PANEL_TYPES option \<Rightarrow> ICompositeMetricQuery \<Rightarrow> ICompositeMetricQuery" where
  "buildBuilderQuery q panelType shared =
     (let currentQueryData = fst (mapQueryDataToApi bq_queryName bq_legend id (q_queryData q));
          currentFormulas = fst (mapQueryDataToApi bf_queryName bf_legend id (q_queryFormulas q));
          currentTraceOperator = fst (mapQueryDataToApi bq_queryName bq_legend id (q_queryTraceOperator q))
      in shared\<lparr> cm_queryType := q_queryType q, cm_panelType := panel_or_default panelType,
           cm_builderQueries := Some (obj_spread (obj_spread (obj_spread []
               (map (\<lambda>(k, v). (k, ItemQuery v)) currentQueryData)) (map (\<lambda>(k, v). (k, ItemFormula v)) currentFormulas))
               (map (\<lambda>(k, v). (k, ItemQuery v)) currentTraceOperator)) \<rparr>)"

definition buildClickHouseQuery :: "query \<Rightarrow> PANEL_TYPES option \<Rightarrow> ICompositeMetricQuery \<Rightarrow> ICompositeMetricQuery" where
  "buildClickHouseQuery q panelType shared =
     shared\<lparr> cm_queryType := q_queryType q, cm_panelType := panel_or_default panelType,
       cm_chQueries := Some (fold (\<lambda>c acc. if rq_query c = [] then acc else obj_set (rq_name c) c acc) (q_clickhouse_sql q) []) \<rparr>"

definition buildPromQuery :: "query \<Rightarrow> PANEL_TYPES option \<Rightarrow> ICompositeMetricQuery \<Rightarrow> ICompositeMetricQuery" where
  "buildPromQuery q panelType shared =
     shared\<lparr> cm_queryType := q_queryType q, cm_panelType := panel_or_default panelType,
       cm_promQueries := Some (fold (\<lambda>c acc. if rq_query c = [] then acc
         else obj_set (rq_name c) (c\<lparr> pq_stepInterval := None \<rparr>) acc) (q_promql q) []) \<rparr>"

text \<open>The result and the shared object after the call.\<close>

definition mapCompositeQueryFromQuery ::
  "query \<Rightarrow> PANEL_TYPES option \<Rightarrow> ICompositeMetricQuery \<Rightarrow> ICompositeMetricQuery \<times> ICompositeMetricQuery" where
  "mapCompositeQueryFromQuery q panelType shared =
     (let shared' = (case q_queryType q of
            QUERY_BUILDER \<Rightarrow> buildBuilderQuery q panelType shared
          | CLICKHOUSE \<Rightarrow> buildClickHouseQuery q panelType shared
          | PROM \<Rightarrow> buildPromQuery q panelType shared)
      in (compositeQueryToQueryEnvelope shared', shared'))"

section \<open>Reading a composite query\<close>

text \<open>The values a new query has, from \<^verbatim>\<open>constants/queryBuilder.ts\<close>.\<close>

definition initialAutocompleteData :: BaseAutocompleteData where
  "initialAutocompleteData =
     \<lparr> ac_key = [], ac_dataType = Some [], ac_type = Some [], ac_description = None, ac_unit = None, ac_signal = None,
       ac_materialized = None, ac_temporality = None \<rparr>"

definition initialQueryBuilderFormValues :: IBuilderQuery where
  "initialQueryBuilderFormValues =
     \<lparr> bq_queryName = ''A'', bq_dataSource = METRICS, bq_aggregateOperator = Some ''count'',
       bq_aggregateAttribute = Some initialAutocompleteData,
       bq_aggregations = [AggMetric \<lparr> ma_metricName = Some [], ma_temporality = Some [], ma_timeAggregation = Some ''avg'',
         ma_spaceAggregation = Some ''sum'', ma_reduceTo = Some ''avg'' \<rparr>],
       bq_timeAggregation = Some ''rate'', bq_spaceAggregation = Some ''sum'', bq_temporality = None,
       bq_functions = [], bq_filter = Some [], bq_filters = [], bq_groupBy = [], bq_expression = ''A'',
       bq_disabled = False, bq_having = HavingItems [], bq_limit = None, bq_stepInterval = None,
       bq_orderBy = [], bq_reduceTo = Some ''avg'', bq_legend = Some [],
       bq_pageSize = None, bq_offset = None, bq_selectColumns = [], bq_source = Some [] \<rparr>"

definition initialFormulaBuilderFormValues :: IBuilderFormula where
  "initialFormulaBuilderFormValues =
     \<lparr> bf_queryName = ''F1'', bf_expression = [], bf_disabled = False, bf_legend = Some [], bf_limit = None,
       bf_orderBy = None \<rparr>"

definition initialClickHouseData :: IClickHouseQuery where
  "initialClickHouseData = \<lparr> rq_name = ''A'', rq_legend = Some [], rq_disabled = False, rq_query = [] \<rparr>"

definition initialQueryPromQLData :: IPromQLQuery where
  "initialQueryPromQLData =
     \<lparr> rq_name = ''A'', rq_legend = Some [], rq_disabled = False, rq_query = [], pq_stepInterval = None \<rparr>"

definition getDataSourceFromSignal :: "string \<Rightarrow> DataSource" where
  "getDataSourceFromSignal signal =
     (if signal = ''metrics'' then METRICS else if signal = ''logs'' then LOGS else if signal = ''traces'' then TRACES
      else METRICS)"

definition read_order :: "OrderBy \<Rightarrow> OrderByPayload" where
  "read_order ob = \<lparr> ob_columnName = or_key ob, ob_order = or_direction ob \<rparr>"

definition read_group :: "TelemetryFieldKey \<Rightarrow> BaseAutocompleteData" where
  "read_group g =
     \<lparr> ac_key = tf_name g, ac_dataType = tf_fieldDataType g, ac_type = tf_fieldContext g, ac_description = None,
       ac_unit = None, ac_signal = None, ac_materialized = None, ac_temporality = None \<rparr>"

text \<open>
  The fields of the result, spread over the values of \<open>base\<close>.  The new names (\<^verbatim>\<open>name\<close>, \<^verbatim>\<open>signal\<close>, \<^verbatim>\<open>order\<close>,
  \<^verbatim>\<open>selectFields\<close>) that are spread too are not fields of the old query.
\<close>

definition convertBuilderQueryToIBuilderQuery :: "BuilderQuery \<Rightarrow> IBuilderQuery \<Rightarrow> IBuilderQuery" where
  "convertBuilderQueryToIBuilderQuery spec base =
     (let b = bu_base spec in base\<lparr>
        bq_queryName := bu_name spec,
        bq_dataSource := getDataSourceFromSignal (bu_signal spec),
        bq_aggregations := keep (bq_aggregations base) (bu_aggregations spec),
        bq_functions := keep (bq_functions base) (bs_functions b),
        bq_filter := nullish (bs_filter b) (bq_filter base),
        bq_groupBy := map read_group (keep [] (bs_groupBy b)),
        bq_disabled := keep (bq_disabled base) (bs_disabled b),
        bq_having := keep (bq_having base) (bs_having b),
        bq_limit := nullish (bs_limit b) (bq_limit base),
        bq_stepInterval := nullish (bs_stepInterval b) (bq_stepInterval base),
        bq_orderBy := map read_order (keep [] (bs_order b)),
        bq_legend := bs_legend b,
        bq_offset := nullish (bs_offset b) (bq_offset base),
        bq_source := nullish (bu_source spec) (bq_source base) \<rparr>)"

definition convertQueryBuilderFormulaToIBuilderFormula :: "QueryBuilderFormula \<Rightarrow> IBuilderFormula" where
  "convertQueryBuilderFormulaToIBuilderFormula f =
     \<lparr> bf_queryName = qf_name f, bf_expression = qf_expression f, bf_disabled = qf_disabled f, bf_legend = qf_legend f,
       bf_limit = int_or (qf_limit f) None, bf_orderBy = map_option (map read_order) (qf_order f) \<rparr>"

text \<open>The items of \<^verbatim>\<open>builderQueries\<close> with their type; a trace operator stays the specification it was.\<close>

datatype read_item = ReadQuery BuilderQuery | ReadFormula IBuilderFormula | ReadOperator TraceOperatorQuery

record read_query =
  rd_queryType :: EQueryType
  rd_promql :: "IPromQLQuery list"
  rd_clickhouse_sql :: "IClickHouseQuery list"
  rd_queryData :: "IBuilderQuery list"
  rd_queryFormulas :: "IBuilderFormula list"
  rd_queryTraceOperator :: "TraceOperatorQuery list"
  rd_unit :: "string option"

fun read_item_of :: "QueryEnvelope \<Rightarrow> (string \<times> read_item) option" where
  "read_item_of (Builder_query s) = (if bu_name s = [] then None else Some (bu_name s, ReadQuery s))"
| "read_item_of (Builder_formula s) =
     (if qf_name s = [] then None else Some (qf_name s, ReadFormula (convertQueryBuilderFormulaToIBuilderFormula s)))"
| "read_item_of (Builder_trace_operator s) = (if tq_name s = [] then None else Some (tq_name s, ReadOperator s))"
| "read_item_of _ = None"

definition read_builder :: "QueryEnvelope list \<Rightarrow> read_item jsobj" where
  "read_builder qs = fold (\<lambda>e acc. case read_item_of e of None \<Rightarrow> acc | Some (k, i) \<Rightarrow> obj_set k i acc) qs []"

definition read_prom :: "QueryEnvelope \<Rightarrow> IPromQLQuery list" where
  "read_prom e =
     (case e of Promql s \<Rightarrow>
        [\<lparr> rq_name = cq_name s, rq_legend = Some (or_text (cq_legend s) []), rq_disabled = cq_disabled s, rq_query = cq_query s,
           pq_stepInterval = None \<rparr>]
      | _ \<Rightarrow> [])"

definition read_clickhouse :: "QueryEnvelope \<Rightarrow> IClickHouseQuery list" where
  "read_clickhouse e =
     (case e of Clickhouse_sql s \<Rightarrow>
        [\<lparr> rq_name = cq_name s, rq_legend = Some (or_text (cq_legend s) []), rq_disabled = cq_disabled s, rq_query = cq_query s \<rparr>]
      | _ \<Rightarrow> [])"

text \<open>\<^verbatim>\<open>transformQueryBuilderDataModel\<close> with the types of the queries: the three lists of the builder.\<close>

definition transform_query_data :: "read_item \<Rightarrow> IBuilderQuery list" where
  "transform_query_data i =
     (case i of ReadQuery s \<Rightarrow> [convertBuilderQueryToIBuilderQuery s initialQueryBuilderFormValues] | _ \<Rightarrow> [])"

definition transform_formulas :: "read_item \<Rightarrow> IBuilderFormula list" where
  "transform_formulas i = (case i of ReadFormula f \<Rightarrow> [f] | _ \<Rightarrow> [])"

definition transform_operators :: "read_item \<Rightarrow> TraceOperatorQuery list" where
  "transform_operators i = (case i of ReadOperator s \<Rightarrow> [s] | _ \<Rightarrow> [])"

definition mapQueryFromV5 :: "ICompositeMetricQuery \<Rightarrow> read_query" where
  "mapQueryFromV5 cm =
     (let items = obj_values (read_builder (cm_queries cm)) in
      \<lparr> rd_queryType = cm_queryType cm,
        rd_promql = concat (map read_prom (cm_queries cm)),
        rd_clickhouse_sql = concat (map read_clickhouse (cm_queries cm)),
        rd_queryData = concat (map transform_query_data items),
        rd_queryFormulas = concat (map transform_formulas items),
        rd_queryTraceOperator = concat (map transform_operators items),
        rd_unit = cm_unit cm \<rparr>)"

section \<open>Aggregations of old queries\<close>

definition count_for_noop :: "string \<Rightarrow> string" where
  "count_for_noop operator = (if operator = ''noop'' then ''count'' else operator)"

definition convertAggregationToExpression ::
  "string \<Rightarrow> BaseAutocompleteData option \<Rightarrow> DataSource \<Rightarrow> string option \<Rightarrow> string option \<Rightarrow> string option
     \<Rightarrow> string option \<Rightarrow> string option \<Rightarrow> Aggregation list option" where
  "convertAggregationToExpression aggregateOperator aggregateAttribute dataSource timeAggregation spaceAggregation alias
       reduceTo temporality =
     (if aggregateOperator = [] then None
      else
        (let normalizedOperator = count_for_noop aggregateOperator;
             key = (case aggregateAttribute of None \<Rightarrow> [] | Some a \<Rightarrow> ac_key a)
         in if dataSource = METRICS
            then Some [AggMetric \<lparr> ma_metricName = Some key, ma_temporality = temporality,
              ma_timeAggregation = js_or (map_option count_for_noop timeAggregation) (Some normalizedOperator),
              ma_spaceAggregation = js_or (map_option count_for_noop spaceAggregation) (Some normalizedOperator),
              ma_reduceTo = reduceTo \<rparr>]
            else Some [AggExpression \<lparr> ea_expression = normalizedOperator @ ''('' @ key @ '')'',
              ea_alias = js_or alias None \<rparr>]))"

text \<open>The options of the order-by filter; \<^verbatim>\<open>undefined\<close> in a template prints as that word.\<close>

definition template_text :: "string option \<Rightarrow> string" where
  "template_text v = (case v of None \<Rightarrow> ''undefined'' | Some s \<Rightarrow> s)"

definition aggregation_option :: "Aggregation \<Rightarrow> string" where
  "aggregation_option agg =
     (case agg of
        AggExpression a \<Rightarrow> or_text (ea_alias a) (ea_expression a)
      | AggMetric m \<Rightarrow> template_text (ma_spaceAggregation m) @ ''('' @ template_text (ma_metricName m) @ '')'')"

definition convertAggregationsToBaseAutocompleteData ::
  "Aggregation list \<Rightarrow> DataSource \<Rightarrow> string option \<Rightarrow> string option \<Rightarrow> string list" where
  "convertAggregationsToBaseAutocompleteData aggregations dataSource metricName spaceAggregation =
     (if aggregations = []
      then [if dataSource = METRICS then or_text spaceAggregation ''avg'' @ ''('' @ or_text metricName ''metric'' @ '')''
            else ''count()'']
      else map aggregation_option aggregations)"

definition getAggregationOptionsForOrderBy :: "IBuilderQuery \<Rightarrow> string list" where
  "getAggregationOptionsForOrderBy q =
     convertAggregationsToBaseAutocompleteData (bq_aggregations q) (bq_dataSource q)
       (map_option ac_key (bq_aggregateAttribute q)) (bq_spaceAggregation q)"

definition getParsedAggregationOptionsForOrderBy :: "IBuilderQuery \<Rightarrow> string list" where
  "getParsedAggregationOptionsForOrderBy q =
     convertAggregationsToBaseAutocompleteData (createAggregation q None) (bq_dataSource q)
       (map_option ac_key (bq_aggregateAttribute q)) (bq_spaceAggregation q)"

section \<open>Queries of a widget that is saved\<close>

text \<open>
  The fields of a metric aggregation, absent in one of another signal.  A metric query never reads an expression, so
  the one that such an aggregation keeps is not modelled.
\<close>

definition metric_part :: "Aggregation \<Rightarrow> MetricAggregation" where
  "metric_part agg =
     (case agg of AggMetric m \<Rightarrow> m
      | AggExpression a \<Rightarrow> \<lparr> ma_metricName = None, ma_temporality = None, ma_timeAggregation = None,
          ma_spaceAggregation = None, ma_reduceTo = None \<rparr>)"

definition adjust_metric_aggregation :: "IBuilderQuery \<Rightarrow> Aggregation \<Rightarrow> Aggregation" where
  "adjust_metric_aggregation q agg =
     (let m = metric_part agg in AggMetric (m\<lparr>
        ma_metricName := js_or (ma_metricName m) (js_or (map_option ac_key (bq_aggregateAttribute q)) (Some [])),
        ma_timeAggregation := js_or (ma_timeAggregation m) (js_or (bq_timeAggregation q) (Some [])),
        ma_spaceAggregation := js_or (ma_spaceAggregation m) (js_or (bq_spaceAggregation q) (Some [])),
        ma_reduceTo := js_or (ma_reduceTo m) (js_or (bq_reduceTo q) (Some ''avg'')) \<rparr>))"

definition adjust_query :: "IBuilderQuery \<Rightarrow> IBuilderQuery" where
  "adjust_query q =
     q\<lparr> bq_aggregations := (if bq_dataSource q = METRICS then map (adjust_metric_aggregation q) (bq_aggregations q)
          else bq_aggregations q),
        bq_aggregateAttribute := None, bq_aggregateOperator := None, bq_timeAggregation := None,
        bq_spaceAggregation := None, bq_reduceTo := None, bq_filters := [] \<rparr>"

definition adjustQueryForV5 :: "query \<Rightarrow> query" where
  "adjustQueryForV5 currentQuery =
     (if q_queryType currentQuery = QUERY_BUILDER
      then currentQuery\<lparr> q_queryData := map adjust_query (q_queryData currentQuery) \<rparr> else currentQuery)"

end
