(* ===== verification/QueryResponse.thy ===== *)
theory QueryResponse
  imports QueryPayload
begin

text \<open>
  From the answer of the query service to what tables and charts read:
  \<^verbatim>\<open>frontend/src/api/v5/queryRange/convertV5Response.ts\<close>, \<^verbatim>\<open>lib/newQueryBuilder/convertNewDataToOld.ts\<close>,
  \<^verbatim>\<open>lib/dashboard/getQueryResults.ts\<close> and the column labels of \<^verbatim>\<open>components/QueryBuilderV2/utils.ts\<close>.
  The service is an argument: a function from requests to answers.  A cell of an answer is any JSON
  value; an object or array is represented by its JSON text, and \<^verbatim>\<open>null\<close> stands for a missing cell too.
  Label values are strings, as the types of the legacy format say.  Execution statistics and warnings, which
  are only passed on, and the entries of distributions other than their query names are left out.
\<close>

section \<open>Answers\<close>

datatype cell = CNull | CNum js_number | CStr string | CBool bool | CObject string

datatype ColumnType = C_group | C_aggregation

record ColumnDescriptor =
  cd_name :: string
  cd_queryName :: string
  cd_aggregationIndex :: nat
  cd_columnType :: ColumnType

record TimeSeries =
  sr_labels :: "(string \<times> string) list option"
  sr_values :: "(int \<times> js_number) list"

record AggregationBucket =
  ab_index :: nat
  ab_alias :: string
  ab_series :: "TimeSeries list"
  ab_predictedSeries :: "TimeSeries list"
  ab_upperBoundSeries :: "TimeSeries list"
  ab_lowerBoundSeries :: "TimeSeries list"
  ab_anomalyScores :: "TimeSeries list"

record TimeSeriesData =
  td_queryName :: string
  td_aggregations :: "AggregationBucket list"

text \<open>A scalar answer may also carry the fields of a time series.\<close>

record ScalarData =
  sd_columns :: "ColumnDescriptor list"
  sd_data :: "cell list list"
  sd_timeSeries :: TimeSeriesData

record RawRow =
  rr_timestamp :: string
  rr_data :: "cell jsobj"

record RawData =
  rw_queryName :: string
  rw_rows :: "RawRow list"

datatype QueryRangeDataV5 =
    V5TimeSeries "TimeSeriesData list"
  | V5Scalar "ScalarData list"
  | V5Raw "RawData list"
  | V5Trace "RawData list"
  | V5Distribution "string list"
  | V5Other

section \<open>The legacy format\<close>

record series_meta =
  sm_alias :: string
  sm_index :: nat
  sm_queryName :: string

record SeriesItem =
  si_labels :: "string jsobj"
  si_labelsArray :: "string jsobj list"
  si_values :: "(int \<times> string) list"
  si_metaData :: series_meta

record Column =
  cl_name :: string
  cl_queryName :: string
  cl_isValueColumn :: bool
  cl_id :: string

record ListItem =
  li_timestamp :: string
  li_data :: "cell jsobj"

record query_table =
  qt_columns :: "Column list"
  qt_rows :: "cell jsobj list"

record QueryDataV3 =
  qr_queryName :: string
  qr_legend :: "string option"
  qr_series :: "SeriesItem list option"
  qr_predictedSeries :: "SeriesItem list"
  qr_upperBoundSeries :: "SeriesItem list"
  qr_lowerBoundSeries :: "SeriesItem list"
  qr_anomalyScores :: "SeriesItem list"
  qr_list :: "ListItem list option"
  qr_table :: "query_table option"
  qr_metric :: "string jsobj"

definition legacy_data :: "string \<Rightarrow> string option \<Rightarrow> QueryDataV3" where
  "legacy_data queryName legend =
     \<lparr> qr_queryName = queryName, qr_legend = legend, qr_series = None, qr_predictedSeries = [], qr_upperBoundSeries = [],
       qr_lowerBoundSeries = [], qr_anomalyScores = [], qr_list = None, qr_table = None, qr_metric = [] \<rparr>"

section \<open>Names and identifiers of columns\<close>

type_synonym aggregations_per_query = "Aggregation list jsobj"

definition aggregations_of :: "aggregations_per_query \<Rightarrow> string \<Rightarrow> Aggregation list" where
  "aggregations_of aggregationPerQuery queryName =
     (case obj_get aggregationPerQuery queryName of None \<Rightarrow> [] | Some aggs \<Rightarrow> aggs)"

definition alias_of :: "Aggregation \<Rightarrow> string option" where
  "alias_of agg = (case agg of AggExpression a \<Rightarrow> ea_alias a | AggMetric m \<Rightarrow> None)"

definition expression_of :: "Aggregation \<Rightarrow> string option" where
  "expression_of agg = (case agg of AggExpression a \<Rightarrow> Some (ea_expression a) | AggMetric m \<Rightarrow> None)"

definition column_aggregation :: "ColumnDescriptor \<Rightarrow> aggregations_per_query \<Rightarrow> Aggregation option" where
  "column_aggregation col aggregationPerQuery =
     (let aggs = aggregations_of aggregationPerQuery (cd_queryName col)
      in if cd_aggregationIndex col < length aggs then Some (aggs ! cd_aggregationIndex col) else None)"

definition getColName :: "ColumnDescriptor \<Rightarrow> legend_map \<Rightarrow> aggregations_per_query \<Rightarrow> string" where
  "getColName col legendMap aggregationPerQuery =
     (if cd_columnType col = C_group then cd_name col
      else
        (let aggregation = column_aggregation col aggregationPerQuery;
             legend = legend_of legendMap (cd_queryName col);
             alias = Option.bind aggregation alias_of;
             expression = Option.bind aggregation expression_of;
             aggregationsCount = length (aggregations_of aggregationPerQuery (cd_queryName col))
         in if aggregationsCount > 0
            then (if aggregationsCount = 1 then or_text alias (or_text legend (or_text expression (cd_queryName col)))
                  else or_text alias (or_text expression (cd_queryName col)))
            else or_text legend (cd_queryName col)))"

definition getColId :: "ColumnDescriptor \<Rightarrow> aggregations_per_query \<Rightarrow> string" where
  "getColId col aggregationPerQuery =
     (if cd_columnType col = C_group then cd_name col
      else
        (let expression = or_text (Option.bind (column_aggregation col aggregationPerQuery) expression_of) []
         in if length (aggregations_of aggregationPerQuery (cd_queryName col)) > 1 \<and> expression \<noteq> []
            then cd_queryName col @ ''.'' @ expression else cd_queryName col))"

section \<open>Conversion\<close>

definition convert_series :: "string \<Rightarrow> AggregationBucket \<Rightarrow> TimeSeries \<Rightarrow> SeriesItem" where
  "convert_series queryName aggregation series =
     (let labels = keep [] (sr_labels series) in
      \<lparr> si_labels = fold (\<lambda>(name, v). obj_set name v) labels [],
        si_labelsArray = map (\<lambda>(name, v). [(name, v)]) labels,
        si_values = map (\<lambda>(timestamp, v). (timestamp, number_text v)) (sr_values series),
        si_metaData = \<lparr> sm_alias = ab_alias aggregation, sm_index = ab_index aggregation, sm_queryName = queryName \<rparr> \<rparr>)"

definition processSeriesData ::
  "string \<Rightarrow> (AggregationBucket \<Rightarrow> TimeSeries list) \<Rightarrow> AggregationBucket list \<Rightarrow> SeriesItem list" where
  "processSeriesData queryName seriesKey aggregations =
     concat (map (\<lambda>aggregation. map (convert_series queryName aggregation) (seriesKey aggregation)) aggregations)"

definition convertTimeSeriesData :: "TimeSeriesData \<Rightarrow> legend_map \<Rightarrow> QueryDataV3" where
  "convertTimeSeriesData td legendMap =
     (let process = (\<lambda>key. processSeriesData (td_queryName td) key (td_aggregations td)) in
      (legacy_data (td_queryName td) (Some (or_text (legend_of legendMap (td_queryName td)) (td_queryName td))))\<lparr>
        qr_series := Some (process ab_series),
        qr_predictedSeries := process ab_predictedSeries,
        qr_upperBoundSeries := process ab_upperBoundSeries,
        qr_lowerBoundSeries := process ab_lowerBoundSeries,
        qr_anomalyScores := process ab_anomalyScores \<rparr>)"

definition table_column :: "legend_map \<Rightarrow> aggregations_per_query \<Rightarrow> ColumnDescriptor \<Rightarrow> Column" where
  "table_column legendMap aggregationPerQuery col =
     \<lparr> cl_name = getColName col legendMap aggregationPerQuery, cl_queryName = cd_queryName col,
       cl_isValueColumn = (cd_columnType col = C_aggregation), cl_id = getColId col aggregationPerQuery \<rparr>"

definition column_key :: "Column \<Rightarrow> string" where
  "column_key col = (if cl_id col = [] then cl_name col else cl_id col)"

text \<open>The cells of a row, one assignment per column; a row that is too short gives missing cells.\<close>

definition cell_at :: "cell list \<Rightarrow> nat \<Rightarrow> cell" where
  "cell_at dataRow i = (if i < length dataRow then dataRow ! i else CNull)"

definition row_data :: "Column list \<Rightarrow> cell list \<Rightarrow> cell jsobj" where
  "row_data columns dataRow =
     fold (\<lambda>(i, col). obj_set (column_key col) (cell_at dataRow i)) (enumerate 0 columns) []"

definition scalar_table :: "legend_map \<Rightarrow> aggregations_per_query \<Rightarrow> ScalarData \<Rightarrow> query_table" where
  "scalar_table legendMap aggregationPerQuery sd =
     (let columns = map (table_column legendMap aggregationPerQuery) (sd_columns sd)
      in \<lparr> qt_columns = columns, qt_rows = map (row_data columns) (sd_data sd) \<rparr>)"

definition first_query_name :: "ScalarData \<Rightarrow> string" where
  "first_query_name sd = (case sd_columns sd of [] \<Rightarrow> [] | col # _ \<Rightarrow> cd_queryName col)"

definition convertScalarDataArrayToTable ::
  "ScalarData list \<Rightarrow> legend_map \<Rightarrow> aggregations_per_query \<Rightarrow> QueryDataV3 list" where
  "convertScalarDataArrayToTable scalarDataArray legendMap aggregationPerQuery =
     map (\<lambda>sd.
         if td_aggregations (sd_timeSeries sd) \<noteq> []
         then (convertTimeSeriesData (sd_timeSeries sd) legendMap)\<lparr> qr_table := Some \<lparr> qt_columns = [], qt_rows = [] \<rparr> \<rparr>
         else (legacy_data (first_query_name sd) (Some (or_text (legend_of legendMap (first_query_name sd)) [])))\<lparr>
           qr_table := Some (scalar_table legendMap aggregationPerQuery sd) \<rparr>)
       scalarDataArray"

definition convertScalarWithFormatForWeb ::
  "ScalarData list \<Rightarrow> legend_map \<Rightarrow> aggregations_per_query \<Rightarrow> QueryDataV3 list" where
  "convertScalarWithFormatForWeb scalarDataArray legendMap aggregationPerQuery =
     map (\<lambda>sd. (legacy_data (first_query_name sd)
           (Some (or_text (legend_of legendMap (first_query_name sd)) (first_query_name sd))))\<lparr>
           qr_table := Some (scalar_table legendMap aggregationPerQuery sd) \<rparr>)
       scalarDataArray"

definition convertRawData :: "RawData \<Rightarrow> legend_map \<Rightarrow> QueryDataV3" where
  "convertRawData rawData legendMap =
     (legacy_data (rw_queryName rawData) (Some (or_text (legend_of legendMap (rw_queryName rawData)) (rw_queryName rawData))))\<lparr>
       qr_list := Some (map (\<lambda>row. \<lparr> li_timestamp = rr_timestamp row,
         li_data = obj_set ''date'' (CStr (rr_timestamp row)) (rr_data row) \<rparr>) (rw_rows rawData)) \<rparr>"

definition convertV5DataByType ::
  "QueryRangeDataV5 \<Rightarrow> legend_map \<Rightarrow> aggregations_per_query \<Rightarrow> RequestType \<times> QueryDataV3 list" where
  "convertV5DataByType v5Data legendMap aggregationPerQuery =
     (case v5Data of
        V5TimeSeries results \<Rightarrow> (R_time_series, map (\<lambda>td. convertTimeSeriesData td legendMap) results)
      | V5Scalar results \<Rightarrow> (R_scalar, convertScalarDataArrayToTable results legendMap aggregationPerQuery)
      | V5Raw results \<Rightarrow> (R_raw, map (\<lambda>r. convertRawData r legendMap) results)
      | V5Trace results \<Rightarrow> (R_trace, map (\<lambda>r. convertRawData r legendMap) results)
      | V5Distribution results \<Rightarrow> (R_distribution, map (\<lambda>n. legacy_data n None) results)
      | V5Other \<Rightarrow> (R_none, []))"

text \<open>The aggregations that were asked for, by the name of the query.\<close>

definition aggregations_asked :: "QueryEnvelope list \<Rightarrow> aggregations_per_query" where
  "aggregations_asked queries =
     fold (\<lambda>e acc. case e of
           Builder_query s \<Rightarrow> if bu_name s = [] then acc else obj_set (bu_name s) (keep [] (bu_aggregations s)) acc
         | _ \<Rightarrow> acc)
       queries []"

definition apply_legend :: "legend_map \<Rightarrow> QueryDataV3 \<Rightarrow> QueryDataV3" where
  "apply_legend legendMap qd =
     (let legend = legend_of legendMap (qr_queryName qd) in
      if qr_metric qd = []
      then (let legend' = (case legend of None \<Rightarrow> qr_queryName qd | Some l \<Rightarrow> l)
            in qd\<lparr> qr_legend := Some legend',
                 qr_metric := (if qr_queryName qd = legend' then obj_set (qr_queryName qd) (qr_queryName qd) (qr_metric qd)
                               else qr_metric qd) \<rparr>)
      else qd\<lparr> qr_legend := legend \<rparr>)"

definition convertV5ResponseToLegacy ::
  "QueryRangeDataV5 \<Rightarrow> QueryEnvelope list \<Rightarrow> legend_map \<Rightarrow> bool \<Rightarrow> RequestType \<times> QueryDataV3 list" where
  "convertV5ResponseToLegacy v5Data queries legendMap formatForWeb =
     (case (formatForWeb, v5Data) of
        (True, V5Scalar results) \<Rightarrow>
          (R_scalar, convertScalarWithFormatForWeb results legendMap (aggregations_asked queries))
      | _ \<Rightarrow> (case convertV5DataByType v5Data legendMap (aggregations_asked queries) of
               (resultType, result) \<Rightarrow> (resultType, map (apply_legend legendMap) result)))"

section \<open>The older format of the charts\<close>

record QueryData =
  od_metric :: "string jsobj"
  od_values :: "(rat \<times> string) list"
  od_queryName :: string
  od_legend :: "string option"
  od_metaData :: "series_meta option"

definition old_series :: "string \<Rightarrow> SeriesItem \<Rightarrow> QueryData" where
  "old_series queryName series =
     \<lparr> od_metric = si_labels series,
       od_values = map (\<lambda>(timestamp, v). (of_int timestamp / 1000, v)) (si_values series),
       od_queryName = queryName, od_legend = None, od_metaData = Some (si_metaData series) \<rparr>"

definition convertNewDataToOld :: "QueryDataV3 list \<Rightarrow> QueryData list" where
  "convertNewDataToOld result =
     concat (map (\<lambda>item. map (old_series (qr_queryName item))
         (keep [] (qr_series item) @ qr_predictedSeries item @ qr_upperBoundSeries item @ qr_lowerBoundSeries item)) result)"

definition old_legend :: "legend_map \<Rightarrow> QueryData \<Rightarrow> QueryData" where
  "old_legend legendMap qd =
     (let legend = legend_of legendMap (od_queryName qd) in
      if od_metric qd = []
      then (let legend' = or_text legend (od_queryName qd)
            in qd\<lparr> od_legend := Some legend',
                 od_metric := (if od_queryName qd = legend' then obj_set (od_queryName qd) (od_queryName qd) (od_metric qd)
                               else od_metric qd) \<rparr>)
      else qd\<lparr> od_legend := legend \<rparr>)"

section \<open>A query and its answer\<close>

definition metric_name_missing :: "IBuilderQuery \<Rightarrow> bool" where
  "metric_name_missing q =
     (case js_or (first_metric ma_metricName (bq_aggregations q)) (map_option ac_key (bq_aggregateAttribute q)) of
        None \<Rightarrow> True | Some metricName \<Rightarrow> js_trim metricName = [])"

definition validateMetricNameForMetricsDataSource :: "query \<Rightarrow> bool" where
  "validateMetricNameForMetricsDataSource q =
     (if q_queryType q \<noteq> QUERY_BUILDER then True
      else (let metricsQueries = filter (\<lambda>d. bq_dataSource d = METRICS) (q_queryData q)
            in metricsQueries = [] \<or> \<not> list_all metric_name_missing metricsQueries))"

datatype query_result =
    NothingAsked string
  | TableResult RequestType "QueryDataV3 list"
  | ChartResult RequestType "QueryData list" "QueryDataV3 list"

text \<open>
  The fifth version of the service, for a dashboard that is not public.  \<open>None\<close> is the error for an
  unknown interval.
\<close>

definition GetMetricQueryRange ::
  "int \<Rightarrow> time_range \<Rightarrow> ('v QueryRangePayloadV5 \<Rightarrow> QueryRangeDataV5) \<Rightarrow> 'v GetQueryResultsProps \<Rightarrow> query_result option" where
  "GetMetricQueryRange now globalTime service p =
     (let panelType = keep (gp_graphType p) (gp_originalGraphType p);
          finalFormatForWeb = (gp_formatForWeb p \<or> panelType = TABLE)
      in if \<not> validateMetricNameForMetricsDataSource (gp_query p)
         then Some (NothingAsked ''Metric name is required for metrics data source'')
         else case prepareQueryRangePayloadV5 now globalTime p of
           None \<Rightarrow> None
         | Some (payload, legendMap) \<Rightarrow>
             if rp_queries payload = [] then Some (NothingAsked ''At least one query is required'')
             else (case convertV5ResponseToLegacy (service payload) (rp_queries payload) legendMap finalFormatForWeb of
               (resultType, result) \<Rightarrow>
                 if finalFormatForWeb then Some (TableResult resultType result)
                 else Some (ChartResult resultType (map (old_legend legendMap) (convertNewDataToOld result)) result)))"

section \<open>Labels of the columns\<close>

definition label_id :: "string \<Rightarrow> Aggregation \<Rightarrow> bool \<Rightarrow> string" where
  "label_id queryName aggregation isMultipleAggregations =
     (if isMultipleAggregations \<and> or_text (expression_of aggregation) [] \<noteq> []
      then queryName @ ''.'' @ or_text (expression_of aggregation) [] else queryName)"

definition labelled_aggregations :: "IBuilderQuery list \<Rightarrow> aggregations_per_query" where
  "labelled_aggregations queryData =
     fold (\<lambda>q acc. if bq_queryName q \<noteq> [] \<and> bq_aggregations q \<noteq> []
           then obj_set (bq_queryName q) (createAggregation q None) acc else acc)
       queryData []"

definition getQueryLabelWithAggregation :: "IBuilderQuery list \<Rightarrow> (string \<times> string) list" where
  "getQueryLabelWithAggregation queryData =
     concat (map (\<lambda>(queryName, aggregations).
         map (\<lambda>(index, agg).
             (if length aggregations > 1 then queryName @ ''.'' @ nat_str index else queryName,
              label_id queryName agg (length aggregations > 1)))
           (enumerate 0 aggregations))
       (obj_entries (labelled_aggregations queryData)))"

end
