(* ===== verification/SeriesLegend.thy ===== *)
theory SeriesLegend
  imports QueryResponse
begin

text \<open>
  The names of the series of a chart, under \<^verbatim>\<open>frontend/src\<close>: \<^verbatim>\<open>lib/getLabelName.ts\<close>, which fills the
  labels of a series into a legend such as \<^verbatim>\<open>{{host}}\<close>, and \<^verbatim>\<open>getLegend\<close> of
  \<^verbatim>\<open>lib/dashboard/getQueryResults.ts\<close>.  The first property says which legends are filled correctly, by
  reading a legend as a list of texts and slots.
\<close>

section \<open>Replacing a string\<close>

text \<open>The text before and after the first occurrence of a pattern.\<close>

fun split_first :: "string \<Rightarrow> string \<Rightarrow> (string \<times> string) option" where
  "split_first pat [] = (if pat = [] then Some ([], []) else None)"
| "split_first pat (c # cs) =
     (if starts_with (c # cs) pat then Some ([], drop (length pat) (c # cs))
      else map_option (\<lambda>(a, b). (c # a, b)) (split_first pat cs))"

text \<open>The patterns of a replacement: \<^verbatim>\<open>$$\<close>, \<^verbatim>\<open>$&\<close>, and the dollar with a back or a straight quote.\<close>

fun expand_replacement :: "string \<Rightarrow> string \<Rightarrow> string \<Rightarrow> string \<Rightarrow> string" where
  "expand_replacement matched before after (c # d # cs) =
     (if c = CHR ''$'' then
        (if d = CHR ''$'' then CHR ''$'' # expand_replacement matched before after cs
         else if d = CHR ''&'' then matched @ expand_replacement matched before after cs
         else if d = CHR 0x60 then before @ expand_replacement matched before after cs
         else if d = CHR 0x27 then after @ expand_replacement matched before after cs
         else c # expand_replacement matched before after (d # cs))
      else c # expand_replacement matched before after (d # cs))"
| "expand_replacement matched before after cs = cs"

definition js_replace :: "string \<Rightarrow> string \<Rightarrow> string \<Rightarrow> string" where
  "js_replace s pat replacement =
     (case split_first pat s of None \<Rightarrow> s
      | Some (before, after) \<Rightarrow> before @ expand_replacement pat before after replacement @ after)"

section \<open>Label names\<close>

definition slot :: "string \<Rightarrow> string" where
  "slot v = ''{{'' @ v @ ''}}''"

definition undefined_text :: "string option \<Rightarrow> string" where
  "undefined_text v = (case v of None \<Rightarrow> ''undefined'' | Some s \<Rightarrow> s)"

definition legend_variables :: "string \<Rightarrow> string list" where
  "legend_variables legends =
     map (\<lambda>e. hd (split_str ''}}'' [] e)) (filter (\<lambda>e. e \<noteq> []) (split_str ''{{'' [] legends))"

definition fill_legend :: "string jsobj \<Rightarrow> string \<Rightarrow> string" where
  "fill_legend metric legends =
     fold (\<lambda>v endResult. js_replace endResult (slot v) (undefined_text (obj_get metric v)))
       (legend_variables legends) legends"

definition label_text :: "string jsobj \<Rightarrow> string \<Rightarrow> string" where
  "label_text metric e = e @ ''=\"'' @ undefined_text (obj_get metric e) @ ''\"''"

text \<open>Without \<^verbatim>\<open>__name__\<close> the index is \<^verbatim>\<open>-1\<close> and the value that of the key \<^verbatim>\<open>undefined\<close>.\<close>

definition plain_label :: "string jsobj \<Rightarrow> string \<Rightarrow> string" where
  "plain_label metric query =
     (let keysArray = obj_keys metric; index = position ''__name__'' keysArray; found = index < length keysArray;
          preArray = (if found then take index keysArray else []);
          postArray = (if found then drop (index + 1) keysArray else keysArray);
          post = join '','' (map (label_text metric) postArray);
          pre = join '','' (map (label_text metric) preArray);
          result = (case obj_get metric (if found then ''__name__'' else ''undefined'') of None \<Rightarrow> [] | Some v \<Rightarrow> v)
      in if post = [] \<and> pre = [] then (if result \<noteq> [] then result else if query \<noteq> [] then query else result)
         else result @ ''{'' @ pre @ post @ ''}'')"

definition getLabelName :: "string jsobj option \<Rightarrow> string \<Rightarrow> string \<Rightarrow> string" where
  "getLabelName metric query legends =
     (case metric of None \<Rightarrow> []
      | Some m \<Rightarrow> if legends \<noteq> [] then fill_legend m legends else plain_label m query)"

section \<open>Legends of queries with several aggregations\<close>

definition has_group_by :: "string \<Rightarrow> IBuilderQuery list \<Rightarrow> bool" where
  "has_group_by queryName allQueries =
     (case find (\<lambda>q. bq_queryName q = queryName) allQueries of None \<Rightarrow> False | Some q \<Rightarrow> bq_groupBy q \<noteq> [])"

definition getLegendForSingleAggregation ::
  "QueryData \<Rightarrow> IBuilderQuery list \<Rightarrow> string \<Rightarrow> string \<Rightarrow> string \<Rightarrow> bool \<Rightarrow> string" where
  "getLegendForSingleAggregation queryData allQueries aggregationAlias aggregationExpression labelName singleAggregation =
     (let legend = Option.bind (find (\<lambda>q. bq_queryName q = od_queryName queryData) allQueries) bq_legend;
          name = or_text (Some aggregationAlias) aggregationExpression
      in if has_group_by (od_queryName queryData) allQueries
         then (if singleAggregation then labelName else name @ ''-'' @ labelName)
         else if singleAggregation then or_text (Some aggregationAlias) (or_text legend aggregationExpression)
         else name)"

definition getLegendForMultipleAggregations ::
  "QueryData \<Rightarrow> IBuilderQuery list \<Rightarrow> string \<Rightarrow> string \<Rightarrow> string \<Rightarrow> bool \<Rightarrow> string" where
  "getLegendForMultipleAggregations queryData allQueries aggregationAlias aggregationExpression labelName singleAggregation =
     (let name = or_text (Some aggregationAlias) aggregationExpression
      in if has_group_by (od_queryName queryData) allQueries
         then (if singleAggregation then labelName else name @ ''-'' @ labelName)
         else if singleAggregation then or_text (Some aggregationAlias) (or_text (Some labelName) aggregationExpression)
         else name @ ''-'' @ labelName)"

definition aggregations_for :: "string \<Rightarrow> IBuilderQuery list \<Rightarrow> aggregations_per_query" where
  "aggregations_for queryName allQueries =
     fold (\<lambda>q acc. if bq_queryName q = queryName then obj_set (bq_queryName q) (createAggregation q None) acc else acc)
       allQueries []"

definition getLegend :: "QueryData \<Rightarrow> query \<Rightarrow> string \<Rightarrow> string" where
  "getLegend queryData payloadQuery labelName =
     (if q_queryType payloadQuery \<noteq> QUERY_BUILDER then labelName
      else
        (let allQueries = q_queryData payloadQuery @ q_queryTraceOperator payloadQuery;
             perQuery = aggregations_for (od_queryName queryData) allQueries;
             metaName = map_option sm_queryName (od_metaData queryData);
             aggs = (case metaName of None \<Rightarrow> [] | Some n \<Rightarrow> aggregations_of perQuery n);
             aggregation = (case od_metaData queryData of None \<Rightarrow> None
                            | Some m \<Rightarrow> if sm_index m < length aggs then Some (aggs ! sm_index m) else None);
             aggregationAlias = or_text (Option.bind aggregation alias_of) [];
             aggregationExpression = or_text (Option.bind aggregation expression_of) [];
             singleAggregation = length aggs = 1
         in if aggregationAlias \<noteq> [] \<or> aggregationExpression \<noteq> []
            then (if length allQueries = 1
                  then getLegendForSingleAggregation queryData allQueries aggregationAlias aggregationExpression labelName
                         singleAggregation
                  else getLegendForMultipleAggregations queryData allQueries aggregationAlias aggregationExpression labelName
                         singleAggregation)
            else or_text (Some labelName) (or_text metaName (od_queryName queryData))))"

section \<open>Legends as texts and slots\<close>

datatype piece = Words string | Slot string

fun piece_text :: "piece \<Rightarrow> string" where
  "piece_text (Words s) = s"
| "piece_text (Slot v) = slot v"

definition legend_text :: "piece list \<Rightarrow> string" where
  "legend_text ps = concat (map piece_text ps)"

fun fill_piece :: "(string \<Rightarrow> string) \<Rightarrow> piece \<Rightarrow> piece" where
  "fill_piece val (Words s) = Words s"
| "fill_piece val (Slot v) = Words (val v)"

definition no_braces :: "string \<Rightarrow> bool" where
  "no_braces s \<longleftrightarrow> CHR ''{'' \<notin> set s \<and> CHR ''}'' \<notin> set s"

fun piece_ok :: "piece \<Rightarrow> bool" where
  "piece_ok (Words s) = no_braces s"
| "piece_ok (Slot v) = no_braces v"

fun slots :: "piece list \<Rightarrow> string list" where
  "slots [] = []"
| "slots (Words s # ps) = slots ps"
| "slots (Slot v # ps) = v # slots ps"

fun lead :: "piece list \<Rightarrow> string" where
  "lead [] = []"
| "lead (Words s # ps) = s @ lead ps"
| "lead (Slot v # ps) = []"

fun tails :: "piece list \<Rightarrow> string list" where
  "tails [] = []"
| "tails (Words s # ps) = tails ps"
| "tails (Slot v # ps) = (v @ ''}}'' @ lead ps) # tails ps"

fun fill_first :: "(string \<Rightarrow> string) \<Rightarrow> string \<Rightarrow> piece list \<Rightarrow> piece list" where
  "fill_first val v [] = []"
| "fill_first val v (Words s # ps) = Words s # fill_first val v ps"
| "fill_first val v (Slot w # ps) = (if w = v then Words (val v) # ps else Slot w # fill_first val v ps)"

lemma legend_text_simps [simp]:
  "legend_text [] = []" "legend_text (Words s # ps) = s @ legend_text ps"
  "legend_text (Slot v # ps) = ''{{'' @ v @ ''}}'' @ legend_text ps"
  by (simp_all add: legend_text_def slot_def)

lemma lead_no_braces: "list_all piece_ok ps \<Longrightarrow> no_braces (lead ps)"
  by (induction ps rule: lead.induct) (auto simp: no_braces_def)

lemma split_words: "hd sep \<notin> set a \<Longrightarrow> sep \<noteq> [] \<Longrightarrow> split_str sep acc (a @ s) = split_str sep (acc @ a) s"
  by (induction a arbitrary: acc) (auto simp: starts_with_prefix neq_Nil_conv)

lemma split_at: "sep \<noteq> [] \<Longrightarrow> split_str sep acc (sep @ s) = acc # split_str sep [] s"
  by (cases sep) (auto simp: starts_with_prefix)

lemma split_legend:
  "list_all piece_ok ps \<Longrightarrow> split_str ''{{'' acc (legend_text ps) = (acc @ lead ps) # tails ps"
proof (induction ps arbitrary: acc rule: tails.induct)
  case (2 s ps)
  then show ?case by (simp add: split_words no_braces_def)
next
  case (3 v ps)
  have v: "no_braces (v @ ''}}'') \<or> hd ''{{'' \<notin> set (v @ ''}}'')" using 3(2) by (simp add: no_braces_def)
  have "split_str ''{{'' acc (''{{'' @ (v @ ''}}'') @ legend_text ps) = acc # split_str ''{{'' [] ((v @ ''}}'') @ legend_text ps)"
    by (rule split_at) simp
  also have "\<dots> = acc # split_str ''{{'' (v @ ''}}'') (legend_text ps)"
    using 3(2) by (subst split_words) (auto simp: no_braces_def)
  also have "\<dots> = acc # (v @ ''}}'' @ lead ps) # tails ps" using 3 by simp
  finally show ?case by simp
qed simp

lemma hd_split_slot: "no_braces v \<Longrightarrow> hd (split_str ''}}'' [] (v @ ''}}'' @ s)) = v"
proof -
  assume "no_braces v"
  then have "split_str ''}}'' [] (v @ ''}}'' @ s) = split_str ''}}'' v (''}}'' @ s)"
    by (subst split_words) (auto simp: no_braces_def)
  then show ?thesis by (simp only: split_at list.sel) simp
qed

lemma hd_split_words: "no_braces s \<Longrightarrow> hd (split_str ''}}'' [] s) = s"
  using split_words [of "''}}''" s "[]" "[]"] by (simp add: no_braces_def)

lemma tails_variables: "list_all piece_ok ps \<Longrightarrow>
    map (\<lambda>e. hd (split_str ''}}'' [] e)) (filter (\<lambda>e. e \<noteq> []) (tails ps)) = slots ps"
proof (induction ps rule: tails.induct)
  case (3 v ps)
  then show ?case using hd_split_slot [of v "lead ps"] by simp
qed auto

lemma legend_variables_slots:
  assumes "list_all piece_ok ps"
  shows "legend_variables (legend_text ps) = (if lead ps = [] then [] else [lead ps]) @ slots ps"
  unfolding legend_variables_def split_legend [OF assms]
  using tails_variables [OF assms] hd_split_words [OF lead_no_braces [OF assms]] by auto

lemma slots_no_braces: "list_all piece_ok ps \<Longrightarrow> v \<in> set (slots ps) \<Longrightarrow> no_braces v"
  by (induction ps rule: slots.induct) auto

lemma expand_plain: "CHR ''$'' \<notin> set r \<Longrightarrow> expand_replacement m b a r = r"
  by (induction m b a r rule: expand_replacement.induct) auto

lemma split_first_words:
  "CHR ''{'' \<notin> set a \<Longrightarrow> split_first (slot v) (a @ s) = map_option (\<lambda>(x, y). (a @ x, y)) (split_first (slot v) s)"
proof (induction a)
  case Nil
  then show ?case by (cases "split_first (slot v) s") auto
next
  case (Cons c cs)
  then have "\<not> starts_with ((c # cs) @ s) (slot v)" by (auto simp: slot_def)
  with Cons show ?case by (auto simp: option.map_comp comp_def split_def)
qed

lemma slot_prefix:
  assumes "no_braces v" "no_braces w"
  shows "starts_with (''{{'' @ w @ ''}}'' @ s) (slot v) \<longleftrightarrow> w = v"
proof
  assume "starts_with (''{{'' @ w @ ''}}'' @ s) (slot v)"
  then have "prefix (v @ ''}}'') (w @ ''}}'' @ s)" by (simp add: starts_with_prefix slot_def)
  then show "w = v" using assms
  proof (induction v arbitrary: w)
    case Nil
    then show ?case by (cases w) (auto simp: no_braces_def)
  next
    case (Cons c cs)
    then show ?case by (cases w) (auto simp: no_braces_def)
  qed
qed (auto simp: starts_with_prefix slot_def)

lemma split_first_slot:
  assumes "no_braces v" "no_braces w"
  shows "split_first (slot v) (''{{'' @ w @ ''}}'' @ s) =
    (if w = v then Some ([], s) else map_option (\<lambda>(x, y). (''{{'' @ w @ ''}}'' @ x, y)) (split_first (slot v) s))"
proof (cases "w = v")
  case True
  then show ?thesis using slot_prefix [OF assms, of s] by (simp add: slot_def)
next
  case False
  let ?rest = "w @ ''}}'' @ s"
  have "\<not> starts_with (''{{'' @ ?rest) (slot v)" using slot_prefix [OF assms, of s] False by simp
  moreover have "\<not> starts_with (CHR ''{'' # ?rest) (slot v)"
    using assms(2) by (cases w) (auto simp: slot_def no_braces_def)
  ultimately have "split_first (slot v) (''{{'' @ ?rest) =
      map_option (\<lambda>(x, y). (''{{'' @ x, y)) (split_first (slot v) ?rest)"
    by (simp add: option.map_comp comp_def split_def)
  moreover have "split_first (slot v) ?rest = map_option (\<lambda>(x, y). (w @ ''}}'' @ x, y)) (split_first (slot v) s)"
    using split_first_words [of "w @ ''}}''" v s] assms(2) by (simp add: no_braces_def)
  ultimately show ?thesis using False by (simp add: option.map_comp comp_def split_def)
qed

lemma replace_first:
  assumes "list_all piece_ok ps" "no_braces v" "CHR ''$'' \<notin> set (val v)"
  shows "js_replace (legend_text ps) (slot v) (val v) = legend_text (fill_first val v ps)"
proof -
  have e: "expand_replacement m b a (val v) = val v" for m b a using assms(3) by (rule expand_plain)
  have "(case split_first (slot v) (legend_text ps) of None \<Rightarrow> legend_text ps | Some (x, y) \<Rightarrow> x @ val v @ y)
      = legend_text (fill_first val v ps)"
    using assms(1)
  proof (induction ps rule: slots.induct)
    case 1
    then show ?case by (simp add: slot_def)
  next
    case (2 s ps)
    then show ?case
      by (auto simp: split_first_words no_braces_def split: option.splits)
  next
    case (3 w ps)
    then have "split_first (slot v) (legend_text (Slot w # ps)) = (if w = v then Some ([], legend_text ps)
        else map_option (\<lambda>(x, y). (''{{'' @ w @ ''}}'' @ x, y)) (split_first (slot v) (legend_text ps)))"
      using split_first_slot [OF assms(2), of w "legend_text ps"] by (simp only: legend_text_simps) simp
    then show ?case using 3 by (cases "split_first (slot v) (legend_text ps)") (auto simp del: split_first.simps)
  qed
  then show ?thesis by (auto simp: js_replace_def e split: option.splits)
qed

lemma fill_first_ok: "list_all piece_ok ps \<Longrightarrow> no_braces (val v) \<Longrightarrow> list_all piece_ok (fill_first val v ps)"
  by (induction ps rule: slots.induct) auto

lemma fill_first_fill [simp]: "map (fill_piece val) (fill_first val v ps) = map (fill_piece val) ps"
  by (induction ps rule: slots.induct) auto

lemma slots_fill_first: "count_list (slots (fill_first val v ps)) w = count_list (slots ps) w - (if w = v then 1 else 0)"
  by (induction ps rule: slots.induct) (auto simp: count_list_pos Suc_diff_le dest!: gr0_implies_Suc)

lemma no_slots: "(\<And>w. count_list (slots ps) w = 0) \<Longrightarrow> map (fill_piece val) ps = ps"
proof (induction ps rule: slots.induct)
  case (3 v ps)
  then show ?case using 3(2) [of v] by simp
qed auto

lemma fold_fill:
  assumes "list_all piece_ok ps" "\<And>w. no_braces (val w) \<and> CHR ''$'' \<notin> set (val w)" "\<And>v. v \<in> set vs \<Longrightarrow> no_braces v"
    and "\<And>w. count_list (slots ps) w \<le> count_list vs w"
  shows "fold (\<lambda>v s. js_replace s (slot v) (val v)) vs (legend_text ps) = legend_text (map (fill_piece val) ps)"
  using assms(1,3,4)
proof (induction vs arbitrary: ps)
  case Nil
  then show ?case by (simp add: no_slots)
next
  case (Cons v vs)
  have "js_replace (legend_text ps) (slot v) (val v) = legend_text (fill_first val v ps)"
    using Cons.prems assms(2) by (simp add: replace_first)
  moreover have "count_list (slots (fill_first val v ps)) w \<le> count_list vs w" for w
    using Cons.prems(3) [of w] by (simp add: slots_fill_first split: if_splits)
  then have "fold (\<lambda>v s. js_replace s (slot v) (val v)) vs (legend_text (fill_first val v ps))
      = legend_text (map (fill_piece val) (fill_first val v ps))"
    using Cons.prems assms(2) by (intro Cons.IH fill_first_ok) auto
  ultimately show ?case by simp
qed

definition label_ok :: "string \<Rightarrow> bool" where
  "label_ok x \<longleftrightarrow> no_braces x \<and> CHR ''$'' \<notin> set x"

lemma label_value_ok: "list_all (\<lambda>(_, x). label_ok x) metric \<Longrightarrow> label_ok (undefined_text (obj_get metric v))"
proof (cases "obj_get metric v")
  case None
  then show ?thesis by (simp add: undefined_text_def label_ok_def no_braces_def)
next
  case (Some x)
  then show "list_all (\<lambda>(_, x). label_ok x) metric \<Longrightarrow> ?thesis"
    using obj_get_SomeD [OF Some] by (auto simp: undefined_text_def list_all_iff)
qed

text \<open>A legend made of texts and slots without braces is filled slot by slot: each slot becomes the value of its
  label, or the word undefined where the series has no such label.\<close>

theorem getLabelName_fills:
  assumes "list_all piece_ok ps" "legend_text ps \<noteq> []" "list_all (\<lambda>(_, x). label_ok x) metric"
  shows "getLabelName (Some metric) query (legend_text ps)
    = concat (map (\<lambda>p. case p of Words s \<Rightarrow> s | Slot v \<Rightarrow> undefined_text (obj_get metric v)) ps)"
proof -
  let ?val = "\<lambda>v. undefined_text (obj_get metric v)"
  let ?vs = "(if lead ps = [] then [] else [lead ps]) @ slots ps"
  have "fold (\<lambda>v s. js_replace s (slot v) (?val v)) ?vs (legend_text ps) = legend_text (map (fill_piece ?val) ps)"
  proof (rule fold_fill [OF assms(1)])
    show "no_braces (?val w) \<and> CHR ''$'' \<notin> set (?val w)" for w
      using label_value_ok [OF assms(3), of w] by (simp add: label_ok_def)
    show "no_braces v" if "v \<in> set ?vs" for v
      using that slots_no_braces [OF assms(1)] lead_no_braces [OF assms(1)] by (auto split: if_splits)
  qed simp
  then have "fill_legend metric (legend_text ps) = legend_text (map (fill_piece ?val) ps)"
    by (simp only: fill_legend_def legend_variables_slots [OF assms(1)])
  moreover have "legend_text (map (fill_piece ?val) ps) = concat (map (\<lambda>p. case p of Words s \<Rightarrow> s | Slot v \<Rightarrow> ?val v) ps)"
    unfolding legend_text_def by (induction ps) (auto split: piece.splits)
  ultimately show ?thesis using assms(2) by (simp add: getLabelName_def)
qed

theorem getLabelName_fills_witness:
  "getLabelName (Some [(''host'', ''web 1''), (''cpu'', ''0'')]) ''A'' ''{{host}}: {{cpu}} of {{host}} in {{zone}}''
   = ''web 1: 0 of web 1 in undefined''"
  using getLabelName_fills [of "[Slot ''host'', Words '': '', Slot ''cpu'', Words '' of '', Slot ''host'', Words '' in '', Slot ''zone'']"
      "[(''host'', ''web 1''), (''cpu'', ''0'')]" "''A''"]
  by (simp add: no_braces_def label_ok_def undefined_text_def)

text \<open>Where label names go wrong: a value with a dollar pattern is not inserted as it is, a value that looks like
  a slot is filled again, a missing label prints as undefined, and labels on both sides of the name are
  joined without a comma.\<close>

theorem getLabelName_flawed:
  "getLabelName (Some [(''price'', ''$$5'')]) ''A'' ''{{price}}'' = ''$5''
   \<and> getLabelName (Some [(''a'', ''{{b}}''), (''b'', ''x'')]) ''A'' ''{{a}}{{b}}'' = ''x{{b}}''
   \<and> getLabelName (Some []) ''A'' ''host {{host}}'' = ''host undefined''
   \<and> getLabelName (Some [(''a'', ''1''), (''__name__'', ''cpu''), (''b'', ''2'')]) ''A'' [] = ''cpu{a=\"1\"b=\"2\"}''"
  by code_simp

end
