(* ===== verification/QueryRequestProperties.thy ===== *)
theory QueryRequestProperties
  imports QueryComposite QueryResponse SeriesLegend
begin

text \<open>
  What the requests to the query service contain and how the names of their answers agree: aggregations that are
  printed are read back, every query is asked for once, the labels of the columns are the identifiers of the
  table, and the legend of a chart is the header of the table.
\<close>

section \<open>Reading aggregations\<close>

definition aggregation_text :: "ExpressionAggregation \<Rightarrow> string" where
  "aggregation_text a =
     ea_expression a @ (case ea_alias a of None \<Rightarrow> [] | Some al \<Rightarrow> '' as '' @ [CHR 0x27] @ al @ [CHR 0x27])"

definition is_call :: "string \<Rightarrow> bool" where
  "is_call e \<longleftrightarrow> (\<exists>w body. e = w @ ''('' @ body @ '')'' \<and> w \<noteq> [] \<and> list_all is_word w \<and> CHR '')'' \<notin> set body)"

definition no_quotes :: "string \<Rightarrow> bool" where
  "no_quotes s \<longleftrightarrow> CHR 0x27 \<notin> set s \<and> CHR 0x22 \<notin> set s"

definition aggregation_ok :: "ExpressionAggregation \<Rightarrow> bool" where
  "aggregation_ok a \<longleftrightarrow> is_call (ea_expression a) \<and> (case ea_alias a of None \<Rightarrow> True | Some al \<Rightarrow> no_quotes al)"

lemma takeWhile_all: "list_all P w \<Longrightarrow> s = [] \<or> \<not> P (hd s) \<Longrightarrow> takeWhile P (w @ s) = w \<and> dropWhile P (w @ s) = s"
  by (induction w) (cases s; auto)+

lemma takeWhile_until: "c \<notin> set w \<Longrightarrow> takeWhile (\<lambda>x. x \<noteq> c) (w @ c # s) = w \<and> dropWhile (\<lambda>x. x \<noteq> c) (w @ c # s) = c # s"
  by (induction w) auto

lemma bracket_no_word: "\<not> is_word (CHR ''('')" "\<not> is_word (CHR '','')" "\<not> is_word (CHR '' '')"
  by (simp_all add: is_word_def less_eq_char_def)

lemma match_call_printed: "is_call e \<Longrightarrow> match_call (e @ s) = Some (e, s)"
proof -
  assume "is_call e"
  then obtain w body where e: "e = w @ ''('' @ body @ '')''" "w \<noteq> []" "list_all is_word w" "CHR '')'' \<notin> set body"
    by (auto simp: is_call_def)
  have w: "takeWhile is_word (w @ ''('' @ body @ '')'' @ s) = w"
      "dropWhile is_word (w @ ''('' @ body @ '')'' @ s) = ''('' @ body @ '')'' @ s"
    using takeWhile_all [OF e(3), of "''('' @ body @ '')'' @ s"] bracket_no_word by auto
  have b: "takeWhile (\<lambda>c. c \<noteq> CHR '')'') (''('' @ body @ '')'' @ s) = ''('' @ body"
      "dropWhile (\<lambda>c. c \<noteq> CHR '')'') (''('' @ body @ '')'' @ s) = '')'' @ s"
    using takeWhile_until [OF e(4), of s] by simp_all
  show ?thesis using e(2) w b by (simp add: match_call_def e(1) Let_def)
qed

lemma is_call_nonempty: "is_call e \<Longrightarrow> e \<noteq> []"
  by (auto simp: is_call_def)

lemma strip_no_quotes: "no_quotes s \<Longrightarrow> strip_quotes s = s"
  by (cases s rule: rev_cases) (auto simp: strip_quotes_def no_quotes_def Let_def neq_Nil_conv hd_append)

lemma strip_quoted: "no_quotes s \<Longrightarrow> strip_quotes (CHR 0x27 # s @ [CHR 0x27]) = s"
  by (simp add: strip_quotes_def)

lemma match_alias_printed:
  assumes "no_quotes al"
  shows "match_alias ('' as '' @ CHR 0x27 # al @ CHR 0x27 # s) = Some (CHR 0x27 # al @ [CHR 0x27], s)"
proof -
  let ?t = "al @ CHR 0x27 # s"
  have t: "takeWhile (\<lambda>x. x \<noteq> CHR 0x27) ?t = al" "dropWhile (\<lambda>x. x \<noteq> CHR 0x27) ?t = CHR 0x27 # s"
    using assms takeWhile_until [of "CHR 0x27" al s] by (simp_all add: no_quotes_def)
  have sp: "is_space (CHR '' '')" "\<not> is_space (CHR ''a'')" "\<not> is_space (CHR 0x27)" by (simp_all add: is_space_def)
  show ?thesis using t sp by (simp add: match_alias_def match_alias_text_def match_quoted_def)
qed

lemma no_alias: "s = [] \<or> hd s = CHR '','' \<Longrightarrow> match_alias s = None"
proof -
  have "\<not> is_space (CHR '','')" by (simp add: is_space_def)
  then show "s = [] \<or> hd s = CHR '','' \<Longrightarrow> match_alias s = None" by (cases s) (auto simp: match_alias_def)
qed

lemma parse_one:
  assumes "aggregation_ok a" "s = [] \<or> hd s = CHR '',''"
  shows "parse_aggregations None (aggregation_text a @ s) = a # parse_aggregations None s"
proof -
  have c: "is_call (ea_expression a)" using assms(1) by (simp add: aggregation_ok_def)
  obtain d ds where e: "ea_expression a = d # ds" using is_call_nonempty [OF c] by (cases "ea_expression a") auto
  show ?thesis
  proof (cases "ea_alias a")
    case None
    then show ?thesis
      using match_call_printed [OF c, of s] no_alias [OF assms(2)]
      by (subst parse_aggregations.simps) (auto simp: aggregation_text_def e aggregation_match_def)
  next
    case (Some al)
    then have q: "no_quotes al" using assms(1) by (simp add: aggregation_ok_def)
    have "match_call (d # ds @ '' as '' @ CHR 0x27 # al @ CHR 0x27 # s) = Some (d # ds, '' as '' @ CHR 0x27 # al @ CHR 0x27 # s)"
      using match_call_printed [OF c, of "'' as '' @ CHR 0x27 # al @ CHR 0x27 # s"] e by simp
    then show ?thesis
      using match_alias_printed [OF q, of s] strip_quoted [OF q] Some
      by (subst parse_aggregations.simps) (auto simp: aggregation_text_def e aggregation_match_def)
  qed
qed

lemma parse_skips: "parse_aggregations av ('', '' @ s) = parse_aggregations av s"
proof -
  have "match_call ('', '' @ s) = None" "match_call ('' '' @ s) = None"
    using bracket_no_word by (simp_all add: match_call_def)
  then show ?thesis by (simp add: parse_aggregations.simps [of av "CHR '','' # CHR '' '' # s"]
        parse_aggregations.simps [of av "CHR '' '' # s"])
qed

lemma parse_printed:
  "list_all aggregation_ok ags \<Longrightarrow> parse_aggregations None (join '', '' (map aggregation_text ags)) = ags"
proof (induction ags)
  case Nil
  then show ?case by (simp add: parse_aggregations.simps)
next
  case (Cons a ags)
  note IH = Cons.IH and prems = Cons.prems
  show ?case
  proof (cases ags)
    case Nil
    then show ?thesis using prems parse_one [of a "[]"] by (simp add: parse_aggregations.simps)
  next
    case (Cons b bs)
    let ?rest = "join '', '' (map aggregation_text ags)"
    have j: "join '', '' (map aggregation_text (a # ags)) = aggregation_text a @ '', '' @ ?rest"
      using Cons by simp
    have "parse_aggregations None (aggregation_text a @ '', '' @ ?rest) = a # parse_aggregations None ('', '' @ ?rest)"
      using prems by (intro parse_one) simp_all
    moreover have "parse_aggregations None ?rest = ags" using prems by (intro IH) simp
    ultimately show ?thesis by (simp only: j parse_skips)
  qed
qed

text \<open>C24: For a query of logs or traces, a non-empty list of calls, each a word followed by arguments in brackets that contain no
  closing bracket (so no nested calls), with aliases without quotes or none, written with commas in one expression, is read
  as exactly that list, whatever the panel.\<close>

theorem aggregations_read_back:
  assumes "bq_dataSource q \<noteq> METRICS" "list_all aggregation_ok ags" "ags \<noteq> []"
    and "bq_aggregations q = [AggExpression \<lparr> ea_expression = join '', '' (map aggregation_text ags), ea_alias = None \<rparr>]"
  shows "createAggregation q panelType = map AggExpression ags"
  using assms parse_printed [OF assms(2)]
  by (simp add: createAggregation_def expression_aggregations_def parseAggregations_def)

lemma parse_call:
  assumes "is_call e" "case al of None \<Rightarrow> True | Some a \<Rightarrow> a \<noteq> [] \<and> no_quotes a"
  shows "parseAggregations e al = [\<lparr> ea_expression = e, ea_alias = al \<rparr>]"
proof -
  obtain d ds where e: "e = d # ds" using is_call_nonempty [OF assms(1)] by (cases e) auto
  have "match_call (d # ds) = Some (d # ds, [])" using match_call_printed [OF assms(1), of "[]"] e by simp
  moreover have "match_alias [] = None" by (rule no_alias) simp
  moreover have "map_option strip_quotes (js_or None (js_or al None)) = al"
    using assms(2) strip_no_quotes by (cases al) auto
  ultimately show ?thesis
    unfolding parseAggregations_def e
    by (subst parse_aggregations.simps) (simp add: aggregation_match_def parse_aggregations.simps)
qed

text \<open>An old aggregation that is converted to an expression is asked for as that expression.\<close>

theorem converted_aggregation_asked:
  assumes "dataSource \<noteq> METRICS" "operator \<noteq> []" "list_all is_word operator"
    and "CHR '')'' \<notin> set (ac_key attribute)" "case al of None \<Rightarrow> True | Some a \<Rightarrow> no_quotes a"
    and "convertAggregationToExpression operator (Some attribute) dataSource t s al r tm = Some aggs"
  shows "createAggregation (q\<lparr> bq_dataSource := dataSource, bq_aggregations := aggs \<rparr>) panelType = aggs"
proof -
  let ?op = "count_for_noop operator"
  have op: "?op \<noteq> []" "list_all is_word ?op"
    using assms(2,3) by (simp_all add: count_for_noop_def is_word_def less_eq_char_def)
  let ?e = "?op @ ''('' @ ac_key attribute @ '')''"
  have "is_call ?e" unfolding is_call_def using op assms(4) by blast
  moreover have "case js_or al None of None \<Rightarrow> True | Some a \<Rightarrow> a \<noteq> [] \<and> no_quotes a"
    using assms(5) by (auto simp: js_or_def split: option.splits if_splits)
  ultimately have "parseAggregations ?e (js_or al None) = [\<lparr> ea_expression = ?e, ea_alias = js_or al None \<rparr>]"
    by (rule parse_call)
  moreover have "aggs = [AggExpression \<lparr> ea_expression = ?e, ea_alias = js_or al None \<rparr>]"
    using assms(1,2,6) by (simp add: convertAggregationToExpression_def Let_def)
  ultimately show ?thesis using assms(1) by (simp add: createAggregation_def expression_aggregations_def)
qed

section \<open>Every query once\<close>

definition plain_names :: "string list \<Rightarrow> bool" where
  "plain_names ns \<longleftrightarrow> distinct ns \<and> list_all (\<lambda>n. index_key n = None) ns"

lemma mapQueryDataToApi_folds:
  "mapQueryDataToApi name legend wp qs =
     (fold (\<lambda>(k, v). obj_set k v) (map (\<lambda>q. (name q, wp q)) qs) [],
      fold (\<lambda>(k, v). obj_set k v) (map (\<lambda>q. (name q, legend q)) qs) [])"
proof -
  have "fold (\<lambda>q (acc, m). (obj_set (name q) (wp q) acc, obj_set (name q) (legend q) m)) qs (a, b) =
      (fold (\<lambda>(k, v). obj_set k v) (map (\<lambda>q. (name q, wp q)) qs) a,
       fold (\<lambda>(k, v). obj_set k v) (map (\<lambda>q. (name q, legend q)) qs) b)" for a b
    by (induction qs arbitrary: a b) simp_all
  then show ?thesis by (simp add: mapQueryDataToApi_def)
qed

lemma mapQueryDataToApi_plain:
  "distinct (map name qs) \<Longrightarrow>
     mapQueryDataToApi name legend wp qs = (map (\<lambda>q. (name q, wp q)) qs, map (\<lambda>q. (name q, legend q)) qs)"
  by (simp add: mapQueryDataToApi_folds fold_set_fresh comp_def del: fold_map)

lemma reduceQueriesToObject_plain:
  assumes "distinct (map rq_name (filter (\<lambda>q. rq_query q \<noteq> []) qs))"
  shows "reduceQueriesToObject qs =
     (map (\<lambda>q. (rq_name q, q)) (filter (\<lambda>q. rq_query q \<noteq> []) qs),
      map (\<lambda>q. (rq_name q, rq_legend q)) (filter (\<lambda>q. rq_query q \<noteq> []) qs))"
proof -
  have "fold (\<lambda>item (queries, legends). if rq_query item = [] then (queries, legends)
         else (obj_set (rq_name item) item queries, obj_set (rq_name item) (rq_legend item) legends)) qs (a, b)
    = (fold (\<lambda>(k, v). obj_set k v) (map (\<lambda>q. (rq_name q, q)) (filter (\<lambda>q. rq_query q \<noteq> []) qs)) a,
       fold (\<lambda>(k, v). obj_set k v) (map (\<lambda>q. (rq_name q, rq_legend q)) (filter (\<lambda>q. rq_query q \<noteq> []) qs)) b)" for a b
    by (induction qs arbitrary: a b) simp_all
  then show ?thesis using assms by (simp add: reduceQueriesToObject_def fold_set_fresh comp_def del: fold_map)
qed

lemma entries_plain: "plain_names (map fst ob) \<Longrightarrow> obj_entries ob = ob"
  by (rule obj_entries_plain) (auto simp: plain_names_def list_all_iff)

lemma spread_plain: "plain_names (map fst (a @ b)) \<Longrightarrow> obj_spread a b = a @ b"
proof -
  assume p: "plain_names (map fst (a @ b))"
  then have "obj_entries b = b" by (intro entries_plain) (simp add: plain_names_def)
  then show ?thesis using p by (simp add: obj_spread_def fold_set_fresh plain_names_def Int_commute)
qed

lemma spread_three:
  assumes "plain_names (map fst (a @ b @ c))"
  shows "obj_spread (obj_spread (obj_spread [] a) b) c = a @ b @ c"
proof -
  have "plain_names (map fst ([] @ a))" "plain_names (map fst (a @ b))" "plain_names (map fst ((a @ b) @ c))"
    using assms by (auto simp: plain_names_def)
  then have "obj_spread [] a = a" "obj_spread a b = a @ b" "obj_spread (a @ b) c = (a @ b) @ c"
    using spread_plain [of "[]" a] spread_plain [of a b] spread_plain [of "a @ b" c] by simp_all
  then show ?thesis by simp
qed

lemma legend_plain: "distinct (map fst ob) \<Longrightarrow> (n, l) \<in> set ob \<Longrightarrow> legend_of ob n = l"
  by (simp add: legend_of_def obj_get_def)

text \<open>The queries to ask for, with their legends.\<close>

definition asked :: "query \<Rightarrow> (string \<times> string option) list" where
  "asked q =
     (case q_queryType q of
        QUERY_BUILDER \<Rightarrow> map (\<lambda>b. (bq_queryName b, bq_legend b)) (q_queryData q)
          @ map (\<lambda>f. (bf_queryName f, bf_legend f)) (q_queryFormulas q)
          @ map (\<lambda>b. (bq_queryName b, bq_legend b)) (filter (\<lambda>t. js_trim (bq_expression t) \<noteq> []) (q_queryTraceOperator q))
      | PROM \<Rightarrow> map (\<lambda>r. (rq_name r, rq_legend r)) (filter (\<lambda>r. rq_query r \<noteq> []) (q_promql q))
      | CLICKHOUSE \<Rightarrow> map (\<lambda>r. (rq_name r, rq_legend r)) (filter (\<lambda>r. rq_query r \<noteq> []) (q_clickhouse_sql q)))"

lemma builder_request:
  assumes "q_queryType (gp_query p) = QUERY_BUILDER" "plain_names (map fst (asked (gp_query p)))"
  defines "q \<equiv> gp_query p" and "rt \<equiv> mapPanelTypeToRequestType (gp_graphType p)" and "wp \<equiv> with_table_params (gp_tableParams p)"
  shows "request_queries p =
    (map (\<lambda>b. Builder_query (builder_query rt (Some (gp_graphType p)) (bq_queryName b, wp b))) (q_queryData q)
       @ map (\<lambda>f. convert_formula (bf_queryName f, f)) (q_queryFormulas q)
       @ convertTraceOperatorToV5 (map (\<lambda>b. (bq_queryName b, wp b))
           (filter (\<lambda>t. js_trim (bq_expression t) \<noteq> []) (q_queryTraceOperator q))) rt (Some (gp_graphType p)),
     asked q)"
proof -
  let ?d = "map (\<lambda>b. (bq_queryName b, bq_legend b)) (q_queryData q)"
  let ?f = "map (\<lambda>f. (bf_queryName f, bf_legend f)) (q_queryFormulas q)"
  let ?o = "map (\<lambda>b. (bq_queryName b, bq_legend b)) (filter (\<lambda>t. js_trim (bq_expression t) \<noteq> []) (q_queryTraceOperator q))"
  have p: "plain_names (map fst (?d @ ?f @ ?o))" using assms by (simp add: asked_def)
  note s = spread_three [OF p]
  have d: "distinct (map bq_queryName (q_queryData q))" "distinct (map bf_queryName (q_queryFormulas q))"
      "distinct (map bq_queryName (filter (\<lambda>t. js_trim (bq_expression t) \<noteq> []) (q_queryTraceOperator q)))"
    using p by (simp_all add: plain_names_def comp_def)
  have e: "obj_entries (map (\<lambda>b. (bq_queryName b, wp b)) (q_queryData q)) = map (\<lambda>b. (bq_queryName b, wp b)) (q_queryData q)"
      "obj_entries (map (\<lambda>f. (bf_queryName f, id f)) (q_queryFormulas q)) = map (\<lambda>f. (bf_queryName f, f)) (q_queryFormulas q)"
    using p by (auto intro!: obj_entries_plain simp: plain_names_def list_all_iff)
  show ?thesis using assms(1) s e
    by (simp add: request_queries_def mapQueryDataToApi_plain d convertBuilderQueriesToV5_def asked_def Let_def comp_def
        flip: q_def rt_def wp_def)
qed

text \<open>C17: Every query that is to be asked for is asked for once, in order and under its name, and the legend map has its
  legend.\<close>

theorem queries_asked_once:
  assumes "plain_names (map fst (asked (gp_query p)))"
  shows "map envelope_name (fst (request_queries p)) = map fst (asked (gp_query p))
    \<and> list_all (\<lambda>(n, legend). legend_of (snd (request_queries p)) n = legend) (asked (gp_query p))"
proof -
  let ?q = "gp_query p"
  have l: "list_all (\<lambda>(n, legend). legend_of (asked ?q) n = legend) (asked ?q)"
    using assms legend_plain [of "asked ?q"] by (auto simp: list_all_iff plain_names_def)
  have "map envelope_name (fst (request_queries p)) = map fst (asked ?q) \<and> snd (request_queries p) = asked ?q"
  proof (cases "q_queryType ?q")
    case QUERY_BUILDER
    have "obj_entries (map (\<lambda>b. (bq_queryName b, with_table_params (gp_tableParams p) b)) ops) =
        map (\<lambda>b. (bq_queryName b, with_table_params (gp_tableParams p) b)) ops"
      if "ops = filter (\<lambda>t. js_trim (bq_expression t) \<noteq> []) (q_queryTraceOperator ?q)" for ops
      using assms QUERY_BUILDER that by (auto intro!: obj_entries_plain simp: asked_def plain_names_def list_all_iff)
    then show ?thesis
      using builder_request [OF QUERY_BUILDER assms] QUERY_BUILDER
      by (simp add: builder_query_def convert_formula_def convertTraceOperatorToV5_def asked_def comp_def)
  next
    case PROM
    let ?qs = "filter (\<lambda>r. rq_query r \<noteq> []) (q_promql ?q)"
    have "plain_names (map fst (map (\<lambda>r. (rq_name r, r)) ?qs))" using assms PROM by (simp add: asked_def comp_def)
    moreover from this have "distinct (map rq_name ?qs)" by (simp add: plain_names_def comp_def)
    ultimately show ?thesis
      using PROM by (simp add: request_queries_def Let_def reduceQueriesToObject_plain convertPromQueriesToV5_def entries_plain
          asked_def comp_def)
  next
    case CLICKHOUSE
    let ?qs = "filter (\<lambda>r. rq_query r \<noteq> []) (q_clickhouse_sql ?q)"
    have "plain_names (map fst (map (\<lambda>r. (rq_name r, r)) ?qs))" using assms CLICKHOUSE by (simp add: asked_def comp_def)
    moreover from this have "distinct (map rq_name ?qs)" by (simp add: plain_names_def comp_def)
    ultimately show ?thesis
      using CLICKHOUSE by (simp add: request_queries_def Let_def reduceQueriesToObject_plain convertClickHouseQueriesToV5_def
          entries_plain asked_def comp_def)
  qed
  with l show ?thesis by simp
qed

section \<open>Labels and identifiers\<close>

lemma with_table_params_kept [simp]:
  "bq_dataSource (with_table_params tp b) = bq_dataSource b"
  "bq_aggregations (with_table_params tp b) = bq_aggregations b"
  by (simp_all add: with_table_params_def Let_def split: option.split)

lemma same_expressions:
  "map expression_of (createAggregation (with_table_params tp b) panelType) = map expression_of (createAggregation b None)"
  by (cases "bq_dataSource b") (simp_all add: createAggregation_def expression_of_def)

lemma aggregations_asked_other:
  "(\<And>s. Builder_query s \<notin> set es) \<Longrightarrow>
     fold (\<lambda>e acc. case e of Builder_query s \<Rightarrow> if bu_name s = [] then acc else obj_set (bu_name s) (keep [] (bu_aggregations s)) acc
           | _ \<Rightarrow> acc) es acc = acc"
proof (induction es arbitrary: acc)
  case (Cons e es)
  then show ?case by (cases e) auto
qed simp

lemma aggregations_asked_builder:
  assumes "distinct (map bq_queryName bs)" "list_all (\<lambda>b. bq_queryName b \<noteq> []) bs" "rt \<noteq> R_raw"
    and "\<And>s. Builder_query s \<notin> set es"
  shows "aggregations_asked (map (\<lambda>b. Builder_query (builder_query rt pt (bq_queryName b, wp b))) bs @ es)
    = map (\<lambda>b. (bq_queryName b, createAggregation (wp b) pt)) bs"
proof -
  let ?kvs = "map (\<lambda>b. (bq_queryName b, createAggregation (wp b) pt)) bs"
  have "fold (\<lambda>e acc. case e of
        Builder_query s \<Rightarrow> if bu_name s = [] then acc else obj_set (bu_name s) (keep [] (bu_aggregations s)) acc | _ \<Rightarrow> acc)
      (map (\<lambda>b. Builder_query (builder_query rt pt (bq_queryName b, wp b))) bs) acc = fold (\<lambda>(k, v). obj_set k v) ?kvs acc" for acc
    using assms(2,3)
    by (induction bs arbitrary: acc) (simp_all add: builder_query_def request_aggregations_def)
  moreover have "fold (\<lambda>(k, v). obj_set k v) ?kvs [] = ?kvs"
    using assms(1) by (simp add: fold_set_fresh comp_def del: fold_map)
  ultimately show ?thesis by (simp add: aggregations_asked_def aggregations_asked_other [OF assms(4)] del: fold_map)
qed

lemma aggregations_of_map:
  assumes "distinct (map f bs)" "b \<in> set bs"
  shows "aggregations_of (map (\<lambda>b. (f b, g b)) bs) (f b) = g b"
proof -
  have "map_of (map (\<lambda>b. (f b, g b)) bs) (f b) = Some (g b)"
    using assms by (intro map_of_is_SomeI) (auto simp: comp_def)
  then show ?thesis by (simp add: aggregations_of_def obj_get_def)
qed

definition value_column :: "string \<Rightarrow> nat \<Rightarrow> ColumnDescriptor" where
  "value_column queryName i =
     \<lparr> cd_name = [], cd_queryName = queryName, cd_aggregationIndex = i, cd_columnType = C_aggregation \<rparr>"

lemma column_id_label:
  assumes "aggregations_of per n = aggs" "map expression_of aggs = map expression_of labelled" "i < length labelled"
  shows "getColId (value_column n i) per = label_id n (labelled ! i) (length labelled > 1)"
proof -
  have l: "length aggs = length labelled" using assms(2) by (metis length_map)
  have "expression_of (aggs ! i) = expression_of (labelled ! i)"
    using assms(2,3) l by (metis nth_map)
  then show ?thesis using assms(1,3) l
    by (simp add: getColId_def value_column_def column_aggregation_def label_id_def Let_def)
qed

lemma labelled_plain:
  assumes "distinct (map bq_queryName bs)" "list_all (\<lambda>b. bq_queryName b \<noteq> [] \<and> bq_aggregations b \<noteq> []) bs"
  shows "labelled_aggregations bs = map (\<lambda>b. (bq_queryName b, createAggregation b None)) bs"
proof -
  let ?kvs = "map (\<lambda>b. (bq_queryName b, createAggregation b None)) bs"
  have "fold (\<lambda>q acc. if bq_queryName q \<noteq> [] \<and> bq_aggregations q \<noteq> []
           then obj_set (bq_queryName q) (createAggregation q None) acc else acc) bs acc = fold (\<lambda>(k, v). obj_set k v) ?kvs acc" for acc
    using assms(2) by (induction bs arbitrary: acc) simp_all
  then show ?thesis using assms(1) by (simp add: labelled_aggregations_def fold_set_fresh comp_def del: fold_map)
qed

lemma labels_of_aggregations:
  "map (\<lambda>x. snd (case x of (index, agg) \<Rightarrow> (f index, label_id n agg m))) (enumerate 0 aggs) = map (\<lambda>i. label_id n (aggs ! i) m) [0..<length aggs]"
  by (rule nth_equalityI) (simp_all add: nth_enumerate_eq)

text \<open>C21: The values of the labels of a query with several aggregations are the identifiers its columns get in the
  table when the query is asked for.\<close>

theorem labels_are_column_ids:
  assumes "q_queryType (gp_query p) = QUERY_BUILDER" "plain_names (map fst (asked (gp_query p)))"
    and "list_all (\<lambda>b. bq_queryName b \<noteq> [] \<and> bq_aggregations b \<noteq> []) (q_queryData (gp_query p))"
    and "mapPanelTypeToRequestType (gp_graphType p) \<noteq> R_raw"
  shows "map snd (getQueryLabelWithAggregation (q_queryData (gp_query p)))
    = concat (map (\<lambda>b. map (\<lambda>i. getColId (value_column (bq_queryName b) i) (aggregations_asked (fst (request_queries p))))
        [0..<length (createAggregation b None)]) (q_queryData (gp_query p)))"
proof -
  let ?bs = "q_queryData (gp_query p)" and ?wp = "with_table_params (gp_tableParams p)" and ?pt = "Some (gp_graphType p)"
  let ?per = "aggregations_asked (fst (request_queries p))"
  have d: "distinct (map bq_queryName ?bs)" and pl: "\<And>b. b \<in> set ?bs \<Longrightarrow> index_key (bq_queryName b) = None"
    using assms(1,2) by (auto simp: asked_def plain_names_def list_all_iff comp_def)
  have per: "?per = map (\<lambda>b. (bq_queryName b, createAggregation (?wp b) ?pt)) ?bs"
    unfolding builder_request [OF assms(1,2)] fst_conv
    by (rule aggregations_asked_builder [OF d _ assms(4)])
       (use assms(3) in \<open>auto simp: list_all_iff convert_formula_def convertTraceOperatorToV5_def\<close>)
  have ag: "aggregations_of ?per (bq_queryName b) = createAggregation (?wp b) ?pt" if "b \<in> set ?bs" for b
    unfolding per by (rule aggregations_of_map [OF d that])
  have "map (\<lambda>i. getColId (value_column (bq_queryName b) i) ?per) [0..<length (createAggregation b None)]
      = map (\<lambda>i. label_id (bq_queryName b) (createAggregation b None ! i) (length (createAggregation b None) > 1))
          [0..<length (createAggregation b None)]" if "b \<in> set ?bs" for b
    using column_id_label [OF ag [OF that] same_expressions] by simp
  then have "concat (map (\<lambda>b. map (\<lambda>i. getColId (value_column (bq_queryName b) i) ?per) [0..<length (createAggregation b None)]) ?bs)
    = concat (map (\<lambda>b. map (\<lambda>i. label_id (bq_queryName b) (createAggregation b None ! i) (length (createAggregation b None) > 1))
          [0..<length (createAggregation b None)]) ?bs)"
    by (metis (no_types, lifting) map_eq_conv)
  also have "\<dots> = map snd (getQueryLabelWithAggregation ?bs)"
    unfolding getQueryLabelWithAggregation_def labelled_plain [OF d assms(3)]
    using pl by (subst obj_entries_plain) (auto simp: map_concat comp_def labels_of_aggregations)
  finally show ?thesis by simp
qed

section \<open>Legends and headers\<close>

lemma match_call_nonempty: "match_call t = Some (e, r) \<Longrightarrow> e \<noteq> []"
  by (auto simp: match_call_def Let_def split: if_splits)

lemma parsed_expressions: "a \<in> set (parse_aggregations av s) \<Longrightarrow> ea_expression a \<noteq> []"
proof (induction "length s" arbitrary: s rule: less_induct)
  case less
  show ?case
  proof (cases s)
    case Nil
    then show ?thesis using less.prems by (simp add: parse_aggregations.simps)
  next
    case (Cons c cs)
    show ?thesis
    proof (cases "match_call s")
      case None
      then have "a \<in> set (parse_aggregations av cs)"
        using less.prems Cons by (subst (asm) parse_aggregations.simps) simp
      then show ?thesis using less.hyps [of cs] Cons by simp
    next
      case (Some m)
      obtain e r where m: "match_call s = Some (e, r)" using Some by (cases m) simp
      note e = match_call_nonempty [OF m] match_call_shorter [OF m]
      show ?thesis
      proof (cases "match_alias r")
        case None
        then have "ea_expression a = e \<or> a \<in> set (parse_aggregations av r)"
          using less.prems Cons m by (subst (asm) parse_aggregations.simps) (auto simp: aggregation_match_def)
        then show ?thesis using less.hyps e by auto
      next
        case (Some n)
        obtain l t where n: "match_alias r = Some (l, t)" using Some by (cases n) simp
        then have "ea_expression a = e \<or> a \<in> set (parse_aggregations av t)"
          using less.prems Cons m by (subst (asm) parse_aggregations.simps) (auto simp: aggregation_match_def)
        moreover have "length t < length s" using e(2) match_alias_shorter [OF n] by simp
        ultimately show ?thesis using less.hyps e(1) by auto
      qed
    qed
  qed
qed

lemma created_expressions:
  assumes "bq_dataSource b \<noteq> METRICS" "agg \<in> set (createAggregation b panelType)"
  shows "\<exists>a. agg = AggExpression a \<and> ea_expression a \<noteq> []"
proof -
  have "ea_expression a \<noteq> []" if "a \<in> set (expression_aggregations x)" for a x
    using that parsed_expressions by (auto simp: expression_aggregations_def count_aggregation_def parseAggregations_def Let_def
        split: if_splits Aggregation.splits)
  then show ?thesis using assms by (auto simp: createAggregation_def count_aggregation_def split: if_splits)
qed

lemma or_text_or_text: "or_text (Some (or_text x [])) d = or_text x d"
  by (auto simp: or_text_def split: option.split)

text \<open>For the only query of a chart, without groups, the legend of a series is the header that the table gives to
  the column of the same aggregation.\<close>

theorem chart_legend_is_header:
  assumes "q_queryType pq = QUERY_BUILDER" "q_queryData pq @ q_queryTraceOperator pq = [b]"
    and "bq_dataSource b \<noteq> METRICS" "bq_groupBy b = []"
    and "od_queryName qd = bq_queryName b" "od_metaData qd = Some \<lparr> sm_alias = al, sm_index = i, sm_queryName = bq_queryName b \<rparr>"
    and "i < length (createAggregation b None)"
    and "aggregations_of per (bq_queryName b) = createAggregation b None" "legend_of legendMap (bq_queryName b) = bq_legend b"
  shows "getLegend qd pq labelName = getColName (value_column (bq_queryName b) i) legendMap per"
proof -
  let ?aggs = "createAggregation b None"
  obtain a where a: "?aggs ! i = AggExpression a" "ea_expression a \<noteq> []"
    using created_expressions [OF assms(3), of "?aggs ! i" None] assms(7) by auto
  have "aggregations_of (aggregations_for (bq_queryName b) [b]) (bq_queryName b) = ?aggs"
    by (simp add: aggregations_for_def aggregations_of_def)
  then have "getLegend qd pq labelName = (if length ?aggs = 1
      then or_text (ea_alias a) (or_text (bq_legend b) (ea_expression a)) else or_text (ea_alias a) (ea_expression a))"
    using assms(1-7) a
    by (simp add: getLegend_def Let_def alias_of_def expression_of_def has_group_by_def getLegendForSingleAggregation_def
        or_text_or_text)
  also have "\<dots> = getColName (value_column (bq_queryName b) i) legendMap per"
    using assms(7-9) a
    by (auto simp: getColName_def value_column_def column_aggregation_def alias_of_def expression_of_def Let_def)
  finally show ?thesis .
qed

section \<open>Witnesses\<close>

definition logs_query :: "string \<Rightarrow> string \<Rightarrow> IBuilderQuery" where
  "logs_query name aggregation =
     initialQueryBuilderFormValues\<lparr> bq_queryName := name, bq_expression := name, bq_dataSource := LOGS,
       bq_aggregations := [AggExpression \<lparr> ea_expression = aggregation, ea_alias = None \<rparr>] \<rparr>"

lemma logs_query_fields [simp]:
  "bq_queryName (logs_query n a) = n" "bq_dataSource (logs_query n a) = LOGS" "bq_legend (logs_query n a) = Some []"
  "bq_aggregations (logs_query n a) = [AggExpression \<lparr> ea_expression = a, ea_alias = None \<rparr>]" "bq_groupBy (logs_query n a) = []"
  by (simp_all add: logs_query_def initialQueryBuilderFormValues_def)

definition builder :: "IBuilderQuery list \<Rightarrow> IBuilderQuery list \<Rightarrow> query" where
  "builder qs operators =
     \<lparr> q_queryType = QUERY_BUILDER, q_promql = [], q_clickhouse_sql = [], q_queryData = qs, q_queryFormulas = [],
       q_queryTraceOperator = operators \<rparr>"

definition results_props :: "PANEL_TYPES \<Rightarrow> query \<Rightarrow> nat jsobj \<Rightarrow> (string \<times> string) list \<Rightarrow> nat GetQueryResultsProps" where
  "results_props panelType q variables dynamicVariables =
     \<lparr> gp_query = q, gp_globalSelectedInterval = None, gp_graphType = panelType, gp_selectedTime = ''GLOBAL_TIME'',
       gp_tableParams = None, gp_variables = variables, gp_start = None, gp_end = None, gp_formatForWeb = True,
       gp_originalGraphType = None, gp_fillGaps = False, gp_dynamicVariables = dynamicVariables \<rparr>"

lemma sample_call: "is_call ''sum(x)''"
  unfolding is_call_def
  by (rule exI [of _ "''sum''"], rule exI [of _ "''x''"]) (simp add: is_word_def less_eq_char_def)

theorem aggregations_read_back_witness:
  "createAggregation (logs_query ''A'' ''sum(x) as 'total', sum(x)'') None
   = [AggExpression \<lparr> ea_expression = ''sum(x)'', ea_alias = Some ''total'' \<rparr>, AggExpression \<lparr> ea_expression = ''sum(x)'', ea_alias = None \<rparr>]"
  using aggregations_read_back [of "logs_query ''A'' ''sum(x) as 'total', sum(x)''"
      "[\<lparr> ea_expression = ''sum(x)'', ea_alias = Some ''total'' \<rparr>, \<lparr> ea_expression = ''sum(x)'', ea_alias = None \<rparr>]" None]
  by (simp add: aggregation_ok_def sample_call no_quotes_def aggregation_text_def)

theorem converted_aggregation_asked_witness:
  "createAggregation ((logs_query ''A'' [])\<lparr> bq_dataSource := TRACES,
       bq_aggregations := [AggExpression \<lparr> ea_expression = ''sum(x)'', ea_alias = None \<rparr>] \<rparr>) None
   = [AggExpression \<lparr> ea_expression = ''sum(x)'', ea_alias = None \<rparr>]"
  using converted_aggregation_asked [of TRACES "''sum''" "initialAutocompleteData\<lparr> ac_key := ''x'' \<rparr>" None None None None None
      "[AggExpression \<lparr> ea_expression = ''sum(x)'', ea_alias = None \<rparr>]" "logs_query ''A'' []" None]
  by (simp add: initialAutocompleteData_def convertAggregationToExpression_def count_for_noop_def is_word_def less_eq_char_def)

lemma sample_names: "plain_names [''A'', ''B'']" "plain_names [''A'']"
  by (simp_all add: plain_names_def index_key_def digits_value.simps less_eq_char_def)

theorem queries_asked_once_witness:
  "map envelope_name (fst (request_queries (results_props TABLE (builder [logs_query ''A'' [], logs_query ''B'' []] []) [] [])))
   = [''A'', ''B'']"
  using queries_asked_once [of "results_props TABLE (builder [logs_query ''A'' [], logs_query ''B'' []] []) [] []"] sample_names
  by (simp add: asked_def results_props_def builder_def)

theorem labels_are_column_ids_witness:
  "map snd (getQueryLabelWithAggregation [logs_query ''A'' ''sum(x), count()''])
   = [getColId (value_column ''A'' 0) (aggregations_asked (fst (request_queries (results_props TABLE (builder [logs_query ''A'' ''sum(x), count()''] []) [] [])))),
      getColId (value_column ''A'' 1) (aggregations_asked (fst (request_queries (results_props TABLE (builder [logs_query ''A'' ''sum(x), count()''] []) [] []))))]"
proof -
  let ?q = "logs_query ''A'' ''sum(x), count()''"
  have "length (createAggregation ?q None) = 2" by code_simp
  moreover have "[0..<2] = [0, 1 :: nat]" by (simp add: upt_rec)
  ultimately show ?thesis
    using labels_are_column_ids [of "results_props TABLE (builder [?q] []) [] []"] sample_names
    by (simp add: asked_def results_props_def builder_def mapPanelTypeToRequestType_def)
qed

theorem chart_legend_is_header_witness:
  "getLegend \<lparr> od_metric = [], od_values = [], od_queryName = ''A'', od_legend = None,
       od_metaData = Some \<lparr> sm_alias = [], sm_index = 0, sm_queryName = ''A'' \<rparr> \<rparr> (builder [logs_query ''A'' ''count()''] []) []
   = getColName (value_column ''A'' 0) [(''A'', Some [])] [(''A'', createAggregation (logs_query ''A'' ''count()'') None)]"
proof -
  let ?q = "logs_query ''A'' ''count()''"
  have "0 < length (createAggregation ?q None)" by code_simp
  then show ?thesis
    using chart_legend_is_header [of "builder [?q] []" ?q "\<lparr> od_metric = [], od_values = [], od_queryName = ''A'', od_legend = None,
       od_metaData = Some \<lparr> sm_alias = [], sm_index = 0, sm_queryName = ''A'' \<rparr> \<rparr>" "[]" 0
       "[(''A'', createAggregation ?q None)]" "[(''A'', Some [])]"]
    by (simp add: builder_def aggregations_of_def legend_of_def)
qed

text \<open>Where requests go wrong: a nested call loses its last bracket; a disabled trace operator is asked for without
  the flag; the type of a text box is not the one the service knows; and the function absolute is not normalised.\<close>

theorem requests_flawed:
  "parseAggregations ''sum(abs(x))'' None = [\<lparr> ea_expression = ''sum(abs(x)'', ea_alias = None \<rparr>]
   \<and> map (\<lambda>e. case e of Builder_trace_operator s \<Rightarrow> bs_disabled (tq_base s) | _ \<Rightarrow> Some True)
       (fst (request_queries (results_props TABLE (builder [] [(logs_query ''T'' [])\<lparr> bq_disabled := True \<rparr>]) [] []))) = [None]
   \<and> request_variables (results_props TABLE (builder [] []) [(''name'', 7)] [(''name'', ''TEXTBOX'')]) = [(''name'', (7, Some ''textbox''))]
   \<and> normalizeFunctionName ''TIMESHIFT'' = ''timeShift'' \<and> normalizeFunctionName ''ABSOLUTE'' = ''ABSOLUTE''"
  by code_simp

end
