(* ===== verification/QueryReload.thy ===== *)
theory QueryReload
  imports QueryRequestProperties
begin

text \<open>
  What saving a query and reading it back keeps: the object that all calls share has no influence, and the
  queries read back ask for exactly what was saved, within the limits that the last property lists.
\<close>

section \<open>The shared object\<close>

lemma composite_unit: "cm_unit (snd (mapCompositeQueryFromQuery q panelType shared)) = cm_unit shared"
  by (cases "q_queryType q")
     (simp_all add: mapCompositeQueryFromQuery_def buildBuilderQuery_def buildClickHouseQuery_def buildPromQuery_def Let_def)

lemma composite_independent:
  "cm_unit shared = cm_unit shared' \<Longrightarrow>
     fst (mapCompositeQueryFromQuery q panelType shared) = fst (mapCompositeQueryFromQuery q panelType shared')"
  by (cases "q_queryType q"; cases shared; cases shared')
     (simp_all add: mapCompositeQueryFromQuery_def buildBuilderQuery_def buildClickHouseQuery_def buildPromQuery_def
        compositeQueryToQueryEnvelope_def or_empty_def Let_def)

definition shared_after :: "(query \<times> PANEL_TYPES option) list \<Rightarrow> ICompositeMetricQuery" where
  "shared_after calls = fold (\<lambda>(q, panelType) shared. snd (mapCompositeQueryFromQuery q panelType shared)) calls defaultCompositeQuery"

lemma shared_unit: "cm_unit (shared_after calls) = None"
proof -
  have "cm_unit (fold (\<lambda>(q, panelType) shared. snd (mapCompositeQueryFromQuery q panelType shared)) calls s) = cm_unit s" for s
    by (induction calls arbitrary: s) (auto simp: composite_unit)
  then show ?thesis by (simp add: shared_after_def defaultCompositeQuery_def)
qed

text \<open>C23: Although all conversions assign to one shared object, no earlier conversion shows in the result of a later one.\<close>

theorem shared_object_harmless:
  "fst (mapCompositeQueryFromQuery q panelType (shared_after calls)) = fst (mapCompositeQueryFromQuery q panelType defaultCompositeQuery)"
  by (rule composite_independent) (simp add: shared_unit defaultCompositeQuery_def)

section \<open>What is saved\<close>

definition saved :: "query \<Rightarrow> PANEL_TYPES option \<Rightarrow> ICompositeMetricQuery" where
  "saved q panelType = fst (mapCompositeQueryFromQuery q panelType defaultCompositeQuery)"

definition formula_envelope :: "IBuilderFormula \<Rightarrow> QueryEnvelope" where
  "formula_envelope f = Builder_formula
     \<lparr> qf_name = bf_queryName f, qf_expression = bf_expression f, qf_disabled = bf_disabled f, qf_limit = bf_limit f,
       qf_legend = bf_legend f, qf_order = map_option (map order_by) (bf_orderBy f) \<rparr>"

lemma split_items_lists:
  assumes "list_all (\<lambda>b. bq_queryName b \<noteq> TRACE_OPERATOR_QUERY_NAME) bs" "list_all (\<lambda>f. bf_queryName f \<noteq> TRACE_OPERATOR_QUERY_NAME) fs"
    and "distinct (map bq_queryName bs)" "distinct (map bf_queryName fs)"
  shows "fold split_item (map (\<lambda>b. (bq_queryName b, ItemQuery b)) bs @ map (\<lambda>f. (bf_queryName f, ItemFormula f)) fs)
      \<lparr> sq_regular = [], sq_formulas = [], sq_operators = [] \<rparr>
    = \<lparr> sq_regular = map (\<lambda>b. (bq_queryName b, b)) bs, sq_formulas = map (\<lambda>f. (bf_queryName f, f)) fs, sq_operators = [] \<rparr>"
proof -
  have "fold split_item (map (\<lambda>b. (bq_queryName b, ItemQuery b)) bs) st
      = st\<lparr> sq_regular := fold (\<lambda>(k, v). obj_set k v) (map (\<lambda>b. (bq_queryName b, b)) bs) (sq_regular st) \<rparr>" for st
    using assms(1) by (induction bs arbitrary: st) (simp_all add: split_item_def)
  moreover have "fold split_item (map (\<lambda>f. (bf_queryName f, ItemFormula f)) fs) st
      = st\<lparr> sq_formulas := fold (\<lambda>(k, v). obj_set k v) (map (\<lambda>f. (bf_queryName f, f)) fs) (sq_formulas st) \<rparr>" for st
    using assms(2) by (induction fs arbitrary: st) (simp_all add: split_item_def)
  ultimately show ?thesis using assms(3,4) by (simp add: fold_set_fresh comp_def del: fold_map)
qed

text \<open>Queries with names of their own and no trace operator.\<close>

definition simple_names :: "query \<Rightarrow> bool" where
  "simple_names q \<longleftrightarrow> plain_names (map fst (asked q)) \<and> q_queryTraceOperator q = [] \<and>
     list_all (\<lambda>n. n \<noteq> [] \<and> n \<noteq> TRACE_OPERATOR_QUERY_NAME) (map fst (asked q))"

definition builder_envelope :: "PANEL_TYPES option \<Rightarrow> IBuilderQuery \<Rightarrow> QueryEnvelope" where
  "builder_envelope panelType b =
     Builder_query (builder_query (mapPanelTypeToRequestType (panel_or_default panelType)) (Some (panel_or_default panelType))
       (bq_queryName b, b))"

lemma no_entries: "obj_entries [] = []"
  by (simp add: obj_entries_def)

lemma saved_builder:
  assumes "q_queryType q = QUERY_BUILDER" "simple_names q"
  shows "cm_queries (saved q panelType) = map (builder_envelope panelType) (q_queryData q) @ map formula_envelope (q_queryFormulas q)"
proof -
  let ?b = "map (\<lambda>b. (bq_queryName b, ItemQuery b)) (q_queryData q)"
  let ?f = "map (\<lambda>f. (bf_queryName f, ItemFormula f)) (q_queryFormulas q)"
  have a: "asked q = map (\<lambda>b. (bq_queryName b, bq_legend b)) (q_queryData q) @ map (\<lambda>f. (bf_queryName f, bf_legend f)) (q_queryFormulas q)"
    using assms by (simp add: asked_def simple_names_def)
  then have p: "plain_names (map fst (?b @ ?f @ []))" using assms(2) by (simp add: simple_names_def comp_def)
  then have items: "obj_spread (obj_spread (obj_spread [] ?b) ?f) [] = ?b @ ?f" "obj_entries (?b @ ?f) = ?b @ ?f"
    using spread_three [OF p] entries_plain [of "?b @ ?f"] by simp_all
  have d: "distinct (map bq_queryName (q_queryData q))" "distinct (map bf_queryName (q_queryFormulas q))"
    using p by (simp_all add: plain_names_def comp_def)
  have e: "obj_entries (map (\<lambda>b. (bq_queryName b, b)) (q_queryData q)) = map (\<lambda>b. (bq_queryName b, b)) (q_queryData q)"
      "obj_entries (map (\<lambda>f. (bf_queryName f, f)) (q_queryFormulas q)) = map (\<lambda>f. (bf_queryName f, f)) (q_queryFormulas q)"
    using p by (auto intro!: obj_entries_plain simp: plain_names_def list_all_iff)
  have n: "list_all (\<lambda>b. bq_queryName b \<noteq> TRACE_OPERATOR_QUERY_NAME) (q_queryData q)"
      "list_all (\<lambda>f. bf_queryName f \<noteq> TRACE_OPERATOR_QUERY_NAME) (q_queryFormulas q)"
    using assms(2) a by (auto simp: simple_names_def list_all_iff)
  have "buildBuilderQuery q panelType defaultCompositeQuery = defaultCompositeQuery\<lparr> cm_queryType := QUERY_BUILDER,
      cm_panelType := panel_or_default panelType, cm_builderQueries := Some (?b @ ?f) \<rparr>"
    using assms(1,2) items(1) d
    by (simp add: buildBuilderQuery_def mapQueryDataToApi_plain simple_names_def comp_def Let_def)
  then show ?thesis
    using assms(1) split_items_lists [OF n d] e items(2)
    by (simp add: saved_def mapCompositeQueryFromQuery_def compositeQueryToQueryEnvelope_def or_empty_def split_items_def
        convertBuilderQueriesToV5_def convertFormulasToV5_def convertTraceOperatorToV5_def builder_envelope_def
        formula_envelope_def no_entries defaultCompositeQuery_def comp_def Let_def)
qed

section \<open>What is read back\<close>

lemma read_builder_lists:
  assumes "distinct (map fst (map the (map read_item_of es)))" "list_all (\<lambda>e. read_item_of e \<noteq> None) es"
  shows "read_builder es = map the (map read_item_of es)"
proof -
  have "fold (\<lambda>e acc. case read_item_of e of None \<Rightarrow> acc | Some (k, i) \<Rightarrow> obj_set k i acc) es acc
      = fold (\<lambda>(k, v). obj_set k v) (map the (map read_item_of es)) acc" for acc
    using assms(2) by (induction es arbitrary: acc) auto
  then show ?thesis using assms(1) by (simp add: read_builder_def fold_set_fresh comp_def del: fold_map map_map)
qed

definition reread :: "PANEL_TYPES option \<Rightarrow> IBuilderQuery \<Rightarrow> IBuilderQuery" where
  "reread panelType b =
     convertBuilderQueryToIBuilderQuery
       (builder_query (mapPanelTypeToRequestType (panel_or_default panelType)) (Some (panel_or_default panelType)) (bq_queryName b, b))
       initialQueryBuilderFormValues"

definition reread_formula :: "IBuilderFormula \<Rightarrow> IBuilderFormula" where
  "reread_formula f = f\<lparr> bf_limit := int_or (bf_limit f) None \<rparr>"

definition query_again :: "read_query \<Rightarrow> query" where
  "query_again r =
     \<lparr> q_queryType = rd_queryType r, q_promql = rd_promql r, q_clickhouse_sql = rd_clickhouse_sql r,
       q_queryData = rd_queryData r, q_queryFormulas = rd_queryFormulas r, q_queryTraceOperator = [] \<rparr>"

lemma order_again [simp]: "read_order (order_by x) = x" "order_by (read_order y) = y"
  by (simp_all add: read_order_def order_by_def)

lemma order_list_again [simp]: "map (read_order \<circ> order_by) xs = xs" "map_option (map (\<lambda>x. x)) y = y"
  by (simp_all add: comp_def map_idI option.map_ident)

lemma concat_none: "concat (map (\<lambda>x. []) xs) = []"
  by (induction xs) simp_all

lemma reloaded_builder:
  assumes "q_queryType q = QUERY_BUILDER" "simple_names q"
  shows "query_again (mapQueryFromV5 (saved q panelType)) =
    \<lparr> q_queryType = QUERY_BUILDER, q_promql = [], q_clickhouse_sql = [], q_queryData = map (reread panelType) (q_queryData q),
      q_queryFormulas = map reread_formula (q_queryFormulas q), q_queryTraceOperator = [] \<rparr>"
proof -
  let ?es = "map (builder_envelope panelType) (q_queryData q) @ map formula_envelope (q_queryFormulas q)"
  note es = saved_builder [OF assms, of panelType]
  have a: "map fst (asked q) = map bq_queryName (q_queryData q) @ map bf_queryName (q_queryFormulas q)"
    using assms by (simp add: asked_def simple_names_def)
  have nb: "bq_queryName b \<noteq> []" if "b \<in> set (q_queryData q)" for b
    using assms(2) that unfolding simple_names_def a by (auto simp: list_all_iff)
  have nf: "bf_queryName f \<noteq> []" if "f \<in> set (q_queryFormulas q)" for f
    using assms(2) that unfolding simple_names_def a by (auto simp: list_all_iff)
  let ?items = "map (\<lambda>b. (bq_queryName b, ReadQuery (builder_query (mapPanelTypeToRequestType (panel_or_default panelType))
        (Some (panel_or_default panelType)) (bq_queryName b, b)))) (q_queryData q)
      @ map (\<lambda>f. (bf_queryName f, ReadFormula (reread_formula f))) (q_queryFormulas q)"
  have f: "convertQueryBuilderFormulaToIBuilderFormula \<lparr> qf_name = bf_queryName f, qf_expression = bf_expression f,
      qf_disabled = bf_disabled f, qf_limit = bf_limit f, qf_legend = bf_legend f, qf_order = map_option (map order_by) (bf_orderBy f) \<rparr>
      = reread_formula f" for f
    by (simp add: convertQueryBuilderFormulaToIBuilderFormula_def reread_formula_def option.map_comp comp_def option.map_ident)
  have i: "map the (map read_item_of ?es) = ?items"
    using nb nf by (simp add: builder_envelope_def formula_envelope_def builder_query_def f)
  have "plain_names (map fst ?items)" using assms(2) by (simp add: simple_names_def a comp_def)
  moreover have "list_all (\<lambda>e. read_item_of e \<noteq> None) ?es"
    using nb nf by (auto simp: list_all_iff builder_envelope_def formula_envelope_def builder_query_def)
  ultimately have "read_builder ?es = ?items" "obj_entries ?items = ?items"
    using read_builder_lists [of ?es] entries_plain [of ?items] unfolding i by (simp_all add: plain_names_def del: map_append)
  moreover have "concat (map read_prom ?es) = []" "concat (map read_clickhouse ?es) = []"
    by (simp_all add: builder_envelope_def formula_envelope_def read_prom_def read_clickhouse_def)
  moreover have "cm_queryType (saved q panelType) = QUERY_BUILDER"
    using assms(1) by (simp add: saved_def mapCompositeQueryFromQuery_def compositeQueryToQueryEnvelope_def buildBuilderQuery_def Let_def)
  ultimately show ?thesis
    by (simp add: query_again_def mapQueryFromV5_def es obj_values_def transform_query_data_def transform_formulas_def
        reread_def [abs_def] concat_none comp_def Let_def)
qed

section \<open>Saving again\<close>

definition stable_aggregation :: "PANEL_TYPES \<Rightarrow> Aggregation \<Rightarrow> bool" where
  "stable_aggregation panelType agg \<longleftrightarrow>
     (case agg of
        AggExpression a \<Rightarrow> is_call (ea_expression a) \<and> (case ea_alias a of None \<Rightarrow> True | Some al \<Rightarrow> al \<noteq> [] \<and> no_quotes al)
      | AggMetric m \<Rightarrow> ma_metricName m \<noteq> None \<and> ma_temporality m \<noteq> Some [] \<and> ma_timeAggregation m \<notin> {None, Some []}
          \<and> ma_spaceAggregation m \<notin> {None, Some []} \<and> (have_reduce_to (Some panelType) \<longrightarrow> ma_reduceTo m \<notin> {None, Some []}))"

definition reloadable :: "PANEL_TYPES \<Rightarrow> IBuilderQuery \<Rightarrow> bool" where
  "reloadable panelType b \<longleftrightarrow>
     list_all (stable_aggregation panelType) (createAggregation b (Some panelType))
     \<and> list_all (\<lambda>g. ac_description g = None \<and> ac_unit g = None \<and> ac_signal g = None \<and> ac_materialized g = None) (bq_groupBy b)
     \<and> list_all (\<lambda>f. fn_namedArgs f = []) (bq_functions b) \<and> filter column_present (bq_selectColumns b) = []"

lemma normal_names: "list_all (\<lambda>(_, n). normalizeFunctionName n = n) functionNameMap"
  by code_simp

lemma normalizeFunctionName_idem [simp]: "normalizeFunctionName (normalizeFunctionName f) = normalizeFunctionName f"
proof (cases "map_of functionNameMap (toLowerCase f)")
  case None
  then show ?thesis by (simp add: normalizeFunctionName_def)
next
  case (Some n)
  then have "normalizeFunctionName n = n" using normal_names by (auto simp: list_all_iff dest!: map_of_SomeD)
  moreover have "n \<noteq> []" using map_of_SomeD [OF Some] by (auto simp: functionNameMap_def)
  ultimately show ?thesis using Some by (simp add: normalizeFunctionName_def [of f])
qed

lemma function_again: "fn_namedArgs f = [] \<Longrightarrow> query_function (query_function f) = query_function f"
  by (simp add: query_function_def option.map_comp comp_def)

lemma int_or_again [simp]: "int_or (int_or x None) None = int_or x None" "int_or (int_or x (int_or y None)) None = int_or x (int_or y None)"
    "int_or None y = y"
  by (simp_all add: int_or_def split: option.split)

lemma legend_again [simp]: "legend_spec (legend_spec l) = legend_spec l"
  by (simp add: legend_spec_def js_or_def split: option.split)

lemma nonempty_again [simp]: "nonempty (map f (keep [] (map_option (map g) (nonempty xs)))) = nonempty (map f (map g xs))"
  by (simp add: nonempty_def)

lemma expression_aggregations_nonempty: "expression_aggregations a \<noteq> []"
  by (simp add: expression_aggregations_def Let_def)

lemma aggregations_again:
  assumes "list_all (stable_aggregation panelType) (createAggregation b (Some panelType))"
    and "bq_dataSource b' = bq_dataSource b" "bq_aggregations b' = createAggregation b (Some panelType)"
    and "bq_aggregateAttribute b' = Some initialAutocompleteData" "bq_timeAggregation b' = Some ''rate''"
    and "bq_spaceAggregation b' = Some ''sum''" "bq_reduceTo b' = Some ''avg''"
  shows "createAggregation b' (Some panelType) = createAggregation b (Some panelType)"
proof (cases "bq_dataSource b = METRICS")
  case True
  let ?m = "metric_aggregation b (Some panelType)"
  have s: "stable_aggregation panelType (AggMetric ?m)" using assms(1) True by (simp add: createAggregation_def)
  have js: "js_or x y = x" if "x \<notin> {None, Some []}" for x y using that by (cases x) auto
  have "ma_reduceTo ?m = None" if "\<not> have_reduce_to (Some panelType)" using that by (simp add: metric_aggregation_def)
  moreover have "js_or (ma_metricName ?m) (Some []) = ma_metricName ?m" "js_or (ma_temporality ?m) None = ma_temporality ?m"
    using s by (auto simp: stable_aggregation_def js_or_def split: option.splits)
  moreover have "first_metric f (bq_aggregations b') = f ?m" for f
    using assms(3) True by (simp add: first_metric_def createAggregation_def)
  ultimately have "metric_aggregation b' (Some panelType) = ?m"
    using s assms(4-7) js
    by (auto simp: metric_aggregation_def [of b'] stable_aggregation_def initialAutocompleteData_def)
  then show ?thesis using True assms(2) by (simp add: createAggregation_def)
next
  case False
  let ?aggs = "createAggregation b (Some panelType)"
  have "map expression_aggregations ?aggs = map (\<lambda>a. case a of AggExpression e \<Rightarrow> [e] | AggMetric m \<Rightarrow> []) ?aggs"
  proof (rule map_cong [OF refl])
    fix agg assume "agg \<in> set ?aggs"
    then obtain a where a: "agg = AggExpression a" "stable_aggregation panelType agg"
      using created_expressions [OF False] assms(1) by (metis list_all_iff)
    have "parseAggregations (ea_expression a) (ea_alias a) = [a]"
      using a parse_call [of "ea_expression a" "ea_alias a"] by (simp add: stable_aggregation_def split: option.splits)
    then show "expression_aggregations agg = (case agg of AggExpression e \<Rightarrow> [e] | AggMetric m \<Rightarrow> [])"
      by (simp add: expression_aggregations_def a(1))
  qed
  moreover have "map AggExpression (concat (map (\<lambda>a. case a of AggExpression e \<Rightarrow> [e] | AggMetric m \<Rightarrow> []) xs)) = xs"
    if "\<And>x. x \<in> set xs \<Longrightarrow> \<exists>e. x = AggExpression e" for xs
    using that by (induction xs) force+
  moreover have "?aggs \<noteq> []"
    using False expression_aggregations_nonempty by (cases "bq_aggregations b") (simp_all add: createAggregation_def)
  ultimately show ?thesis
    using created_expressions [OF False] assms(2,3) False
    by (metis (no_types, lifting) createAggregation_def)
qed

lemma keep_nonempty [simp]: "keep [] (map_option (map f) (nonempty xs)) = map f xs"
  by (simp add: nonempty_def)

lemma nullish_none [simp]: "nullish x None = x"
  by (cases x) simp_all

lemma base_fields:
  "bs_filter (createBaseSpec b rt pt) = Some (getFilter b)"
  "bs_groupBy (createBaseSpec b rt pt) = map_option (map group_by_key) (nonempty (bq_groupBy b))"
  "bs_disabled (createBaseSpec b rt pt) = Some (bq_disabled b)" "bs_having (createBaseSpec b rt pt) = having_spec (bq_having b)"
  "bs_limit (createBaseSpec b rt pt) = request_limit pt b" "bs_stepInterval (createBaseSpec b rt pt) = int_or (bq_stepInterval b) None"
  "bs_order (createBaseSpec b rt pt) = map_option (map order_by) (nonempty (bq_orderBy b))"
  "bs_legend (createBaseSpec b rt pt) = legend_spec (bq_legend b)" "bs_offset (createBaseSpec b rt pt) = request_offset rt b"
  "bs_functions (createBaseSpec b rt pt) = map_option (map query_function) (nonempty (bq_functions b))"
  by (simp_all add: createBaseSpec_def)

lemma initial_fields:
  defines "q \<equiv> initialQueryBuilderFormValues"
  shows "bq_filter q = Some []" "bq_filters q = []" "bq_disabled q = False" "bq_having q = HavingItems []" "bq_limit q = None"
    "bq_pageSize q = None" "bq_stepInterval q = None" "bq_offset q = None" "bq_functions q = []" "bq_selectColumns q = []"
    "bq_source q = Some []" "bq_aggregateAttribute q = Some initialAutocompleteData" "bq_timeAggregation q = Some ''rate''"
    "bq_spaceAggregation q = Some ''sum''" "bq_reduceTo q = Some ''avg''"
  by (simp_all add: q_def initialQueryBuilderFormValues_def)

lemma signal_again: "getDataSourceFromSignal (getSignalType d) = d"
  by (cases d) (simp_all add: getDataSourceFromSignal_def getSignalType_def)

lemma converted_fields:
  fixes s q
  defines "b' \<equiv> convertBuilderQueryToIBuilderQuery s q"
  shows "bq_queryName b' = bu_name s" "bq_dataSource b' = getDataSourceFromSignal (bu_signal s)"
    "bq_aggregations b' = keep (bq_aggregations q) (bu_aggregations s)" "bq_functions b' = keep (bq_functions q) (bs_functions (bu_base s))"
    "bq_filter b' = nullish (bs_filter (bu_base s)) (bq_filter q)" "bq_groupBy b' = map read_group (keep [] (bs_groupBy (bu_base s)))"
    "bq_disabled b' = keep (bq_disabled q) (bs_disabled (bu_base s))" "bq_having b' = keep (bq_having q) (bs_having (bu_base s))"
    "bq_limit b' = nullish (bs_limit (bu_base s)) (bq_limit q)"
    "bq_stepInterval b' = nullish (bs_stepInterval (bu_base s)) (bq_stepInterval q)"
    "bq_orderBy b' = map read_order (keep [] (bs_order (bu_base s)))" "bq_legend b' = bs_legend (bu_base s)"
    "bq_offset b' = nullish (bs_offset (bu_base s)) (bq_offset q)" "bq_source b' = nullish (bu_source s) (bq_source q)"
    "bq_filters b' = bq_filters q" "bq_pageSize b' = bq_pageSize q" "bq_selectColumns b' = bq_selectColumns q"
    "bq_aggregateAttribute b' = bq_aggregateAttribute q" "bq_timeAggregation b' = bq_timeAggregation q"
    "bq_spaceAggregation b' = bq_spaceAggregation q" "bq_reduceTo b' = bq_reduceTo q"
  by (simp_all add: b'_def convertBuilderQueryToIBuilderQuery_def Let_def)

lemma built_fields:
  "bu_name (builder_query rt pt (n, b)) = n" "bu_signal (builder_query rt pt (n, b)) = getSignalType (bq_dataSource b)"
  "bu_source (builder_query rt pt (n, b)) = (if bq_dataSource b = METRICS then Some (or_text (bq_source b) []) else None)"
  "bu_base (builder_query rt pt (n, b)) = createBaseSpec b rt pt"
  "bu_aggregations (builder_query rt pt (n, b)) = request_aggregations b rt pt"
  by (simp_all add: builder_query_def)

lemma having_again: "keep (HavingItems []) (having_spec h) = h"
  by (simp add: having_spec_def)

lemma aggregations_read: "keep d (request_aggregations b rt pt) = (if rt = R_raw then d else createAggregation b pt)"
  by (simp add: request_aggregations_def)

lemma source_read: "nullish (if m then Some s else None) (Some []) = Some (if m then s else [])"
  by simp

text \<open>The fields that are read back.\<close>

lemma read_back:
  fixes b rt pt n
  defines "b' \<equiv> convertBuilderQueryToIBuilderQuery (builder_query rt pt (n, b)) initialQueryBuilderFormValues"
  shows "bq_queryName b' = n" "bq_dataSource b' = bq_dataSource b" "bq_filter b' = Some (getFilter b)" "bq_filters b' = []"
    "bq_groupBy b' = map read_group (map group_by_key (bq_groupBy b))" "bq_disabled b' = bq_disabled b"
    "bq_having b' = bq_having b" "bq_limit b' = request_limit pt b" "bq_pageSize b' = None"
    "bq_stepInterval b' = int_or (bq_stepInterval b) None" "bq_orderBy b' = bq_orderBy b"
    "bq_legend b' = legend_spec (bq_legend b)" "bq_offset b' = request_offset rt b"
    "bq_functions b' = map query_function (bq_functions b)" "bq_selectColumns b' = []"
    "bq_source b' = Some (if bq_dataSource b = METRICS then or_text (bq_source b) [] else [])"
    "bq_aggregations b' = (if rt = R_raw then bq_aggregations initialQueryBuilderFormValues else createAggregation b pt)"
    "bq_aggregateAttribute b' = Some initialAutocompleteData" "bq_timeAggregation b' = Some ''rate''"
    "bq_spaceAggregation b' = Some ''sum''" "bq_reduceTo b' = Some ''avg''"
  by (simp_all only: b'_def converted_fields built_fields base_fields initial_fields signal_again keep_nonempty nullish_none
      nullish_simps keep_simps map_map order_list_again having_again aggregations_read source_read)

lemma group_again:
  assumes "ac_description g = None" "ac_unit g = None" "ac_signal g = None" "ac_materialized g = None"
  shows "group_by_key (read_group (group_by_key g)) = group_by_key g"
proof -
  obtain h where h: "h = group_by_key g" by blast
  have "or_text (tf_fieldContext h) [] = or_text (ac_type g) []" "or_text (tf_fieldDataType h) [] = or_text (ac_dataType g) []"
    by (simp_all only: h group_by_key_def TelemetryFieldKey.simps or_text_or_text)
  then show ?thesis
    unfolding h [symmetric] group_by_key_def [of "read_group h"] group_by_key_def [of g]
    by (simp only: read_group_def BaseAutocompleteData.simps assms h group_by_key_def TelemetryFieldKey.simps)
qed

lemma groups_again:
  assumes "list_all (\<lambda>g. ac_description g = None \<and> ac_unit g = None \<and> ac_signal g = None \<and> ac_materialized g = None) gs"
  shows "map group_by_key (map read_group (map group_by_key gs)) = map group_by_key gs"
  using assms group_again by (induction gs) simp_all

lemma base_again:
  assumes "reloadable p b" and rt: "rt = mapPanelTypeToRequestType p"
  shows "builder_query rt (Some p) (n, convertBuilderQueryToIBuilderQuery (builder_query rt (Some p) (n, b)) initialQueryBuilderFormValues)
    = builder_query rt (Some p) (n, b)"
proof -
  define B where "B = convertBuilderQueryToIBuilderQuery (builder_query rt (Some p) (n, b)) initialQueryBuilderFormValues"
  note r = read_back [of rt "Some p" n b, folded B_def]
  have ok: "list_all (stable_aggregation p) (createAggregation b (Some p))" "filter column_present (bq_selectColumns b) = []"
    "list_all (\<lambda>g. ac_description g = None \<and> ac_unit g = None \<and> ac_signal g = None \<and> ac_materialized g = None) (bq_groupBy b)"
    "\<And>f. f \<in> set (bq_functions b) \<Longrightarrow> fn_namedArgs f = []"
    using assms(1) by (auto simp: reloadable_def list_all_iff)
  have "request_aggregations B rt (Some p) = request_aggregations b rt (Some p)"
    using aggregations_again [OF ok(1), of B] by (simp add: request_aggregations_def r)
  moreover have "map query_function (map query_function (bq_functions b)) = map query_function (bq_functions b)"
    using ok(4) by (simp add: function_again)
  moreover have "getFilter B = getFilter b"
    by (simp add: getFilter_def [of B] r or_text_def)
  moreover have "request_limit (Some p) B = request_limit (Some p) b" "request_offset rt B = request_offset rt b"
    by (simp_all add: request_limit_def request_offset_def r)
  moreover have "nonempty (map f xs) = None \<longleftrightarrow> nonempty xs = None" for f :: "'a \<Rightarrow> 'b" and xs by (simp add: nonempty_def)
  ultimately have "createBaseSpec B rt (Some p) = createBaseSpec b rt (Some p)"
    using groups_again [OF ok(3)] ok(2)
    by (simp add: createBaseSpec_def r nonempty_def)
  then show ?thesis
    using \<open>request_aggregations B rt (Some p) = request_aggregations b rt (Some p)\<close>
    unfolding B_def [symmetric] by (cases "bq_dataSource b") (simp_all add: builder_query_def r or_text_def)
qed

lemma envelopes_again:
  "reloadable (panel_or_default pt) b \<Longrightarrow> builder_envelope pt (reread pt b) = builder_envelope pt b"
  "bf_limit f \<noteq> Some 0 \<Longrightarrow> formula_envelope (reread_formula f) = formula_envelope f"
proof -
  have "bq_queryName (reread pt b) = bq_queryName b" by (simp add: reread_def read_back)
  then show "reloadable (panel_or_default pt) b \<Longrightarrow> builder_envelope pt (reread pt b) = builder_envelope pt b"
    using base_again [OF _ refl, of "panel_or_default pt" b "bq_queryName b"] by (simp add: builder_envelope_def reread_def)
  show "bf_limit f \<noteq> Some 0 \<Longrightarrow> formula_envelope (reread_formula f) = formula_envelope f"
    by (auto simp: formula_envelope_def reread_formula_def int_or_def split: option.splits)
qed

definition prom_envelope :: "IPromQLQuery \<Rightarrow> QueryEnvelope" where
  "prom_envelope c = Promql \<lparr> cq_name = rq_name c, cq_query = rq_query c, cq_disabled = rq_disabled c,
     cq_legend = legend_spec (rq_legend c), pm_step = None, pm_stats = False \<rparr>"

definition clickhouse_envelope :: "IClickHouseQuery \<Rightarrow> QueryEnvelope" where
  "clickhouse_envelope c = Clickhouse_sql \<lparr> cq_name = rq_name c, cq_query = rq_query c, cq_disabled = rq_disabled c,
     cq_legend = legend_spec (rq_legend c) \<rparr>"

lemma fold_named:
  assumes "distinct (map rq_name (filter (\<lambda>c. rq_query c \<noteq> []) cs))"
  shows "fold (\<lambda>c acc. if rq_query c = [] then acc else obj_set (rq_name c) (f c) acc) cs []
    = map (\<lambda>c. (rq_name c, f c)) (filter (\<lambda>c. rq_query c \<noteq> []) cs)"
proof -
  have "fold (\<lambda>c acc. if rq_query c = [] then acc else obj_set (rq_name c) (f c) acc) cs acc
      = fold (\<lambda>(k, v). obj_set k v) (map (\<lambda>c. (rq_name c, f c)) (filter (\<lambda>c. rq_query c \<noteq> []) cs)) acc" for acc
    by (induction cs arbitrary: acc) simp_all
  then show ?thesis using assms by (simp add: fold_set_fresh comp_def del: fold_map)
qed

lemma saved_text:
  assumes "simple_names q"
  shows "q_queryType q = PROM \<Longrightarrow> cm_queries (saved q pt) = map prom_envelope (filter (\<lambda>c. rq_query c \<noteq> []) (q_promql q))"
    "q_queryType q = CLICKHOUSE \<Longrightarrow>
       cm_queries (saved q pt) = map clickhouse_envelope (filter (\<lambda>c. rq_query c \<noteq> []) (q_clickhouse_sql q))"
proof -
  assume t: "q_queryType q = PROM"
  let ?cs = "filter (\<lambda>c. rq_query c \<noteq> []) (q_promql q)"
  let ?ob = "map (\<lambda>c. (rq_name c, c\<lparr> pq_stepInterval := None \<rparr>)) ?cs"
  have p: "plain_names (map rq_name ?cs)" using assms t by (simp add: simple_names_def asked_def comp_def)
  then have "obj_entries ?ob = ?ob" by (intro entries_plain) (simp add: comp_def)
  then show "cm_queries (saved q pt) = map prom_envelope ?cs"
    using t p by (simp add: saved_def mapCompositeQueryFromQuery_def buildPromQuery_def compositeQueryToQueryEnvelope_def
        fold_named plain_names_def or_empty_def convertPromQueriesToV5_def prom_envelope_def comp_def Let_def)
next
  assume t: "q_queryType q = CLICKHOUSE"
  let ?cs = "filter (\<lambda>c. rq_query c \<noteq> []) (q_clickhouse_sql q)"
  let ?ob = "map (\<lambda>c. (rq_name c, c)) ?cs"
  have p: "plain_names (map rq_name ?cs)" using assms t by (simp add: simple_names_def asked_def comp_def)
  then have "obj_entries ?ob = ?ob" by (intro entries_plain) (simp add: comp_def)
  then show "cm_queries (saved q pt) = map clickhouse_envelope ?cs"
    using t p by (simp add: saved_def mapCompositeQueryFromQuery_def buildClickHouseQuery_def compositeQueryToQueryEnvelope_def
        fold_named plain_names_def or_empty_def convertClickHouseQueriesToV5_def clickhouse_envelope_def comp_def Let_def)
qed

definition reread_prom :: "IPromQLQuery \<Rightarrow> IPromQLQuery" where
  "reread_prom c = c\<lparr> rq_legend := Some (or_text (legend_spec (rq_legend c)) []), pq_stepInterval := None \<rparr>"

definition reread_clickhouse :: "IClickHouseQuery \<Rightarrow> IClickHouseQuery" where
  "reread_clickhouse c = c\<lparr> rq_legend := Some (or_text (legend_spec (rq_legend c)) []) \<rparr>"

lemma text_again:
  "read_prom (prom_envelope c) = [reread_prom c]" "prom_envelope (reread_prom c) = prom_envelope c"
  "read_clickhouse (clickhouse_envelope d) = [reread_clickhouse d]" "clickhouse_envelope (reread_clickhouse d) = clickhouse_envelope d"
  "read_prom (clickhouse_envelope d) = []" "read_clickhouse (prom_envelope c) = []"
  "read_item_of (prom_envelope c) = None" "read_item_of (clickhouse_envelope d) = None"
  by (auto simp: read_prom_def prom_envelope_def reread_prom_def read_clickhouse_def clickhouse_envelope_def
      reread_clickhouse_def legend_spec_def js_or_def or_text_def split: option.splits)

lemma no_items: "(\<And>e. e \<in> set es \<Longrightarrow> read_item_of e = None) \<Longrightarrow> read_builder es = []"
proof -
  assume "\<And>e. e \<in> set es \<Longrightarrow> read_item_of e = None"
  then have "fold (\<lambda>e acc. case read_item_of e of None \<Rightarrow> acc | Some (k, i) \<Rightarrow> obj_set k i acc) es acc = acc" for acc
    by (induction es arbitrary: acc) auto
  then show ?thesis by (simp add: read_builder_def)
qed

lemma reloaded_text:
  assumes "simple_names q"
  shows "q_queryType q = PROM \<Longrightarrow> query_again (mapQueryFromV5 (saved q pt)) =
      \<lparr> q_queryType = PROM, q_promql = map reread_prom (filter (\<lambda>c. rq_query c \<noteq> []) (q_promql q)), q_clickhouse_sql = [],
        q_queryData = [], q_queryFormulas = [], q_queryTraceOperator = [] \<rparr>"
    "q_queryType q = CLICKHOUSE \<Longrightarrow> query_again (mapQueryFromV5 (saved q pt)) =
      \<lparr> q_queryType = CLICKHOUSE, q_promql = [], q_clickhouse_sql = map reread_clickhouse (filter (\<lambda>c. rq_query c \<noteq> []) (q_clickhouse_sql q)),
        q_queryData = [], q_queryFormulas = [], q_queryTraceOperator = [] \<rparr>"
proof -
  have cq: "concat (map (\<lambda>x. [f x]) xs) = map f xs" for f :: "'c \<Rightarrow> 'd" and xs by (induction xs) simp_all
  have ty: "cm_queryType (saved q pt) = q_queryType q"
    by (cases "q_queryType q") (simp_all add: saved_def mapCompositeQueryFromQuery_def compositeQueryToQueryEnvelope_def
        buildBuilderQuery_def buildPromQuery_def buildClickHouseQuery_def Let_def)
  show "query_again (mapQueryFromV5 (saved q pt)) =
      \<lparr> q_queryType = PROM, q_promql = map reread_prom (filter (\<lambda>c. rq_query c \<noteq> []) (q_promql q)), q_clickhouse_sql = [],
        q_queryData = [], q_queryFormulas = [], q_queryTraceOperator = [] \<rparr>" if t: "q_queryType q = PROM"
  proof -
    let ?es = "map prom_envelope (filter (\<lambda>c. rq_query c \<noteq> []) (q_promql q))"
    have "read_builder ?es = []" by (rule no_items) (auto simp: text_again)
    then show ?thesis
      by (simp add: query_again_def mapQueryFromV5_def saved_text(1) [OF assms t] ty t obj_values_def no_entries text_again comp_def
          concat_none cq Let_def)
  qed
  show "query_again (mapQueryFromV5 (saved q pt)) =
      \<lparr> q_queryType = CLICKHOUSE, q_promql = [], q_clickhouse_sql = map reread_clickhouse (filter (\<lambda>c. rq_query c \<noteq> []) (q_clickhouse_sql q)),
        q_queryData = [], q_queryFormulas = [], q_queryTraceOperator = [] \<rparr>" if t: "q_queryType q = CLICKHOUSE"
  proof -
    let ?es = "map clickhouse_envelope (filter (\<lambda>c. rq_query c \<noteq> []) (q_clickhouse_sql q))"
    have "read_builder ?es = []" by (rule no_items) (auto simp: text_again)
    then show ?thesis
      by (simp add: query_again_def mapQueryFromV5_def saved_text(2) [OF assms t] ty t obj_values_def no_entries text_again comp_def
          concat_none cq Let_def)
  qed
qed

text \<open>C7: Let the queries of a saved query have different names, none empty, none
  written like an index of an array and none that of the trace operator, and let there be no trace operators.  Let every query of the builder ask for calls without nested calls, with aliases that
  are not empty and have no quotes, or for a metric whose name, time and space aggregation (and reduction, where the panel
  has one) are given and whose temporality is given or left out, group by fields without description, unit, signal and
  materialized flag, have no named arguments of functions and no selected columns, and let no formula have the limit 0.
  Then the query that is read back, saved again, has the same queries as what was saved.\<close>

theorem reload_keeps_request:
  assumes "simple_names q" "list_all (reloadable (panel_or_default panelType)) (q_queryData q)"
    and "list_all (\<lambda>f. bf_limit f \<noteq> Some 0) (q_queryFormulas q)"
  shows "cm_queries (saved (query_again (mapQueryFromV5 (saved q panelType))) panelType) = cm_queries (saved q panelType)"
proof (cases "q_queryType q")
  case QUERY_BUILDER
  note r = reloaded_builder [OF QUERY_BUILDER assms(1), of panelType]
  have o: "q_queryTraceOperator q = []" using assms(1) by (simp add: simple_names_def)
  have "simple_names (query_again (mapQueryFromV5 (saved q panelType)))"
    using assms(1) QUERY_BUILDER
    by (simp add: r o simple_names_def asked_def comp_def reread_def read_back reread_formula_def)
  then show ?thesis
    using saved_builder [OF QUERY_BUILDER assms(1)] saved_builder [of "query_again (mapQueryFromV5 (saved q panelType))"] assms(2,3)
    by (simp add: r envelopes_again list_all_iff)
next
  case PROM
  note r = reloaded_text(1) [OF assms(1) PROM, of panelType]
  have "simple_names (query_again (mapQueryFromV5 (saved q panelType)))"
    using assms(1) PROM by (simp add: r simple_names_def asked_def comp_def filter_map reread_prom_def)
  from saved_text(1) [OF this] show ?thesis
    using saved_text(1) [OF assms(1) PROM] by (simp add: r filter_map comp_def text_again) (simp add: reread_prom_def)
next
  case CLICKHOUSE
  note r = reloaded_text(2) [OF assms(1) CLICKHOUSE, of panelType]
  have "simple_names (query_again (mapQueryFromV5 (saved q panelType)))"
    using assms(1) CLICKHOUSE by (simp add: r simple_names_def asked_def comp_def filter_map reread_clickhouse_def)
  from saved_text(2) [OF this] show ?thesis
    using saved_text(2) [OF assms(1) CLICKHOUSE] by (simp add: r filter_map comp_def text_again) (simp add: reread_clickhouse_def)
qed

theorem reload_keeps_request_witness:
  "cm_queries (saved (query_again (mapQueryFromV5 (saved (builder [logs_query ''A'' ''count()''] []) (Some TABLE)))) (Some TABLE))
   = cm_queries (saved (builder [logs_query ''A'' ''count()''] []) (Some TABLE))"
proof -
  have "createAggregation (logs_query ''A'' ''count()'') (Some TABLE) = [AggExpression \<lparr> ea_expression = ''count()'', ea_alias = None \<rparr>]"
    by code_simp
  moreover have "is_call ''count()''"
    unfolding is_call_def by (rule exI [of _ "''count''"], rule exI [of _ "[]"]) (simp add: is_word_def less_eq_char_def)
  ultimately have "reloadable TABLE (logs_query ''A'' ''count()'')"
    by (simp add: reloadable_def stable_aggregation_def) (simp add: logs_query_def initialQueryBuilderFormValues_def)
  then show ?thesis
    using reload_keeps_request [of "builder [logs_query ''A'' ''count()''] []" "Some TABLE"] sample_names
    by (simp add: simple_names_def asked_def builder_def panel_or_default_def TRACE_OPERATOR_QUERY_NAME_def)
qed

text \<open>What a reload loses: the query comes back with the expression of the query A, without its selected columns, and
  a trace operator stays in the format of the service, so that it is no query the builder knows; the names of the
  arguments of a function are lost when it is saved again.\<close>

theorem reload_flawed:
  "(let q = (logs_query ''B'' ''count()'')\<lparr> bq_selectColumns := [\<lparr> sc_key = Some ''body'', sc_name = None, sc_fieldDataType = None,
          sc_dataType = None, sc_fieldContext = None, sc_type = None, sc_signal = None \<rparr>],
          bq_functions := [\<lparr> fn_name = ''ewma3'', fn_args = None, fn_namedArgs = [(''alpha'', SNum 1)] \<rparr>] \<rparr>;
        r = mapQueryFromV5 (saved (builder [q] [(logs_query ''Trace Operator'' ''count()'')\<lparr> bq_expression := ''A => B'' \<rparr>]) None)
    in map bq_expression (rd_queryData r) = [''A''] \<and> map bq_selectColumns (rd_queryData r) = [[]]
       \<and> map tq_name (rd_queryTraceOperator r) = [''Trace Operator'']
       \<and> map (\<lambda>b. bs_functions (bu_base (builder_query R_time_series None (''B'', b)))) (q # rd_queryData r)
         = [Some [\<lparr> fn_name = ''ewma3'', fn_args = Some [\<lparr> fa_name = Some ''alpha'', fa_value = SNum 1 \<rparr>], fn_namedArgs = [] \<rparr>],
            Some [\<lparr> fn_name = ''ewma3'', fn_args = Some [\<lparr> fa_name = None, fa_value = SNum 1 \<rparr>], fn_namedArgs = [] \<rparr>]])"
  by code_simp

end
