(* ===== verification/QueryTable.thy ===== *)
theory QueryTable
  imports QueryResponse QueryComposite
begin

text \<open>
  The table of a query: \<^verbatim>\<open>frontend/src/lib/query/createTableColumnsFromQuery.ts\<close>.  The columns are
  collected from the answers and then filled row by row; the code mutates the columns in place, which the
  definitions here thread through folds.  The identifiers \<^verbatim>\<open>uuid()\<close> of the rows are an argument.
  Rendering functions are left out.  Numbers are exact and printed without an exponent.
\<close>

section \<open>Columns\<close>

datatype staged_query =
    StagedQuery IBuilderQuery
  | StagedFormula IBuilderFormula
  | StagedClickHouse IClickHouseQuery
  | StagedProm IPromQLQuery

datatype column_type = FieldColumn | OperatorColumn | FormulaColumn

record DynamicColumn =
  dc_query :: staged_query
  dc_field :: string
  dc_dataIndex :: string
  dc_title :: string
  dc_data :: "cell list"
  dc_type :: column_type
  dc_id :: "string option"

text \<open>\<^verbatim>\<open>/F\d+/\<close>: somewhere an F before a digit.\<close>

fun isFormula :: "string \<Rightarrow> bool" where
  "isFormula (c # d # cs) = ((c = CHR ''F'' \<and> is_digit d) \<or> isFormula (d # cs))"
| "isFormula _ = False"

definition find_or :: "('a \<Rightarrow> bool) \<Rightarrow> 'a list \<Rightarrow> 'a \<Rightarrow> 'a" where
  "find_or P xs d = (case find P xs of None \<Rightarrow> d | Some x \<Rightarrow> x)"

definition getQueryByName :: "query \<Rightarrow> string \<Rightarrow> staged_query" where
  "getQueryByName q currentQueryName =
     (case q_queryType q of
        CLICKHOUSE \<Rightarrow>
          StagedClickHouse (find_or (\<lambda>c. rq_name c = currentQueryName) (q_clickhouse_sql q) initialClickHouseData)
      | QUERY_BUILDER \<Rightarrow>
          if isFormula currentQueryName
          then StagedFormula (find_or (\<lambda>f. bf_queryName f = currentQueryName) (q_queryFormulas q) initialFormulaBuilderFormValues)
          else StagedQuery (find_or (\<lambda>b. bq_queryName b = currentQueryName) (q_queryData q) initialQueryBuilderFormValues)
      | PROM \<Rightarrow>
          StagedProm (find_or (\<lambda>c. rq_name c = currentQueryName) (q_promql q) initialQueryPromQLData))"

definition addLabels :: "staged_query \<Rightarrow> string option \<Rightarrow> string \<Rightarrow> DynamicColumn list \<Rightarrow> DynamicColumn list" where
  "addLabels q columnId label cols =
     (if list_ex (\<lambda>c. dc_dataIndex c = label) cols then cols
      else cols @ [\<lparr> dc_query = q, dc_field = label, dc_dataIndex = label, dc_title = label, dc_data = [],
        dc_type = FieldColumn, dc_id = columnId \<rparr>])"

definition staged_name :: "staged_query \<Rightarrow> string" where
  "staged_name q = (case q of StagedQuery b \<Rightarrow> bq_queryName b | StagedFormula f \<Rightarrow> bf_queryName f | _ \<Rightarrow> [])"

text \<open>The operator of the label of an old query; an attribute without a key is left out.\<close>

definition operator_label :: "IBuilderQuery \<Rightarrow> string" where
  "operator_label b =
     or_text (bq_legend b)
       (template_text (bq_aggregateOperator b) @
        (let key = or_text (map_option ac_key (bq_aggregateAttribute b)) [] in if key = [] then [] else ''('' @ key @ '')''))"

text \<open>
  A query whose name looks like a formula has its column built from the fields of a formula; on a builder
  query those are its expression and legend.
\<close>

definition formula_column :: "staged_query \<Rightarrow> string option \<Rightarrow> string option \<Rightarrow> DynamicColumn" where
  "formula_column q customLabel columnId =
     (let name = staged_name q;
          expression = (case q of StagedQuery b \<Rightarrow> bq_expression b | StagedFormula f \<Rightarrow> bf_expression f | _ \<Rightarrow> []);
          legend = (case q of StagedQuery b \<Rightarrow> bq_legend b | StagedFormula f \<Rightarrow> bf_legend f | _ \<Rightarrow> None);
          formulaLabel = or_text legend (name @ ''('' @ expression @ '')'')
      in \<lparr> dc_query = q, dc_field = name, dc_dataIndex = name, dc_title = or_text customLabel formulaLabel, dc_data = [],
           dc_type = FormulaColumn, dc_id = columnId \<rparr>)"

definition addOperatorFormulaColumns ::
  "staged_query \<Rightarrow> string option \<Rightarrow> string option \<Rightarrow> DynamicColumn list \<Rightarrow> DynamicColumn list" where
  "addOperatorFormulaColumns q customLabel columnId cols =
     (if isFormula (staged_name q) then cols @ [formula_column q customLabel columnId]
      else cols @
        [case q of
           StagedClickHouse c \<Rightarrow>
             \<lparr> dc_query = q, dc_field = rq_name c, dc_dataIndex = rq_name c,
               dc_title = or_text customLabel (or_text (rq_legend c) (rq_name c)), dc_data = [], dc_type = OperatorColumn,
               dc_id = None \<rparr>
         | StagedProm c \<Rightarrow>
             \<lparr> dc_query = q, dc_field = rq_name c, dc_dataIndex = rq_name c,
               dc_title = or_text customLabel (or_text (rq_legend c) (rq_name c)), dc_data = [], dc_type = OperatorColumn,
               dc_id = columnId \<rparr>
         | StagedQuery b \<Rightarrow>
             \<lparr> dc_query = q, dc_field = bq_queryName b, dc_dataIndex = or_text customLabel (bq_queryName b),
               dc_title = or_text customLabel (operator_label b), dc_data = [], dc_type = OperatorColumn, dc_id = columnId \<rparr>
         | StagedFormula f \<Rightarrow>
             \<lparr> dc_query = q, dc_field = bf_queryName f, dc_dataIndex = or_text customLabel (bf_queryName f),
               dc_title = or_text customLabel (or_text (bf_legend f) ''undefined''), dc_data = [], dc_type = OperatorColumn,
               dc_id = columnId \<rparr>])"

definition process_table_column :: "staged_query \<Rightarrow> Column \<Rightarrow> DynamicColumn list \<Rightarrow> DynamicColumn list" where
  "process_table_column q column cols =
     (if cl_isValueColumn column then addOperatorFormulaColumns q (Some (cl_name column)) (Some (cl_id column)) cols
      else addLabels q (Some (cl_id column)) (cl_name column) cols)"

definition processTableColumns :: "query_table \<Rightarrow> staged_query \<Rightarrow> DynamicColumn list \<Rightarrow> DynamicColumn list" where
  "processTableColumns table q cols = fold (process_table_column q) (qt_columns table) cols"

definition series_labels :: "string \<Rightarrow> SeriesItem \<Rightarrow> string list" where
  "series_labels queryName seria = filter (\<lambda>label. label \<noteq> queryName) (concat (map obj_keys (si_labelsArray seria)))"

definition processSeriesColumns ::
  "SeriesItem list \<Rightarrow> staged_query \<Rightarrow> string \<Rightarrow> DynamicColumn list \<Rightarrow> DynamicColumn list" where
  "processSeriesColumns series q queryName cols =
     (let isValuesColumnExist = list_ex (\<lambda>item. si_values item \<noteq> []) series;
          isEveryValuesExist = list_all (\<lambda>item. si_values item \<noteq> []) series;
          cols' = (if isValuesColumnExist
                   then addOperatorFormulaColumns q (if isEveryValuesExist then None else Some (staged_name q)) None cols
                   else cols)
      in fold (addLabels q None) (concat (map (series_labels queryName) series)) cols')"

definition add_query_columns :: "query \<Rightarrow> QueryDataV3 \<Rightarrow> DynamicColumn list \<Rightarrow> DynamicColumn list" where
  "add_query_columns q currentQuery cols =
     (let staged = getQueryByName q (qr_queryName currentQuery);
          listed = (case qr_list currentQuery of None \<Rightarrow> cols
                    | Some items \<Rightarrow> fold (addLabels staged None) (concat (map (\<lambda>i. obj_keys (li_data i)) items)) cols);
          tabled = (case qr_table currentQuery of None \<Rightarrow> listed | Some t \<Rightarrow> processTableColumns t staged listed)
      in case qr_series currentQuery of None \<Rightarrow> tabled
         | Some series \<Rightarrow> processSeriesColumns series staged (qr_queryName currentQuery) tabled)"

definition getDynamicColumns :: "QueryDataV3 list \<Rightarrow> query \<Rightarrow> DynamicColumn list" where
  "getDynamicColumns queryTableData q = fold (add_query_columns q) queryTableData []"

section \<open>Cells\<close>

text \<open>\<^verbatim>\<open>toFixed(2)\<close>: two decimals, halves away from zero.\<close>

definition two_digits :: "nat \<Rightarrow> string" where
  "two_digits n = (if n < 10 then CHR ''0'' # nat_str n else nat_str n)"

definition toFixed2 :: "js_number \<Rightarrow> string" where
  "toFixed2 v =
     (case v of
        JNum r \<Rightarrow>
          (let n = nat \<lfloor>\<bar>r\<bar> * 100 + 1 / 2\<rfloor>; s = nat_str (n div 100) @ ''.'' @ two_digits (n mod 100)
           in if r < 0 then CHR ''-'' # s else s)
      | _ \<Rightarrow> number_text v)"

definition push :: "cell \<Rightarrow> DynamicColumn \<Rightarrow> DynamicColumn" where
  "push v column = column\<lparr> dc_data := dc_data column @ [v] \<rparr>"

definition N_A :: cell where
  "N_A = CStr ''N/A''"

text \<open>What a table shows of a value.\<close>

definition table_cell :: "cell \<Rightarrow> cell" where
  "table_cell v =
     (case v of
        CNull \<Rightarrow> N_A
      | CObject s \<Rightarrow> CStr s
      | CNum n \<Rightarrow> CNum n
      | CBool b \<Rightarrow> CNum (JNum (if b then 1 else 0))
      | CStr s \<Rightarrow> if s = [] then N_A else if number_of_text s \<noteq> JNaN then CNum (number_of_text s) else CStr s)"

definition processTableRowValue :: "cell \<Rightarrow> DynamicColumn \<Rightarrow> DynamicColumn" where
  "processTableRowValue v column = push (table_cell v) column"

definition list_cell :: "cell \<Rightarrow> cell" where
  "list_cell v =
     (case v of
        CNull \<Rightarrow> CStr []
      | CObject s \<Rightarrow> CStr s
      | CNum n \<Rightarrow> CStr (number_text n)
      | CBool b \<Rightarrow> CStr (if b then ''true'' else ''false'')
      | CStr s \<Rightarrow> if s = [] then N_A else CStr s)"

section \<open>Filling from series\<close>

definition findSeriaValueFromAnotherQuery :: "string jsobj \<Rightarrow> QueryDataV3 option \<Rightarrow> bool" where
  "findSeriaValueFromAnotherQuery currentLabels nextQuery =
     (case nextQuery of None \<Rightarrow> False
      | Some q \<Rightarrow> (case qr_series q of None \<Rightarrow> False
          | Some series \<Rightarrow> list_ex (\<lambda>seria. obj_entries (si_labels seria) = obj_entries currentLabels) series))"

text \<open>The columns, the fields of a row that have no cell yet, and the queries whose labels were seen elsewhere.\<close>

record fill_state =
  fs_columns :: "DynamicColumn list"
  fs_unused :: "string list"
  fs_equal :: "string list"

definition update_column :: "nat \<Rightarrow> (DynamicColumn \<Rightarrow> DynamicColumn) \<Rightarrow> fill_state \<Rightarrow> fill_state" where
  "update_column i f st = st\<lparr> fs_columns := (fs_columns st)[i := f (fs_columns st ! i)] \<rparr>"

definition use_field :: "string \<Rightarrow> fill_state \<Rightarrow> fill_state" where
  "use_field field st = st\<lparr> fs_unused := removeAll field (fs_unused st) \<rparr>"

definition fillAggregationData :: "nat \<Rightarrow> string \<Rightarrow> fill_state \<Rightarrow> fill_state" where
  "fillAggregationData i v st =
     use_field (dc_field (fs_columns st ! i)) (update_column i (push (CStr (toFixed2 (parseFloat v)))) st)"

definition fillRestAggregationData :: "nat \<Rightarrow> QueryDataV3 list \<Rightarrow> SeriesItem \<Rightarrow> bool \<Rightarrow> fill_state \<Rightarrow> fill_state" where
  "fillRestAggregationData i queryTableData seria isEqualQuery st =
     (let column = fs_columns st ! i;
          nextQueryData = find (\<lambda>q. qr_queryName q = dc_field column) queryTableData
      in if findSeriaValueFromAnotherQuery (si_labels seria) nextQueryData
         then (if dc_field column \<in> set (fs_equal st) then st else st\<lparr> fs_equal := fs_equal st @ [dc_field column] \<rparr>)
         else if \<not> isEqualQuery then update_column i (push N_A) st else st)"

definition fillLabelsData :: "nat \<Rightarrow> SeriesItem \<Rightarrow> fill_state \<Rightarrow> fill_state" where
  "fillLabelsData i seria st =
     fold (\<lambda>(key, currentValue) st'. if dc_field (fs_columns st' ! i) = key
         then use_field key (update_column i (push (CStr currentValue)) st') else st')
       (obj_entries (si_labels seria)) st"

text \<open>The field of the column, if it is still unused: the first column with that field gets a cell.\<close>

definition fillEmptyRowCells :: "nat \<Rightarrow> fill_state \<Rightarrow> fill_state" where
  "fillEmptyRowCells i st =
     (let key = dc_field (fs_columns st ! i) in
      if key \<in> set (fs_unused st)
      then use_field key (update_column (length (takeWhile (\<lambda>c. dc_field c \<noteq> key) (fs_columns st))) (push N_A) st)
      else st)"

definition fill_series_cell :: "string \<Rightarrow> QueryDataV3 list \<Rightarrow> bool \<Rightarrow> SeriesItem \<Rightarrow> nat \<Rightarrow> fill_state \<Rightarrow> fill_state" where
  "fill_series_cell queryName queryTableData isEqualQuery seria i st =
     (let column = fs_columns st ! i in
      if queryName = dc_field column then
        (case si_values seria of [] \<Rightarrow> st
         | (_, v) # _ \<Rightarrow> fillAggregationData i (toFixed2 (parseFloat v)) st)
      else if dc_type column \<noteq> FieldColumn then fillRestAggregationData i queryTableData seria isEqualQuery st
      else if isEqualQuery then st
      else fillEmptyRowCells i (fillLabelsData i seria st))"

definition fill_seria :: "string \<Rightarrow> QueryDataV3 list \<Rightarrow> bool \<Rightarrow> SeriesItem \<Rightarrow> fill_state \<Rightarrow> fill_state" where
  "fill_seria queryName queryTableData isEqualQuery seria st =
     fold (fill_series_cell queryName queryTableData isEqualQuery seria) [0..<length (fs_columns st)]
       (st\<lparr> fs_unused := map dc_field (fs_columns st) \<rparr>)"

definition fillDataFromSeries :: "QueryDataV3 list \<Rightarrow> QueryDataV3 \<Rightarrow> fill_state \<Rightarrow> fill_state" where
  "fillDataFromSeries queryTableData currentQuery st =
     (case qr_series currentQuery of None \<Rightarrow> st
      | Some series \<Rightarrow>
          fold (fill_seria (qr_queryName currentQuery) queryTableData (qr_queryName currentQuery \<in> set (fs_equal st))) series st)"

section \<open>Filling from lists and tables\<close>

definition fillDataFromList :: "ListItem \<Rightarrow> DynamicColumn \<Rightarrow> DynamicColumn" where
  "fillDataFromList listItem column =
     (if isFormula (dc_field column) then column
      else (case obj_get (li_data listItem) (dc_dataIndex column) of
              None \<Rightarrow> column | Some v \<Rightarrow> push (list_cell v) column))"

definition id_or_title :: "DynamicColumn \<Rightarrow> string" where
  "id_or_title column = or_text (dc_id column) (dc_title column)"

definition column_field :: "DynamicColumn \<Rightarrow> string" where
  "column_field column = or_text (dc_id column) (or_text (Some (dc_title column)) (dc_field column))"

definition fill_table_cell :: "cell jsobj \<Rightarrow> DynamicColumn \<Rightarrow> DynamicColumn" where
  "fill_table_cell row column =
     (case obj_get row (column_field column) of None \<Rightarrow> push N_A column | Some v \<Rightarrow> processTableRowValue v column)"

text \<open>A column without identifier and title is not marked as used and gets a second cell.\<close>

definition fill_unused :: "string \<Rightarrow> DynamicColumn list \<Rightarrow> DynamicColumn list" where
  "fill_unused key cols =
     (let i = length (takeWhile (\<lambda>c. \<not> (dc_id c = Some key \<or> dc_title c = key)) cols)
      in if i < length cols then cols[i := push N_A (cols ! i)] else cols)"

definition fill_table_row :: "cell jsobj \<Rightarrow> DynamicColumn list \<Rightarrow> DynamicColumn list" where
  "fill_table_row row cols =
     (let unused = filter (\<lambda>key. key \<notin> set (map column_field cols)) (set_of_list (map id_or_title cols))
      in fold fill_unused unused (map (fill_table_cell row) cols))"

definition fillDataFromTable :: "QueryDataV3 \<Rightarrow> DynamicColumn list \<Rightarrow> DynamicColumn list" where
  "fillDataFromTable currentQuery cols =
     (case qr_table currentQuery of None \<Rightarrow> cols | Some t \<Rightarrow> fold fill_table_row (qt_rows t) cols)"

definition fill_query :: "QueryDataV3 list \<Rightarrow> QueryDataV3 \<Rightarrow> fill_state \<Rightarrow> fill_state" where
  "fill_query queryTableData currentQuery st =
     (let st1 = fillDataFromSeries queryTableData currentQuery st;
          cols1 = fold (\<lambda>item. map (fillDataFromList item)) (keep [] (qr_list currentQuery)) (fs_columns st1)
      in st1\<lparr> fs_columns := fillDataFromTable currentQuery cols1 \<rparr>)"

definition sorted_columns :: "DynamicColumn list \<Rightarrow> DynamicColumn list" where
  "sorted_columns cols =
     filter (\<lambda>c. dc_type c = FieldColumn) cols @ filter (\<lambda>c. dc_type c = OperatorColumn) cols
       @ filter (\<lambda>c. dc_type c = FormulaColumn) cols"

definition fillColumnsData :: "QueryDataV3 list \<Rightarrow> DynamicColumn list \<Rightarrow> DynamicColumn list \<times> nat" where
  "fillColumnsData queryTableData cols =
     (let st = fold (fill_query queryTableData) queryTableData
            \<lparr> fs_columns = sorted_columns cols, fs_unused = [], fs_equal = [] \<rparr>
      in (fs_columns st, case fs_columns st of [] \<Rightarrow> 0 | c # _ \<Rightarrow> length (dc_data c)))"

section \<open>Rows\<close>

definition data_key :: "DynamicColumn \<Rightarrow> string" where
  "data_key item = or_text (dc_id item) (dc_dataIndex item)"

text \<open>One row: each column assigns its cell, and then the key of the row.\<close>

definition row_of :: "(nat \<Rightarrow> string) \<Rightarrow> DynamicColumn list \<Rightarrow> nat \<Rightarrow> cell jsobj" where
  "row_of uuid cols i =
     fold (\<lambda>item acc. obj_set ''key'' (CStr (uuid i)) (obj_set (data_key item) (cell_at (dc_data item) i) acc)) cols []"

definition generateData :: "(nat \<Rightarrow> string) \<Rightarrow> DynamicColumn list \<Rightarrow> nat \<Rightarrow> cell jsobj list" where
  "generateData uuid cols rowsLength = map (row_of uuid cols) [0..<rowsLength]"

record table_header =
  th_dataIndex :: string
  th_title :: string

definition generateTableColumns :: "DynamicColumn list \<Rightarrow> table_header list" where
  "generateTableColumns cols = map (\<lambda>item. \<lparr> th_dataIndex = data_key item, th_title = dc_title item \<rparr>) cols"

definition createTableColumnsFromQuery ::
  "(nat \<Rightarrow> string) \<Rightarrow> query \<Rightarrow> QueryDataV3 list \<Rightarrow> table_header list \<times> cell jsobj list \<times> nat" where
  "createTableColumnsFromQuery uuid q queryTableData =
     (let sortedQueryTableData = sort_key qr_queryName queryTableData;
          (filledDynamicColumns, rowsLength) =
            fillColumnsData sortedQueryTableData (getDynamicColumns sortedQueryTableData q)
      in (generateTableColumns filledDynamicColumns, generateData uuid filledDynamicColumns rowsLength, rowsLength))"

section \<open>Units and widths of columns\<close>

definition before_dot :: "string \<Rightarrow> string" where
  "before_dot s = hd (split_on (CHR ''.'') s)"

definition none_if_empty :: "string \<Rightarrow> string" where
  "none_if_empty unit = (if unit = [] then ''none'' else unit)"

definition getColumnUnit :: "string \<Rightarrow> string jsobj \<Rightarrow> string option" where
  "getColumnUnit columnKey columnUnits =
     (case obj_get columnUnits columnKey of
        Some unit \<Rightarrow> Some (none_if_empty unit)
      | None \<Rightarrow> if CHR ''.'' \<in> set columnKey then map_option none_if_empty (obj_get columnUnits (before_dot columnKey)) else None)"

definition getColumnWidth :: "string \<Rightarrow> int jsobj \<Rightarrow> int option" where
  "getColumnWidth columnKey columnWidths =
     (case int_or (obj_get columnWidths columnKey) None of
        Some width \<Rightarrow> Some width
      | None \<Rightarrow> if CHR ''.'' \<in> set columnKey then obj_get columnWidths (before_dot columnKey) else None)"

end
