(* ===== verification/QueryTableProperties.thy ===== *)
theory QueryTableProperties
  imports QueryTable
begin

text \<open>
  What the table of a query shows: every cell of the answers, in the row of its answer and the column with its
  identifier, and N/A elsewhere; and the answers for which this fails.
\<close>

section \<open>Filling tables\<close>

definition keyed :: "DynamicColumn \<Rightarrow> bool" where
  "keyed c \<longleftrightarrow> (\<exists>k. dc_id c = Some k \<and> k \<noteq> [])"

text \<open>What a row shows under a key.\<close>

definition shown :: "string \<Rightarrow> cell jsobj \<Rightarrow> cell" where
  "shown k row = (case obj_get row k of None \<Rightarrow> N_A | Some v \<Rightarrow> table_cell v)"

definition append_rows :: "cell jsobj list \<Rightarrow> DynamicColumn \<Rightarrow> DynamicColumn" where
  "append_rows rows c = c\<lparr> dc_data := dc_data c @ map (shown (column_field c)) rows \<rparr>"

named_theorems columns \<open>keys of columns under updates of their data\<close>

lemma keyed_keys [columns]: "keyed c \<Longrightarrow> data_key c = column_field c" "keyed c \<Longrightarrow> id_or_title c = column_field c"
  by (auto simp: keyed_def data_key_def column_field_def id_or_title_def)

lemma update_data_keys [columns, simp]:
  "column_field (c\<lparr> dc_data := d \<rparr>) = column_field c" "data_key (c\<lparr> dc_data := d \<rparr>) = data_key c"
  "keyed (c\<lparr> dc_data := d \<rparr>) = keyed c" "id_or_title (c\<lparr> dc_data := d \<rparr>) = id_or_title c"
  by (simp_all add: column_field_def data_key_def keyed_def id_or_title_def)

lemma append_rows_keys [columns, simp]:
  "column_field (append_rows rows c) = column_field c" "data_key (append_rows rows c) = data_key c"
  "keyed (append_rows rows c) = keyed c" "dc_title (append_rows rows c) = dc_title c"
  by (simp_all add: append_rows_def)

lemma append_rows_append: "append_rows (rows @ rows') c = append_rows rows' (append_rows rows c)"
  by (simp add: append_rows_def column_field_def)

lemma append_no_rows [simp]: "append_rows [] c = c"
  by (simp add: append_rows_def)

lemma fill_table_cell_append: "fill_table_cell row c = append_rows [row] c"
  by (simp add: fill_table_cell_def append_rows_def shown_def processTableRowValue_def push_def split: option.splits)

lemma fill_table_row_keyed:
  assumes "list_all keyed cols"
  shows "fill_table_row row cols = map (append_rows [row]) cols"
proof -
  have "map id_or_title cols = map column_field cols"
    using assms by (intro map_cong refl) (auto simp: list_all_iff columns)
  then have "filter (\<lambda>key. key \<notin> set (map column_field cols)) (set_of_list (map id_or_title cols)) = []"
    by (auto simp: filter_empty_conv)
  then show ?thesis by (simp add: fill_table_row_def fill_table_cell_append fun_eq_iff)
qed

lemma fill_rows_keyed:
  "list_all keyed cols \<Longrightarrow> fold fill_table_row rows cols = map (append_rows rows) cols"
proof (induction rows arbitrary: cols)
  case (Cons row rows)
  then have "list_all keyed (map (append_rows [row]) cols)" by (simp add: list_all_iff)
  with Cons show ?case
    using append_rows_append [of "[row]" rows] by (simp add: fill_table_row_keyed)
qed (simp add: map_idI)

text \<open>Answers that are tables, as the conversion for tables makes them.\<close>

definition table_only :: "QueryDataV3 \<Rightarrow> bool" where
  "table_only qd \<longleftrightarrow> qr_series qd = None \<and> qr_list qd = None \<and>
     (\<exists>t. qr_table qd = Some t \<and> list_all (\<lambda>c. cl_id c \<noteq> []) (qt_columns t))"

definition rows_of :: "QueryDataV3 \<Rightarrow> cell jsobj list" where
  "rows_of qd = (case qr_table qd of None \<Rightarrow> [] | Some t \<Rightarrow> qt_rows t)"

definition columns_of :: "QueryDataV3 \<Rightarrow> Column list" where
  "columns_of qd = (case qr_table qd of None \<Rightarrow> [] | Some t \<Rightarrow> qt_columns t)"

lemma fill_query_table:
  assumes "table_only qd" "list_all keyed (fs_columns st)"
  shows "fill_query qs qd st = st\<lparr> fs_columns := map (append_rows (rows_of qd)) (fs_columns st) \<rparr>"
  using assms
  by (auto simp: table_only_def fill_query_def fillDataFromSeries_def fillDataFromTable_def rows_of_def fill_rows_keyed)

lemma fill_queries_table:
  assumes "list_all table_only qds" "list_all keyed (fs_columns st)"
  shows "fs_columns (fold (fill_query qs) qds st) = map (append_rows (concat (map rows_of qds))) (fs_columns st)"
  using assms
proof (induction qds arbitrary: st)
  case (Cons qd qds)
  then have "list_all keyed (map (append_rows (rows_of qd)) (fs_columns st))" by (simp add: list_all_iff)
  with Cons show ?case by (simp add: fill_query_table append_rows_append)
qed (simp add: map_idI)

section \<open>Columns of tables\<close>

definition fresh_column :: "DynamicColumn \<Rightarrow> bool" where
  "fresh_column c \<longleftrightarrow> keyed c \<and> dc_data c = []"

lemma added_columns:
  "cid \<noteq> [] \<Longrightarrow> list_all fresh_column cols \<Longrightarrow> list_all fresh_column (addLabels q (Some cid) label cols)"
  "cid \<noteq> [] \<Longrightarrow> (\<And>c. q \<noteq> StagedClickHouse c) \<Longrightarrow> list_all fresh_column cols
     \<Longrightarrow> list_all fresh_column (addOperatorFormulaColumns q l (Some cid) cols)"
  by (auto simp: addLabels_def addOperatorFormulaColumns_def formula_column_def Let_def fresh_column_def keyed_def
      split: staged_query.splits)

lemma staged_not_clickhouse: "q_queryType q \<noteq> CLICKHOUSE \<Longrightarrow> getQueryByName q n \<noteq> StagedClickHouse c"
  by (auto simp: getQueryByName_def split: EQueryType.splits)

lemma processed_columns:
  "list_all (\<lambda>c. cl_id c \<noteq> []) tcs \<Longrightarrow> (\<And>c. s \<noteq> StagedClickHouse c) \<Longrightarrow> list_all fresh_column cols
     \<Longrightarrow> list_all fresh_column (fold (process_table_column s) tcs cols)"
  by (induction tcs arbitrary: cols) (auto simp: process_table_column_def added_columns)

lemma add_query_columns_table:
  "table_only qd \<Longrightarrow> add_query_columns q qd cols
     = fold (process_table_column (getQueryByName q (qr_queryName qd))) (columns_of qd) cols"
  by (auto simp: add_query_columns_def table_only_def processTableColumns_def columns_of_def Let_def)

lemma dynamic_columns_fresh:
  assumes "q_queryType q \<noteq> CLICKHOUSE" "list_all table_only qds"
  shows "list_all fresh_column (getDynamicColumns qds q)"
proof -
  have "list_all table_only qds \<Longrightarrow> list_all fresh_column cols
      \<Longrightarrow> list_all fresh_column (fold (add_query_columns q) qds cols)" for cols
  proof (induction qds arbitrary: cols)
    case (Cons qd qds)
    have "list_all (\<lambda>c. cl_id c \<noteq> []) (columns_of qd)" using Cons.prems by (auto simp: table_only_def columns_of_def)
    then have "list_all fresh_column (add_query_columns q qd cols)"
      using Cons.prems staged_not_clickhouse [OF assms(1)]
      by (simp add: add_query_columns_table processed_columns)
    with Cons show ?case by simp
  qed simp
  from this [OF assms(2), of "[]"] show ?thesis by (simp add: getDynamicColumns_def)
qed

lemma set_sorted_columns [simp]: "set (sorted_columns cols) = set cols"
proof -
  have "dc_type c = FieldColumn \<or> dc_type c = OperatorColumn \<or> dc_type c = FormulaColumn" for c
    by (cases "dc_type c") auto
  then show ?thesis by (auto simp: sorted_columns_def)
qed

section \<open>Rows\<close>

lemma row_get:
  assumes "k \<noteq> ''key''" "\<And>c. c \<in> set cols \<Longrightarrow> data_key c = k \<Longrightarrow> cell_at (dc_data c) i = v"
  shows "obj_get (fold (\<lambda>item acc. obj_set ''key'' (CStr u) (obj_set (data_key item) (cell_at (dc_data item) i) acc)) cols acc) k
    = (if \<exists>c \<in> set cols. data_key c = k then Some v else obj_get acc k)"
  using assms(2)
proof (induction cols arbitrary: acc)
  case (Cons c cols)
  then show ?case using assms(1) by (cases "data_key c = k") auto
qed simp

lemma created_table:
  assumes "q_queryType q \<noteq> CLICKHOUSE" "list_all table_only qds"
  defines "qds1 \<equiv> sort_key qr_queryName qds"
  defines "rows \<equiv> concat (map rows_of qds1)" and "cols \<equiv> sorted_columns (getDynamicColumns qds1 q)"
  shows "fst (fillColumnsData qds1 (getDynamicColumns qds1 q)) = map (append_rows rows) cols"
    "snd (fillColumnsData qds1 (getDynamicColumns qds1 q)) = (if cols = [] then 0 else length rows)"
    "list_all fresh_column cols"
proof -
  have t: "list_all table_only qds1" using assms(2) by (simp add: qds1_def list_all_iff)
  show f: "list_all fresh_column cols"
    using dynamic_columns_fresh [OF assms(1) t] by (simp add: cols_def list_all_iff)
  then have "list_all keyed cols" by (simp add: list_all_iff fresh_column_def)
  then have e: "fs_columns (fold (fill_query qds1) qds1 \<lparr> fs_columns = cols, fs_unused = [], fs_equal = [] \<rparr>)
      = map (append_rows rows) cols"
    using fill_queries_table [OF t] by (simp add: rows_def)
  show "fst (fillColumnsData qds1 (getDynamicColumns qds1 q)) = map (append_rows rows) cols"
    using e by (simp add: fillColumnsData_def Let_def cols_def)
  have "(case map (append_rows rows) cols of [] \<Rightarrow> 0 | c # _ \<Rightarrow> length (dc_data c)) = (if cols = [] then 0 else length rows)"
    using f by (cases cols) (auto simp: append_rows_def fresh_column_def)
  then show "snd (fillColumnsData qds1 (getDynamicColumns qds1 q)) = (if cols = [] then 0 else length rows)"
    using e by (simp add: fillColumnsData_def Let_def cols_def)
qed

lemma table_headers:
  assumes "q_queryType q \<noteq> CLICKHOUSE" "list_all table_only qds"
    and "createTableColumnsFromQuery uuid q qds = (headers, rows, n)"
  shows "th_dataIndex ` set headers = data_key ` set (getDynamicColumns (sort_key qr_queryName qds) q)"
  using created_table [OF assms(1,2)] assms(3)
  by (auto simp: createTableColumnsFromQuery_def generateTableColumns_def image_image Let_def split: prod.splits)

text \<open>The table of answers that are tables has one row for each of their rows, in the order of the query names; a
  row shows under the identifier of a column the value it has for it, and N/A if it has none.\<close>

theorem table_rows:
  assumes "q_queryType q \<noteq> CLICKHOUSE" "list_all table_only qds"
    and "createTableColumnsFromQuery uuid q qds = (headers, rows, n)"
  defines "answers \<equiv> concat (map rows_of (sort_key qr_queryName qds))"
  shows "n = (if headers = [] then 0 else length answers) \<and> length rows = n
    \<and> (\<forall>i < n. \<forall>k \<in> th_dataIndex ` set headers. k \<noteq> ''key'' \<longrightarrow> obj_get (rows ! i) k = Some (shown k (answers ! i)))"
proof -
  let ?sorted = "sort_key qr_queryName qds"
  let ?cols = "sorted_columns (getDynamicColumns ?sorted q)"
  note t = created_table [OF assms(1,2)]
  let ?filled = "map (append_rows answers) ?cols"
  have h: "headers = generateTableColumns ?filled" and n: "n = (if ?cols = [] then 0 else length answers)"
    and r: "rows = generateData uuid ?filled n"
    using assms(3) t by (auto simp: createTableColumnsFromQuery_def Let_def answers_def split: prod.splits)
  have keys: "th_dataIndex ` set headers = data_key ` set ?cols"
    by (simp add: h generateTableColumns_def image_image)
  have "obj_get (rows ! i) k = Some (shown k (answers ! i))"
    if i: "i < n" and k: "k \<in> data_key ` set ?cols" "k \<noteq> ''key''" for i k
  proof -
    have l: "i < length answers" using i n by (simp split: if_splits)
    have "cell_at (dc_data c) i = shown k (answers ! i)" if c: "c \<in> set ?filled" "data_key c = k" for c
    proof -
      obtain d where d: "d \<in> set ?cols" "c = append_rows answers d" using c(1) by auto
      then have "keyed d" "dc_data d = []" using t(3) by (simp_all add: list_all_iff fresh_column_def)
      then show ?thesis using l c(2) d(2) by (simp add: append_rows_def cell_at_def columns)
    qed
    moreover have "\<exists>c \<in> set ?filled. data_key c = k" using k(1) by auto
    ultimately have "obj_get (row_of uuid ?filled i) k = Some (shown k (answers ! i))"
      using row_get [OF k(2), of ?filled i "shown k (answers ! i)" "uuid i" "[]"] by (simp add: row_of_def)
    then show ?thesis using r i by (simp add: generateData_def)
  qed
  moreover have "headers = [] \<longleftrightarrow> ?cols = []" by (simp add: h generateTableColumns_def)
  ultimately show ?thesis using n r keys by (simp add: generateData_def)
qed

section \<open>From the answer to the table\<close>

lemma row_data_get:
  assumes "distinct (map column_key cols)" "j < length cols"
  shows "obj_get (row_data cols dataRow) (column_key (cols ! j)) = Some (cell_at dataRow j)"
proof -
  let ?kvs = "map (\<lambda>(i, col). (column_key col, cell_at dataRow i)) (enumerate 0 cols)"
  have r: "row_data cols dataRow = fold (\<lambda>(k, v). obj_set k v) ?kvs []"
    by (simp add: row_data_def fold_map comp_def split_def)
  have k: "map fst ?kvs = map column_key cols"
    by (rule nth_equalityI) (simp_all add: nth_enumerate_eq)
  have "?kvs ! j = (column_key (cols ! j), cell_at dataRow j)" "j < length ?kvs"
    using assms(2) by (simp_all add: nth_enumerate_eq)
  then have "(column_key (cols ! j), cell_at dataRow j) \<in> set ?kvs" by (metis nth_mem)
  then have "map_of ?kvs (column_key (cols ! j)) = Some (cell_at dataRow j)"
    using assms(1) k by (intro map_of_is_SomeI) simp_all
  then show ?thesis
    using assms(1) k by (simp add: r obj_get_fold_set map_of_rev_distinct del: fold_map)
qed

text \<open>Field columns show what they are named after, and value columns are not named like a field.\<close>

definition unmixed :: "string set \<Rightarrow> DynamicColumn list \<Rightarrow> bool" where
  "unmixed groups cols \<longleftrightarrow> (\<forall>c \<in> set cols. dc_dataIndex c \<in> groups \<longrightarrow> data_key c = dc_dataIndex c)"

definition value_index :: "staged_query \<Rightarrow> string \<Rightarrow> string" where
  "value_index q name = (if isFormula (staged_name q) then staged_name q else or_text (Some name) (staged_name q))"

lemma value_column_added:
  assumes "\<And>c. s \<noteq> StagedClickHouse c" "\<And>c. s \<noteq> StagedProm c"
  shows "\<exists>d. addOperatorFormulaColumns s (Some name) (Some cid) cols = cols @ [d]
    \<and> dc_dataIndex d = value_index s name \<and> dc_id d = Some cid"
proof (cases "isFormula (staged_name s)")
  case True
  then show ?thesis by (simp add: addOperatorFormulaColumns_def formula_column_def value_index_def Let_def)
next
  case False
  then show ?thesis
  proof (cases s)
    case (StagedClickHouse c)
    then show ?thesis using assms(1) by blast
  next
    case (StagedProm c)
    then show ?thesis using assms(2) by blast
  qed (simp_all add: addOperatorFormulaColumns_def value_index_def staged_name_def)
qed

lemma superset_step: "A \<supseteq> insert a S \<Longrightarrow> B \<supseteq> T \<union> A \<Longrightarrow> B \<supseteq> insert a T \<union> S"
  by blast

lemma processed_keys:
  assumes "list_all (\<lambda>c. cl_id c \<noteq> [] \<and> (\<not> cl_isValueColumn c \<longrightarrow> cl_name c = cl_id c \<and> cl_name c \<in> groups)
      \<and> (cl_isValueColumn c \<longrightarrow> value_index s (cl_name c) \<notin> groups)) tcs"
    and "\<And>c. s \<noteq> StagedClickHouse c" "\<And>c. s \<noteq> StagedProm c" "unmixed groups cols"
  shows "unmixed groups (fold (process_table_column s) tcs cols)
    \<and> data_key ` set (fold (process_table_column s) tcs cols) \<supseteq> cl_id ` set tcs \<union> data_key ` set cols"
  using assms(1,4)
proof (induction tcs arbitrary: cols)
  case (Cons c tcs)
  let ?cols = "process_table_column s c cols"
  have "unmixed groups ?cols \<and> data_key ` set ?cols \<supseteq> insert (cl_id c) (data_key ` set cols)"
  proof (cases "cl_isValueColumn c")
    case True
    obtain d where d: "?cols = cols @ [d]" "dc_dataIndex d = value_index s (cl_name c)" "dc_id d = Some (cl_id c)"
      using True value_column_added [OF assms(2,3), of "cl_name c" "cl_id c" cols] by (auto simp: process_table_column_def)
    then have "data_key d = cl_id c" using Cons.prems(1) by (simp add: data_key_def)
    with d have "?cols = cols @ [d]" "dc_dataIndex d \<notin> groups" "data_key d = cl_id c" using True Cons.prems(1) by simp_all
    then show ?thesis using Cons.prems True by (auto simp: unmixed_def)
  next
    case False
    then have n: "cl_name c = cl_id c" "cl_name c \<in> groups" "cl_id c \<noteq> []" using Cons.prems(1) by auto
    show ?thesis
    proof (cases "list_ex (\<lambda>d. dc_dataIndex d = cl_name c) cols")
      case True
      then obtain d where "d \<in> set cols" "dc_dataIndex d = cl_name c" by (auto simp: list_ex_iff)
      then have "cl_id c \<in> data_key ` set cols" using Cons.prems(2) n by (metis image_eqI unmixed_def)
      then show ?thesis using True False Cons.prems(2) by (auto simp: process_table_column_def addLabels_def)
    next
      case new: False
      then have "?cols = cols @ [\<lparr> dc_query = s, dc_field = cl_name c, dc_dataIndex = cl_name c, dc_title = cl_name c,
          dc_data = [], dc_type = FieldColumn, dc_id = Some (cl_id c) \<rparr>]"
        using False by (simp add: process_table_column_def addLabels_def)
      then show ?thesis using Cons.prems(2) n by (auto simp: unmixed_def data_key_def)
    qed
  qed
  moreover from this have "unmixed groups (fold (process_table_column s) tcs ?cols)
      \<and> data_key ` set (fold (process_table_column s) tcs ?cols) \<supseteq> cl_id ` set tcs \<union> data_key ` set ?cols"
    using Cons.prems by (intro Cons.IH) simp_all
  ultimately show ?case
    using superset_step [of "cl_id c" "data_key ` set cols" "data_key ` set ?cols" "cl_id ` set tcs"] by simp
qed simp

text \<open>The columns of an answer have identifiers of their own, and no field is named like a value.\<close>

definition answer_ok :: "query \<Rightarrow> legend_map \<Rightarrow> aggregations_per_query \<Rightarrow> ScalarData \<Rightarrow> bool" where
  "answer_ok q legendMap asked_for sd \<longleftrightarrow>
     (let cols = map (table_column legendMap asked_for) (sd_columns sd); groups = filter (\<lambda>c. \<not> cl_isValueColumn c) cols
      in distinct (map cl_id cols) \<and> list_all (\<lambda>c. cl_id c \<noteq> [] \<and> cl_id c \<noteq> ''key'') cols
         \<and> list_all (\<lambda>c. cl_isValueColumn c \<longrightarrow>
             value_index (getQueryByName q (first_query_name sd)) (cl_name c) \<notin> set (map cl_name groups)) cols)"

lemma field_named_by_id: "\<not> cl_isValueColumn (table_column l a cd) \<Longrightarrow> cl_name (table_column l a cd) = cl_id (table_column l a cd)"
  by (cases "cd_columnType cd") (auto simp: table_column_def getColName_def getColId_def)

text \<open>The keys of the columns of an answer, the headers of its table and its rows.\<close>

lemma answer_parts:
  assumes "q_queryType q = QUERY_BUILDER" "answer_ok q legendMap asked_for sd"
    and "createTableColumnsFromQuery uuid q (convertScalarWithFormatForWeb [sd] legendMap asked_for) = (headers, rows, n)"
    and cols_def: "cols = map (table_column legendMap asked_for) (sd_columns sd)"
  shows "distinct (map column_key cols)" "\<And>c. c \<in> set cols \<Longrightarrow> column_key c = cl_id c \<and> cl_id c \<noteq> ''key''"
    and "cl_id ` set cols \<subseteq> th_dataIndex ` set headers"
    and "n = (if headers = [] then 0 else length (sd_data sd)) \<and> length rows = n \<and>
      (\<forall>i < n. \<forall>k \<in> th_dataIndex ` set headers. k \<noteq> ''key'' \<longrightarrow>
         obj_get (rows ! i) k = Some (shown k (row_data cols (sd_data sd ! i))))"
proof -
  let ?groups = "cl_name ` {c \<in> set cols. \<not> cl_isValueColumn c}"
  let ?s = "getQueryByName q (first_query_name sd)"
  define qd where "qd = hd (convertScalarWithFormatForWeb [sd] legendMap asked_for)"
  have qds: "convertScalarWithFormatForWeb [sd] legendMap asked_for = [qd]"
    by (simp add: qd_def convertScalarWithFormatForWeb_def)
  note made = assms(3) [unfolded qds]
  have ok: "distinct (map cl_id cols)" "\<And>c. c \<in> set cols \<Longrightarrow> cl_id c \<noteq> [] \<and> cl_id c \<noteq> ''key''"
      "\<And>c. c \<in> set cols \<Longrightarrow> cl_isValueColumn c \<Longrightarrow> value_index ?s (cl_name c) \<notin> ?groups"
    using assms(2) by (auto simp: answer_ok_def cols_def list_all_iff Let_def)
  have s: "?s \<noteq> StagedClickHouse c" "?s \<noteq> StagedProm d" for c d using assms(1) by (simp_all add: getQueryByName_def)
  have key: "column_key c = cl_id c" if "c \<in> set cols" for c using ok(2) [OF that] by (simp add: column_key_def)
  have t: "table_only qd" "rows_of qd = map (row_data cols) (sd_data sd)" "columns_of qd = cols" "qr_queryName qd = first_query_name sd"
    using ok(2) by (auto simp: qd_def convertScalarWithFormatForWeb_def table_only_def legacy_data_def scalar_table_def rows_of_def
        columns_of_def cols_def list_all_iff Let_def)
  have qt: "q_queryType q \<noteq> CLICKHOUSE" "list_all table_only [qd]" using assms(1) t(1) by simp_all
  show "n = (if headers = [] then 0 else length (sd_data sd)) \<and> length rows = n \<and>
      (\<forall>i < n. \<forall>k \<in> th_dataIndex ` set headers. k \<noteq> ''key'' \<longrightarrow>
         obj_get (rows ! i) k = Some (shown k (row_data cols (sd_data sd ! i))))"
    using table_rows [OF qt made] t(2) by (auto split: if_splits)
  have dyn: "getDynamicColumns [qd] q = fold (process_table_column ?s) cols []"
    using add_query_columns_table [OF t(1)] t(3,4) by (simp add: getDynamicColumns_def)
  have "list_all (\<lambda>c. cl_id c \<noteq> [] \<and> (\<not> cl_isValueColumn c \<longrightarrow> cl_name c = cl_id c \<and> cl_name c \<in> ?groups)
      \<and> (cl_isValueColumn c \<longrightarrow> value_index ?s (cl_name c) \<notin> ?groups)) cols"
    using ok field_named_by_id by (auto simp: list_all_iff cols_def)
  from processed_keys [OF this s, of "[]"]
  have "cl_id ` set cols \<subseteq> data_key ` set (getDynamicColumns [qd] q)" by (simp add: dyn unmixed_def)
  moreover have "th_dataIndex ` set headers = data_key ` set (getDynamicColumns [qd] q)"
    using table_headers [OF qt made] by simp
  ultimately show "cl_id ` set cols \<subseteq> th_dataIndex ` set headers" by simp
  show "column_key c = cl_id c \<and> cl_id c \<noteq> ''key''" if "c \<in> set cols" for c using key [OF that] ok(2) [OF that] by simp
  show "distinct (map column_key cols)" using ok(1) key by (metis map_eq_conv)
qed

text \<open>C6: Let a query of the builder have one scalar answer with at least one column, whose columns have different identifiers
  that are neither empty nor the word key, and whose groups are not called what a value column is called.  Then the table
  has one row for every row of the answer and for every cell a column with the identifier of the cell's column, and in that
  row and column the cell as tables show it: null and the empty text as N/A, text that reads as a number as that number, a
  boolean as 1 or 0.\<close>

theorem answer_in_table:
  assumes "q_queryType q = QUERY_BUILDER" "answer_ok q legendMap asked_for sd" "sd_columns sd \<noteq> []"
    and "createTableColumnsFromQuery uuid q (convertScalarWithFormatForWeb [sd] legendMap asked_for) = (headers, rows, n)"
  shows "n = length (sd_data sd) \<and> length rows = n \<and>
    (\<forall>i < n. \<forall>j < length (sd_columns sd). \<exists>h \<in> set headers. th_dataIndex h = getColId (sd_columns sd ! j) asked_for \<and>
       obj_get (rows ! i) (th_dataIndex h) = Some (table_cell (cell_at (sd_data sd ! i) j)))"
proof -
  define cols where "cols = map (table_column legendMap asked_for) (sd_columns sd)"
  note parts = answer_parts [OF assms(1,2,4) cols_def]
  note h = parts(3) and r = parts(4)
  have ne: "headers \<noteq> []" using h assms(3) by (auto simp: cols_def)
  have "\<exists>h \<in> set headers. th_dataIndex h = getColId (sd_columns sd ! j) asked_for \<and>
       obj_get (rows ! i) (th_dataIndex h) = Some (table_cell (cell_at (sd_data sd ! i) j))"
    if i: "i < n" and j: "j < length (sd_columns sd)" for i j
  proof -
    have c: "cols ! j \<in> set cols" "cl_id (cols ! j) = getColId (sd_columns sd ! j) asked_for"
      using j by (simp_all add: cols_def table_column_def)
    have "cl_id (cols ! j) \<in> th_dataIndex ` set headers" using c(1) by (rule subsetD [OF h, OF imageI])
    then obtain h where h: "h \<in> set headers" "th_dataIndex h = getColId (sd_columns sd ! j) asked_for"
      using c(2) by (metis imageE)
    then have "obj_get (row_data cols (sd_data sd ! i)) (th_dataIndex h) = Some (cell_at (sd_data sd ! i) j)"
      using row_data_get [of cols j] j c parts(1,2) h by (simp add: cols_def)
    moreover have "th_dataIndex h \<noteq> ''key''" using parts(2) [OF c(1)] c(2) h(2) by simp
    moreover have "obj_get (rows ! i) (th_dataIndex h) = Some (shown (th_dataIndex h) (row_data cols (sd_data sd ! i)))"
      using r i h(1) calculation(2) by blast
    ultimately show ?thesis using h by (auto simp: shown_def intro!: bexI [of _ h])
  qed
  with r ne show ?thesis by simp
qed

section \<open>Witnesses\<close>

definition builder_with :: "IBuilderQuery list \<Rightarrow> query" where
  "builder_with qs =
     \<lparr> q_queryType = QUERY_BUILDER, q_promql = [], q_clickhouse_sql = [], q_queryData = qs, q_queryFormulas = [],
       q_queryTraceOperator = [] \<rparr>"

definition no_series :: TimeSeriesData where
  "no_series = \<lparr> td_queryName = [], td_aggregations = [] \<rparr>"

definition group_column :: "string \<Rightarrow> string \<Rightarrow> ColumnDescriptor" where
  "group_column queryName name =
     \<lparr> cd_name = name, cd_queryName = queryName, cd_aggregationIndex = 0, cd_columnType = C_group \<rparr>"

definition value_descriptor :: "string \<Rightarrow> nat \<Rightarrow> ColumnDescriptor" where
  "value_descriptor queryName i =
     \<lparr> cd_name = ''__result'', cd_queryName = queryName, cd_aggregationIndex = i, cd_columnType = C_aggregation \<rparr>"

definition hosts :: ScalarData where
  "hosts =
     \<lparr> sd_columns = [group_column ''A'' ''host'', value_descriptor ''A'' 0],
       sd_data = [[CStr ''web'', CNum (JNum 3)], [CStr ''db'', CNum (JNum 5)]], sd_timeSeries = no_series \<rparr>"

text \<open>A table by its rows without their keys.\<close>

definition table_values :: "query \<Rightarrow> QueryDataV3 list \<Rightarrow> cell jsobj list" where
  "table_values q qds =
     (case createTableColumnsFromQuery (\<lambda>_. []) q qds of (headers, rows, n) \<Rightarrow> map (obj_delete ''key'') rows)"

theorem table_rows_witness:
  "\<exists>headers rows n. createTableColumnsFromQuery (\<lambda>_. []) (builder_with []) (convertScalarWithFormatForWeb [hosts] [] []) = (headers, rows, n)
     \<and> length rows = n"
proof -
  obtain headers rows n where
    t: "createTableColumnsFromQuery (\<lambda>_. []) (builder_with []) (convertScalarWithFormatForWeb [hosts] [] []) = (headers, rows, n)"
    by (metis prod.exhaust)
  have "list_all table_only (convertScalarWithFormatForWeb [hosts] [] [])"
    by (simp add: convertScalarWithFormatForWeb_def table_only_def legacy_data_def scalar_table_def hosts_def table_column_def
        getColId_def group_column_def value_descriptor_def aggregations_of_def column_aggregation_def Let_def)
  then show ?thesis using t table_rows [OF _ _ t] by (simp add: builder_with_def)
qed

theorem answer_in_table_witness:
  "\<exists>headers rows n. createTableColumnsFromQuery (\<lambda>_. []) (builder_with []) (convertScalarWithFormatForWeb [hosts] [] []) = (headers, rows, n)
     \<and> n = 2 \<and> obj_get (rows ! 1) ''host'' = Some (CStr ''db'')"
proof -
  obtain headers rows n where
    t: "createTableColumnsFromQuery (\<lambda>_. []) (builder_with []) (convertScalarWithFormatForWeb [hosts] [] []) = (headers, rows, n)"
    by (metis prod.exhaust)
  have "answer_ok (builder_with []) [] [] hosts"
    by code_simp
  moreover have "table_cell (CStr ''db'') = CStr ''db''" by code_simp
  moreover have f: "sd_columns hosts \<noteq> []" "length (sd_columns hosts) = 2" "length (sd_data hosts) = 2"
      "getColId (sd_columns hosts ! 0) [] = ''host''" "cell_at (sd_data hosts ! 1) 0 = CStr ''db''"
    by (simp_all add: hosts_def group_column_def getColId_def cell_at_def)
  moreover have "q_queryType (builder_with []) = QUERY_BUILDER" by (simp add: builder_with_def)
  ultimately have n: "n = 2" and c: "\<exists>h \<in> set headers. th_dataIndex h = ''host''
      \<and> obj_get (rows ! 1) (th_dataIndex h) = Some (CStr ''db'')"
    using answer_in_table [OF _ _ _ t] by (metis pos2 one_less_numeral_iff semiring_norm(76))+
  then show ?thesis using t by auto
qed

text \<open>Where tables go wrong: a label that reads as a number is shown as that number, and a blank one as zero; a group
  named key shows the key of the row; two equal aggregations share a column and lose a value; an aggregation
  with the alias of a group takes its place in the next query; and a ClickHouse query with a legend shows nothing.\<close>

theorem tables_flawed:
  "table_cell (CStr ''007'') = CNum (JNum 7) \<and> table_cell (CStr '' '') = CNum (JNum 0)
   \<and> (case createTableColumnsFromQuery (\<lambda>_. ''row'') (builder_with [])
        (convertScalarWithFormatForWeb [\<lparr> sd_columns = [group_column ''A'' ''key''], sd_data = [[CStr ''mine'']], sd_timeSeries = no_series \<rparr>] [] [])
      of (headers, rows, n) \<Rightarrow> rows = [[(''key'', CStr ''row'')]])
   \<and> table_values (builder_with []) (convertScalarWithFormatForWeb
        [\<lparr> sd_columns = [value_descriptor ''A'' 0, value_descriptor ''A'' 1], sd_data = [[CNum (JNum 1), CNum (JNum 2)]], sd_timeSeries = no_series \<rparr>]
        [] [(''A'', [AggExpression \<lparr> ea_expression = ''count()'', ea_alias = Some ''x'' \<rparr>, AggExpression \<lparr> ea_expression = ''count()'', ea_alias = Some ''y'' \<rparr>])])
      = [[(''A.count()'', CNum (JNum 2))]]
   \<and> table_values (builder_with []) (convertScalarWithFormatForWeb
        [\<lparr> sd_columns = [value_descriptor ''A'' 0], sd_data = [[CNum (JNum 1)]], sd_timeSeries = no_series \<rparr>,
         \<lparr> sd_columns = [group_column ''B'' ''host'', value_descriptor ''B'' 0], sd_data = [[CStr ''web'', CNum (JNum 2)]], sd_timeSeries = no_series \<rparr>]
        [] [(''A'', [AggExpression \<lparr> ea_expression = ''count()'', ea_alias = Some ''host'' \<rparr>])])
      = [[(''A'', CNum (JNum 1)), (''B'', N_A)], [(''A'', N_A), (''B'', CNum (JNum 2))]]
   \<and> table_values ((builder_with [])\<lparr> q_queryType := CLICKHOUSE,
          q_clickhouse_sql := [\<lparr> rq_name = ''A'', rq_legend = Some ''total'', rq_disabled = False, rq_query = ''SELECT 1'' \<rparr>] \<rparr>)
        (convertScalarWithFormatForWeb [\<lparr> sd_columns = [value_descriptor ''A'' 0], sd_data = [[CNum (JNum 1)]], sd_timeSeries = no_series \<rparr>]
          [(''A'', Some ''total'')] [])
      = [[(''A'', N_A)]]"
  by code_simp

end
