(* ===== verification/QueryOperators.thy ===== *)
theory QueryOperators
  imports QueryBuilder
begin

text \<open>
  The aggregation operators a query can have: the option lists of
  \<^verbatim>\<open>frontend/src/constants/queryBuilderOperators.ts\<close> as pairs of value and label, the operators by type of
  \<^verbatim>\<open>types/common/queryBuilder.ts\<close>, and the choices among them in \<^verbatim>\<open>lib/newQueryBuilder\<close> and
  \<^verbatim>\<open>lib/query/findDataTypeOfOperator.ts\<close>.
\<close>

section \<open>Option lists\<close>

definition StringOperators :: "string list" where
  "StringOperators =
    [''noop'', ''count'', ''count_distinct'']"

definition NumberOperators :: "string list" where
  "NumberOperators =
    [''sum'', ''avg'', ''max'', ''min'', ''p05'', ''p10'', ''p20'', ''p25'', ''p50'', ''p75'', ''p90'',
     ''p95'', ''p99'', ''rate'', ''sum_rate'', ''avg_rate'', ''max_rate'', ''min_rate'', ''rate_sum'',
     ''rate_avg'', ''rate_min'', ''rate_max'', ''hist_quantile_50'', ''hist_quantile_75'',
     ''hist_quantile_90'', ''hist_quantile_95'', ''hist_quantile_99'']"

definition BoolOperators :: "string list" where
  "BoolOperators =
    [''noop'', ''count'', ''count_distinct'']"

definition metricAggregateOperatorOptions :: "(string \<times> string) list" where
  "metricAggregateOperatorOptions =
    [(''count'', ''Count''), (''count_distinct'', ''Count Distinct''), (''sum'', ''Sum''), (''avg'', ''Avg''),
     (''max'', ''Max''), (''min'', ''Min''), (''p05'', ''P05''), (''p10'', ''P10''), (''p20'', ''P20''),
     (''p25'', ''P25''), (''p50'', ''P50''), (''p75'', ''P75''), (''p90'', ''P90''), (''p95'', ''P95''),
     (''p99'', ''P99''), (''rate'', ''Rate''), (''sum_rate'', ''Sum_rate''), (''avg_rate'', ''Avg_rate''),
     (''max_rate'', ''Max_rate''), (''min_rate'', ''Min_rate''), (''rate_sum'', ''Rate_sum''),
     (''rate_avg'', ''Rate_avg''), (''rate_min'', ''Rate_min''), (''rate_max'', ''Rate_max''),
     (''hist_quantile_50'', ''Hist_quantile_50''), (''hist_quantile_75'', ''Hist_quantile_75''),
     (''hist_quantile_90'', ''Hist_quantile_90''), (''hist_quantile_95'', ''Hist_quantile_95''),
     (''hist_quantile_99'', ''Hist_quantile_99'')]"

definition meterAggregateOperatorOptions :: "(string \<times> string) list" where
  "meterAggregateOperatorOptions =
    [(''count'', ''Count''), (''count_distinct'', ''Count Distinct''), (''sum'', ''Sum''), (''avg'', ''Avg''),
     (''max'', ''Max''), (''min'', ''Min''), (''p05'', ''P05''), (''p10'', ''P10''), (''p20'', ''P20''),
     (''p25'', ''P25''), (''p50'', ''P50''), (''p75'', ''P75''), (''p90'', ''P90''), (''p95'', ''P95''),
     (''p99'', ''P99''), (''rate'', ''Rate''), (''sum_rate'', ''Sum_rate''), (''avg_rate'', ''Avg_rate''),
     (''max_rate'', ''Max_rate''), (''min_rate'', ''Min_rate''), (''rate_sum'', ''Rate_sum''),
     (''rate_avg'', ''Rate_avg''), (''rate_min'', ''Rate_min''), (''rate_max'', ''Rate_max''),
     (''hist_quantile_50'', ''Hist_quantile_50''), (''hist_quantile_75'', ''Hist_quantile_75''),
     (''hist_quantile_90'', ''Hist_quantile_90''), (''hist_quantile_95'', ''Hist_quantile_95''),
     (''hist_quantile_99'', ''Hist_quantile_99'')]"

definition tracesAggregateOperatorOptions :: "(string \<times> string) list" where
  "tracesAggregateOperatorOptions =
    [(''count'', ''Count''), (''count_distinct'', ''Count Distinct''), (''sum'', ''Sum''), (''avg'', ''Avg''),
     (''max'', ''Max''), (''min'', ''Min''), (''p05'', ''P05''), (''p10'', ''P10''), (''p20'', ''P20''),
     (''p25'', ''P25''), (''p50'', ''P50''), (''p75'', ''P75''), (''p90'', ''P90''), (''p95'', ''P95''),
     (''p99'', ''P99''), (''rate'', ''Rate''), (''rate_sum'', ''Rate_sum''), (''rate_avg'', ''Rate_avg''),
     (''rate_min'', ''Rate_min''), (''rate_max'', ''Rate_max'')]"

definition logsAggregateOperatorOptions :: "(string \<times> string) list" where
  "logsAggregateOperatorOptions =
    [(''count'', ''Count''), (''count_distinct'', ''Count Distinct''), (''sum'', ''Sum''), (''avg'', ''Avg''),
     (''max'', ''Max''), (''min'', ''Min''), (''p05'', ''P05''), (''p10'', ''P10''), (''p20'', ''P20''),
     (''p25'', ''P25''), (''p50'', ''P50''), (''p75'', ''P75''), (''p90'', ''P90''), (''p95'', ''P95''),
     (''p99'', ''P99''), (''rate'', ''Rate''), (''rate_sum'', ''Rate_sum''), (''rate_avg'', ''Rate_avg''),
     (''rate_min'', ''Rate_min''), (''rate_max'', ''Rate_max'')]"

definition metricsSumAggregateOperatorOptions :: "(string \<times> string) list" where
  "metricsSumAggregateOperatorOptions =
    [(''rate'', ''Rate''), (''increase'', ''Increase'')]"

definition metricsGaugeAggregateOperatorOptions :: "(string \<times> string) list" where
  "metricsGaugeAggregateOperatorOptions =
    [(''latest'', ''Latest''), (''sum'', ''Sum''), (''avg'', ''Avg''), (''min'', ''Min''), (''max'', ''Max''),
     (''count'', ''Count''), (''count_distinct'', ''Count Distinct'')]"

definition metricsSumSpaceAggregateOperatorOptions :: "(string \<times> string) list" where
  "metricsSumSpaceAggregateOperatorOptions =
    [(''sum'', ''Sum''), (''avg'', ''Avg''), (''min'', ''Min''), (''max'', ''Max'')]"

definition metricsGaugeSpaceAggregateOperatorOptions :: "(string \<times> string) list" where
  "metricsGaugeSpaceAggregateOperatorOptions =
    [(''sum'', ''Sum''), (''avg'', ''Avg''), (''min'', ''Min''), (''max'', ''Max'')]"

definition metricsHistogramSpaceAggregateOperatorOptions :: "(string \<times> string) list" where
  "metricsHistogramSpaceAggregateOperatorOptions =
    [(''p50'', ''P50''), (''p75'', ''P75''), (''p90'', ''P90''), (''p95'', ''P95''), (''p99'', ''P99'')]"

definition metricsEmptyTimeAggregateOperatorOptions :: "(string \<times> string) list" where
  "metricsEmptyTimeAggregateOperatorOptions =
    []"

definition metricsUnknownTimeAggregateOperatorOptions :: "(string \<times> string) list" where
  "metricsUnknownTimeAggregateOperatorOptions =
    [(''max'', ''Max''), (''min'', ''Min''), (''sum'', ''Sum''), (''avg'', ''Avg''), (''count'', ''Count''),
     (''rate'', ''Rate''), (''increase'', ''Increase'')]"

definition metricsUnknownSpaceAggregateOperatorOptions :: "(string \<times> string) list" where
  "metricsUnknownSpaceAggregateOperatorOptions =
    [(''sum'', ''Sum''), (''avg'', ''Avg''), (''min'', ''Min''), (''max'', ''Max''), (''p50'', ''P50''),
     (''p75'', ''P75''), (''p90'', ''P90''), (''p95'', ''P95''), (''p99'', ''P99'')]"

section \<open>Choices\<close>

definition mapOfOperators :: "DataSource \<Rightarrow> (string \<times> string) list" where
  "mapOfOperators dataSource =
     (case dataSource of
        METRICS \<Rightarrow> metricAggregateOperatorOptions
      | LOGS \<Rightarrow> logsAggregateOperatorOptions
      | TRACES \<Rightarrow> tracesAggregateOperatorOptions)"

definition getOperatorsBySourceAndPanelType :: "DataSource \<Rightarrow> PANEL_TYPES \<Rightarrow> (string \<times> string) list" where
  "getOperatorsBySourceAndPanelType dataSource panelType =
     (let ops = mapOfOperators dataSource;
          ops1 = (if panelType = LIST \<or> panelType = TRACE then filter (\<lambda>(v, _). v = ''noop'') ops else ops);
          ops2 = (if panelType = TABLE \<and> dataSource = METRICS
                  then filter (\<lambda>(v, _). v \<noteq> ''noop'' \<and> v \<noteq> ''rate'') ops1 else ops1)
      in if dataSource \<noteq> METRICS \<and> panelType \<noteq> LIST \<and> panelType \<noteq> TRACE
         then filter (\<lambda>(v, _). v \<noteq> ''noop'') ops2 else ops2)"

definition getMetricsOperatorsByAttributeType :: "DataSource \<Rightarrow> string \<Rightarrow> (string \<times> string) list" where
  "getMetricsOperatorsByAttributeType dataSource aggregateAttributeType =
     (if dataSource = METRICS \<and> aggregateAttributeType = ''Sum'' then metricsSumAggregateOperatorOptions
      else if dataSource = METRICS \<and> aggregateAttributeType = ''Gauge'' then metricsGaugeAggregateOperatorOptions
      else if dataSource = METRICS \<and> aggregateAttributeType = [] then metricsUnknownTimeAggregateOperatorOptions
      else metricsEmptyTimeAggregateOperatorOptions)"

definition operatorsByTypes :: "(string \<times> string list) list" where
  "operatorsByTypes = [(''string'', StringOperators), (''number'', NumberOperators), (''bool'', BoolOperators)]"

definition findDataTypeOfOperator :: "string \<Rightarrow> string option" where
  "findDataTypeOfOperator v = map_option fst (find (\<lambda>(_, ops). v \<in> set ops) operatorsByTypes)"

text \<open>No list has the operator \<^verbatim>\<open>noop\<close>, so a list or trace panel has no operators at all.\<close>

lemma no_noop: "\<forall>x \<in> set (mapOfOperators dataSource). fst x \<noteq> ''noop''"
  by (cases dataSource) (simp_all add: mapOfOperators_def metricAggregateOperatorOptions_def
      logsAggregateOperatorOptions_def tracesAggregateOperatorOptions_def)

lemma list_panel_no_operators:
  "panelType = LIST \<or> panelType = TRACE \<Longrightarrow> getOperatorsBySourceAndPanelType dataSource panelType = []"
  using no_noop [of dataSource] by (auto simp: getOperatorsBySourceAndPanelType_def Let_def filter_empty_conv)

lemma first_operator:
  "panelType \<noteq> LIST \<Longrightarrow> panelType \<noteq> TRACE \<Longrightarrow> \<exists>ops. getOperatorsBySourceAndPanelType dataSource panelType = (''count'', ''Count'') # ops"
  by (cases dataSource) (simp_all add: getOperatorsBySourceAndPanelType_def Let_def mapOfOperators_def
      metricAggregateOperatorOptions_def logsAggregateOperatorOptions_def tracesAggregateOperatorOptions_def)

end
