(* ===== verification/QueryFields.thy ===== *)
theory QueryFields
  imports QueryComposite QueryOperators
begin

text \<open>
  Which fields of a query a panel uses, and the change of the panel: \<^verbatim>\<open>panelTypeDataSourceFormValuesMap\<close> and
  \<^verbatim>\<open>handleQueryChange\<close> of \<^verbatim>\<open>frontend/src/container/NewWidget/utils.ts\<close>.  A field is named by a value of
  \<open>query_field\<close>, and \<^verbatim>\<open>set(target, field, get(source, field))\<close> is \<open>copy_field\<close>.  The table of the fields is
  mutable in the code (the query builder pushes into it), so it is an argument.
\<close>

section \<open>Fields\<close>

datatype query_field =
    F_queryName | F_dataSource | F_aggregateOperator | F_aggregateAttribute | F_aggregations | F_timeAggregation
  | F_spaceAggregation | F_functions | F_filter | F_filters | F_groupBy | F_expression | F_disabled | F_having
  | F_limit | F_stepInterval | F_orderBy | F_reduceTo | F_legend

fun copy_field :: "query_field \<Rightarrow> IBuilderQuery \<Rightarrow> IBuilderQuery \<Rightarrow> IBuilderQuery" where
  "copy_field F_queryName src q = q\<lparr> bq_queryName := bq_queryName src \<rparr>"
| "copy_field F_dataSource src q = q\<lparr> bq_dataSource := bq_dataSource src \<rparr>"
| "copy_field F_aggregateOperator src q = q\<lparr> bq_aggregateOperator := bq_aggregateOperator src \<rparr>"
| "copy_field F_aggregateAttribute src q = q\<lparr> bq_aggregateAttribute := bq_aggregateAttribute src \<rparr>"
| "copy_field F_aggregations src q = q\<lparr> bq_aggregations := bq_aggregations src \<rparr>"
| "copy_field F_timeAggregation src q = q\<lparr> bq_timeAggregation := bq_timeAggregation src \<rparr>"
| "copy_field F_spaceAggregation src q = q\<lparr> bq_spaceAggregation := bq_spaceAggregation src \<rparr>"
| "copy_field F_functions src q = q\<lparr> bq_functions := bq_functions src \<rparr>"
| "copy_field F_filter src q = q\<lparr> bq_filter := bq_filter src \<rparr>"
| "copy_field F_filters src q = q\<lparr> bq_filters := bq_filters src \<rparr>"
| "copy_field F_groupBy src q = q\<lparr> bq_groupBy := bq_groupBy src \<rparr>"
| "copy_field F_expression src q = q\<lparr> bq_expression := bq_expression src \<rparr>"
| "copy_field F_disabled src q = q\<lparr> bq_disabled := bq_disabled src \<rparr>"
| "copy_field F_having src q = q\<lparr> bq_having := bq_having src \<rparr>"
| "copy_field F_limit src q = q\<lparr> bq_limit := bq_limit src \<rparr>"
| "copy_field F_stepInterval src q = q\<lparr> bq_stepInterval := bq_stepInterval src \<rparr>"
| "copy_field F_orderBy src q = q\<lparr> bq_orderBy := bq_orderBy src \<rparr>"
| "copy_field F_reduceTo src q = q\<lparr> bq_reduceTo := bq_reduceTo src \<rparr>"
| "copy_field F_legend src q = q\<lparr> bq_legend := bq_legend src \<rparr>"

definition copy_fields :: "query_field list \<Rightarrow> IBuilderQuery \<Rightarrow> IBuilderQuery \<Rightarrow> IBuilderQuery" where
  "copy_fields fs src q = fold (\<lambda>f. copy_field f src) fs q"

section \<open>The fields of a panel\<close>

definition BAR_values :: "DataSource \<Rightarrow> query_field list" where
  "BAR_values dataSource =
     (case dataSource of
        LOGS \<Rightarrow>
        [F_aggregateAttribute, F_aggregateOperator, F_filters, F_filter, F_groupBy, F_limit, F_having,
         F_orderBy, F_functions, F_stepInterval, F_disabled, F_queryName, F_legend, F_expression,
         F_aggregations]
      | METRICS \<Rightarrow>
        [F_aggregateAttribute, F_aggregateOperator, F_timeAggregation, F_filters, F_filter, F_spaceAggregation,
         F_groupBy, F_limit, F_having, F_orderBy, F_stepInterval, F_legend, F_queryName, F_disabled,
         F_functions, F_expression, F_aggregations]
      | TRACES \<Rightarrow>
        [F_aggregateAttribute, F_aggregateOperator, F_filters, F_filter, F_groupBy, F_limit, F_having,
         F_orderBy, F_functions, F_stepInterval, F_disabled, F_queryName, F_legend, F_expression,
         F_aggregations])"

definition TIME_SERIES_values :: "DataSource \<Rightarrow> query_field list" where
  "TIME_SERIES_values dataSource =
     (case dataSource of
        LOGS \<Rightarrow>
        [F_aggregateAttribute, F_aggregateOperator, F_filters, F_filter, F_groupBy, F_limit, F_having,
         F_orderBy, F_functions, F_stepInterval, F_disabled, F_queryName, F_legend, F_expression,
         F_aggregations]
      | METRICS \<Rightarrow>
        [F_aggregateAttribute, F_aggregateOperator, F_timeAggregation, F_filters, F_filter, F_spaceAggregation,
         F_groupBy, F_limit, F_having, F_orderBy, F_stepInterval, F_legend, F_queryName, F_disabled,
         F_functions, F_expression, F_aggregations]
      | TRACES \<Rightarrow>
        [F_aggregateAttribute, F_aggregateOperator, F_filters, F_filter, F_groupBy, F_limit, F_having,
         F_orderBy, F_functions, F_stepInterval, F_disabled, F_queryName, F_legend, F_expression,
         F_aggregations])"

definition HISTOGRAM_values :: "DataSource \<Rightarrow> query_field list" where
  "HISTOGRAM_values dataSource =
     (case dataSource of
        LOGS \<Rightarrow>
        [F_aggregateAttribute, F_aggregateOperator, F_filters, F_filter, F_groupBy, F_limit, F_having,
         F_orderBy, F_functions, F_stepInterval, F_disabled, F_queryName, F_legend, F_expression,
         F_aggregations]
      | METRICS \<Rightarrow>
        [F_aggregateAttribute, F_aggregateOperator, F_timeAggregation, F_filters, F_filter, F_spaceAggregation,
         F_groupBy, F_limit, F_having, F_orderBy, F_stepInterval, F_legend, F_queryName, F_disabled,
         F_functions, F_expression, F_aggregations]
      | TRACES \<Rightarrow>
        [F_aggregateAttribute, F_aggregateOperator, F_filters, F_filter, F_groupBy, F_limit, F_having,
         F_orderBy, F_functions, F_stepInterval, F_disabled, F_queryName, F_legend, F_expression,
         F_aggregations])"

definition TABLE_values :: "DataSource \<Rightarrow> query_field list" where
  "TABLE_values dataSource =
     (case dataSource of
        LOGS \<Rightarrow>
        [F_aggregateAttribute, F_aggregateOperator, F_filters, F_filter, F_groupBy, F_limit, F_having,
         F_orderBy, F_functions, F_stepInterval, F_disabled, F_queryName, F_expression, F_legend,
         F_aggregations]
      | METRICS \<Rightarrow>
        [F_aggregateAttribute, F_aggregateOperator, F_timeAggregation, F_filters, F_filter, F_spaceAggregation,
         F_groupBy, F_reduceTo, F_limit, F_having, F_orderBy, F_stepInterval, F_legend, F_queryName,
         F_expression, F_disabled, F_functions, F_aggregations]
      | TRACES \<Rightarrow>
        [F_aggregateAttribute, F_aggregateOperator, F_filters, F_filter, F_groupBy, F_limit, F_having,
         F_orderBy, F_functions, F_stepInterval, F_disabled, F_queryName, F_expression, F_legend,
         F_aggregations])"

definition PIE_values :: "DataSource \<Rightarrow> query_field list" where
  "PIE_values dataSource =
     (case dataSource of
        LOGS \<Rightarrow>
        [F_aggregateAttribute, F_aggregateOperator, F_filters, F_filter, F_groupBy, F_limit, F_having,
         F_orderBy, F_functions, F_stepInterval, F_disabled, F_queryName, F_expression, F_legend,
         F_aggregations]
      | METRICS \<Rightarrow>
        [F_aggregateAttribute, F_aggregateOperator, F_timeAggregation, F_filters, F_filter, F_spaceAggregation,
         F_groupBy, F_reduceTo, F_limit, F_having, F_orderBy, F_stepInterval, F_legend, F_queryName,
         F_expression, F_disabled, F_functions, F_aggregations]
      | TRACES \<Rightarrow>
        [F_aggregateAttribute, F_aggregateOperator, F_filters, F_filter, F_groupBy, F_limit, F_having,
         F_orderBy, F_functions, F_stepInterval, F_disabled, F_queryName, F_expression, F_legend,
         F_aggregations])"

definition LIST_values :: "DataSource \<Rightarrow> query_field list" where
  "LIST_values dataSource =
     (case dataSource of
        LOGS \<Rightarrow>
        [F_queryName, F_filters, F_filter, F_limit, F_orderBy, F_functions, F_aggregations]
      | METRICS \<Rightarrow>
        [F_queryName, F_filters, F_filter, F_aggregations]
      | TRACES \<Rightarrow>
        [F_queryName, F_filters, F_filter, F_limit, F_orderBy, F_functions, F_aggregations])"

definition VALUE_values :: "DataSource \<Rightarrow> query_field list" where
  "VALUE_values dataSource =
     (case dataSource of
        LOGS \<Rightarrow>
        [F_aggregateAttribute, F_aggregateOperator, F_filters, F_filter, F_reduceTo, F_having, F_functions,
         F_stepInterval, F_queryName, F_expression, F_disabled, F_legend, F_aggregations]
      | METRICS \<Rightarrow>
        [F_aggregateAttribute, F_aggregateOperator, F_timeAggregation, F_filters, F_filter, F_spaceAggregation,
         F_having, F_reduceTo, F_stepInterval, F_legend, F_queryName, F_expression, F_disabled, F_functions,
         F_aggregations]
      | TRACES \<Rightarrow>
        [F_aggregateAttribute, F_aggregateOperator, F_filters, F_filter, F_reduceTo, F_having, F_functions,
         F_stepInterval, F_queryName, F_expression, F_disabled, F_legend, F_aggregations])"

type_synonym panel_table = "PANEL_TYPES \<Rightarrow> (DataSource \<Rightarrow> query_field list) option"

definition panelTypeDataSourceFormValuesMap :: panel_table where
  "panelTypeDataSourceFormValuesMap panelType =
     (case panelType of
        BAR \<Rightarrow> Some BAR_values
      | TIME_SERIES \<Rightarrow> Some TIME_SERIES_values
      | HISTOGRAM \<Rightarrow> Some HISTOGRAM_values
      | TABLE \<Rightarrow> Some TABLE_values
      | PIE \<Rightarrow> Some PIE_values
      | LIST \<Rightarrow> Some LIST_values
      | VALUE \<Rightarrow> Some VALUE_values
      | TRACE \<Rightarrow> None
      | EMPTY_WIDGET \<Rightarrow> None)"

section \<open>Initial queries\<close>

definition count_expression :: "Aggregation list" where
  "count_expression = [AggExpression \<lparr> ea_expression = ''count() '', ea_alias = None \<rparr>]"

definition initialQueryBuilderFormLogsValues :: IBuilderQuery where
  "initialQueryBuilderFormLogsValues =
     initialQueryBuilderFormValues\<lparr> bq_aggregateOperator := Some ''count'', bq_aggregations := count_expression,
       bq_dataSource := LOGS \<rparr>"

definition initialQueryBuilderFormTracesValues :: IBuilderQuery where
  "initialQueryBuilderFormTracesValues =
     initialQueryBuilderFormValues\<lparr> bq_aggregateOperator := Some ''count'', bq_aggregations := count_expression,
       bq_dataSource := TRACES \<rparr>"

definition initialQueryBuilderFormValuesMap :: "DataSource \<Rightarrow> IBuilderQuery" where
  "initialQueryBuilderFormValuesMap dataSource =
     (case dataSource of
        METRICS \<Rightarrow> initialQueryBuilderFormValues
      | LOGS \<Rightarrow> initialQueryBuilderFormLogsValues
      | TRACES \<Rightarrow> initialQueryBuilderFormTracesValues)"

definition initialQueryBuilderFormTraceOperatorValues :: IBuilderQuery where
  "initialQueryBuilderFormTraceOperatorValues =
     initialQueryBuilderFormTracesValues\<lparr> bq_queryName := TRACE_OPERATOR_QUERY_NAME \<rparr>"

section \<open>Changing the panel\<close>

definition change_query :: "(DataSource \<Rightarrow> query_field list) \<Rightarrow> PANEL_TYPES \<Rightarrow> PANEL_TYPES \<Rightarrow> IBuilderQuery \<Rightarrow> IBuilderQuery" where
  "change_query values newPanelType currentPanelType q =
     (let copied = copy_fields (values (bq_dataSource q)) q (initialQueryBuilderFormValuesMap (bq_dataSource q));
          temp = (if newPanelType = LIST
                  then copied\<lparr> bq_aggregateOperator := Some ''noop'', bq_offset := Some 0, bq_pageSize := Some 10,
                    bq_orderBy := [] \<rparr>
                  else if bq_aggregateOperator copied = Some ''noop''
                  then copied\<lparr> bq_aggregateOperator := Some ''count'', bq_offset := None, bq_pageSize := None \<rparr>
                  else copied)
      in if currentPanelType = LIST \<and> newPanelType \<noteq> LIST then temp\<lparr> bq_orderBy := [] \<rparr> else temp)"

text \<open>\<open>None\<close> is the error for a panel without an entry in the table.\<close>

definition handleQueryChange :: "panel_table \<Rightarrow> PANEL_TYPES \<Rightarrow> query \<Rightarrow> PANEL_TYPES \<Rightarrow> query option" where
  "handleQueryChange table newPanelType supersetQuery currentPanelType =
     map_option (\<lambda>values. supersetQuery\<lparr>
         q_queryData := map (change_query values newPanelType currentPanelType) (q_queryData supersetQuery),
         q_queryTraceOperator := (if newPanelType = LIST then [] else q_queryTraceOperator supersetQuery) \<rparr>)
       (table newPanelType)"

section \<open>Fields that agree\<close>

fun same_field :: "query_field \<Rightarrow> IBuilderQuery \<Rightarrow> IBuilderQuery \<Rightarrow> bool" where
  "same_field F_queryName a b \<longleftrightarrow> bq_queryName a = bq_queryName b"
| "same_field F_dataSource a b \<longleftrightarrow> bq_dataSource a = bq_dataSource b"
| "same_field F_aggregateOperator a b \<longleftrightarrow> bq_aggregateOperator a = bq_aggregateOperator b"
| "same_field F_aggregateAttribute a b \<longleftrightarrow> bq_aggregateAttribute a = bq_aggregateAttribute b"
| "same_field F_aggregations a b \<longleftrightarrow> bq_aggregations a = bq_aggregations b"
| "same_field F_timeAggregation a b \<longleftrightarrow> bq_timeAggregation a = bq_timeAggregation b"
| "same_field F_spaceAggregation a b \<longleftrightarrow> bq_spaceAggregation a = bq_spaceAggregation b"
| "same_field F_functions a b \<longleftrightarrow> bq_functions a = bq_functions b"
| "same_field F_filter a b \<longleftrightarrow> bq_filter a = bq_filter b"
| "same_field F_filters a b \<longleftrightarrow> bq_filters a = bq_filters b"
| "same_field F_groupBy a b \<longleftrightarrow> bq_groupBy a = bq_groupBy b"
| "same_field F_expression a b \<longleftrightarrow> bq_expression a = bq_expression b"
| "same_field F_disabled a b \<longleftrightarrow> bq_disabled a = bq_disabled b"
| "same_field F_having a b \<longleftrightarrow> bq_having a = bq_having b"
| "same_field F_limit a b \<longleftrightarrow> bq_limit a = bq_limit b"
| "same_field F_stepInterval a b \<longleftrightarrow> bq_stepInterval a = bq_stepInterval b"
| "same_field F_orderBy a b \<longleftrightarrow> bq_orderBy a = bq_orderBy b"
| "same_field F_reduceTo a b \<longleftrightarrow> bq_reduceTo a = bq_reduceTo b"
| "same_field F_legend a b \<longleftrightarrow> bq_legend a = bq_legend b"

lemma same_field_copy: "same_field f (copy_field g src q) r = (if f = g then same_field f src r else same_field f q r)"
  by (cases g; cases f) simp_all

lemma same_field_refl [simp]: "same_field f q q"
  by (cases f) simp_all

lemma same_field_trans: "same_field f a b \<Longrightarrow> same_field f b c \<Longrightarrow> same_field f a c"
  by (cases f) simp_all

lemma same_field_sym: "same_field f a b \<Longrightarrow> same_field f b a"
  by (cases f) simp_all

lemma same_field_copies:
  "same_field f (copy_fields fs src q) r = (if f \<in> set fs then same_field f src r else same_field f q r)"
  by (induction fs arbitrary: q) (auto simp: copy_fields_def same_field_copy)

lemma source_not_copied [simp]: "bq_source (copy_fields fs src q) = bq_source q"
proof -
  have "bq_source (copy_field f src p) = bq_source p" for f p by (cases f) simp_all
  then show ?thesis unfolding copy_fields_def by (induction fs arbitrary: q) simp_all
qed

end
