(* ===== verification/QueryBuilderState.thy ===== *)
theory QueryBuilderState
  imports QueryFields
begin

text \<open>
  The state of the query builder: \<^verbatim>\<open>frontend/src/providers/QueryBuilder.tsx\<close>, one definition per action, with the
  reading of the query in the address (\<^verbatim>\<open>hooks/queryBuilder/useGetCompositeQueryParam.ts\<close>).  The provider keeps the
  query that is edited twice: as it is shown, and as a superset from which other panels are filled.  A query in the
  address may lack its aggregations, so they are kept beside it as an option; its other lists are there.  Identifiers of
  attributes are left out; identifiers of queries, the lexer and the library's \<^verbatim>\<open>sortBy\<close> are arguments.  Navigation is a
  result: the query that is written into the address.
\<close>

section \<open>Names of new items\<close>

definition MAX_QUERIES :: nat where "MAX_QUERIES = 26"

definition MAX_FORMULAS :: nat where "MAX_FORMULAS = 20"

definition alphabet :: "string list" where
  "alphabet = map (\<lambda>i. [char_of (i + 65)]) [0..<MAX_QUERIES]"

definition formulasNames :: "string list" where
  "formulasNames = map (\<lambda>i. CHR ''F'' # nat_str (i + 1)) [0..<MAX_FORMULAS]"

definition createNewBuilderItemName :: "string list \<Rightarrow> string list \<Rightarrow> string" where
  "createNewBuilderItemName existNames sourceNames =
     (case find (\<lambda>n. n \<notin> set existNames) sourceNames of None \<Rightarrow> [] | Some n \<Rightarrow> n)"

section \<open>State\<close>

record QueryState =
  qs_queryData :: "IBuilderQuery list"
  qs_queryFormulas :: "IBuilderFormula list"
  qs_queryTraceOperator :: "IBuilderQuery list"
  qs_promql :: "IPromQLQuery list"
  qs_clickhouse_sql :: "IClickHouseQuery list"
  qs_unit :: "string option"
  qs_id :: string

record provider =
  pv_current :: QueryState
  pv_superset :: QueryState
  pv_staged :: "(EQueryType \<times> QueryState) option"
  pv_queryType :: EQueryType
  pv_panelType :: "PANEL_TYPES option"
  pv_initialDataSource :: "DataSource option"
  pv_lastUsedQuery :: nat
  pv_calledFromRun :: bool
  pv_table :: panel_table

definition query_of :: "EQueryType \<Rightarrow> QueryState \<Rightarrow> query" where
  "query_of queryType s =
     \<lparr> q_queryType = queryType, q_promql = qs_promql s, q_clickhouse_sql = qs_clickhouse_sql s, q_queryData = qs_queryData s,
       q_queryFormulas = qs_queryFormulas s, q_queryTraceOperator = qs_queryTraceOperator s \<rparr>"

definition initialQueryState :: "string \<Rightarrow> QueryState" where
  "initialQueryState queryId =
     \<lparr> qs_queryData = [initialQueryBuilderFormValues], qs_queryFormulas = [], qs_queryTraceOperator = [],
       qs_promql = [initialQueryPromQLData], qs_clickhouse_sql = [initialClickHouseData], qs_unit = Some [], qs_id = queryId \<rparr>"

section \<open>Editing\<close>

text \<open>Most actions do the same to both states.\<close>

definition update_both :: "(QueryState \<Rightarrow> QueryState) \<Rightarrow> provider \<Rightarrow> provider" where
  "update_both f p = p\<lparr> pv_current := f (pv_current p), pv_superset := f (pv_superset p) \<rparr>"

definition remove_at :: "nat \<Rightarrow> 'a list \<Rightarrow> 'a list" where
  "remove_at index xs = map snd (filter (\<lambda>(i, _). index \<noteq> i) (enumerate 0 xs))"

datatype builder_list = B_queryData | B_queryFormulas | B_queryTraceOperator

definition removeQueryBuilderEntityByIndex :: "builder_list \<Rightarrow> nat \<Rightarrow> provider \<Rightarrow> provider" where
  "removeQueryBuilderEntityByIndex ty index =
     update_both (\<lambda>s. case ty of
         B_queryData \<Rightarrow> s\<lparr> qs_queryData := remove_at index (qs_queryData s) \<rparr>
       | B_queryFormulas \<Rightarrow> s\<lparr> qs_queryFormulas := remove_at index (qs_queryFormulas s) \<rparr>
       | B_queryTraceOperator \<Rightarrow> s\<lparr> qs_queryTraceOperator := remove_at index (qs_queryTraceOperator s) \<rparr>)"

definition removeAllQueryBuilderEntities :: "builder_list \<Rightarrow> provider \<Rightarrow> provider" where
  "removeAllQueryBuilderEntities ty =
     update_both (\<lambda>s. case ty of
         B_queryData \<Rightarrow> s\<lparr> qs_queryData := [] \<rparr>
       | B_queryFormulas \<Rightarrow> s\<lparr> qs_queryFormulas := [] \<rparr>
       | B_queryTraceOperator \<Rightarrow> s\<lparr> qs_queryTraceOperator := [] \<rparr>)"

datatype item_list = I_promql | I_clickhouse_sql

definition removeQueryTypeItemByIndex :: "item_list \<Rightarrow> nat \<Rightarrow> provider \<Rightarrow> provider" where
  "removeQueryTypeItemByIndex ty index =
     update_both (\<lambda>s. case ty of
         I_promql \<Rightarrow> s\<lparr> qs_promql := remove_at index (qs_promql s) \<rparr>
       | I_clickhouse_sql \<Rightarrow> s\<lparr> qs_clickhouse_sql := remove_at index (qs_clickhouse_sql s) \<rparr>)"

definition or_metrics :: "DataSource option \<Rightarrow> DataSource" where
  "or_metrics dataSource = (case dataSource of None \<Rightarrow> METRICS | Some d \<Rightarrow> d)"

definition new_name :: "IBuilderQuery list \<Rightarrow> string" where
  "new_name queries = createNewBuilderItemName (map bq_queryName queries) alphabet"

definition createNewBuilderQuery :: "DataSource option \<Rightarrow> IBuilderQuery list \<Rightarrow> IBuilderQuery" where
  "createNewBuilderQuery initialDataSource queries =
     (initialQueryBuilderFormValuesMap (or_metrics initialDataSource))\<lparr>
       bq_source := Some (case queries of [] \<Rightarrow> [] | q # _ \<Rightarrow> or_text (bq_source q) []),
       bq_queryName := new_name queries, bq_expression := new_name queries \<rparr>"

definition cloneNewBuilderQuery :: "IBuilderQuery list \<Rightarrow> IBuilderQuery \<Rightarrow> IBuilderQuery" where
  "cloneNewBuilderQuery queries q = q\<lparr> bq_queryName := new_name queries, bq_expression := new_name queries \<rparr>"

definition createNewBuilderFormula :: "IBuilderFormula list \<Rightarrow> IBuilderFormula" where
  "createNewBuilderFormula formulas =
     initialFormulaBuilderFormValues\<lparr> bf_queryName := createNewBuilderItemName (map bf_queryName formulas) formulasNames \<rparr>"

definition createNewQueryTypeItem :: "'q IClickHouseQuery_scheme \<Rightarrow> 'q IClickHouseQuery_scheme list \<Rightarrow> 'q IClickHouseQuery_scheme" where
  "createNewQueryTypeItem initial itemArray =
     initial\<lparr> rq_name := createNewBuilderItemName (map rq_name itemArray) alphabet \<rparr>"

definition add_limited :: "nat \<Rightarrow> ('a list \<Rightarrow> 'a) \<Rightarrow> 'a list \<Rightarrow> 'a list" where
  "add_limited n create xs = (if length xs \<ge> n then xs else xs @ [create xs])"

definition addNewQueryItem :: "item_list \<Rightarrow> provider \<Rightarrow> provider" where
  "addNewQueryItem ty =
     update_both (\<lambda>s. case ty of
         I_promql \<Rightarrow> s\<lparr> qs_promql := add_limited MAX_QUERIES (createNewQueryTypeItem initialQueryPromQLData) (qs_promql s) \<rparr>
       | I_clickhouse_sql \<Rightarrow>
           s\<lparr> qs_clickhouse_sql := add_limited MAX_QUERIES (createNewQueryTypeItem initialClickHouseData) (qs_clickhouse_sql s) \<rparr>)"

definition addNewBuilderQuery :: "provider \<Rightarrow> provider" where
  "addNewBuilderQuery p =
     update_both (\<lambda>s. s\<lparr> qs_queryData :=
       add_limited MAX_QUERIES (createNewBuilderQuery (pv_initialDataSource p)) (qs_queryData s) \<rparr>) p"

definition cloneQuery :: "IBuilderQuery \<Rightarrow> provider \<Rightarrow> provider" where
  "cloneQuery q =
     update_both (\<lambda>s. s\<lparr> qs_queryData := add_limited MAX_QUERIES (\<lambda>qs. cloneNewBuilderQuery qs q) (qs_queryData s) \<rparr>)"

definition addNewFormula :: "provider \<Rightarrow> provider" where
  "addNewFormula =
     update_both (\<lambda>s. s\<lparr> qs_queryFormulas := add_limited MAX_FORMULAS createNewBuilderFormula (qs_queryFormulas s) \<rparr>)"

definition operator_with :: "string \<Rightarrow> IBuilderQuery list \<Rightarrow> IBuilderQuery" where
  "operator_with expression existing =
     (case existing of
        q # _ \<Rightarrow> q\<lparr> bq_expression := js_trim expression \<rparr>
      | [] \<Rightarrow> initialQueryBuilderFormTraceOperatorValues\<lparr> bq_queryName := TRACE_OPERATOR_QUERY_NAME,
          bq_expression := js_trim expression \<rparr>)"

definition addTraceOperator :: "string \<Rightarrow> provider \<Rightarrow> provider" where
  "addTraceOperator expression =
     update_both (\<lambda>s. s\<lparr> qs_queryTraceOperator := [operator_with expression (qs_queryTraceOperator s)] \<rparr>)"

definition removeTraceOperator :: "provider \<Rightarrow> provider" where
  "removeTraceOperator = update_both (\<lambda>s. s\<lparr> qs_queryTraceOperator := [] \<rparr>)"

text \<open>A map that replaces the item at an index is an update of the list: nothing happens out of range.\<close>

definition updateQueryBuilderData :: "'a list \<Rightarrow> nat \<Rightarrow> 'a \<Rightarrow> 'a list" where
  "updateQueryBuilderData arr index newQueryItem = arr[index := newQueryItem]"

definition handleSetPromData :: "nat \<Rightarrow> IPromQLQuery \<Rightarrow> provider \<Rightarrow> provider" where
  "handleSetPromData index newQueryData =
     update_both (\<lambda>s. s\<lparr> qs_promql := updateQueryBuilderData (qs_promql s) index newQueryData \<rparr>)"

definition handleSetClickHouseData :: "nat \<Rightarrow> IClickHouseQuery \<Rightarrow> provider \<Rightarrow> provider" where
  "handleSetClickHouseData index newQueryData =
     update_both (\<lambda>s. s\<lparr> qs_clickhouse_sql := updateQueryBuilderData (qs_clickhouse_sql s) index newQueryData \<rparr>)"

definition handleSetTraceOperatorData :: "nat \<Rightarrow> IBuilderQuery \<Rightarrow> provider \<Rightarrow> provider" where
  "handleSetTraceOperatorData index traceOperatorData =
     update_both (\<lambda>s. s\<lparr> qs_queryTraceOperator := updateQueryBuilderData (qs_queryTraceOperator s) index traceOperatorData \<rparr>)"

definition handleSetFormulaData :: "nat \<Rightarrow> IBuilderFormula \<Rightarrow> provider \<Rightarrow> provider" where
  "handleSetFormulaData index formulaData =
     update_both (\<lambda>s. s\<lparr> qs_queryFormulas := updateQueryBuilderData (qs_queryFormulas s) index formulaData \<rparr>)"

text \<open>The item of the superset: only the fields of the panel change; the name of the data source is pushed into the table.\<close>

definition push_field :: "PANEL_TYPES \<Rightarrow> DataSource \<Rightarrow> panel_table \<Rightarrow> panel_table" where
  "push_field panelType dataSource table =
     (case table panelType of None \<Rightarrow> table
      | Some values \<Rightarrow> table(panelType := Some (values(dataSource := values dataSource @ [F_dataSource]))))"

definition superset_item :: "panel_table \<Rightarrow> PANEL_TYPES option \<Rightarrow> IBuilderQuery \<Rightarrow> IBuilderQuery \<Rightarrow> IBuilderQuery" where
  "superset_item table panelType newQueryItem item =
     (case panelType of None \<Rightarrow> newQueryItem
      | Some pt \<Rightarrow> (case table pt of None \<Rightarrow> item
          | Some values \<Rightarrow> copy_fields (values (bq_dataSource item) @ [F_dataSource]) newQueryItem item))"

definition updateSuperSetQueryBuilderData ::
  "PANEL_TYPES option \<Rightarrow> IBuilderQuery list \<Rightarrow> nat \<Rightarrow> IBuilderQuery \<Rightarrow> panel_table \<Rightarrow> IBuilderQuery list \<times> panel_table" where
  "updateSuperSetQueryBuilderData panelType arr index newQueryItem table =
     (if index < length arr
      then (arr[index := superset_item table panelType newQueryItem (arr ! index)],
            case panelType of None \<Rightarrow> table | Some pt \<Rightarrow> push_field pt (bq_dataSource (arr ! index)) table)
      else (arr, table))"

definition handleSetQueryData :: "nat \<Rightarrow> IBuilderQuery \<Rightarrow> provider \<Rightarrow> provider" where
  "handleSetQueryData index newQueryData p =
     (let current = pv_current p; superset = pv_superset p;
          (qs, table) = updateSuperSetQueryBuilderData (pv_panelType p) (qs_queryData superset) index newQueryData (pv_table p)
      in p\<lparr> pv_current := current\<lparr> qs_queryData := updateQueryBuilderData (qs_queryData current) index newQueryData \<rparr>,
            pv_superset := superset\<lparr> qs_queryData := qs \<rparr>, pv_table := table \<rparr>)"

definition handleSetConfig :: "PANEL_TYPES \<Rightarrow> DataSource option \<Rightarrow> provider \<Rightarrow> provider" where
  "handleSetConfig newPanelType dataSource p = p\<lparr> pv_panelType := Some newPanelType, pv_initialDataSource := dataSource \<rparr>"

definition resetQuery :: "QueryState option \<Rightarrow> provider \<Rightarrow> provider" where
  "resetQuery newCurrentQuery p =
     (case newCurrentQuery of None \<Rightarrow> p\<lparr> pv_staged := None \<rparr>
      | Some s \<Rightarrow> p\<lparr> pv_staged := None, pv_current := s, pv_superset := s \<rparr>)"

definition handleOnUnitsChange :: "string \<Rightarrow> provider \<Rightarrow> provider" where
  "handleOnUnitsChange unit = update_both (\<lambda>s. s\<lparr> qs_unit := Some unit \<rparr>)"

text \<open>The page changes.\<close>

definition leave_page :: "provider \<Rightarrow> provider" where
  "leave_page p = p\<lparr> pv_staged := None, pv_lastUsedQuery := 0, pv_calledFromRun := False \<rparr>"

section \<open>The query in the address\<close>

record url_item =
  ui_query :: IBuilderQuery
  ui_aggregations :: "Aggregation list option"

record url_query =
  uq_queryType :: EQueryType
  uq_queryData :: "url_item list"
  uq_rest :: QueryState

definition convert_url_item ::
  "(filter_scalar list \<Rightarrow> filter_scalar list) \<Rightarrow> (string \<Rightarrow> IToken list) \<Rightarrow> url_item \<Rightarrow> url_item" where
  "convert_url_item sortBy lexer item =
     (let q = ui_query item;
          (filters, expression) = convertFiltersToExpressionWithExistingQuery sortBy lexer (bq_filters q) (or_text (bq_filter q) []);
          aggregations = (if ui_aggregations item = None \<and> or_text (bq_aggregateOperator q) [] \<noteq> []
            then convertAggregationToExpression (or_text (bq_aggregateOperator q) []) (bq_aggregateAttribute q) (bq_dataSource q)
              (bq_timeAggregation q) (bq_spaceAggregation q) None (bq_reduceTo q) (bq_temporality q)
            else ui_aggregations item)
      in \<lparr> ui_query = q\<lparr> bq_filter := Some expression, bq_filters := filters,
             bq_having := (case bq_having q of HavingItems hs \<Rightarrow> HavingExpression (convertHavingToExpression hs) | h \<Rightarrow> h) \<rparr>,
           ui_aggregations = aggregations \<rparr>)"

definition useGetCompositeQueryParam ::
  "(filter_scalar list \<Rightarrow> filter_scalar list) \<Rightarrow> (string \<Rightarrow> IToken list) \<Rightarrow> url_query \<Rightarrow> url_query" where
  "useGetCompositeQueryParam sortBy lexer url = url\<lparr> uq_queryData := map (convert_url_item sortBy lexer) (uq_queryData url) \<rparr>"

text \<open>\<^verbatim>\<open>{...initial, ...item}\<close>: what the item lacks comes from the initial values.\<close>

definition fill_query :: "IBuilderQuery \<Rightarrow> IBuilderQuery \<Rightarrow> IBuilderQuery" where
  "fill_query initial q =
     q\<lparr> bq_aggregateOperator := nullish (bq_aggregateOperator q) (bq_aggregateOperator initial),
        bq_aggregateAttribute := nullish (bq_aggregateAttribute q) (bq_aggregateAttribute initial),
        bq_timeAggregation := nullish (bq_timeAggregation q) (bq_timeAggregation initial),
        bq_spaceAggregation := nullish (bq_spaceAggregation q) (bq_spaceAggregation initial),
        bq_temporality := nullish (bq_temporality q) (bq_temporality initial),
        bq_filter := nullish (bq_filter q) (bq_filter initial),
        bq_limit := nullish (bq_limit q) (bq_limit initial),
        bq_stepInterval := nullish (bq_stepInterval q) (bq_stepInterval initial),
        bq_reduceTo := nullish (bq_reduceTo q) (bq_reduceTo initial),
        bq_legend := nullish (bq_legend q) (bq_legend initial),
        bq_pageSize := nullish (bq_pageSize q) (bq_pageSize initial),
        bq_offset := nullish (bq_offset q) (bq_offset initial),
        bq_source := nullish (bq_source q) (bq_source initial) \<rparr>"

definition fill_url_item :: "IBuilderQuery \<Rightarrow> url_item \<Rightarrow> IBuilderQuery" where
  "fill_url_item initial item =
     (fill_query initial (ui_query item))\<lparr> bq_aggregations := keep (bq_aggregations initial) (ui_aggregations item) \<rparr>"

definition fill_formula :: "IBuilderFormula \<Rightarrow> IBuilderFormula" where
  "fill_formula f = f\<lparr> bf_legend := nullish (bf_legend f) (bf_legend initialFormulaBuilderFormValues) \<rparr>"

definition fill_item :: "'q IClickHouseQuery_scheme \<Rightarrow> 'q IClickHouseQuery_scheme \<Rightarrow> 'q IClickHouseQuery_scheme" where
  "fill_item initial c = c\<lparr> rq_legend := nullish (rq_legend c) (rq_legend initial) \<rparr>"

definition allowed_columns :: "IBuilderQuery \<Rightarrow> string set" where
  "allowed_columns q =
     set (filter (\<lambda>k. k \<noteq> []) (map ac_key (bq_groupBy q))) \<union> set (filter (\<lambda>k. k \<noteq> []) (getParsedAggregationOptionsForOrderBy q))"

definition sanitizeOrderByForExplorer :: "IBuilderQuery \<Rightarrow> OrderByPayload list" where
  "sanitizeOrderByForExplorer q = filter (\<lambda>ob. ob_columnName ob \<in> allowed_columns q) (bq_orderBy q)"

definition setup_query :: "bool \<Rightarrow> bool \<Rightarrow> IBuilderQuery \<Rightarrow> IBuilderQuery" where
  "setup_query isExplorer calledFromHandleRunQuery q =
     (if isExplorer \<and> \<not> calledFromHandleRunQuery then q\<lparr> bq_orderBy := sanitizeOrderByForExplorer q \<rparr> else q)"

definition prepareQueryBuilderData :: "bool \<Rightarrow> provider \<Rightarrow> url_query \<Rightarrow> QueryState" where
  "prepareQueryBuilderData isExplorer p url =
     (let rest = uq_rest url; initial = initialQueryBuilderFormValuesMap (or_metrics (pv_initialDataSource p)) in
      rest\<lparr> qs_queryData := map (\<lambda>item. setup_query isExplorer (pv_calledFromRun p) (fill_url_item initial item)) (uq_queryData url),
            qs_queryFormulas := map fill_formula (qs_queryFormulas rest),
            qs_queryTraceOperator := map (fill_query initialQueryBuilderFormTraceOperatorValues) (qs_queryTraceOperator rest),
            qs_promql := map (fill_item initialQueryPromQLData) (qs_promql rest),
            qs_clickhouse_sql := map (fill_item initialClickHouseData) (qs_clickhouse_sql rest) \<rparr>)"

definition initQueryBuilderData :: "bool \<Rightarrow> url_query \<Rightarrow> provider \<Rightarrow> provider" where
  "initQueryBuilderData isExplorer url p =
     (let s = prepareQueryBuilderData isExplorer p url
      in p\<lparr> pv_staged := Some (uq_queryType url, s), pv_current := s, pv_queryType := uq_queryType url \<rparr>)"

text \<open>The effect on a new query in the address, whose main fields are there because the code below writes them.\<close>

definition read_address ::
  "(filter_scalar list \<Rightarrow> filter_scalar list) \<Rightarrow> (string \<Rightarrow> IToken list) \<Rightarrow> bool \<Rightarrow> url_query \<Rightarrow> provider \<Rightarrow> provider" where
  "read_address sortBy lexer isExplorer url p =
     (let param = useGetCompositeQueryParam sortBy lexer url in
      case pv_staged p of
        Some (ty, s) \<Rightarrow> if qs_id s = qs_id (uq_rest param) then p else initQueryBuilderData isExplorer param p
      | None \<Rightarrow> initQueryBuilderData isExplorer param p)"

definition to_url :: "EQueryType \<Rightarrow> QueryState \<Rightarrow> url_query" where
  "to_url queryType s =
     \<lparr> uq_queryType = queryType,
       uq_queryData = map (\<lambda>q. \<lparr> ui_query = q, ui_aggregations = Some (bq_aggregations q) \<rparr>) (qs_queryData s), uq_rest = s \<rparr>"

definition redirectWithQueryBuilderData :: "string \<Rightarrow> EQueryType \<Rightarrow> QueryState \<Rightarrow> url_query" where
  "redirectWithQueryBuilderData queryId queryType s =
     (let initial = initialQueryState [];
          built = (if qs_queryData s = []
            then s\<lparr> qs_queryData := qs_queryData initial, qs_queryFormulas := qs_queryFormulas initial,
              qs_queryTraceOperator := qs_queryTraceOperator initial \<rparr> else s)
      in to_url queryType (built\<lparr>
           qs_promql := (if qs_promql s = [] then qs_promql initial else qs_promql s),
           qs_clickhouse_sql := (if qs_clickhouse_sql s = [] then qs_clickhouse_sql initial else qs_clickhouse_sql s),
           qs_unit := js_or (qs_unit s) (qs_unit initial), qs_id := queryId \<rparr>))"

definition run_query_item :: "IBuilderQuery \<Rightarrow> IBuilderQuery" where
  "run_query_item q =
     q\<lparr> bq_filter := Some (case bq_filter q of None \<Rightarrow> [] | Some e \<Rightarrow> if js_trim e = [] then [] else e), bq_filters := [] \<rparr>"

text \<open>The step interval that \<^verbatim>\<open>updateStepInterval\<close> sets to null is missing already.\<close>

definition handleRunQuery :: "string \<Rightarrow> bool \<Rightarrow> provider \<Rightarrow> provider \<times> url_query" where
  "handleRunQuery queryId isExplorer p =
     (let current = pv_current p
      in (if isExplorer then p\<lparr> pv_calledFromRun := True \<rparr> else p,
          redirectWithQueryBuilderData queryId (pv_queryType p)
            (current\<lparr> qs_queryData := map run_query_item (qs_queryData current) \<rparr>)))"

section \<open>Default queries\<close>

definition getElementWithActualOperator :: "IBuilderQuery \<Rightarrow> DataSource \<Rightarrow> PANEL_TYPES \<Rightarrow> IBuilderQuery" where
  "getElementWithActualOperator q dataSource currentPanelType =
     (let initialOperators = getOperatorsBySourceAndPanelType dataSource currentPanelType
      in if or_text (bq_aggregateOperator q) [] \<in> set (map fst initialOperators) then q
         else q\<lparr> bq_aggregateOperator := (case initialOperators of [] \<Rightarrow> None | op # _ \<Rightarrow> Some (fst op)) \<rparr>)"

definition updateAllQueriesOperators :: "query \<Rightarrow> PANEL_TYPES \<Rightarrow> DataSource \<Rightarrow> string option \<Rightarrow> query" where
  "updateAllQueriesOperators q panelType dataSource signalSource =
     q\<lparr> q_queryData := map (\<lambda>item. (getElementWithActualOperator item dataSource panelType)\<lparr> bq_source := signalSource \<rparr>)
          (q_queryData q) \<rparr>"

definition extractRelevantKeys :: "IBuilderQuery \<Rightarrow> IBuilderQuery" where
  "extractRelevantKeys q =
     q\<lparr> bq_aggregations := [], bq_temporality := None, bq_filter := None, bq_limit := None, bq_orderBy := [],
        bq_reduceTo := Some ''avg'', bq_pageSize := None, bq_offset := None, bq_selectColumns := [], bq_source := None \<rparr>"

definition initialQueriesMap :: "DataSource \<Rightarrow> query" where
  "initialQueriesMap dataSource =
     (query_of QUERY_BUILDER (initialQueryState []))\<lparr> q_queryData := [initialQueryBuilderFormValuesMap dataSource] \<rparr>"

text \<open>A query without any builder query is an error in the code; here it is no default query.\<close>

definition isDefaultQuery :: "query \<Rightarrow> DataSource \<Rightarrow> bool" where
  "isDefaultQuery currentQuery sourcePage \<longleftrightarrow>
     q_queryType currentQuery = QUERY_BUILDER \<and>
     (case q_queryData currentQuery of
        [q] \<Rightarrow> extractRelevantKeys q =
          extractRelevantKeys (hd (q_queryData (updateAllQueriesOperators (initialQueriesMap sourcePage) LIST sourcePage None)))
      | _ \<Rightarrow> False)"

end
