(* ===== verification/QueryEditing.thy ===== *)
theory QueryEditing
  imports QueryBuilderState
begin

text \<open>
  What the fields of a query do to it: the handlers of
  \<^verbatim>\<open>frontend/src/hooks/queryBuilder/useQueryBuilderOperations.ts\<close>, with the queries remembered per data source
  (\<^verbatim>\<open>components/QueryBuilderV2/QueryV2/previousQuery.utils.ts\<close>, whose session storage is an argument and a result),
  and \<^verbatim>\<open>utils/getFormatedLegend.ts\<close>.  A handler is the function from the old query to the new one
  that it hands to the provider.  An aggregation with an expression keeps it when a metric field is set; the
  field is never read from it and not modelled.
\<close>

section \<open>Legends\<close>

text \<open>\<^verbatim>\<open>/\{\s*\{\s*(.*?)\s*\}\s*\}/g\<close>: the spaces are greedy, the content as short as possible and on one line.\<close>

definition after_brace :: "char \<Rightarrow> string \<Rightarrow> string option" where
  "after_brace b s = (case dropWhile is_space s of [] \<Rightarrow> None | c # cs \<Rightarrow> if c = b then Some cs else None)"

definition close_slot :: "string \<Rightarrow> string option" where
  "close_slot s = Option.bind (after_brace (CHR ''}'') s) (after_brace (CHR ''}''))"

fun slot_content :: "string \<Rightarrow> (string \<times> string) option" where
  "slot_content s =
     (case close_slot s of Some rest \<Rightarrow> Some ([], rest)
      | None \<Rightarrow> (case s of [] \<Rightarrow> None
          | c # cs \<Rightarrow> if c = CHR 0x0A \<or> c = CHR 0x0D then None
                     else map_option (\<lambda>(content, rest). (c # content, rest)) (slot_content cs)))"

declare slot_content.simps [simp del]

definition match_slot :: "string \<Rightarrow> (string \<times> string) option" where
  "match_slot s =
     (case s of [] \<Rightarrow> None
      | c # cs \<Rightarrow> if c = CHR ''{'' then Option.bind (after_brace (CHR ''{'') cs) (\<lambda>t. slot_content (dropWhile is_space t)) else None)"

lemma after_brace_shorter: "after_brace b s = Some r \<Longrightarrow> length r < length s"
  using length_dropWhile_le [of is_space s] by (auto simp: after_brace_def split: list.splits if_splits)

lemma slot_content_shorter: "slot_content s = Some (c, r) \<Longrightarrow> length r < length s"
proof (induction s arbitrary: c r rule: slot_content.induct)
  case (1 s)
  show ?case
  proof (cases "close_slot s")
    case None
    then obtain d cs where s: "s = d # cs" using 1(2) by (cases s) (auto simp: slot_content.simps)
    then obtain c' where "slot_content cs = Some (c', r)" using 1(2) None by (auto simp: slot_content.simps [of "d # cs"] split: if_splits)
    then show ?thesis using 1(1) [of d cs c' r] None s 1(2) by (auto simp: slot_content.simps [of "d # cs"] split: if_splits)
  next
    case (Some r')
    then have "r' = r" using 1(2) by (simp add: slot_content.simps)
    moreover obtain t where "after_brace (CHR ''}'') s = Some t" "after_brace (CHR ''}'') t = Some r'"
      using Some by (auto simp: close_slot_def bind_eq_Some_conv)
    ultimately show ?thesis using after_brace_shorter [of _ s t] after_brace_shorter [of _ t r'] by fastforce
  qed
qed

lemma match_slot_shorter: "match_slot s = Some (c, r) \<Longrightarrow> length r < length s"
proof -
  assume "match_slot s = Some (c, r)"
  then obtain cs t where s: "s = CHR ''{'' # cs" "after_brace (CHR ''{'') cs = Some t" "slot_content (dropWhile is_space t) = Some (c, r)"
    by (auto simp: match_slot_def bind_eq_Some_conv split: list.splits if_splits)
  then show ?thesis
    using after_brace_shorter [OF s(2)] slot_content_shorter [OF s(3)] length_dropWhile_le [of is_space t] by simp
qed

function getFormatedLegend :: "string \<Rightarrow> string" where
  "getFormatedLegend s =
     (case s of [] \<Rightarrow> []
      | c # cs \<Rightarrow>
          (case match_slot s of None \<Rightarrow> c # getFormatedLegend cs
           | Some (content, rest) \<Rightarrow> ''{{'' @ content @ ''}}'' @ getFormatedLegend rest))"
  by pat_completeness auto
termination
proof (relation "measure length")
  show "wf (measure (length :: string \<Rightarrow> nat))" by simp
next
  fix s :: string and c cs
  assume "s = c # cs"
  then show "(cs, s) \<in> measure length" by simp
next
  fix s :: string and c cs p x r
  assume "s = c # cs" "match_slot s = Some p" "(x, r) = p"
  then show "(r, s) \<in> measure length" using match_slot_shorter [of s x r] by auto
qed

declare getFormatedLegend.simps [simp del]

section \<open>Operators\<close>

fun set_time :: "string \<Rightarrow> Aggregation \<Rightarrow> Aggregation" where
  "set_time v (AggMetric m) = AggMetric (m\<lparr> ma_timeAggregation := Some v \<rparr>)"
| "set_time v (AggExpression a) = AggExpression a"

fun set_space :: "string \<Rightarrow> Aggregation \<Rightarrow> Aggregation" where
  "set_space v (AggMetric m) = AggMetric (m\<lparr> ma_spaceAggregation := Some v \<rparr>)"
| "set_space v (AggExpression a) = AggExpression a"

definition no_metric :: MetricAggregation where
  "no_metric = \<lparr> ma_metricName = None, ma_temporality = None, ma_timeAggregation = None, ma_spaceAggregation = None, ma_reduceTo = None \<rparr>"

definition first_or :: "'a \<Rightarrow> 'a list \<Rightarrow> 'a" where
  "first_or d xs = (case xs of [] \<Rightarrow> d | x # _ \<Rightarrow> x)"

definition handleChangeOperator :: "string \<Rightarrow> IBuilderQuery \<Rightarrow> IBuilderQuery" where
  "handleChangeOperator v q =
     (let aggregateDataType = Option.bind (bq_aggregateAttribute q) ac_dataType;
          shouldReset = ((aggregateDataType = Some ''string'' \<or> aggregateDataType = Some ''bool'')
            \<and> findDataTypeOfOperator v = Some ''number'')
      in q\<lparr> bq_aggregateOperator := Some v, bq_timeAggregation := Some v,
            bq_aggregations := [set_time v (first_or (AggMetric no_metric) (bq_aggregations q))], bq_limit := None,
            bq_aggregateAttribute := (if shouldReset then Some initialAutocompleteData else bq_aggregateAttribute q) \<rparr>)"

text \<open>\<open>None\<close> is the error of reading a field of an aggregation that is not there.\<close>

definition handleSpaceAggregationChange :: "string \<Rightarrow> IBuilderQuery \<Rightarrow> IBuilderQuery option" where
  "handleSpaceAggregationChange v q =
     (case bq_aggregations q of [] \<Rightarrow> None
      | agg # _ \<Rightarrow> Some (q\<lparr> bq_spaceAggregation := Some v, bq_aggregations := [set_space v agg] \<rparr>))"

section \<open>The metric of a query\<close>

definition attribute_key :: "BaseAutocompleteData option \<Rightarrow> string" where
  "attribute_key a = or_text (map_option ac_key a) []"

definition attribute_type :: "BaseAutocompleteData option \<Rightarrow> string" where
  "attribute_type a = or_text (Option.bind a ac_type) []"

text \<open>The name and type that the hook remembers of the last query.\<close>

definition previousMetricInfo :: "IBuilderQuery \<Rightarrow> (string \<times> string) option" where
  "previousMetricInfo q =
     (let metricName = or_text (js_or (map_option ac_key (bq_aggregateAttribute q)) (first_metric ma_metricName (bq_aggregations q))) [];
          metricType = attribute_type (bq_aggregateAttribute q)
      in if metricName \<noteq> [] \<and> metricType \<noteq> [] then Some (metricName, metricType) else None)"

text \<open>The options for time and space.\<close>

definition handleMetricAggregateAtributeTypes ::
  "BaseAutocompleteData option \<Rightarrow> (string \<times> string) list \<times> (string \<times> string) list" where
  "handleMetricAggregateAtributeTypes a =
     (let ty = attribute_type a in
      (if ty = [] \<and> attribute_key a \<noteq> [] then metricsUnknownTimeAggregateOperatorOptions
       else getMetricsOperatorsByAttributeType METRICS (if ty = [] then ''Gauge'' else ty),
       if ty = ''Sum'' then metricsSumSpaceAggregateOperatorOptions
       else if ty = ''Gauge'' then metricsGaugeSpaceAggregateOperatorOptions
       else if ty = ''Histogram'' \<or> ty = ''ExponentialHistogram'' then metricsHistogramSpaceAggregateOperatorOptions
       else metricsUnknownSpaceAggregateOperatorOptions))"

datatype entity_version = V3 | V4 | V5

definition metric_of :: "string \<Rightarrow> string \<Rightarrow> string \<Rightarrow> string option \<Rightarrow> Aggregation list" where
  "metric_of key time space reduceTo =
     [AggMetric \<lparr> ma_metricName = Some key, ma_temporality = Some [], ma_timeAggregation = Some time,
       ma_spaceAggregation = Some space, ma_reduceTo = reduceTo \<rparr>]"

definition v4_attribute :: "IBuilderQuery \<Rightarrow> IBuilderQuery" where
  "v4_attribute q =
     (let ty = attribute_type (bq_aggregateAttribute q); key = attribute_key (bq_aggregateAttribute q);
          timed = (if ty = ''Sum'' then q\<lparr> bq_aggregateOperator := Some ''rate'', bq_timeAggregation := Some ''rate'' \<rparr>
            else if ty = ''Gauge'' then q\<lparr> bq_aggregateOperator := Some ''avg'', bq_timeAggregation := Some ''avg'' \<rparr>
            else q\<lparr> bq_timeAggregation := Some [] \<rparr>);
          spaced = timed\<lparr> bq_spaceAggregation := Some [] \<rparr>
      in if ty \<noteq> [] then spaced
         else if key \<noteq> []
         then spaced\<lparr> bq_aggregateOperator := Some ''avg'', bq_timeAggregation := Some ''avg'', bq_spaceAggregation := Some ''avg'' \<rparr>
         else spaced\<lparr> bq_aggregateOperator := Some ''count'', bq_timeAggregation := Some ''rate'', bq_spaceAggregation := Some ''sum'' \<rparr>)"

text \<open>The aggregation of a metric of a type, when the type is new.\<close>

definition fresh_aggregations :: "string \<Rightarrow> string \<Rightarrow> Aggregation list" where
  "fresh_aggregations ty key =
     (if ty = ''Sum'' then metric_of key ''rate'' ''sum'' (Some ''sum'')
      else if ty = ''Gauge'' then metric_of key ''avg'' ''avg'' (Some ''avg'')
      else if ty = ''Histogram'' \<or> ty = ''ExponentialHistogram'' then metric_of key [] ''p90'' (Some ''avg'')
      else metric_of key [] [] (Some ''avg''))"

definition unknown_aggregations :: "string \<Rightarrow> Aggregation list" where
  "unknown_aggregations key = metric_of key ''avg'' (if key \<noteq> [] then ''avg'' else ''sum'') None"

definition v5_attribute :: "(string \<times> string) option \<Rightarrow> IBuilderQuery \<Rightarrow> IBuilderQuery" where
  "v5_attribute previous q =
     (let ty = attribute_type (bq_aggregateAttribute q); key = attribute_key (bq_aggregateAttribute q);
          prevType = (case previous of None \<Rightarrow> [] | Some (_, t) \<Rightarrow> t);
          metricTypeChanged = (prevType \<noteq> [] \<and> ty \<noteq> [] \<and> prevType \<noteq> ty);
          q1 = (if metricTypeChanged \<or> previous = None
                then q\<lparr> bq_aggregations := (if ty = [] then unknown_aggregations key else fresh_aggregations ty key),
                  bq_aggregateOperator := Some [], bq_spaceAggregation := Some [] \<rparr>
                else (case bq_aggregations q of [] \<Rightarrow> q
                  | agg # _ \<Rightarrow> q\<lparr> bq_aggregations := [AggMetric ((metric_part agg)\<lparr> ma_metricName := Some key \<rparr>)] \<rparr>))
      in if ty = [] then q1\<lparr> bq_aggregations := unknown_aggregations key \<rparr> else q1)"

definition handleChangeAggregatorAttribute ::
  "entity_version \<Rightarrow> (string \<times> string) option \<Rightarrow> bool \<Rightarrow> BaseAutocompleteData \<Rightarrow> IBuilderQuery \<Rightarrow> IBuilderQuery" where
  "handleChangeAggregatorAttribute version previous isEditMode v q =
     (let newQuery = q\<lparr> bq_aggregateAttribute := Some v \<rparr> in
      if bq_dataSource q \<noteq> METRICS \<or> isEditMode then newQuery
      else (case version of V3 \<Rightarrow> newQuery | V4 \<Rightarrow> v4_attribute newQuery | V5 \<Rightarrow> v5_attribute previous newQuery))"

section \<open>The data source of a query\<close>

definition data_source_text :: "DataSource \<Rightarrow> string" where
  "data_source_text d = (case d of METRICS \<Rightarrow> ''metrics'' | TRACES \<Rightarrow> ''traces'' | LOGS \<Rightarrow> ''logs'')"

definition panel_type_text :: "PANEL_TYPES option \<Rightarrow> string" where
  "panel_type_text p =
     (case p of None \<Rightarrow> []
      | Some t \<Rightarrow> (case t of TIME_SERIES \<Rightarrow> ''graph'' | VALUE \<Rightarrow> ''value'' | TABLE \<Rightarrow> ''table'' | LIST \<Rightarrow> ''list'' | TRACE \<Rightarrow> ''trace''
          | BAR \<Rightarrow> ''bar'' | PIE \<Rightarrow> ''pie'' | HISTOGRAM \<Rightarrow> ''histogram'' | EMPTY_WIDGET \<Rightarrow> ''EMPTY_WIDGET''))"

definition getQueryKey :: "string \<Rightarrow> DataSource \<Rightarrow> string option \<Rightarrow> PANEL_TYPES option \<Rightarrow> string" where
  "getQueryKey queryName dataSource signalSource panelType =
     queryName @ '':'' @ data_source_text dataSource @ '':'' @ (if signalSource = Some ''meter'' then ''meter'' else []) @ '':''
       @ panel_type_text panelType"

type_synonym previous_queries = "IBuilderQuery jsobj"

definition saveAsPreviousQuery :: "string \<Rightarrow> IBuilderQuery \<Rightarrow> previous_queries \<Rightarrow> previous_queries" where
  "saveAsPreviousQuery key q store = obj_set key q store"

definition getPreviousQueryFromKey :: "string \<Rightarrow> previous_queries \<Rightarrow> IBuilderQuery option" where
  "getPreviousQueryFromKey key store = obj_get store key"

definition removeKeyFromPreviousQuery :: "string \<Rightarrow> previous_queries \<Rightarrow> previous_queries" where
  "removeKeyFromPreviousQuery key store = filter (\<lambda>(k, _). k \<noteq> key) store"

definition trace_column :: "string \<Rightarrow> string \<Rightarrow> string \<Rightarrow> select_column" where
  "trace_column name context dataType =
     \<lparr> sc_key = None, sc_name = Some name, sc_fieldDataType = Some dataType, sc_dataType = None, sc_fieldContext = Some context,
       sc_type = None, sc_signal = Some ''traces'' \<rparr>"

definition defaultTraceSelectedColumns :: "select_column list" where
  "defaultTraceSelectedColumns =
     [trace_column ''service.name'' ''resource'' ''string'', trace_column ''name'' ''span'' ''string'',
      trace_column ''duration_nano'' ''span'' [], trace_column ''http_method'' ''span'' [],
      trace_column ''response_status_code'' ''span'' []]"

definition listViewInitialLogQuery :: query where
  "listViewInitialLogQuery =
     (initialQueriesMap LOGS)\<lparr> q_queryData := [initialQueryBuilderFormLogsValues\<lparr> bq_aggregateOperator := Some ''noop'',
       bq_orderBy := [\<lparr> ob_columnName = ''timestamp'', ob_order = ''desc'' \<rparr>], bq_offset := Some 0, bq_pageSize := Some 100 \<rparr>] \<rparr>"

definition listViewInitialTraceQuery :: query where
  "listViewInitialTraceQuery =
     (initialQueriesMap TRACES)\<lparr> q_queryData := [initialQueryBuilderFormTracesValues\<lparr> bq_aggregateOperator := Some ''noop'',
       bq_orderBy := [\<lparr> ob_columnName = ''timestamp'', ob_order = ''desc'' \<rparr>], bq_offset := Some 0, bq_pageSize := Some 10,
       bq_selectColumns := defaultTraceSelectedColumns \<rparr>] \<rparr>"

text \<open>The initial values of the new source, but for what identifies the query and the fields they do not have.\<close>

definition copy_initial :: "DataSource \<Rightarrow> string \<Rightarrow> IBuilderQuery \<Rightarrow> IBuilderQuery" where
  "copy_initial nextSource operator q =
     (initialQueryBuilderFormValuesMap nextSource)\<lparr> bq_queryName := bq_queryName q, bq_expression := bq_expression q,
       bq_temporality := bq_temporality q, bq_pageSize := bq_pageSize q, bq_offset := bq_offset q,
       bq_selectColumns := bq_selectColumns q, bq_aggregateOperator := Some operator \<rparr>"

text \<open>
  The result: the query to navigate to, the new query (\<open>None\<close> is the error of a panel without operators, which is
  raised after the navigation) and the remembered queries.
\<close>

definition handleChangeDataSource ::
  "bool \<Rightarrow> bool \<Rightarrow> PANEL_TYPES option \<Rightarrow> DataSource \<Rightarrow> IBuilderQuery \<Rightarrow> previous_queries
     \<Rightarrow> query option \<times> IBuilderQuery option \<times> previous_queries" where
  "handleChangeDataSource savePreviousQuery isListViewPanel panelType nextSource q store =
     (let key = (\<lambda>d. getQueryKey (bq_queryName q) d (bq_source q) panelType);
          saved = saveAsPreviousQuery (key (bq_dataSource q)) q store;
          previous = (if savePreviousQuery then getPreviousQueryFromKey (key nextSource) saved else None);
          store' = (if savePreviousQuery then removeKeyFromPreviousQuery (key nextSource) saved else store);
          listPanelQuery = (case nextSource of LOGS \<Rightarrow> Some listViewInitialLogQuery | TRACES \<Rightarrow> Some listViewInitialTraceQuery
            | METRICS \<Rightarrow> None);
          target = (if isListViewPanel
            then map_option (\<lambda>l. case previous of None \<Rightarrow> l | Some p \<Rightarrow> l\<lparr> q_queryData := [p] \<rparr>) listPanelQuery else None);
          newQuery = (case getOperatorsBySourceAndPanelType nextSource (panel_or_default panelType) of
              [] \<Rightarrow> None
            | (operator, _) # _ \<Rightarrow> Some (case previous of Some p \<Rightarrow> p | None \<Rightarrow> copy_initial nextSource operator q))
      in (target, newQuery, store'))"

section \<open>The other fields\<close>

definition handleDeleteQuery :: "nat \<Rightarrow> provider \<Rightarrow> provider" where
  "handleDeleteQuery index p =
     (let p' = (if length (qs_queryData (pv_current p)) > 1 then removeQueryBuilderEntityByIndex B_queryData index p else p)
      in p'\<lparr> pv_lastUsedQuery := 0 \<rparr>)"

text \<open>The value of the field is that of the query \<open>v\<close>; a legend is brought into its standard form.\<close>

definition change_field :: "query_field \<Rightarrow> IBuilderQuery \<Rightarrow> IBuilderQuery \<Rightarrow> IBuilderQuery" where
  "change_field f v q =
     (if f = F_legend then q\<lparr> bq_legend := map_option getFormatedLegend (bq_legend v) \<rparr> else copy_field f v q)"

definition handleChangeQueryData :: "bool \<Rightarrow> nat \<Rightarrow> query_field \<Rightarrow> IBuilderQuery \<Rightarrow> IBuilderQuery \<Rightarrow> provider \<Rightarrow> provider" where
  "handleChangeQueryData isForTraceOperator index f v q =
     (if isForTraceOperator then handleSetTraceOperatorData index (change_field f v q)
      else handleSetQueryData index (change_field f v q))"

datatype formula_field = FF_expression | FF_disabled | FF_legend | FF_limit | FF_orderBy

fun change_formula_field :: "formula_field \<Rightarrow> IBuilderFormula \<Rightarrow> IBuilderFormula \<Rightarrow> IBuilderFormula" where
  "change_formula_field FF_expression v f = f\<lparr> bf_expression := bf_expression v \<rparr>"
| "change_formula_field FF_disabled v f = f\<lparr> bf_disabled := bf_disabled v \<rparr>"
| "change_formula_field FF_legend v f = f\<lparr> bf_legend := bf_legend v \<rparr>"
| "change_formula_field FF_limit v f = f\<lparr> bf_limit := bf_limit v \<rparr>"
| "change_formula_field FF_orderBy v f = f\<lparr> bf_orderBy := bf_orderBy v \<rparr>"

definition handleChangeFormulaData :: "nat \<Rightarrow> formula_field \<Rightarrow> IBuilderFormula \<Rightarrow> IBuilderFormula \<Rightarrow> provider \<Rightarrow> provider" where
  "handleChangeFormulaData index field v formula = handleSetFormulaData index (change_formula_field field v formula)"

definition handleQueryFunctionsUpdates :: "QueryFunction list \<Rightarrow> IBuilderQuery \<Rightarrow> IBuilderQuery" where
  "handleQueryFunctionsUpdates functions q =
     (if bq_dataSource q = METRICS \<or> bq_dataSource q = LOGS then q\<lparr> bq_functions := functions \<rparr> else q)"

section \<open>Additional filters\<close>

definition mapOfQueryFilters :: "DataSource \<Rightarrow> (string \<times> query_field) list" where
  "mapOfQueryFilters dataSource =
     (if dataSource = METRICS then [(''Aggregation interval'', F_stepInterval), (''Having'', F_having)]
      else [(''Order by'', F_orderBy), (''Limit'', F_limit), (''Having'', F_having), (''Aggregation interval'', F_stepInterval)])"

definition commonFormulaFilters :: "(string \<times> query_field) list" where
  "commonFormulaFilters = [(''Having'', F_having), (''Order by'', F_orderBy), (''Limit'', F_limit)]"

definition getNewListOfAdditionalFilters :: "query_field set \<Rightarrow> DataSource \<Rightarrow> bool \<Rightarrow> string list" where
  "getNewListOfAdditionalFilters hidden dataSource isQuery =
     map fst (filter (\<lambda>(_, f). f \<notin> hidden) (if isQuery then mapOfQueryFilters dataSource else commonFormulaFilters))"

end
