(* ===== verification/QueryTyping.thy ===== *)
theory QueryTyping
  imports QueryRequestProperties
begin

text \<open>
  What every request is: its envelopes have the shape that the types in
  \<^verbatim>\<open>frontend/src/types/api/v5/queryRange.ts\<close> and the comments of the conversion promise, if the edited query says what
  to ask for.  And what saving a widget keeps of its request.
\<close>

section \<open>Shapes\<close>

text \<open>
  The unions of literals of \<^verbatim>\<open>queryRange.ts\<close>.  A text field that is left out satisfies \<open>listed\<close>: for an optional field
  that is what the type says, and for the enumerated fields of a metric aggregation it stands for the empty text
  of the type, which the code may leave out.
\<close>

definition field_contexts :: "string list" where
  "field_contexts = [''metric'', ''log'', ''span'', ''trace'', ''resource'', ''scope'', ''attribute'', ''event'', '''']"

definition field_data_types :: "string list" where
  "field_data_types = [''string'', ''bool'', ''float64'', ''int64'', ''number'', ''[]string'', ''[]float64'', ''[]bool'',
     ''[]int64'', ''[]number'', '''']"

definition signals :: "string list" where
  "signals = [''traces'', ''logs'', ''metrics'']"

definition function_names :: "string list" where
  "function_names = [''cutOffMin'', ''cutOffMax'', ''clampMin'', ''clampMax'', ''absolute'', ''runningDiff'', ''log2'',
     ''log10'', ''cumulativeSum'', ''ewma3'', ''ewma5'', ''ewma7'', ''median3'', ''median5'', ''median7'', ''timeShift'',
     ''anomaly'']"

definition temporalities :: "string list" where
  "temporalities = [''cumulative'', ''delta'', '''']"

definition time_aggregations :: "string list" where
  "time_aggregations = [''latest'', ''sum'', ''avg'', ''min'', ''max'', ''count'', ''count_distinct'', ''rate'', ''increase'', '''']"

definition space_aggregations :: "string list" where
  "space_aggregations = [''sum'', ''avg'', ''min'', ''max'', ''count'', ''p50'', ''p75'', ''p90'', ''p95'', ''p99'', '''']"

definition reduce_operators :: "string list" where
  "reduce_operators = [''last'', ''sum'', ''avg'', ''max'', ''min'']"

definition listed :: "string list \<Rightarrow> string option \<Rightarrow> bool" where
  "listed literals x \<longleftrightarrow> (case x of None \<Rightarrow> True | Some s \<Rightarrow> s \<in> set literals)"

definition given :: "string option \<Rightarrow> bool" where
  "given v \<longleftrightarrow> v \<noteq> None \<and> v \<noteq> Some []"

definition field_typed :: "TelemetryFieldKey \<Rightarrow> bool" where
  "field_typed k \<longleftrightarrow> listed field_contexts (tf_fieldContext k) \<and> listed field_data_types (tf_fieldDataType k)
     \<and> listed signals (tf_signal k)"

definition order_typed :: "OrderBy \<Rightarrow> bool" where
  "order_typed ob \<longleftrightarrow> or_direction ob \<in> {''asc'', ''desc''}"

definition value_typed :: "scalar \<Rightarrow> bool" where
  "value_typed v \<longleftrightarrow> (case v of SBool _ \<Rightarrow> False | _ \<Rightarrow> True)"

definition function_typed :: "QueryFunction \<Rightarrow> bool" where
  "function_typed f \<longleftrightarrow> fn_name f \<in> set function_names \<and> fn_namedArgs f = []
     \<and> list_all (\<lambda>x. value_typed (fa_value x)) (keep [] (fn_args f))"

definition having_typed :: "query_having option \<Rightarrow> bool" where
  "having_typed h \<longleftrightarrow> (case h of Some (HavingItems _) \<Rightarrow> False | _ \<Rightarrow> True)"

text \<open>An optional field that is sent says something: a list has elements, a number is not zero, a text is not empty.\<close>

definition base_typed :: "RequestType \<Rightarrow> BaseBuilderQuery \<Rightarrow> bool" where
  "base_typed rt b \<longleftrightarrow>
     bs_limit b \<noteq> Some 0 \<and> bs_stepInterval b \<noteq> Some 0 \<and> (rt = R_raw \<or> rt = R_trace \<or> bs_offset b = None)
     \<and> bs_legend b \<noteq> Some [] \<and> bs_groupBy b \<noteq> Some [] \<and> bs_order b \<noteq> Some [] \<and> bs_functions b \<noteq> Some []
     \<and> bs_selectFields b \<noteq> Some [] \<and> having_typed (bs_having b)
     \<and> list_all field_typed (keep [] (bs_groupBy b)) \<and> list_all field_typed (keep [] (bs_selectFields b))
     \<and> list_all order_typed (keep [] (bs_order b)) \<and> list_all function_typed (keep [] (bs_functions b))"

text \<open>A call of a function: its name, an opening bracket, arguments without brackets, and the closing bracket.\<close>

definition flat_call :: "string \<Rightarrow> bool" where
  "flat_call s \<longleftrightarrow> (let w = takeWhile is_word s; r = dropWhile is_word s; body = butlast (tl r)
     in w \<noteq> [] \<and> length r \<ge> 2 \<and> hd r = CHR ''('' \<and> last r = CHR '')'' \<and> CHR ''('' \<notin> set body \<and> CHR '')'' \<notin> set body)"

fun expression_typed :: "Aggregation \<Rightarrow> bool" where
  "expression_typed (AggExpression a) = flat_call (ea_expression a)"
| "expression_typed (AggMetric m) = False"

fun metric_typed :: "Aggregation \<Rightarrow> bool" where
  "metric_typed (AggMetric m) = (given (ma_metricName m) \<and> listed temporalities (ma_temporality m)
     \<and> listed time_aggregations (ma_timeAggregation m) \<and> listed space_aggregations (ma_spaceAggregation m)
     \<and> listed reduce_operators (ma_reduceTo m))"
| "metric_typed (AggExpression a) = False"

definition aggregations_typed :: "RequestType \<Rightarrow> bool \<Rightarrow> Aggregation list option \<Rightarrow> bool" where
  "aggregations_typed rt metrics aggs \<longleftrightarrow>
     (case aggs of None \<Rightarrow> rt = R_raw
      | Some as \<Rightarrow> rt \<noteq> R_raw \<and> as \<noteq> []
          \<and> (if metrics then length as = 1 \<and> list_all metric_typed as else list_all expression_typed as))"

fun envelope_typed :: "RequestType \<Rightarrow> QueryEnvelope \<Rightarrow> bool" where
  "envelope_typed rt (Builder_query s) =
     (bu_signal s \<in> set signals \<and> listed [''meter'', ''''] (bu_source s)
      \<and> (bu_source s \<noteq> None \<longleftrightarrow> bu_signal s = ''metrics'') \<and> bs_filter (bu_base s) \<noteq> None
      \<and> base_typed rt (bu_base s) \<and> aggregations_typed rt (bu_signal s = ''metrics'') (bu_aggregations s))"
| "envelope_typed rt (Builder_formula s) = (qf_legend s \<noteq> Some [] \<and> list_all order_typed (keep [] (qf_order s)))"
| "envelope_typed rt (Builder_trace_operator s) =
     (base_typed rt (tq_base s) \<and> aggregations_typed rt False (tq_aggregations s))"
| "envelope_typed rt (Promql s) = (cq_query s \<noteq> [] \<and> cq_legend s \<noteq> Some [])"
| "envelope_typed rt (Clickhouse_sql s) = (cq_query s \<noteq> [] \<and> cq_legend s \<noteq> Some [])"

section \<open>Queries that can be asked\<close>

text \<open>
  What the edited query has to say: the fields, orders and functions are among those of the service, the condition on the
  groups is none or an expression, a metric query names its metric in its first aggregation or its old attribute, and the
  aggregations of the other signals have no brackets inside brackets.
\<close>

definition key_typed :: "BaseAutocompleteData \<Rightarrow> bool" where
  "key_typed k \<longleftrightarrow> listed field_contexts (ac_type k) \<and> listed field_data_types (ac_dataType k) \<and> listed signals (ac_signal k)"

definition column_typed :: "select_column \<Rightarrow> bool" where
  "column_typed c \<longleftrightarrow> listed field_contexts (sc_fieldContext c) \<and> listed field_contexts (sc_type c)
     \<and> listed field_data_types (sc_fieldDataType c) \<and> listed field_data_types (sc_dataType c) \<and> listed signals (sc_signal c)"

definition direction_typed :: "OrderByPayload \<Rightarrow> bool" where
  "direction_typed ob \<longleftrightarrow> ob_order ob \<in> {''asc'', ''desc''}"

text \<open>The functions of the menu other than \<^verbatim>\<open>fillZero\<close>, which the type does not list, in the spelling of the type or of
  the older lower-case one.\<close>

definition known_function :: "string \<Rightarrow> bool" where
  "known_function n \<longleftrightarrow> n \<in> set function_names
     \<or> toLowerCase n \<in> set (filter (\<lambda>k. k \<noteq> ''fillzero'') (map fst functionNameMap))"

definition function_askable :: "QueryFunction \<Rightarrow> bool" where
  "function_askable f \<longleftrightarrow> known_function (fn_name f) \<and> list_all (\<lambda>x. value_typed (fa_value x)) (keep [] (fn_args f))
     \<and> list_all (\<lambda>(n, v). value_typed v) (fn_namedArgs f)"

fun flat_brackets :: "bool \<Rightarrow> string \<Rightarrow> bool" where
  "flat_brackets inside [] = True"
| "flat_brackets inside (c # cs) =
     (if c = CHR ''('' then \<not> inside \<and> flat_brackets True cs
      else if c = CHR '')'' then flat_brackets False cs else flat_brackets inside cs)"

fun aggregation_askable :: "Aggregation \<Rightarrow> bool" where
  "aggregation_askable (AggExpression a) = flat_brackets False (ea_expression a)"
| "aggregation_askable (AggMetric m) = True"

definition metric_askable :: "IBuilderQuery \<Rightarrow> bool" where
  "metric_askable q \<longleftrightarrow>
     (let part = (\<lambda>field. first_metric field (bq_aggregations q)); attribute = bq_aggregateAttribute q in
        (given (part ma_metricName) \<or> given (map_option ac_key attribute))
        \<and> list_all (listed temporalities) [part ma_temporality, Option.bind attribute ac_temporality]
        \<and> list_all (listed time_aggregations) [part ma_timeAggregation, bq_timeAggregation q]
        \<and> list_all (listed space_aggregations) [part ma_spaceAggregation, bq_spaceAggregation q]
        \<and> list_all (listed ('''' # reduce_operators)) [part ma_reduceTo]
        \<and> listed reduce_operators (bq_reduceTo q) \<and> listed [''meter'', ''''] (bq_source q))"

definition having_askable :: "query_having \<Rightarrow> bool" where
  "having_askable h \<longleftrightarrow> (case h of HavingItems items \<Rightarrow> items = [] | HavingExpression _ \<Rightarrow> True)"

definition query_askable :: "IBuilderQuery \<Rightarrow> bool" where
  "query_askable q \<longleftrightarrow>
     list_all key_typed (bq_groupBy q) \<and> list_all direction_typed (bq_orderBy q)
     \<and> list_all function_askable (bq_functions q) \<and> list_all column_typed (bq_selectColumns q)
     \<and> having_askable (bq_having q)
     \<and> (if bq_dataSource q = METRICS then metric_askable q else list_all aggregation_askable (bq_aggregations q))"

definition params_askable :: "table_params option \<Rightarrow> bool" where
  "params_askable p \<longleftrightarrow> (case p of None \<Rightarrow> True | Some t \<Rightarrow> list_all column_typed (keep [] (tp_selectColumns t)))"

definition askable :: "'v GetQueryResultsProps \<Rightarrow> bool" where
  "askable p \<longleftrightarrow>
     list_all query_askable (q_queryData (gp_query p))
     \<and> list_all (\<lambda>f. list_all direction_typed (keep [] (bf_orderBy f))) (q_queryFormulas (gp_query p))
     \<and> list_all (\<lambda>t. query_askable t \<and> bq_dataSource t \<noteq> METRICS) (q_queryTraceOperator (gp_query p))
     \<and> params_askable (gp_tableParams p)"

section \<open>The parts of a request\<close>

lemma listed_simps [simp]: "listed ls None" "listed ls (Some x) \<longleftrightarrow> x \<in> set ls"
  by (simp_all add: listed_def)

lemma listed_or: "listed ls a \<Longrightarrow> listed ls b \<Longrightarrow> listed ls (js_or a b)"
  by (auto simp: js_or_def listed_def split: option.splits)

lemma listed_or_empty: "listed ([] # ls) a \<Longrightarrow> listed ls b \<Longrightarrow> listed ls (js_or a b)"
  by (auto simp: js_or_def listed_def split: option.splits)

lemma listed_nullish: "listed ls a \<Longrightarrow> listed ls b \<Longrightarrow> listed ls (nullish a b)"
  by (auto simp: nullish_def split: option.splits)

lemma listed_text: "listed ls a \<Longrightarrow> [] \<in> set ls \<Longrightarrow> or_text a [] \<in> set ls"
  by (auto simp: or_text_def split: option.splits)

lemma given_or: "given (js_or a b) \<longleftrightarrow> given a \<or> given b"
  by (auto simp: js_or_def given_def split: option.splits)

lemma keep_not_empty: "keep [] (map_option (map f) (nonempty xs)) = map f xs"
  by (simp add: nonempty_def)

lemma group_by_typed: "key_typed k \<Longrightarrow> field_typed (group_by_key k) \<and> field_typed (trace_group_by_key k)"
  using listed_text [of field_contexts "ac_type k"] listed_text [of field_data_types "ac_dataType k"]
  by (auto simp: key_typed_def field_typed_def group_by_key_def trace_group_by_key_def)
    (simp_all add: field_contexts_def field_data_types_def)

lemma select_field_typed: "column_typed c \<Longrightarrow> field_typed (select_field ok c)"
  by (simp add: column_typed_def field_typed_def select_field_def listed_nullish)

lemma order_by_typed: "direction_typed ob \<Longrightarrow> order_typed (order_by ob)"
  by (simp add: direction_typed_def order_typed_def order_by_def)

lemma map_of_values: "map_of xs k = Some v \<Longrightarrow> list_all (\<lambda>(k, v). P k v) xs \<Longrightarrow> P k v"
  by (drule map_of_SomeD) (auto simp: list_all_iff)

lemma normalized_known: "known_function n \<Longrightarrow> normalizeFunctionName n \<in> set function_names"
proof -
  assume known: "known_function n"
  have targets: "list_all (\<lambda>(k, v). k \<noteq> ''fillzero'' \<longrightarrow> v \<in> set function_names \<and> v \<noteq> []) functionNameMap"
    unfolding functionNameMap_def function_names_def by simp
  have names: "list_all (\<lambda>n. normalizeFunctionName n = n) function_names" by code_simp
  show ?thesis
  proof (cases "n \<in> set function_names")
    case True
    with names show ?thesis by (simp add: list_all_iff)
  next
    case False
    with known obtain v where "map_of functionNameMap (toLowerCase n) = Some v" "toLowerCase n \<noteq> ''fillzero''"
      unfolding known_function_def by (cases "map_of functionNameMap (toLowerCase n)") (auto simp: map_of_eq_None_iff)
    with map_of_values [OF _ targets] show ?thesis by (simp add: normalizeFunctionName_def)
  qed
qed

lemma query_function_typed: "function_askable f \<Longrightarrow> function_typed (query_function f)"
proof -
  assume f: "function_askable f"
  have "value_typed v" if "(n, v) \<in> set (obj_entries (fn_namedArgs f))" for n v
    using f that by (auto simp: function_askable_def list_all_iff)
  with f normalized_known show ?thesis
    by (cases "fn_args f")
      (auto simp: function_typed_def function_askable_def query_function_def list_all_iff)
qed

lemma int_or_nonzero [simp]: "int_or x None \<noteq> Some 0" "int_or x (int_or y None) \<noteq> Some 0"
  by (auto simp: int_or_def split: option.split)

lemma legend_nonempty [simp]: "legend_spec l \<noteq> Some []"
  by (auto simp: legend_spec_def js_or_def split: option.split)

lemma nonempty_not_nil [simp]: "map_option (map f) (nonempty xs) \<noteq> Some []" "nonempty xs \<noteq> Some []"
  by (simp_all add: nonempty_def)

lemma having_spec_typed: "having_askable h \<Longrightarrow> having_typed (having_spec h)"
  by (auto simp: having_askable_def having_typed_def having_spec_def split: query_having.splits)

lemma request_limit_nonzero [simp]: "request_limit pt q \<noteq> Some 0"
  by (simp add: request_limit_def)

lemma createBaseSpec_typed: "query_askable q \<Longrightarrow> base_typed rt (createBaseSpec q rt pt)"
  using group_by_typed select_field_typed order_by_typed query_function_typed having_spec_typed [of "bq_having q"]
  by (auto simp: base_typed_def createBaseSpec_def request_offset_def query_askable_def keep_not_empty list_all_iff)

lemma createTraceOperatorBaseSpec_typed: "query_askable q \<Longrightarrow> base_typed rt (createTraceOperatorBaseSpec q rt pt)"
  using group_by_typed select_field_typed order_by_typed having_spec_typed [of "bq_having q"]
  by (auto simp: base_typed_def createTraceOperatorBaseSpec_def request_offset_def query_askable_def keep_not_empty list_all_iff)

lemma flat_brackets_closed: "flat_brackets True s \<Longrightarrow> flat_brackets False s"
  by (induction s) (auto split: if_splits)

lemma flat_brackets_suffix: "flat_brackets False (xs @ ys) \<Longrightarrow> flat_brackets False ys"
proof (induction xs)
  case (Cons x xs)
  then have "flat_brackets False (xs @ ys)" by (auto split: if_splits intro: flat_brackets_closed)
  then show ?case by (rule Cons.IH)
qed simp

lemma flat_brackets_inside:
  "flat_brackets True s \<Longrightarrow> CHR ''('' \<notin> set (takeWhile (\<lambda>c. c \<noteq> CHR '')'') s)"
  by (induction s) (auto split: if_splits)

lemma flat_brackets_words: "list_all is_word w \<Longrightarrow> flat_brackets inside (w @ s) = flat_brackets inside s"
  by (induction w) (auto simp: is_word_def)

lemma match_call_split:
  assumes "match_call s = Some (e, r)"
  obtains w body where "list_all is_word w" "w \<noteq> []" "CHR '')'' \<notin> set body"
    "e = w @ ''('' @ body @ '')''" "s = e @ r"
proof -
  let ?r = "dropWhile is_word s"
  have e: "e = takeWhile is_word s @ takeWhile (\<lambda>c. c \<noteq> CHR '')'') ?r @ '')''"
    and w: "takeWhile is_word s \<noteq> []" "?r \<noteq> []" "hd ?r = CHR ''(''"
    and d: "dropWhile (\<lambda>c. c \<noteq> CHR '')'') ?r \<noteq> []" "r = tl (dropWhile (\<lambda>c. c \<noteq> CHR '')'') ?r)"
    using assms by (auto simp: match_call_def Let_def split: if_splits)
  have b: "takeWhile (\<lambda>c. c \<noteq> CHR '')'') ?r = ''('' @ takeWhile (\<lambda>c. c \<noteq> CHR '')'') (tl ?r)"
    using w by (cases ?r) auto
  have "hd (dropWhile (\<lambda>c. c \<noteq> CHR '')'') ?r) = CHR '')''" using hd_dropWhile [OF d(1)] by blast
  then have d': "dropWhile (\<lambda>c. c \<noteq> CHR '')'') ?r = '')'' @ r"
    using d by (cases "dropWhile (\<lambda>c. c \<noteq> CHR '')'') ?r") simp_all
  have "e @ r = takeWhile is_word s @ takeWhile (\<lambda>c. c \<noteq> CHR '')'') ?r @ '')'' @ r" by (simp add: e)
  also have "\<dots> = s" unfolding d' [symmetric] by (simp only: takeWhile_dropWhile_id)
  finally have s: "s = e @ r" by (rule sym)
  show thesis
  proof (rule that)
    show "list_all is_word (takeWhile is_word s)" by (auto simp: list_all_iff dest: set_takeWhileD)
    show "CHR '')'' \<notin> set (takeWhile (\<lambda>c. c \<noteq> CHR '')'') (tl ?r))" by (auto dest: set_takeWhileD)
    show "e = takeWhile is_word s @ ''('' @ takeWhile (\<lambda>c. c \<noteq> CHR '')'') (tl ?r) @ '')''"
      unfolding e b by simp
  qed (rule w(1) s)+
qed

lemma flat_call_intro:
  assumes "list_all is_word w" "w \<noteq> []" "CHR ''('' \<notin> set body" "CHR '')'' \<notin> set body"
  shows "flat_call (w @ ''('' @ body @ '')'')"
proof -
  have "takeWhile is_word (w @ ''('' @ body @ '')'') = w" "dropWhile is_word (w @ ''('' @ body @ '')'') = ''('' @ body @ '')''"
    using assms(1) by (simp_all add: takeWhile_append dropWhile_append list_all_iff) (simp_all add: is_word_def)
  with assms show ?thesis by (simp add: flat_call_def Let_def butlast_append)
qed

lemma match_call_flat:
  assumes "match_call s = Some (e, r)" "flat_brackets False s"
  shows "flat_call e \<and> flat_brackets False r"
proof -
  obtain w body where m: "list_all is_word w" "w \<noteq> []" "CHR '')'' \<notin> set body" "e = w @ ''('' @ body @ '')''" "s = e @ r"
    using match_call_split [OF assms(1)] by metis
  have "flat_brackets True (body @ '')'' @ r)"
    using assms(2) m(1) unfolding m(4,5) by (simp add: flat_brackets_words)
  moreover have "takeWhile (\<lambda>c. c \<noteq> CHR '')'') (body @ '')'' @ r) = body"
    using m(3) by (subst takeWhile_append2) auto
  ultimately have "CHR ''('' \<notin> set body" using flat_brackets_inside by metis
  with m(1-3) have "flat_call e" unfolding m(4) by (intro flat_call_intro)
  with flat_brackets_suffix [of e r] assms(2) m(5) show ?thesis by simp
qed

lemma match_alias_suffix: "match_alias s = Some (a, r) \<Longrightarrow> \<exists>xs. s = xs @ r"
proof -
  assume a: "match_alias s = Some (a, r)"
  let ?t = "dropWhile is_space s" and ?u = "dropWhile is_space (drop 2 (dropWhile is_space s))"
  have q: "\<exists>xs. t = xs @ r" if "match_quoted c t = Some (a, r)" for c t
  proof -
    from that obtain cs where t: "t = c # cs" and r: "dropWhile (\<lambda>x. x \<noteq> c) cs \<noteq> []" "r = tl (dropWhile (\<lambda>x. x \<noteq> c) cs)"
      by (cases t) (auto simp: match_quoted_def split: if_splits)
    then have "cs = (takeWhile (\<lambda>x. x \<noteq> c) cs @ [hd (dropWhile (\<lambda>x. x \<noteq> c) cs)]) @ r" by simp
    with t show ?thesis by (metis append_Cons)
  qed
  have w: "\<exists>xs. t = xs @ r" if "match_alias_word t = Some (a, r)" for t
    using that by (auto simp: match_alias_word_def Let_def split: if_splits intro: takeWhile_dropWhile_id [symmetric])
  have "match_alias_text ?u = Some (a, r)" using a by (simp add: match_alias_def Let_def split: if_splits)
  then obtain xs where "?u = xs @ r"
    using q w by (force simp: match_alias_text_def nullish_def split: option.splits)
  then have "s = (takeWhile is_space s @ take 2 ?t @ takeWhile is_space (drop 2 ?t) @ xs) @ r"
    by (metis append.assoc append_take_drop_id takeWhile_dropWhile_id)
  then show ?thesis by blast
qed

lemma parsed_calls:
  "flat_brackets False s \<Longrightarrow> a \<in> set (parse_aggregations av s) \<Longrightarrow> flat_call (ea_expression a)"
proof (induction av s rule: parse_aggregations.induct)
  case (1 av s)
  show ?case
  proof (cases s)
    case Nil
    then show ?thesis using 1(5) by (simp add: parse_aggregations.simps)
  next
    case (Cons c cs)
    have rest: "flat_brackets False cs" using flat_brackets_suffix [of "[c]" cs] "1.prems"(1) Cons by simp
    show ?thesis
    proof (cases "match_call s")
      case None
      then have "a \<in> set (parse_aggregations av cs)"
        using "1.prems"(2) Cons by (subst (asm) parse_aggregations.simps) simp
      then show ?thesis using "1.IH"(1) [OF Cons None rest] by simp
    next
      case (Some m)
      obtain e r where m: "match_call s = Some (e, r)" using Some by (cases m) simp
      note flat = match_call_flat [OF m "1.prems"(1)]
      show ?thesis
      proof (cases "match_alias r")
        case None
        then have "ea_expression a = e \<or> a \<in> set (parse_aggregations av r)"
          using "1.prems"(2) Cons m by (subst (asm) parse_aggregations.simps) (auto simp: aggregation_match_def)
        then show ?thesis using flat "1.IH"(2) [OF Cons m refl None] by blast
      next
        case (Some ar)
        obtain al t where ar: "match_alias r = Some (al, t)" using Some by (cases ar) simp
        then have "ea_expression a = e \<or> a \<in> set (parse_aggregations av t)"
          using "1.prems"(2) Cons m by (subst (asm) parse_aggregations.simps) (auto simp: aggregation_match_def)
        moreover have "flat_brackets False t"
          using match_alias_suffix [OF ar] flat flat_brackets_suffix by blast
        ultimately show ?thesis using flat "1.IH"(3) [OF Cons m refl ar refl] by blast
      qed
    qed
  qed
qed

lemma count_flat: "flat_call (ea_expression count_aggregation)"
  by code_simp

lemma expression_aggregations_typed:
  "aggregation_askable x \<Longrightarrow> list_all (\<lambda>a. flat_call (ea_expression a)) (expression_aggregations x)"
  using parsed_calls count_flat
  by (cases x) (auto simp: expression_aggregations_def parseAggregations_def Let_def list_all_iff)

lemma created_typed:
  assumes "query_askable q"
  shows "createAggregation q pt \<noteq> []"
    and "bq_dataSource q = METRICS \<Longrightarrow> length (createAggregation q pt) = 1 \<and> list_all metric_typed (createAggregation q pt)"
    and "bq_dataSource q \<noteq> METRICS \<Longrightarrow> list_all expression_typed (createAggregation q pt)"
proof -
  have e: "expression_aggregations x \<noteq> []" for x
    by (simp add: expression_aggregations_def Let_def)
  show "createAggregation q pt \<noteq> []"
    using e by (cases "bq_aggregations q") (auto simp: createAggregation_def)
  show "list_all expression_typed (createAggregation q pt)" if "bq_dataSource q \<noteq> METRICS"
    using expression_aggregations_typed count_flat assms that
    by (fastforce simp: createAggregation_def query_askable_def list_all_iff)
  show "length (createAggregation q pt) = 1 \<and> list_all metric_typed (createAggregation q pt)" if "bq_dataSource q = METRICS"
    using assms that
    by (simp add: createAggregation_def query_askable_def metric_askable_def metric_aggregation_def Let_def given_or
        listed_or listed_or_empty)
qed

lemma request_aggregations_typed:
  "query_askable q \<Longrightarrow> aggregations_typed rt (bq_dataSource q = METRICS) (request_aggregations q rt pt)"
  using created_typed [of q pt] by (auto simp: aggregations_typed_def request_aggregations_def)

lemma builder_query_typed: "query_askable q \<Longrightarrow> envelope_typed rt (Builder_query (builder_query rt pt (n, q)))"
  using request_aggregations_typed [of q rt pt] createBaseSpec_typed [of q rt pt]
  by (cases "bq_dataSource q")
    (simp_all add: builder_query_def getSignalType_def signals_def createBaseSpec_def query_askable_def
      metric_askable_def Let_def listed_text [of "[''meter'', '''']", simplified])

lemma trace_operator_typed:
  "query_askable q \<Longrightarrow> bq_dataSource q \<noteq> METRICS \<Longrightarrow> envelope_typed rt (Builder_trace_operator
     \<lparr> tq_name = n, tq_base = createTraceOperatorBaseSpec q rt pt, tq_expression = e, tq_aggregations = request_aggregations q rt pt \<rparr>)"
  using request_aggregations_typed [of q rt pt] createTraceOperatorBaseSpec_typed [of q rt pt] by simp

lemma params_typed:
  "query_askable q \<Longrightarrow> params_askable tp \<Longrightarrow> query_askable (with_table_params tp q)
     \<and> bq_dataSource (with_table_params tp q) = bq_dataSource q"
  by (auto simp: with_table_params_def query_askable_def params_askable_def metric_askable_def Let_def
      split: option.splits prod.splits)

lemma obj_set_elements: "(k', v') \<in> set (obj_set k v ob) \<Longrightarrow> (k', v') = (k, v) \<or> (k', v') \<in> set ob"
  by (induction k v ob rule: obj_set.induct) (auto split: if_splits)

lemma reduced_queries:
  "(k, v) \<in> set (fst (reduceQueriesToObject qs)) \<Longrightarrow> rq_query v \<noteq> []"
proof -
  have "(k, v) \<in> set (fst (fold (\<lambda>item (queries, legends).
         if rq_query item = [] then (queries, legends)
         else (obj_set (rq_name item) item queries, obj_set (rq_name item) (rq_legend item) legends)) qs (acc, l)))
      \<Longrightarrow> (\<And>k v. (k, v) \<in> set acc \<Longrightarrow> rq_query v \<noteq> []) \<Longrightarrow> rq_query v \<noteq> []" for acc l
  proof (induction qs arbitrary: acc l)
    case (Cons a qs)
    show ?case
    proof (cases "rq_query a = []")
      case True
      then show ?thesis using Cons by simp
    next
      case False
      then have "\<And>k v. (k, v) \<in> set (obj_set (rq_name a) a acc) \<Longrightarrow> rq_query v \<noteq> []"
        using Cons.prems(2) by (auto dest!: obj_set_elements)
      then show ?thesis using Cons.IH [of "obj_set (rq_name a) a acc"] Cons.prems(1) False by simp
    qed
  qed simp
  from this [of "[]" "[]"] show "(k, v) \<in> set (fst (reduceQueriesToObject qs)) \<Longrightarrow> rq_query v \<noteq> []"
    by (simp add: reduceQueriesToObject_def)
qed

lemma mapQueryDataToApi_values:
  assumes "(k, v) \<in> set (fst (mapQueryDataToApi name legend wp qs))"
  shows "\<exists>q \<in> set qs. v = wp q"
proof -
  have "(k, v) \<in> set (fold (\<lambda>(k, v). obj_set k v) (map (\<lambda>q. (name q, wp q)) qs) acc)
      \<Longrightarrow> (k, v) \<in> set acc \<or> (\<exists>q \<in> set qs. v = wp q)" for acc
    by (induction qs arbitrary: acc) (simp, fastforce dest!: obj_set_elements)
  from this [of "[]"] show ?thesis using assms by (simp add: mapQueryDataToApi_folds del: fold_map)
qed

lemma builder_request_typed:
  assumes a: "askable p" and b: "q_queryType (gp_query p) = QUERY_BUILDER" and e: "e \<in> set (fst (request_queries p))"
  shows "envelope_typed (mapPanelTypeToRequestType (gp_graphType p)) e"
proof -
  let ?wp = "with_table_params (gp_tableParams p)" and ?rt = "mapPanelTypeToRequestType (gp_graphType p)"
    and ?pt = "Some (gp_graphType p)" and ?q = "gp_query p"
  let ?ops = "filter (\<lambda>t. js_trim (bq_expression t) \<noteq> []) (q_queryTraceOperator ?q)"
  consider (query) k v where "(k, v) \<in> set (fst (mapQueryDataToApi bq_queryName bq_legend ?wp (q_queryData ?q)))"
      "e = Builder_query (builder_query ?rt ?pt (k, v))"
    | (formula) k v where "(k, v) \<in> set (fst (mapQueryDataToApi bf_queryName bf_legend id (q_queryFormulas ?q)))"
      "e = convert_formula (k, v)"
    | (operator) k v where "(k, v) \<in> set (fst (mapQueryDataToApi bq_queryName bq_legend ?wp ?ops))"
      "e = Builder_trace_operator \<lparr> tq_name = k, tq_base = createTraceOperatorBaseSpec v ?rt ?pt,
         tq_expression = bq_expression v, tq_aggregations = request_aggregations v ?rt ?pt \<rparr>"
    using e b by (auto simp: request_queries_def Let_def convertBuilderQueriesToV5_def convertTraceOperatorToV5_def
        split: prod.splits)
  then show ?thesis
  proof cases
    case query
    with mapQueryDataToApi_values [OF query(1)] a params_typed have "query_askable v"
      by (auto simp: askable_def list_all_iff)
    with query(2) builder_query_typed show ?thesis by simp
  next
    case formula
    with mapQueryDataToApi_values [OF formula(1)] a have "list_all direction_typed (keep [] (bf_orderBy v))"
      by (auto simp: askable_def list_all_iff)
    then have "list_all order_typed (keep [] (map_option (map order_by) (bf_orderBy v)))"
      using order_by_typed by (cases "bf_orderBy v") (auto simp: list_all_iff)
    with formula(2) show ?thesis by (simp add: convert_formula_def)
  next
    case operator
    with mapQueryDataToApi_values [OF operator(1)] a params_typed have "query_askable v \<and> bq_dataSource v \<noteq> METRICS"
      by (auto simp: askable_def list_all_iff)
    with operator(2) trace_operator_typed show ?thesis by simp
  qed
qed


definition metric_query :: IBuilderQuery where
  "metric_query = initialQueryBuilderFormValues\<lparr> bq_aggregations := [AggMetric \<lparr> ma_metricName = Some ''cpu'',
     ma_temporality = Some [], ma_timeAggregation = Some ''avg'', ma_spaceAggregation = Some ''sum'', ma_reduceTo = Some ''avg'' \<rparr>] \<rparr>"


section \<open>Saving a widget\<close>

text \<open>
  What saving needs: a filter that is written as an expression, and for metrics an aggregation that says its metric,
  its temporality and how to aggregate, itself or through the old fields.
\<close>

definition adjustable :: "IBuilderQuery \<Rightarrow> bool" where
  "adjustable q \<longleftrightarrow>
     (given (bq_filter q) \<or> bq_filters q = [])
     \<and> (bq_dataSource q = METRICS \<longrightarrow>
         (let m = metric_part (hd (bq_aggregations q)) in
          bq_aggregations q \<noteq> []
          \<and> given (js_or (ma_metricName m) (map_option ac_key (bq_aggregateAttribute q)))
          \<and> given (js_or (ma_timeAggregation m) (bq_timeAggregation q))
          \<and> given (js_or (ma_spaceAggregation m) (bq_spaceAggregation q))
          \<and> given (js_or (ma_reduceTo m) (bq_reduceTo q))
          \<and> (given (ma_temporality m) \<or> Option.bind (bq_aggregateAttribute q) ac_temporality = None
              \<and> ma_temporality m \<noteq> Some [])))"

lemma js_or_given: "given (js_or a b) \<Longrightarrow> js_or (js_or a (js_or b c)) None = js_or a b"
  "given (js_or a b) \<Longrightarrow> js_or (js_or a (js_or b c)) d = js_or a b"
  by (auto simp: js_or_def given_def split: option.splits if_splits)

lemma first_metric_part: "aggs \<noteq> [] \<Longrightarrow> first_metric field aggs =
    (case hd aggs of AggMetric m \<Rightarrow> field m | AggExpression a \<Rightarrow> None)"
  by (cases aggs) (auto simp: first_metric_def split: Aggregation.split)

lemma adjust_aggregations:
  assumes "adjustable q"
  shows "createAggregation (adjust_query q) pt = createAggregation q pt"
proof (cases "bq_dataSource q = METRICS")
  case False
  then show ?thesis by (simp add: createAggregation_def adjust_query_def)
next
  case True
  obtain a as where aggs: "bq_aggregations q = a # as"
    using assms True by (cases "bq_aggregations q") (auto simp: adjustable_def Let_def)
  let ?m = "metric_part a"
  have f: "first_metric ma_metricName (bq_aggregations q) = ma_metricName ?m"
      "first_metric ma_temporality (bq_aggregations q) = ma_temporality ?m"
      "first_metric ma_timeAggregation (bq_aggregations q) = ma_timeAggregation ?m"
      "first_metric ma_spaceAggregation (bq_aggregations q) = ma_spaceAggregation ?m"
      "first_metric ma_reduceTo (bq_aggregations q) = ma_reduceTo ?m"
    by (auto simp: aggs first_metric_def metric_part_def split: Aggregation.split)
  have g: "given (js_or (ma_metricName ?m) (map_option ac_key (bq_aggregateAttribute q)))"
      "given (js_or (ma_timeAggregation ?m) (bq_timeAggregation q))"
      "given (js_or (ma_spaceAggregation ?m) (bq_spaceAggregation q))"
      "given (js_or (ma_reduceTo ?m) (bq_reduceTo q))"
      "given (ma_temporality ?m) \<or> Option.bind (bq_aggregateAttribute q) ac_temporality = None \<and> ma_temporality ?m \<noteq> Some []"
    using assms True by (simp_all add: adjustable_def aggs Let_def)
  have t: "js_or (ma_temporality ?m) None = js_or (ma_temporality ?m) (Option.bind (bq_aggregateAttribute q) ac_temporality)"
    using g(5) by (auto simp: given_def js_or_def split: option.splits)
  show ?thesis
    using g t True
    by (simp add: createAggregation_def metric_aggregation_def f) (simp add: adjust_query_def aggs first_metric_def
        adjust_metric_aggregation_def Let_def js_or_given)
qed

lemma adjust_request:
  assumes "adjustable q"
  shows "builder_query rt pt (n, adjust_query q) = builder_query rt pt (n, q)"
proof -
  have "getFilter (adjust_query q) = getFilter q"
    using assms by (auto simp: getFilter_def adjust_query_def adjustable_def given_def or_text_def split: option.splits)
  then have "createBaseSpec (adjust_query q) rt pt = createBaseSpec q rt pt"
    by (simp add: createBaseSpec_def adjust_query_def request_limit_def request_offset_def)
  then show ?thesis
    using adjust_aggregations [OF assms]
    by (simp add: builder_query_def request_aggregations_def) (simp add: adjust_query_def)
qed

lemma adjustable_params [simp]:
  "with_table_params tp (adjust_query q) = adjust_query (with_table_params tp q)"
  "adjustable (with_table_params tp q) = adjustable q"
  by (auto simp: with_table_params_def adjust_query_def adjust_metric_aggregation_def adjustable_def Let_def
      split: option.splits prod.splits)

lemma adjust_fields [simp]: "bq_queryName (adjust_query q) = bq_queryName q" "bq_legend (adjust_query q) = bq_legend q"
  by (simp_all add: adjust_query_def)

lemma obj_set_map: "obj_set k (f v) (map (\<lambda>(k, v). (k, f v)) ob) = map (\<lambda>(k, v). (k, f v)) (obj_set k v ob)"
  by (induction k v ob rule: obj_set.induct) auto

lemma sort_key_mapped: "sort_key f (map g xs) = map g (sort_key (f \<circ> g) xs)"
proof -
  have "insort_key f (g x) (map g ys) = map g (insort_key (f \<circ> g) x ys)" for x ys
    by (induction ys) simp_all
  then show ?thesis by (induction xs) simp_all
qed

lemma obj_entries_map: "obj_entries (map (\<lambda>(k, v). (k, f v)) ob) = map (\<lambda>(k, v). (k, f v)) (obj_entries ob)"
  by (simp add: obj_entries_def filter_map comp_def case_prod_beta sort_key_mapped)

lemma mapQueryDataToApi_map:
  assumes "\<And>q. wp (f q) = f (wp q)" "\<And>q. name (f q) = name q" "\<And>q. q \<in> set qs \<Longrightarrow> legend (f q) = legend q"
  shows "mapQueryDataToApi name legend wp (map f qs) =
      (map (\<lambda>(k, v). (k, f v)) (fst (mapQueryDataToApi name legend wp qs)), snd (mapQueryDataToApi name legend wp qs))"
proof -
  have "fold (\<lambda>(k, v). obj_set k v) (map (\<lambda>q. (name q, f (wp q))) qs) (map (\<lambda>(k, v). (k, f v)) acc)
      = map (\<lambda>(k, v). (k, f v)) (fold (\<lambda>(k, v). obj_set k v) (map (\<lambda>q. (name q, wp q)) qs) acc)" for acc
    by (induction qs arbitrary: acc) (simp_all add: obj_set_map)
  note k = this [of "[]", simplified]
  have l: "map (\<lambda>q. (name q, legend (f q))) qs = map (\<lambda>q. (name q, legend q)) qs" using assms(3) by simp
  show ?thesis by (simp only: mapQueryDataToApi_folds map_map comp_def assms(1,2) l k fst_conv snd_conv)
qed

text \<open>A change of the queries that keeps what each asks for keeps what is asked for.\<close>

lemma request_kept_upto:
  assumes "\<And>q. with_table_params (gp_tableParams p) (f q) = f (with_table_params (gp_tableParams p) q)"
    and "\<And>q. bq_queryName (f q) = bq_queryName q"
    and "\<And>q. q \<in> set (q_queryData (gp_query p)) \<Longrightarrow> bq_legend (f q) = bq_legend q"
    and "\<And>q n rt pt. q \<in> set (q_queryData (gp_query p)) \<Longrightarrow>
        G (Builder_query (builder_query rt pt (n, f (with_table_params (gp_tableParams p) q))))
        = G (Builder_query (builder_query rt pt (n, with_table_params (gp_tableParams p) q)))"
    and r: "r = request_queries (p\<lparr> gp_query := (gp_query p)\<lparr> q_queryData := map f (q_queryData (gp_query p)) \<rparr> \<rparr>)"
  shows "map G (fst r) = map G (fst (request_queries p)) \<and> snd r = snd (request_queries p)"
proof (cases "q_queryType (gp_query p) = QUERY_BUILDER")
  case True
  let ?qs = "q_queryData (gp_query p)" and ?wp = "with_table_params (gp_tableParams p)"
  have m: "mapQueryDataToApi bq_queryName bq_legend ?wp (map f ?qs) =
      (map (\<lambda>(k, v). (k, f v)) (fst (mapQueryDataToApi bq_queryName bq_legend ?wp ?qs)),
       snd (mapQueryDataToApi bq_queryName bq_legend ?wp ?qs))"
    by (rule mapQueryDataToApi_map) (simp_all add: assms(1-3))
  have "G (Builder_query (builder_query rt pt (k, f v))) = G (Builder_query (builder_query rt pt (k, v)))"
    if "(k, v) \<in> set (fst (mapQueryDataToApi bq_queryName bq_legend ?wp ?qs))" for k v rt pt
    using mapQueryDataToApi_values [OF that] assms(4) by auto
  then have "map G (convertBuilderQueriesToV5 (fst (mapQueryDataToApi bq_queryName bq_legend ?wp (map f ?qs))) rt pt)
      = map G (convertBuilderQueriesToV5 (fst (mapQueryDataToApi bq_queryName bq_legend ?wp ?qs)) rt pt)" for rt pt
    by (auto simp: convertBuilderQueriesToV5_def m obj_entries_map)
  then show ?thesis using True by (simp add: r request_queries_def Let_def m case_prod_beta)
qed (auto simp: r request_queries_def Let_def split: EQueryType.split)

lemma request_kept:
  assumes "\<And>q. with_table_params (gp_tableParams p) (f q) = f (with_table_params (gp_tableParams p) q)"
    and "\<And>q. bq_queryName (f q) = bq_queryName q"
    and "\<And>q. q \<in> set (q_queryData (gp_query p)) \<Longrightarrow> bq_legend (f q) = bq_legend q"
    and "\<And>q n rt pt. q \<in> set (q_queryData (gp_query p)) \<Longrightarrow> builder_query rt pt (n, f (with_table_params (gp_tableParams p) q))
        = builder_query rt pt (n, with_table_params (gp_tableParams p) q)"
  shows "request_queries (p\<lparr> gp_query := (gp_query p)\<lparr> q_queryData := map f (q_queryData (gp_query p)) \<rparr> \<rparr>) = request_queries p"
  using request_kept_upto [where G = "\<lambda>e. e", OF assms(1-3) _ refl] assms(4) by (simp add: prod_eq_iff)

text \<open>C22: A widget that is saved asks for the same as before, although the fields of the old format are removed from
  its queries, if every query says what to ask for in the new fields or lets the old ones complete them.\<close>

theorem saved_widget_asks_same:
  assumes "list_all adjustable (q_queryData (gp_query p))"
  shows "request_queries (p\<lparr> gp_query := adjustQueryForV5 (gp_query p) \<rparr>) = request_queries p"
  using request_kept [of p adjust_query] assms by (auto simp: adjustQueryForV5_def list_all_iff adjust_request)

theorem saved_widget_asks_same_witness:
  "request_queries ((results_props TABLE (builder [logs_query ''A'' ''sum(x)''] []) [] [])
       \<lparr> gp_query := adjustQueryForV5 (builder [logs_query ''A'' ''sum(x)''] []) \<rparr>)
   = request_queries (results_props TABLE (builder [logs_query ''A'' ''sum(x)''] []) [] [])"
  using saved_widget_asks_same [of "results_props TABLE (builder [logs_query ''A'' ''sum(x)''] []) [] []"]
  by (simp add: results_props_def builder_def adjustable_def) (simp add: logs_query_def initialQueryBuilderFormValues_def)

text \<open>What saving a widget loses: filters that were never written as an expression, and the metric of a query
  without aggregations.\<close>

theorem saved_widget_flawed:
  "(let old = initialQueryBuilderFormValues\<lparr> bq_aggregations := [], bq_aggregateAttribute := Some (initialAutocompleteData\<lparr> ac_key := ''cpu'' \<rparr>),
          bq_filters := [\<lparr> fi_key = ''host'', fi_op = ''='', fi_value = VOne (VStr ''a'') \<rparr>] \<rparr>;
        asks = (\<lambda>q. case builder_query R_time_series None (''A'', q) of s \<Rightarrow> (bs_filter (bu_base s), bu_aggregations s))
    in asks old = (Some (''host = '' @ [CHR 0x27, CHR ''a'', CHR 0x27]), Some [AggMetric \<lparr> ma_metricName = Some ''cpu'', ma_temporality = None,
           ma_timeAggregation = Some ''rate'', ma_spaceAggregation = Some ''sum'', ma_reduceTo = None \<rparr>])
       \<and> asks (adjust_query old) = (Some [], Some [AggMetric \<lparr> ma_metricName = None, ma_temporality = None, ma_timeAggregation = None,
           ma_spaceAggregation = None, ma_reduceTo = None \<rparr>]))"
  by code_simp

end
