(* ===== verification/QueryStateProperties.thy ===== *)
theory QueryStateProperties
  imports QueryEditing QueryTyping "HOL-Library.Sublist"
begin

text \<open>
  What editing keeps: in every state the provider can reach the items have distinct names, within the limits, and the
  two copies of the query have the same items; an edit survives a change of the panel; running a query asks for what
  is shown; a choice of a metric is what is asked; and a source that is left is found again.
\<close>

section \<open>Names\<close>

lemma length_alphabet [simp]: "length alphabet = MAX_QUERIES"
  by (simp add: alphabet_def)

lemma length_formulasNames [simp]: "length formulasNames = MAX_FORMULAS"
  by (simp add: formulasNames_def)

lemma distinct_alphabet: "distinct alphabet"
  unfolding alphabet_def MAX_QUERIES_def by code_simp

lemma distinct_formulasNames: "distinct formulasNames"
  unfolding formulasNames_def MAX_FORMULAS_def by code_simp

lemma names_disjoint:
  "set alphabet \<inter> set formulasNames = {}" "TRACE_OPERATOR_QUERY_NAME \<notin> set alphabet" "TRACE_OPERATOR_QUERY_NAME \<notin> set formulasNames"
proof -
  have a: "list_all (\<lambda>n. length n = 1) alphabet" unfolding alphabet_def MAX_QUERIES_def by code_simp
  have f: "list_all (\<lambda>n. hd n = CHR ''F'' \<and> length n > 1) formulasNames" unfolding formulasNames_def MAX_FORMULAS_def by code_simp
  show "set alphabet \<inter> set formulasNames = {}" using a f by (fastforce simp: list_all_iff)
  show "TRACE_OPERATOR_QUERY_NAME \<notin> set alphabet" "TRACE_OPERATOR_QUERY_NAME \<notin> set formulasNames"
    using a f by (auto simp: list_all_iff TRACE_OPERATOR_QUERY_NAME_def)
qed

text \<open>The names are different and come from a list.\<close>

definition named_from :: "string list \<Rightarrow> string list \<Rightarrow> bool" where
  "named_from sourceNames names \<longleftrightarrow> distinct names \<and> set names \<subseteq> set sourceNames"

lemma named_from_length:
  assumes "named_from sourceNames names"
  shows "length names \<le> length sourceNames"
proof -
  have "length names = card (set names)" using assms by (simp add: named_from_def distinct_card)
  also have "\<dots> \<le> card (set sourceNames)" using assms by (simp add: named_from_def card_mono)
  also have "\<dots> \<le> length sourceNames" by (rule card_length)
  finally show ?thesis .
qed

lemma new_name_free:
  assumes "distinct sourceNames" "length existNames < length sourceNames"
  shows "createNewBuilderItemName existNames sourceNames \<in> set sourceNames - set existNames"
proof -
  have "card (set existNames) < card (set sourceNames)"
    using assms card_length [of existNames] by (simp add: distinct_card)
  then obtain n where n: "n \<in> set sourceNames" "n \<notin> set existNames"
    by (metis card_mono List.finite_set not_less subsetI)
  obtain m where m: "find (\<lambda>n. n \<notin> set existNames) sourceNames = Some m"
    using n by (cases "find (\<lambda>n. n \<notin> set existNames) sourceNames") (auto simp: find_None_iff)
  then have "m \<in> set sourceNames - set existNames" by (auto simp: find_Some_iff)
  then show ?thesis by (simp add: createNewBuilderItemName_def m)
qed

lemma named_from_add:
  assumes "named_from sourceNames names" "distinct sourceNames" "length names < length sourceNames"
  shows "named_from sourceNames (names @ [createNewBuilderItemName names sourceNames])"
  using assms new_name_free [OF assms(2,3)] by (auto simp: named_from_def)

section \<open>The names of the items\<close>

record item_names =
  nm_queries :: "string list"
  nm_formulas :: "string list"
  nm_operators :: "string list"
  nm_promql :: "string list"
  nm_clickhouse :: "string list"

definition names_of :: "QueryState \<Rightarrow> item_names" where
  "names_of s =
     \<lparr> nm_queries = map bq_queryName (qs_queryData s), nm_formulas = map bf_queryName (qs_queryFormulas s),
       nm_operators = map bq_queryName (qs_queryTraceOperator s), nm_promql = map rq_name (qs_promql s),
       nm_clickhouse = map rq_name (qs_clickhouse_sql s) \<rparr>"

definition names_ok :: "item_names \<Rightarrow> bool" where
  "names_ok n \<longleftrightarrow>
     named_from alphabet (nm_queries n) \<and> named_from formulasNames (nm_formulas n)
     \<and> named_from [TRACE_OPERATOR_QUERY_NAME] (nm_operators n)
     \<and> named_from alphabet (nm_promql n) \<and> named_from alphabet (nm_clickhouse n)"

definition add_name :: "string list \<Rightarrow> string list \<Rightarrow> string list" where
  "add_name sourceNames names =
     (if length names \<ge> length sourceNames then names else names @ [createNewBuilderItemName names sourceNames])"

lemma add_name_ok: "named_from sourceNames names \<Longrightarrow> distinct sourceNames \<Longrightarrow> named_from sourceNames (add_name sourceNames names)"
  by (simp add: add_name_def named_from_add)

lemma remove_at_from:
  "map snd (filter (\<lambda>(j, _). i + n \<noteq> j) (enumerate n xs)) = take i xs @ drop (Suc i) xs"
proof (induction xs arbitrary: i n)
  case (Cons x xs)
  have all: "filter (\<lambda>(j, _). m \<noteq> j) (enumerate (Suc m) ys) = enumerate (Suc m) ys" for m and ys :: "'a list"
    by (rule filter_True) (auto simp: in_set_enumerate_eq)
  show ?case using Cons.IH [of "i - 1" "Suc n"] by (cases i) (simp_all add: all)
qed simp

lemma remove_at_take_drop: "remove_at i xs = take i xs @ drop (Suc i) xs"
  using remove_at_from [of i 0 xs] by (simp add: remove_at_def)

lemma map_remove_at: "map f (remove_at i xs) = remove_at i (map f xs)"
  by (simp add: remove_at_take_drop take_map drop_map)

lemma remove_at_ok: "named_from sourceNames names \<Longrightarrow> named_from sourceNames (remove_at i names)"
  using set_take_subset [of i names] set_drop_subset [of "Suc i" names] set_take_disj_set_drop_if_distinct [of names i "Suc i"]
  by (auto simp: named_from_def remove_at_take_drop)

lemma map_update_same: "i < length xs \<Longrightarrow> f y = f (xs ! i) \<Longrightarrow> map f (xs[i := y]) = map f xs"
  by (metis list_update_id length_map map_update nth_map)

lemma map_update_same': "(i < length xs \<Longrightarrow> f y = f (xs ! i)) \<Longrightarrow> map f (xs[i := y]) = map f xs"
  by (cases "i < length xs") (simp_all add: map_update_same list_update_beyond)

section \<open>Editing\<close>

text \<open>What the page does to the provider: an item that is set keeps its name, and there is something to run.\<close>

inductive edit :: "provider \<Rightarrow> provider \<Rightarrow> bool" where
  add_query: "edit p (addNewBuilderQuery p)"
| clone_query: "edit p (cloneQuery q p)"
| delete_query: "edit p (handleDeleteQuery i p)"
| set_query: "(i < length (qs_queryData (pv_current p)) \<Longrightarrow> bq_queryName q = bq_queryName (qs_queryData (pv_current p) ! i))
    \<Longrightarrow> edit p (handleSetQueryData i q p)"
| add_formula: "edit p (addNewFormula p)"
| remove_formula: "edit p (removeQueryBuilderEntityByIndex B_queryFormulas i p)"
| set_formula: "(i < length (qs_queryFormulas (pv_current p)) \<Longrightarrow> bf_queryName f = bf_queryName (qs_queryFormulas (pv_current p) ! i))
    \<Longrightarrow> edit p (handleSetFormulaData i f p)"
| add_operator: "edit p (addTraceOperator e p)"
| remove_operator: "edit p (removeTraceOperator p)"
| set_operator: "(i < length (qs_queryTraceOperator (pv_current p))
      \<Longrightarrow> bq_queryName q = bq_queryName (qs_queryTraceOperator (pv_current p) ! i)) \<Longrightarrow> edit p (handleSetTraceOperatorData i q p)"
| add_item: "edit p (addNewQueryItem ty p)"
| remove_item: "edit p (removeQueryTypeItemByIndex ty i p)"
| remove_all: "ty \<noteq> B_queryData \<Longrightarrow> edit p (removeAllQueryBuilderEntities ty p)"
| set_prom: "(i < length (qs_promql (pv_current p)) \<Longrightarrow> rq_name m = rq_name (qs_promql (pv_current p) ! i))
    \<Longrightarrow> edit p (handleSetPromData i m p)"
| set_clickhouse: "(i < length (qs_clickhouse_sql (pv_current p)) \<Longrightarrow> rq_name c = rq_name (qs_clickhouse_sql (pv_current p) ! i))
    \<Longrightarrow> edit p (handleSetClickHouseData i c p)"
| set_unit: "edit p (handleOnUnitsChange u p)"
| set_config: "edit p (handleSetConfig pt d p)"
| leave: "edit p (leave_page p)"
| reset: "edit p (resetQuery None p)"
| run: "qs_queryData (pv_current p) \<noteq> [] \<Longrightarrow> qs_promql (pv_current p) \<noteq> [] \<Longrightarrow> qs_clickhouse_sql (pv_current p) \<noteq> []
    \<Longrightarrow> handleRunQuery queryId isExplorer p = (p', url) \<Longrightarrow> edit p (read_address sortBy lexer isExplorer url p')"

text \<open>What an edit does to the names.\<close>

inductive rename :: "item_names \<Rightarrow> item_names \<Rightarrow> bool" where
  same: "rename n n"
| query: "rename n (n\<lparr> nm_queries := add_name alphabet (nm_queries n) \<rparr>)"
| no_query: "length (nm_queries n) > 1 \<Longrightarrow> rename n (n\<lparr> nm_queries := remove_at i (nm_queries n) \<rparr>)"
| formula: "rename n (n\<lparr> nm_formulas := add_name formulasNames (nm_formulas n) \<rparr>)"
| no_formula: "rename n (n\<lparr> nm_formulas := remove_at i (nm_formulas n) \<rparr>)"
| no_formulas: "rename n (n\<lparr> nm_formulas := [] \<rparr>)"
| operator: "rename n (n\<lparr> nm_operators := [case nm_operators n of [] \<Rightarrow> TRACE_OPERATOR_QUERY_NAME | m # _ \<Rightarrow> m] \<rparr>)"
| no_operators: "rename n (n\<lparr> nm_operators := [] \<rparr>)"
| promql: "rename n (n\<lparr> nm_promql := add_name alphabet (nm_promql n) \<rparr>)"
| no_promql: "rename n (n\<lparr> nm_promql := remove_at i (nm_promql n) \<rparr>)"
| clickhouse: "rename n (n\<lparr> nm_clickhouse := add_name alphabet (nm_clickhouse n) \<rparr>)"
| no_clickhouse: "rename n (n\<lparr> nm_clickhouse := remove_at i (nm_clickhouse n) \<rparr>)"

lemma rename_ok: "rename n n' \<Longrightarrow> names_ok n \<Longrightarrow> names_ok n'"
proof (induction rule: rename.induct)
  case (operator n)
  then show ?case by (cases "nm_operators n") (auto simp: names_ok_def named_from_def)
qed (simp_all add: names_ok_def add_name_ok remove_at_ok distinct_alphabet distinct_formulasNames, simp_all add: named_from_def)

lemma rename_queries: "rename n n' \<Longrightarrow> nm_queries n \<noteq> [] \<Longrightarrow> nm_queries n' \<noteq> []"
proof (induction rule: rename.induct)
  case (no_query n i)
  then show ?case by (cases "nm_queries n"; cases "tl (nm_queries n)"; cases i) (auto simp: remove_at_take_drop)
qed (auto simp: add_name_def)

lemma names_of_add:
  "names_of (s\<lparr> qs_queryData := add_limited MAX_QUERIES (createNewBuilderQuery d) (qs_queryData s) \<rparr>)
     = (names_of s)\<lparr> nm_queries := add_name alphabet (nm_queries (names_of s)) \<rparr>"
  "names_of (s\<lparr> qs_queryData := add_limited MAX_QUERIES (\<lambda>qs. cloneNewBuilderQuery qs q) (qs_queryData s) \<rparr>)
     = (names_of s)\<lparr> nm_queries := add_name alphabet (nm_queries (names_of s)) \<rparr>"
  "names_of (s\<lparr> qs_queryFormulas := add_limited MAX_FORMULAS createNewBuilderFormula (qs_queryFormulas s) \<rparr>)
     = (names_of s)\<lparr> nm_formulas := add_name formulasNames (nm_formulas (names_of s)) \<rparr>"
  "names_of (s\<lparr> qs_promql := add_limited MAX_QUERIES (createNewQueryTypeItem i) (qs_promql s) \<rparr>)
     = (names_of s)\<lparr> nm_promql := add_name alphabet (nm_promql (names_of s)) \<rparr>"
  "names_of (s\<lparr> qs_clickhouse_sql := add_limited MAX_QUERIES (createNewQueryTypeItem c) (qs_clickhouse_sql s) \<rparr>)
     = (names_of s)\<lparr> nm_clickhouse := add_name alphabet (nm_clickhouse (names_of s)) \<rparr>"
  by (simp_all add: names_of_def add_limited_def add_name_def createNewBuilderQuery_def cloneNewBuilderQuery_def new_name_def
      createNewBuilderFormula_def createNewQueryTypeItem_def)


lemma names_of_set:
  "(i < length (qs_queryData s) \<Longrightarrow> bq_queryName q = bq_queryName (qs_queryData s ! i))
    \<Longrightarrow> names_of (s\<lparr> qs_queryData := (qs_queryData s)[i := q] \<rparr>) = names_of s"
  "(i < length (qs_queryFormulas s) \<Longrightarrow> bf_queryName f = bf_queryName (qs_queryFormulas s ! i))
    \<Longrightarrow> names_of (s\<lparr> qs_queryFormulas := (qs_queryFormulas s)[i := f] \<rparr>) = names_of s"
  "(i < length (qs_queryTraceOperator s) \<Longrightarrow> bq_queryName q = bq_queryName (qs_queryTraceOperator s ! i))
    \<Longrightarrow> names_of (s\<lparr> qs_queryTraceOperator := (qs_queryTraceOperator s)[i := q] \<rparr>) = names_of s"
  "(i < length (qs_promql s) \<Longrightarrow> rq_name m = rq_name (qs_promql s ! i))
    \<Longrightarrow> names_of (s\<lparr> qs_promql := (qs_promql s)[i := m] \<rparr>) = names_of s"
  "(i < length (qs_clickhouse_sql s) \<Longrightarrow> rq_name c = rq_name (qs_clickhouse_sql s ! i))
    \<Longrightarrow> names_of (s\<lparr> qs_clickhouse_sql := (qs_clickhouse_sql s)[i := c] \<rparr>) = names_of s"
  by (simp_all add: names_of_def map_update_same' del: map_update)

text \<open>The names of the copies agree at an index.\<close>

lemma same_names_nth:
  assumes "names_of s = names_of t"
  shows "length (qs_queryData s) = length (qs_queryData t)"
    "i < length (qs_queryData t) \<Longrightarrow> bq_queryName (qs_queryData s ! i) = bq_queryName (qs_queryData t ! i)"
    "length (qs_queryFormulas s) = length (qs_queryFormulas t)"
    "i < length (qs_queryFormulas t) \<Longrightarrow> bf_queryName (qs_queryFormulas s ! i) = bf_queryName (qs_queryFormulas t ! i)"
    "length (qs_queryTraceOperator s) = length (qs_queryTraceOperator t)"
    "i < length (qs_queryTraceOperator t) \<Longrightarrow> bq_queryName (qs_queryTraceOperator s ! i) = bq_queryName (qs_queryTraceOperator t ! i)"
    "length (qs_promql s) = length (qs_promql t)"
    "i < length (qs_promql t) \<Longrightarrow> rq_name (qs_promql s ! i) = rq_name (qs_promql t ! i)"
    "length (qs_clickhouse_sql s) = length (qs_clickhouse_sql t)"
    "i < length (qs_clickhouse_sql t) \<Longrightarrow> rq_name (qs_clickhouse_sql s ! i) = rq_name (qs_clickhouse_sql t ! i)"
  using assms by (auto simp: names_of_def dest: map_eq_imp_length_eq) (metis nth_map map_eq_imp_length_eq)+

lemma superset_item_name:
  assumes "bq_queryName q = bq_queryName item"
  shows "bq_queryName (superset_item table pt q item) = bq_queryName q"
proof -
  have "bq_queryName (copy_fields fs q item) = bq_queryName q" for fs
    using same_field_copies [of F_queryName fs q item q] assms by (simp split: if_splits)
  then show ?thesis using assms by (simp add: superset_item_def split: option.split)
qed

lemma names_of_init:
  "names_of (pv_current (initQueryBuilderData isExplorer (useGetCompositeQueryParam sortBy lexer (to_url ty s)) p)) = names_of s"
  by (simp add: names_of_def initQueryBuilderData_def prepareQueryBuilderData_def useGetCompositeQueryParam_def to_url_def Let_def
      setup_query_def fill_url_item_def convert_url_item_def fill_query_def fill_formula_def fill_item_def case_prod_beta comp_def)

lemma init_superset [simp]: "pv_superset (initQueryBuilderData isExplorer url p) = pv_superset p"
  by (simp add: initQueryBuilderData_def Let_def)

definition run_state :: "string \<Rightarrow> QueryState \<Rightarrow> QueryState" where
  "run_state queryId s =
     s\<lparr> qs_queryData := map run_query_item (qs_queryData s), qs_unit := js_or (qs_unit s) (Some []), qs_id := queryId \<rparr>"

definition runnable :: "QueryState \<Rightarrow> bool" where
  "runnable s \<longleftrightarrow> qs_queryData s \<noteq> [] \<and> qs_promql s \<noteq> [] \<and> qs_clickhouse_sql s \<noteq> []"

lemma run_url:
  assumes "handleRunQuery queryId isExplorer p = (p', url)" "runnable (pv_current p)"
  shows "url = to_url (pv_queryType p) (run_state queryId (pv_current p))"
    and "p' = (if isExplorer then p\<lparr> pv_calledFromRun := True \<rparr> else p)"
  using assms by (auto simp: handleRunQuery_def redirectWithQueryBuilderData_def run_state_def runnable_def initialQueryState_def Let_def)

lemma names_of_run_state: "names_of (run_state queryId s) = names_of s"
  by (simp add: names_of_def run_state_def run_query_item_def comp_def)

lemma run_names:
  assumes "handleRunQuery queryId isExplorer p = (p', url)" "runnable (pv_current p)"
  shows "names_of (pv_current (read_address sortBy lexer isExplorer url p')) = names_of (pv_current p)"
    and "pv_superset (read_address sortBy lexer isExplorer url p') = pv_superset p"
  using run_url [OF assms]
  by (auto simp: read_address_def Let_def names_of_init names_of_run_state split: option.split prod.split)

text \<open>An edit is an edit of the names, and of the same names in both copies.\<close>

definition coupled :: "provider \<Rightarrow> bool" where
  "coupled p \<longleftrightarrow> names_of (pv_superset p) = names_of (pv_current p)"

lemma update_both_renames:
  assumes "\<And>s. names_of (f s) = g (names_of s)" "coupled p" "rename (names_of (pv_current p)) (g (names_of (pv_current p)))"
  shows "rename (names_of (pv_current p)) (names_of (pv_current (update_both f p))) \<and> coupled (update_both f p)"
  using assms by (simp add: update_both_def coupled_def)

lemma update_both_same:
  assumes "names_of (f (pv_current p)) = names_of (pv_current p)" "names_of (f (pv_superset p)) = names_of (pv_superset p)" "coupled p"
  shows "rename (names_of (pv_current p)) (names_of (pv_current (update_both f p))) \<and> coupled (update_both f p)"
  using assms by (simp add: update_both_def coupled_def rename.same)

lemma names_of_remove:
  "names_of (s\<lparr> qs_queryData := remove_at i (qs_queryData s) \<rparr>) = (names_of s)\<lparr> nm_queries := remove_at i (nm_queries (names_of s)) \<rparr>"
  "names_of (s\<lparr> qs_queryFormulas := remove_at i (qs_queryFormulas s) \<rparr>) = (names_of s)\<lparr> nm_formulas := remove_at i (nm_formulas (names_of s)) \<rparr>"
  "names_of (s\<lparr> qs_promql := remove_at i (qs_promql s) \<rparr>) = (names_of s)\<lparr> nm_promql := remove_at i (nm_promql (names_of s)) \<rparr>"
  "names_of (s\<lparr> qs_clickhouse_sql := remove_at i (qs_clickhouse_sql s) \<rparr>) = (names_of s)\<lparr> nm_clickhouse := remove_at i (nm_clickhouse (names_of s)) \<rparr>"
  "names_of (s\<lparr> qs_queryFormulas := [] \<rparr>) = (names_of s)\<lparr> nm_formulas := [] \<rparr>"
  "names_of (s\<lparr> qs_queryTraceOperator := [] \<rparr>) = (names_of s)\<lparr> nm_operators := [] \<rparr>"
  by (simp_all add: names_of_def map_remove_at)

lemma names_of_operator:
  "names_of (s\<lparr> qs_queryTraceOperator := [operator_with e (qs_queryTraceOperator s)] \<rparr>)
     = (names_of s)\<lparr> nm_operators := [case nm_operators (names_of s) of [] \<Rightarrow> TRACE_OPERATOR_QUERY_NAME | m # _ \<Rightarrow> m] \<rparr>"
  by (simp add: names_of_def operator_with_def split: list.split)

lemma names_of_unit [simp]: "names_of (s\<lparr> qs_unit := u \<rparr>) = names_of s"
  by (simp add: names_of_def)

lemma edit_renames:
  assumes "edit p p'" "coupled p"
  shows "rename (names_of (pv_current p)) (names_of (pv_current p')) \<and> coupled p'"
  using assms
proof (induction rule: edit.induct)
  case (add_query p)
  then show ?case unfolding addNewBuilderQuery_def by (intro update_both_renames) (rule names_of_add rename.intros | assumption)+
next
  case (clone_query p q)
  then show ?case unfolding cloneQuery_def by (intro update_both_renames) (rule names_of_add rename.intros | assumption)+
next
  case (delete_query p i)
  let ?p' = "removeQueryBuilderEntityByIndex B_queryData i p"
  have "rename (names_of (pv_current p)) (names_of (pv_current ?p')) \<and> coupled ?p'" if "length (qs_queryData (pv_current p)) > 1"
  proof -
    have l: "length (nm_queries (names_of (pv_current p))) > 1" using that by (simp add: names_of_def)
    show ?thesis
      unfolding removeQueryBuilderEntityByIndex_def builder_list.case
      by (rule update_both_renames [where g = "\<lambda>n. n\<lparr> nm_queries := remove_at i (nm_queries n) \<rparr>", OF names_of_remove(1) delete_query
            rename.no_query [OF l]])
  qed
  then show ?case using delete_query by (simp add: handleDeleteQuery_def Let_def coupled_def rename.same)
next
  case (set_query i p q)
  let ?c = "pv_current p" and ?s = "pv_superset p"
  note n = same_names_nth [OF set_query(2) [unfolded coupled_def]]
  have "names_of (?s\<lparr> qs_queryData := (qs_queryData ?s)[i := superset_item (pv_table p) (pv_panelType p) q (qs_queryData ?s ! i)] \<rparr>) = names_of ?s"
    if "i < length (qs_queryData ?s)"
    by (rule names_of_set(1)) (use that n(1) n(2) [of i] set_query(1) in \<open>simp add: superset_item_name\<close>)
  then show ?case
    using set_query names_of_set(1) [of i ?c q]
    by (auto simp: handleSetQueryData_def updateSuperSetQueryBuilderData_def updateQueryBuilderData_def coupled_def rename.same Let_def)
next
  case (add_formula p)
  then show ?case unfolding addNewFormula_def by (intro update_both_renames) (rule names_of_add rename.intros | assumption)+
next
  case (remove_formula p i)
  then show ?case unfolding removeQueryBuilderEntityByIndex_def builder_list.case
    by (intro update_both_renames) (rule names_of_remove rename.intros | assumption)+
next
  case (set_formula i p f)
  note n = same_names_nth [OF set_formula(2) [unfolded coupled_def]]
  show ?case unfolding handleSetFormulaData_def updateQueryBuilderData_def
    by (intro update_both_same names_of_set) (use set_formula n(3) n(4) [of i] in simp_all)
next
  case (add_operator p e)
  then show ?case unfolding addTraceOperator_def
    by (intro update_both_renames) (rule names_of_operator rename.intros | assumption)+
next
  case (remove_operator p)
  then show ?case unfolding removeTraceOperator_def
    by (intro update_both_renames) (rule names_of_remove rename.intros | assumption)+
next
  case (set_operator i p q)
  note n = same_names_nth [OF set_operator(2) [unfolded coupled_def]]
  show ?case unfolding handleSetTraceOperatorData_def updateQueryBuilderData_def
    by (intro update_both_same names_of_set) (use set_operator n(5) n(6) [of i] in simp_all)
next
  case (add_item p ty)
  then show ?case unfolding addNewQueryItem_def
    by (cases ty) (simp only: item_list.case, intro update_both_renames, (rule names_of_add rename.intros | assumption)+)+
next
  case (remove_item p ty i)
  then show ?case unfolding removeQueryTypeItemByIndex_def
    by (cases ty) (simp only: item_list.case, intro update_both_renames, (rule names_of_remove rename.intros | assumption)+)+
next
  case (remove_all ty p)
  then show ?case unfolding removeAllQueryBuilderEntities_def
    by (cases ty) (simp, (simp only: builder_list.case, intro update_both_renames, (rule names_of_remove rename.intros | assumption)+)+)
next
  case (set_prom i p m)
  note n = same_names_nth [OF set_prom(2) [unfolded coupled_def]]
  show ?case unfolding handleSetPromData_def updateQueryBuilderData_def
    by (intro update_both_same names_of_set) (use set_prom n(7) n(8) [of i] in simp_all)
next
  case (set_clickhouse i p c)
  note n = same_names_nth [OF set_clickhouse(2) [unfolded coupled_def]]
  show ?case unfolding handleSetClickHouseData_def updateQueryBuilderData_def
    by (intro update_both_same names_of_set) (use set_clickhouse n(9) n(10) [of i] in simp_all)
next
  case (set_unit p u)
  then show ?case unfolding handleOnUnitsChange_def by (intro update_both_same) simp_all
next
  case (run p queryId isExplorer p' url sortBy lexer)
  then show ?case using run_names [of queryId isExplorer p p' url] by (simp add: runnable_def coupled_def rename.same)
qed (simp_all add: handleSetConfig_def leave_page_def resetQuery_def coupled_def rename.same)

definition opened :: "string \<Rightarrow> panel_table \<Rightarrow> provider" where
  "opened queryId table =
     \<lparr> pv_current = initialQueryState queryId, pv_superset = initialQueryState queryId, pv_staged = None,
       pv_queryType = QUERY_BUILDER, pv_panelType = None, pv_initialDataSource = None, pv_lastUsedQuery = 0,
       pv_calledFromRun = False, pv_table = table \<rparr>"

lemma opened_names: "coupled (opened queryId table)" "names_ok (names_of (pv_current (opened queryId table)))"
proof -
  have "''A'' \<in> set alphabet" unfolding alphabet_def MAX_QUERIES_def by code_simp
  then show "names_ok (names_of (pv_current (opened queryId table)))"
    by (simp add: opened_def initialQueryState_def names_of_def names_ok_def named_from_def initialQueryBuilderFormValues_def
        initialQueryPromQLData_def initialClickHouseData_def)
qed (simp add: coupled_def opened_def)

lemma edits_keep_names:
  assumes "edit\<^sup>*\<^sup>* p p'" "coupled p" "names_ok (names_of (pv_current p))"
  shows "coupled p' \<and> names_ok (names_of (pv_current p'))"
  using assms by (induction rule: rtranclp_induct) (auto dest: edit_renames rename_ok)

lemma names_added:
  "names_of (pv_current (addNewBuilderQuery p)) =
     (names_of (pv_current p))\<lparr> nm_queries := add_name alphabet (nm_queries (names_of (pv_current p))) \<rparr>"
  "names_of (pv_current (addNewFormula p)) =
     (names_of (pv_current p))\<lparr> nm_formulas := add_name formulasNames (nm_formulas (names_of (pv_current p))) \<rparr>"
  by (simp_all add: addNewBuilderQuery_def addNewFormula_def update_both_def names_of_add)

text \<open>C9: In every state that editing reaches, the queries, formulas and trace operators have different names, as have
  the PromQL and ClickHouse queries, no more than the limits allow, and the copy from which other panels are filled has the
  same items as the query that is shown.\<close>

theorem edited_names_differ:
  assumes "edit\<^sup>*\<^sup>* (opened queryId table) p"
  shows "let s = pv_current p in
      distinct (map bq_queryName (qs_queryData s) @ map bf_queryName (qs_queryFormulas s) @ map bq_queryName (qs_queryTraceOperator s))
      \<and> distinct (map rq_name (qs_promql s)) \<and> distinct (map rq_name (qs_clickhouse_sql s))
      \<and> length (qs_queryData s) \<le> MAX_QUERIES \<and> length (qs_queryFormulas s) \<le> MAX_FORMULAS \<and> length (qs_queryTraceOperator s) \<le> 1
      \<and> length (qs_promql s) \<le> MAX_QUERIES \<and> length (qs_clickhouse_sql s) \<le> MAX_QUERIES
      \<and> names_of (pv_superset p) = names_of s"
proof -
  have ok: "coupled p" "names_ok (names_of (pv_current p))"
    using edits_keep_names [OF assms opened_names] by simp_all
  then have n: "named_from alphabet (map bq_queryName (qs_queryData (pv_current p)))"
      "named_from formulasNames (map bf_queryName (qs_queryFormulas (pv_current p)))"
      "named_from [TRACE_OPERATOR_QUERY_NAME] (map bq_queryName (qs_queryTraceOperator (pv_current p)))"
      "named_from alphabet (map rq_name (qs_promql (pv_current p)))"
      "named_from alphabet (map rq_name (qs_clickhouse_sql (pv_current p)))"
    by (simp_all add: names_ok_def names_of_def)
  note named_from_length [OF n(1)] named_from_length [OF n(2)] named_from_length [OF n(3)] named_from_length [OF n(4)]
    named_from_length [OF n(5)]
  moreover have "distinct (map bq_queryName (qs_queryData (pv_current p)) @ map bf_queryName (qs_queryFormulas (pv_current p))
      @ map bq_queryName (qs_queryTraceOperator (pv_current p)))"
    using n(1-3) names_disjoint unfolding distinct_append named_from_def set_append list.set(2) list.set(1) by blast
  ultimately show ?thesis using n ok(1) by (simp add: Let_def named_from_def coupled_def)
qed

theorem edited_names_differ_witness:
  "let p = addNewFormula (addNewBuilderQuery (opened ''1'' panelTypeDataSourceFormValuesMap)); s = pv_current p in
      map bq_queryName (qs_queryData s) = [''A'', ''B''] \<and> map bf_queryName (qs_queryFormulas s) = [''F1'']
      \<and> distinct (map bq_queryName (qs_queryData s) @ map bf_queryName (qs_queryFormulas s) @ map bq_queryName (qs_queryTraceOperator s))
      \<and> names_of (pv_superset p) = names_of s"
proof -
  let ?p = "opened ''1'' panelTypeDataSourceFormValuesMap"
  have "edit ?p (addNewBuilderQuery ?p)" "edit (addNewBuilderQuery ?p) (addNewFormula (addNewBuilderQuery ?p))"
    by (rule edit.intros)+
  then have "edit\<^sup>*\<^sup>* ?p (addNewFormula (addNewBuilderQuery ?p))" by simp
  note edited_names_differ [OF this]
  moreover have "names_of (pv_current (addNewFormula (addNewBuilderQuery ?p))) =
      (names_of (initialQueryState ''1''))\<lparr> nm_queries := add_name alphabet [''A''], nm_formulas := add_name formulasNames [] \<rparr>"
    by (simp add: names_added) (simp add: opened_def names_of_def initialQueryState_def initialQueryBuilderFormValues_def)
  moreover have "add_name alphabet [''A''] = [''A'', ''B'']" "add_name formulasNames [] = [''F1'']" by code_simp+
  ultimately show ?thesis by (simp add: Let_def names_of_def)
qed

section \<open>Changing the panel\<close>

lemma change_query_keeps:
  assumes "f \<in> set (values (bq_dataSource q))" "f = F_orderBy \<Longrightarrow> currentPanelType \<noteq> LIST" "newPanelType \<noteq> LIST"
    "f = F_aggregateOperator \<Longrightarrow> bq_aggregateOperator q \<noteq> Some ''noop''"
  shows "same_field f (change_query values newPanelType currentPanelType q) q"
proof -
  let ?copied = "copy_fields (values (bq_dataSource q)) q (initialQueryBuilderFormValuesMap (bq_dataSource q))"
  have c: "same_field f ?copied q" using assms(1) by (simp add: same_field_copies)
  then have "f = F_aggregateOperator \<Longrightarrow> bq_aggregateOperator ?copied \<noteq> Some ''noop''" using assms(4) by auto
  then show ?thesis using c assms(2,3) by (cases f) (auto simp: change_query_def Let_def)
qed

text \<open>C18: Let the user edit a query under a panel other than the list, leaving it an operator other than noop, then change to
  another panel and back.  Every field that the table of fields lists for the panel, both for the data source the query had
  and for the one it has after the edit, is there again as edited (the order only if the other panel is not the list).  The
  fields the table does not list, such as the source of a query of the meter, are not covered.\<close>

theorem edits_survive_panel_switch:
  assumes "pv_panelType p = Some panel" "pv_table p panel = Some values" "panel \<noteq> LIST"
    and "i < length (qs_queryData (pv_superset p))" "bq_aggregateOperator q \<noteq> Some ''noop''"
    and "f \<in> set (values (bq_dataSource (qs_queryData (pv_superset p) ! i)))" "f \<in> set (values (bq_dataSource q))"
    and "f = F_orderBy \<Longrightarrow> other \<noteq> LIST"
    and "p' = handleSetQueryData i q p"
  shows "\<exists>back. handleQueryChange (pv_table p') panel (query_of (pv_queryType p') (pv_superset p')) other = Some back
      \<and> length (q_queryData back) = length (qs_queryData (pv_superset p)) \<and> same_field f (q_queryData back ! i) q"
proof -
  let ?item = "qs_queryData (pv_superset p) ! i"
  let ?new = "copy_fields (values (bq_dataSource ?item) @ [F_dataSource]) q ?item"
  let ?grown = "values(bq_dataSource ?item := values (bq_dataSource ?item) @ [F_dataSource])"
  have "same_field F_dataSource ?new q" unfolding same_field_copies by simp
  then have d: "bq_dataSource ?new = bq_dataSource q" by simp
  have n: "same_field f ?new q" using assms(6) by (simp add: same_field_copies)
  have s: "qs_queryData (pv_superset p') = (qs_queryData (pv_superset p))[i := ?new]" "pv_table p' panel = Some ?grown"
    using assms(1,2,4,9)
    by (simp_all add: handleSetQueryData_def updateSuperSetQueryBuilderData_def superset_item_def push_field_def Let_def)
  have "same_field f (change_query ?grown panel other ?new) ?new"
  proof (rule change_query_keeps)
    show "f \<in> set (?grown (bq_dataSource ?new))" using assms(6,7) d by auto
    show "f = F_aggregateOperator \<Longrightarrow> bq_aggregateOperator ?new \<noteq> Some ''noop''" using n assms(5) by auto
  qed (use assms(3,8) in simp_all)
  then have "same_field f (change_query ?grown panel other ?new) q" using n same_field_trans by blast
  then show ?thesis using s assms(4) by (simp add: handleQueryChange_def query_of_def)
qed

theorem edits_survive_panel_switch_witness:
  "let p = (opened ''1'' panelTypeDataSourceFormValuesMap)\<lparr> pv_panelType := Some TABLE \<rparr>;
       p' = handleSetQueryData 0 (initialQueryBuilderFormValues\<lparr> bq_legend := Some ''x'' \<rparr>) p
   in \<exists>back. handleQueryChange (pv_table p') TABLE (query_of (pv_queryType p') (pv_superset p')) LIST = Some back
      \<and> bq_legend (q_queryData back ! 0) = Some ''x''"
proof -
  let ?p = "(opened ''1'' panelTypeDataSourceFormValuesMap)\<lparr> pv_panelType := Some TABLE \<rparr>"
    and ?q = "initialQueryBuilderFormValues\<lparr> bq_legend := Some ''x'' \<rparr>"
  have t: "panelTypeDataSourceFormValuesMap TABLE = Some TABLE_values" by (simp add: panelTypeDataSourceFormValuesMap_def)
  have "F_legend \<in> set (TABLE_values METRICS)" by (simp add: TABLE_values_def)
  moreover have "bq_dataSource initialQueryBuilderFormValues = METRICS" "bq_aggregateOperator initialQueryBuilderFormValues = Some ''count''"
    by (simp_all add: initialQueryBuilderFormValues_def)
  ultimately show ?thesis
    using edits_survive_panel_switch [of ?p TABLE TABLE_values 0 ?q F_legend LIST "handleSetQueryData 0 ?q ?p"] t
    by (fastforce simp: opened_def initialQueryState_def)
qed

text \<open>What a change of the panel loses: the source of a query, so a query of the meter becomes one of metrics.  And every
  edit under a panel makes the list of its fields longer.\<close>

theorem panel_switch_flawed:
  "bq_source (change_query values newPanelType currentPanelType q) = Some []
   \<and> (table panel = Some values \<longrightarrow> push_field panel d table panel = Some (values(d := values d @ [F_dataSource])))"
proof -
  have "bq_source (initialQueryBuilderFormValuesMap d') = Some []" for d'
    by (cases d') (simp_all add: initialQueryBuilderFormValuesMap_def initialQueryBuilderFormLogsValues_def
        initialQueryBuilderFormTracesValues_def initialQueryBuilderFormValues_def)
  then show ?thesis by (simp add: change_query_def Let_def push_field_def)
qed

section \<open>Running a query\<close>

text \<open>What running and reading the address make of a builder query.\<close>

definition read_back ::
  "(filter_scalar list \<Rightarrow> filter_scalar list) \<Rightarrow> (string \<Rightarrow> IToken list) \<Rightarrow> DataSource \<Rightarrow> IBuilderQuery \<Rightarrow> IBuilderQuery" where
  "read_back sortBy lexer dataSource q =
     fill_url_item (initialQueryBuilderFormValuesMap dataSource)
       (convert_url_item sortBy lexer \<lparr> ui_query = run_query_item q, ui_aggregations = Some (bq_aggregations q) \<rparr>)"

text \<open>A query as the provider keeps it: the optional fields are there.\<close>

definition complete :: "IBuilderQuery \<Rightarrow> bool" where
  "complete q \<longleftrightarrow>
     bq_aggregateAttribute q \<noteq> None \<and> bq_timeAggregation q \<noteq> None \<and> bq_spaceAggregation q \<noteq> None
     \<and> bq_reduceTo q \<noteq> None \<and> bq_legend q \<noteq> None \<and> bq_source q \<noteq> None"

text \<open>A query whose filters are written as an expression, or that has none.\<close>

definition with_expressions :: "IBuilderQuery \<Rightarrow> bool" where
  "with_expressions q \<longleftrightarrow>
     js_trim (or_text (bq_filter q) []) \<noteq> [] \<or> or_text (bq_filter q) [] = [] \<and> bq_filters q = []"

definition complete_state :: "QueryState \<Rightarrow> bool" where
  "complete_state s \<longleftrightarrow>
     list_all (\<lambda>q. complete q \<and> with_expressions q) (qs_queryData s)
     \<and> list_all (\<lambda>q. complete q \<and> bq_aggregateOperator q \<noteq> None \<and> bq_filter q \<noteq> None) (qs_queryTraceOperator s)
     \<and> list_all (\<lambda>f. bf_legend f \<noteq> None) (qs_queryFormulas s)
     \<and> list_all (\<lambda>c. rq_legend c \<noteq> None) (qs_promql s) \<and> list_all (\<lambda>c. rq_legend c \<noteq> None) (qs_clickhouse_sql s)"

lemma nullish_given [simp]: "nullish a None = a" "nullish (Some x) b = Some x" "a \<noteq> None \<Longrightarrow> nullish a b = a"
  by (auto simp: nullish_def split: option.split)

lemma initial_options:
  "bq_temporality (initialQueryBuilderFormValuesMap d) = None" "bq_limit (initialQueryBuilderFormValuesMap d) = None"
  "bq_stepInterval (initialQueryBuilderFormValuesMap d) = None" "bq_pageSize (initialQueryBuilderFormValuesMap d) = None"
  "bq_offset (initialQueryBuilderFormValuesMap d) = None"
  by (cases d; simp add: initialQueryBuilderFormValuesMap_def initialQueryBuilderFormLogsValues_def
      initialQueryBuilderFormTracesValues_def initialQueryBuilderFormValues_def)+

lemma fill_complete: "complete q \<Longrightarrow> bq_filter q \<noteq> None \<Longrightarrow> fill_query (initialQueryBuilderFormValuesMap d) q =
    q\<lparr> bq_aggregateOperator := nullish (bq_aggregateOperator q) (bq_aggregateOperator (initialQueryBuilderFormValuesMap d)) \<rparr>"
  by (cases q) (simp add: fill_query_def complete_def initial_options)

lemma unfiltered_expression [simp]: "snd (convertFiltersToExpressionWithExistingQuery sortBy lexer [] e) = e"
  by (simp add: convertFiltersToExpressionWithExistingQuery_def convertFiltersToExpression_def Let_def)

text \<open>What a request says of the groups, as one expression: no condition and an empty one are the same.\<close>

definition having_text :: "query_having option \<Rightarrow> string" where
  "having_text h = (case h of None \<Rightarrow> [] | Some (HavingItems hs) \<Rightarrow> convertHavingToExpression hs | Some (HavingExpression e) \<Rightarrow> e)"

fun plain_having :: "QueryEnvelope \<Rightarrow> QueryEnvelope" where
  "plain_having (Builder_query s) =
     Builder_query (s\<lparr> bu_base := (bu_base s)\<lparr> bs_having := Some (HavingExpression (having_text (bs_having (bu_base s)))) \<rparr> \<rparr>)"
| "plain_having e = e"

lemma having_text_spec [simp]: "having_text (having_spec h) = having_text (Some h)"
  by (simp add: having_spec_def having_text_def convertHavingToExpression_def)

definition filter_run :: "IBuilderQuery \<Rightarrow> string" where
  "filter_run q = (case bq_filter q of None \<Rightarrow> [] | Some e \<Rightarrow> if js_trim e = [] then [] else e)"

lemma run_fields:
  "complete q \<Longrightarrow> \<exists>fs ao. (filter_run q = [] \<longrightarrow> fs = []) \<and> read_back sortBy lexer d q = q\<lparr> bq_filter := Some (filter_run q), bq_filters := fs,
     bq_having := HavingExpression (having_text (Some (bq_having q))), bq_aggregateOperator := ao \<rparr>"
proof -
  assume c: "complete q"
  let ?conv = "convertFiltersToExpressionWithExistingQuery sortBy lexer [] (or_text (Some (filter_run q)) [])"
  let ?q = "q\<lparr> bq_filter := Some (filter_run q), bq_filters := fst ?conv,
     bq_having := HavingExpression (having_text (Some (bq_having q))) \<rparr>"
  have o: "or_text (Some e) [] = e" for e by (simp add: or_text_def)
  have "complete ?q" using c by (simp add: complete_def)
  note fill = fill_complete [OF this, of d]
  have "read_back sortBy lexer d q = fill_query (initialQueryBuilderFormValuesMap d) ?q"
    by (simp add: read_back_def convert_url_item_def fill_url_item_def run_query_item_def filter_run_def case_prod_beta Let_def o
        fill_query_def having_text_def split: query_having.split)
  with fill have "read_back sortBy lexer d q =
      ?q\<lparr> bq_aggregateOperator := nullish (bq_aggregateOperator q) (bq_aggregateOperator (initialQueryBuilderFormValuesMap d)) \<rparr>" by simp
  moreover have "filter_run q = [] \<longrightarrow> fst ?conv = []"
    by (simp add: convertFiltersToExpressionWithExistingQuery_def o)
  ultimately show ?thesis by (intro exI conjI)
qed

lemma filter_run_kept: "with_expressions q \<Longrightarrow> filter_run q = or_text (bq_filter q) []"
  by (auto simp: with_expressions_def filter_run_def or_text_def js_trim_def split: option.split)

lemma complete_params:
  "complete q \<Longrightarrow> complete (with_table_params tp q)" "with_expressions q \<Longrightarrow> with_expressions (with_table_params tp q)"
  unfolding complete_def with_expressions_def with_table_params_def by (simp_all split: option.split prod.split)

lemma read_back_set:
  "read_back sortBy lexer d (q\<lparr> bq_offset := Some m, bq_limit := Some n \<rparr>) = (read_back sortBy lexer d q)\<lparr> bq_offset := Some m, bq_limit := Some n \<rparr>"
  "read_back sortBy lexer d (q\<lparr> bq_selectColumns := cs \<rparr>) = (read_back sortBy lexer d q)\<lparr> bq_selectColumns := cs \<rparr>"
  by (simp_all add: read_back_def fill_url_item_def fill_query_def convert_url_item_def run_query_item_def case_prod_beta Let_def)

lemma read_back_params: "with_table_params tp (read_back sortBy lexer d q) = read_back sortBy lexer d (with_table_params tp q)"
  unfolding with_table_params_def Let_def by (simp split: option.split prod.split) (simp only: read_back_set simp_thms)

lemma read_back_name: "bq_queryName (read_back sortBy lexer d q) = bq_queryName q"
  by (simp add: read_back_def fill_url_item_def fill_query_def convert_url_item_def run_query_item_def case_prod_beta Let_def)

lemma read_back_asks:
  assumes "complete q" "with_expressions q"
  shows "plain_having (Builder_query (builder_query rt pt (n, read_back sortBy lexer d q)))
    = plain_having (Builder_query (builder_query rt pt (n, q)))"
proof -
  obtain fs ao where fs: "filter_run q = [] \<longrightarrow> fs = []" and r: "read_back sortBy lexer d q = q\<lparr> bq_filter := Some (filter_run q), bq_filters := fs,
      bq_having := HavingExpression (having_text (Some (bq_having q))), bq_aggregateOperator := ao \<rparr>"
    using run_fields [OF assms(1)] by blast
  let ?q = "q\<lparr> bq_filter := Some (filter_run q), bq_filters := fs,
      bq_having := HavingExpression (having_text (Some (bq_having q))), bq_aggregateOperator := ao \<rparr>"
  have "getFilter ?q = getFilter q"
    using fs filter_run_kept [OF assms(2)] assms(2) by (auto simp: getFilter_def with_expressions_def or_text_def js_trim_def split: option.splits)
  then have "createBaseSpec ?q rt pt = (createBaseSpec q rt pt)\<lparr> bs_having := having_spec (bq_having ?q) \<rparr>"
    by (simp add: createBaseSpec_def request_limit_def request_offset_def)
  moreover have "having_text (bs_having (createBaseSpec q rt pt)) = having_text (Some (bq_having q))"
    by (simp add: createBaseSpec_def)
  moreover have "createAggregation ?q pt = createAggregation q pt"
    by (simp add: createAggregation_def metric_aggregation_def)
  ultimately show ?thesis
    by (simp add: r builder_query_def request_aggregations_def) (simp add: having_text_def)
qed

lemma fill_operator:
  "complete q \<Longrightarrow> bq_aggregateOperator q \<noteq> None \<Longrightarrow> bq_filter q \<noteq> None \<Longrightarrow> fill_query initialQueryBuilderFormTraceOperatorValues q = q"
  by (cases q) (simp add: fill_query_def complete_def initialQueryBuilderFormTraceOperatorValues_def
      initialQueryBuilderFormTracesValues_def initialQueryBuilderFormValues_def)

lemma fill_others:
  "bf_legend f \<noteq> None \<Longrightarrow> fill_formula f = f" "rq_legend c \<noteq> None \<Longrightarrow> fill_item i c = c"
  by (cases f, simp add: fill_formula_def) (cases c, simp add: fill_item_def)

lemma prepared_query:
  assumes "complete_state s" "pv_calledFromRun p \<or> \<not> isExplorer"
  shows "query_of ty (prepareQueryBuilderData isExplorer p (useGetCompositeQueryParam sortBy lexer (to_url ty (run_state queryId s)))) =
     (query_of ty s)\<lparr> q_queryData := map (read_back sortBy lexer (or_metrics (pv_initialDataSource p))) (qs_queryData s) \<rparr>"
proof -
  have "map fill_formula (qs_queryFormulas s) = qs_queryFormulas s"
    "map (fill_query initialQueryBuilderFormTraceOperatorValues) (qs_queryTraceOperator s) = qs_queryTraceOperator s"
    "map (fill_item initialQueryPromQLData) (qs_promql s) = qs_promql s"
    "map (fill_item initialClickHouseData) (qs_clickhouse_sql s) = qs_clickhouse_sql s"
    by (rule map_idI; use assms(1) in \<open>auto simp: complete_state_def list_all_iff fill_others fill_operator\<close>)+
  moreover have "setup_query isExplorer (pv_calledFromRun p) = (\<lambda>q. q)" using assms(2) by (auto simp: setup_query_def)
  ultimately show ?thesis
    by (simp add: prepareQueryBuilderData_def useGetCompositeQueryParam_def to_url_def run_state_def query_of_def Let_def comp_def
        read_back_def) (simp add: run_query_item_def)
qed

text \<open>C10: Let every query that is shown have its optional fields and its filters written as an expression (or none), in
  whatever form its condition on the groups is.  When the user runs it, the query that is staged, after its way through the
  address, becomes the shown one, and asks the service for the same as the query that was shown, where no condition on the
  groups, an empty one and the list it was once written as count as the expression they are converted to.  (Filters that are
  not written as an expression are dropped by a run.)\<close>

theorem run_asks_for_current:
  assumes "handleRunQuery queryId isExplorer p = (p', url)" "runnable (pv_current p)" "complete_state (pv_current p)"
    and "\<And>ty s. pv_staged p = Some (ty, s) \<Longrightarrow> qs_id s \<noteq> queryId"
  shows "\<exists>s. pv_staged (read_address sortBy lexer isExplorer url p') = Some (pv_queryType p, s)
      \<and> pv_current (read_address sortBy lexer isExplorer url p') = s
      \<and> (let run = request_queries (props\<lparr> gp_query := query_of (pv_queryType p) s \<rparr>);
             shown = request_queries (props\<lparr> gp_query := query_of (pv_queryType p) (pv_current p) \<rparr>)
         in map plain_having (fst run) = map plain_having (fst shown) \<and> snd run = snd shown)"
proof -
  let ?ty = "pv_queryType p" and ?cur = "pv_current p" and ?param = "useGetCompositeQueryParam sortBy lexer url"
  let ?s = "prepareQueryBuilderData isExplorer p' ?param"
  note url = run_url [OF assms(1,2)]
  have i: "qs_id (uq_rest ?param) = queryId"
    by (simp add: url(1) useGetCompositeQueryParam_def to_url_def run_state_def)
  have t: "uq_queryType ?param = ?ty" by (simp add: url(1) useGetCompositeQueryParam_def to_url_def)
  have "read_address sortBy lexer isExplorer url p' = initQueryBuilderData isExplorer ?param p'"
    using assms(4) i url(2) by (auto simp: read_address_def Let_def split: option.split)
  then have staged: "pv_staged (read_address sortBy lexer isExplorer url p') = Some (?ty, ?s)"
      "pv_current (read_address sortBy lexer isExplorer url p') = ?s"
    by (simp_all add: initQueryBuilderData_def Let_def t)
  let ?f = "read_back sortBy lexer (or_metrics (pv_initialDataSource p'))" and ?props = "props\<lparr> gp_query := query_of ?ty ?cur \<rparr>"
  have q: "query_of ?ty ?s = (query_of ?ty ?cur)\<lparr> q_queryData := map ?f (qs_queryData ?cur) \<rparr>"
    unfolding url(1) by (rule prepared_query [OF assms(3)]) (simp add: url(2))
  have c: "complete q" "with_expressions q" if "q \<in> set (qs_queryData ?cur)" for q
    using that assms(3) by (auto simp: complete_state_def list_all_iff)
  have l: "bq_legend (?f q) = bq_legend q" if "complete q" for q
    using run_fields [OF that, of sortBy lexer "or_metrics (pv_initialDataSource p')"] by auto
  have "map plain_having (fst r) = map plain_having (fst (request_queries ?props)) \<and> snd r = snd (request_queries ?props)"
    if "r = request_queries (?props\<lparr> gp_query := (gp_query ?props)\<lparr> q_queryData := map ?f (q_queryData (gp_query ?props)) \<rparr> \<rparr>)" for r
    by (rule request_kept_upto [OF _ _ _ _ that])
      (auto simp: read_back_params read_back_name read_back_asks complete_params c l query_of_def simp del: plain_having.simps)
  then show ?thesis using staged q by (simp add: query_of_def Let_def)
qed

definition shown_provider :: provider where
  "shown_provider =
     (opened ''1'' panelTypeDataSourceFormValuesMap)\<lparr> pv_current := (initialQueryState ''1'')\<lparr> qs_queryData :=
        [initialQueryBuilderFormValues, initialQueryBuilderFormValues\<lparr> bq_queryName := ''B'', bq_filter := Some ''a = b'',
           bq_having := HavingExpression ''count() > 1'' \<rparr>] \<rparr> \<rparr>"

theorem run_asks_for_current_witness:
  "let (p', url) = handleRunQuery ''2'' False shown_provider;
       asked = (\<lambda>s. map plain_having (fst (request_queries
         ((results_props TABLE (builder [] []) [] [])\<lparr> gp_query := query_of QUERY_BUILDER s \<rparr>))))
   in \<exists>s. pv_staged (read_address (\<lambda>xs. xs) (\<lambda>_. []) False url p') = Some (QUERY_BUILDER, s)
        \<and> asked s = asked (pv_current shown_provider)"
proof -
  obtain p' url where r: "handleRunQuery ''2'' False shown_provider = (p', url)" by fastforce
  have "js_trim ''a = b'' \<noteq> []" by code_simp
  then have w: "with_expressions q" if "q \<in> set (qs_queryData (pv_current shown_provider))" for q
    using that by (auto simp: shown_provider_def with_expressions_def initialQueryBuilderFormValues_def or_text_def)
  have "complete q" if "q \<in> set (qs_queryData (pv_current shown_provider))" for q
    using that by (auto simp: shown_provider_def complete_def initialQueryBuilderFormValues_def)
  with w have c: "complete_state (pv_current shown_provider)"
    by (simp add: complete_state_def list_all_iff)
      (simp add: shown_provider_def opened_def initialQueryState_def initialQueryPromQLData_def initialClickHouseData_def)
  have "runnable (pv_current shown_provider)" "pv_staged shown_provider = None" "pv_queryType shown_provider = QUERY_BUILDER"
    by (simp_all add: shown_provider_def opened_def initialQueryState_def runnable_def)
  then show ?thesis
    using run_asks_for_current [OF r _ c, of "\<lambda>xs. xs" "\<lambda>_. []"] by (simp add: r Let_def) blast
qed

text \<open>A query that was read from the address is never recognised as the default query, as its condition on the groups
  is an expression; nor is one with any operator, as a list has none.\<close>

theorem default_query_flawed:
  assumes "\<And>q. q \<in> set (q_queryData current) \<Longrightarrow> (\<exists>h. bq_having q = HavingExpression h) \<or> bq_aggregateOperator q \<noteq> None"
  shows "\<not> isDefaultQuery current dataSource"
proof
  let ?d = "hd (q_queryData (updateAllQueriesOperators (initialQueriesMap dataSource) LIST dataSource None))"
  assume "isDefaultQuery current dataSource"
  then obtain q where q: "q_queryData current = [q]" "extractRelevantKeys q = extractRelevantKeys ?d"
    by (auto simp: isDefaultQuery_def split: list.splits)
  have "bq_having (initialQueryBuilderFormValuesMap dataSource) = HavingItems []"
    by (cases dataSource) (simp_all add: initialQueryBuilderFormValuesMap_def initialQueryBuilderFormLogsValues_def
        initialQueryBuilderFormTracesValues_def initialQueryBuilderFormValues_def)
  then have "bq_having ?d = HavingItems []" "bq_aggregateOperator ?d = None"
    by (simp_all add: updateAllQueriesOperators_def initialQueriesMap_def getElementWithActualOperator_def list_panel_no_operators)
  then have "bq_having (extractRelevantKeys ?d) = HavingItems []" "bq_aggregateOperator (extractRelevantKeys ?d) = None"
    by (simp_all add: extractRelevantKeys_def)
  then have "bq_having q = HavingItems []" "bq_aggregateOperator q = None"
    unfolding q(2) [symmetric] by (simp_all add: extractRelevantKeys_def)
  then show False using assms [of q] q(1) by simp
qed

end
