(* ===== verification/QueryEditingProperties.thy ===== *)
theory QueryEditingProperties
  imports QueryEditing QueryTyping SeriesLegend
begin

text \<open>
  What the fields of a query promise: a legend the user types is filled with the values of the series, a metric the
  user chooses is asked for with an aggregation that fits its type, a data source that is left is found again with
  its query, and where the change of the data source fails.
\<close>

section \<open>Legends\<close>

definition spaces :: "string \<Rightarrow> bool" where
  "spaces s \<longleftrightarrow> list_all is_space s"

definition slot_name :: "string \<Rightarrow> bool" where
  "slot_name v \<longleftrightarrow> no_braces v \<and> CHR 0x0A \<notin> set v \<and> CHR 0x0D \<notin> set v \<and> (v \<noteq> [] \<longrightarrow> \<not> is_space (hd v) \<and> \<not> is_space (last v))"

lemma drop_spaces: "spaces a \<Longrightarrow> \<not> is_space c \<Longrightarrow> dropWhile is_space (a @ c # s) = c # s"
  by (induction a) (auto simp: spaces_def)

lemma brace_no_space [simp]: "\<not> is_space (CHR ''{'')" "\<not> is_space (CHR ''}'')"
  by code_simp+

lemma after_brace_spaces:
  "spaces a \<Longrightarrow> after_brace (CHR ''{'') (a @ CHR ''{'' # s) = Some s"
  "spaces a \<Longrightarrow> after_brace (CHR ''}'') (a @ CHR ''}'' # s) = Some s"
  by (simp_all add: after_brace_def drop_spaces)

lemma after_brace_word:
  assumes "v \<noteq> []" "no_braces v" "\<not> is_space (last v)"
  shows "after_brace (CHR ''}'') (v @ s) = None"
  using assms
proof (induction v)
  case (Cons c v)
  show ?case
  proof (cases "is_space c")
    case True
    then have "v \<noteq> []" using Cons.prems by auto
    then have "after_brace (CHR ''}'') (v @ s) = None" using Cons by (simp add: no_braces_def)
    then show ?thesis using True by (simp add: after_brace_def)
  next
    case False
    then show ?thesis using Cons.prems by (auto simp: after_brace_def no_braces_def)
  qed
qed simp

lemma slot_content_name:
  assumes "no_braces v" "CHR 0x0A \<notin> set v" "CHR 0x0D \<notin> set v" "v \<noteq> [] \<longrightarrow> \<not> is_space (last v)" "spaces c" "spaces d"
  shows "slot_content (v @ c @ CHR ''}'' # d @ CHR ''}'' # s) = Some (v, s)"
  using assms(1-4)
proof (induction v)
  case Nil
  then show ?case
    using assms(5,6) by (subst slot_content.simps) (simp add: close_slot_def after_brace_spaces)
next
  case (Cons x v)
  have "close_slot ((x # v) @ c @ CHR ''}'' # d @ CHR ''}'' # s) = None"
    using after_brace_word [of "x # v" "c @ CHR ''}'' # d @ CHR ''}'' # s"] Cons.prems by (simp add: close_slot_def)
  moreover have "slot_content (v @ c @ CHR ''}'' # d @ CHR ''}'' # s) = Some (v, s)"
    using Cons by (auto simp: no_braces_def split: if_splits)
  ultimately show ?case using Cons.prems by (subst slot_content.simps) auto
qed

lemma formatted_slot:
  assumes "slot_name v" "spaces a" "spaces b" "spaces c" "spaces d"
  shows "getFormatedLegend (CHR ''{'' # a @ CHR ''{'' # b @ v @ c @ CHR ''}'' # d @ CHR ''}'' # s) = slot v @ getFormatedLegend s"
proof -
  let ?rest = "v @ c @ CHR ''}'' # d @ CHR ''}'' # s"
  have "dropWhile is_space (b @ ?rest) = ?rest \<or> (v = [] \<and> dropWhile is_space (b @ ?rest) = CHR ''}'' # d @ CHR ''}'' # s)"
    using assms drop_spaces [of b "hd v" "tl v @ c @ CHR ''}'' # d @ CHR ''}'' # s"] drop_spaces [of "b @ c" "CHR ''}''" "d @ CHR ''}'' # s"]
    by (cases v) (auto simp: slot_name_def spaces_def)
  moreover have "slot_content ?rest = Some (v, s)"
    using assms by (intro slot_content_name) (auto simp: slot_name_def)
  moreover have "slot_content (CHR ''}'' # d @ CHR ''}'' # s) = Some ([], s)"
    using slot_content_name [of "[]" "[]" d s] assms(5) by (simp add: no_braces_def spaces_def)
  ultimately have "match_slot (CHR ''{'' # a @ CHR ''{'' # b @ ?rest) = Some (v, s)"
    using assms(2) by (auto simp: match_slot_def after_brace_spaces)
  then show ?thesis by (subst getFormatedLegend.simps) (simp add: slot_def)
qed

lemma formatted_words: "no_braces w \<Longrightarrow> getFormatedLegend (w @ s) = w @ getFormatedLegend s"
proof (induction w)
  case (Cons c w)
  then have "match_slot ((c # w) @ s) = None" by (auto simp: match_slot_def no_braces_def)
  then show ?case using Cons by (subst getFormatedLegend.simps) (simp add: no_braces_def)
qed simp

text \<open>A legend as it is typed: the spaces around a slot and its braces.\<close>

datatype typed_piece = Typed_words string | Typed_slot string string string string string

fun typed_text :: "typed_piece \<Rightarrow> string" where
  "typed_text (Typed_words w) = w"
| "typed_text (Typed_slot a b v c d) = CHR ''{'' # a @ CHR ''{'' # b @ v @ c @ CHR ''}'' # d @ ''}''"

fun typed_ok :: "typed_piece \<Rightarrow> bool" where
  "typed_ok (Typed_words w) = no_braces w"
| "typed_ok (Typed_slot a b v c d) = (slot_name v \<and> spaces a \<and> spaces b \<and> spaces c \<and> spaces d)"

fun written :: "typed_piece \<Rightarrow> piece" where
  "written (Typed_words w) = Words w"
| "written (Typed_slot a b v c d) = Slot v"

lemma formatted_legend: "list_all typed_ok ps \<Longrightarrow> getFormatedLegend (concat (map typed_text ps)) = legend_text (map written ps)"
proof (induction ps)
  case Nil
  then show ?case by (subst getFormatedLegend.simps) (simp add: legend_text_def)
next
  case (Cons p ps)
  then show ?case by (cases p) (simp_all add: formatted_words formatted_slot [simplified] legend_text_def)
qed

text \<open>C25: Let a legend that is not empty be typed from words without braces and slots whose names have no braces, line ends or
  outer spaces, with whatever spaces around the names and between the braces, and let the values of the labels of a series
  have no braces and no dollar signs.  Once it is stored, the legend is filled slot by slot with the values of the labels.\<close>

theorem typed_legend_fills:
  assumes "list_all typed_ok ps" "concat (map typed_text ps) \<noteq> []" "list_all (\<lambda>(_, x). label_ok x) metric"
    and "bq_legend v = Some (concat (map typed_text ps))"
  shows "\<exists>legend. bq_legend (change_field F_legend v q) = Some legend \<and> getLabelName (Some metric) name legend
    = concat (map (\<lambda>p. case p of Typed_words w \<Rightarrow> w | Typed_slot _ _ n _ _ \<Rightarrow> undefined_text (obj_get metric n)) ps)"
proof -
  let ?legend = "legend_text (map written ps)"
  have l: "bq_legend (change_field F_legend v q) = Some ?legend"
    using assms(1,4) by (simp add: change_field_def formatted_legend)
  have "piece_ok (written p)" if "typed_ok p" for p
    using that by (cases p) (simp_all add: slot_name_def)
  then have ok: "list_all piece_ok (map written ps)" using assms(1) by (simp add: list_all_iff)
  have "typed_text p = [] \<or> legend_text [written p] \<noteq> []" for p
    by (cases p) simp_all
  then have "?legend \<noteq> []" using assms(2) by (fastforce simp: legend_text_def)
  from getLabelName_fills [OF ok this assms(3), of name]
  have "getLabelName (Some metric) name ?legend =
      concat (map (\<lambda>p. case p of Typed_words w \<Rightarrow> w | Typed_slot _ _ n _ _ \<Rightarrow> undefined_text (obj_get metric n)) ps)"
    unfolding map_map comp_def by (rule trans) (rule arg_cong [of _ _ concat], rule map_cong [OF refl], simp split: typed_piece.split)
  then show ?thesis using l by blast
qed

theorem typed_legend_fills_witness:
  "\<exists>legend. bq_legend (change_field F_legend (initialQueryBuilderFormValues\<lparr> bq_legend := Some ''on {{ host }}'' \<rparr>)
        initialQueryBuilderFormValues) = Some legend
     \<and> getLabelName (Some [(''host'', ''web 1'')]) ''A'' legend = ''on web 1''"
proof -
  have "spaces [] \<and> spaces '' '' \<and> slot_name ''host''" by code_simp
  then show ?thesis
    using typed_legend_fills [of "[Typed_words ''on '', Typed_slot [] '' '' ''host'' '' '' []]" "[(''host'', ''web 1'')]"
        "initialQueryBuilderFormValues\<lparr> bq_legend := Some ''on {{ host }}'' \<rparr>" initialQueryBuilderFormValues "''A''"]
    by (simp add: no_braces_def label_ok_def undefined_text_def)
qed

section \<open>Metrics\<close>

lemma js_or_first: "s \<noteq> [] \<Longrightarrow> js_or (Some s) b = Some s"
  by (simp add: js_or_def)

lemma asked_metric:
  assumes "bq_dataSource q = METRICS"
  shows "createAggregation q pt = [AggMetric (metric_aggregation q pt)]"
  using assms by (simp add: createAggregation_def)

text \<open>The aggregations of a query whose metric is chosen: of a known type that is new, of the same type, and of none.\<close>

definition type_changed :: "(string \<times> string) option \<Rightarrow> string \<Rightarrow> bool" where
  "type_changed previous ty \<longleftrightarrow> previous = None \<or> (\<exists>n t. previous = Some (n, t) \<and> t \<noteq> [] \<and> t \<noteq> ty)"

lemma chosen_aggregations:
  assumes "bq_dataSource q = METRICS" "q' = handleChangeAggregatorAttribute V5 previous False v q" "ty = or_text (ac_type v) []"
  shows "bq_dataSource q' = METRICS" "bq_timeAggregation q' = bq_timeAggregation q" "bq_aggregateAttribute q' = Some v"
    and "ty = [] \<Longrightarrow> bq_aggregations q' = unknown_aggregations (ac_key v)"
    and "ty \<noteq> [] \<Longrightarrow> type_changed previous ty \<Longrightarrow> bq_aggregations q' = fresh_aggregations ty (ac_key v)"
    and "ty \<noteq> [] \<Longrightarrow> \<not> type_changed previous ty \<Longrightarrow> bq_aggregations q' = (case bq_aggregations q of [] \<Rightarrow> []
        | a # _ \<Rightarrow> [AggMetric ((metric_part a)\<lparr> ma_metricName := Some (ac_key v) \<rparr>)])"
    and "ty \<noteq> [] \<Longrightarrow> \<not> type_changed previous ty \<Longrightarrow> bq_spaceAggregation q' = bq_spaceAggregation q"
proof -
  have t: "attribute_type (Some v) = ty" "attribute_key (Some v) = ac_key v"
    by (simp_all add: assms(3) attribute_type_def attribute_key_def or_text_def)
  have q: "q' = v5_attribute previous (q\<lparr> bq_aggregateAttribute := Some v \<rparr>)"
    using assms(1) by (simp add: assms(2) handleChangeAggregatorAttribute_def)
  show "bq_dataSource q' = METRICS" "bq_timeAggregation q' = bq_timeAggregation q" "bq_aggregateAttribute q' = Some v"
    using assms(1) by (simp_all add: q v5_attribute_def Let_def split: list.split)
  show "bq_aggregations q' = unknown_aggregations (ac_key v)" if "ty = []"
    using that by (simp add: q v5_attribute_def Let_def t split: list.split)
  show "bq_aggregations q' = fresh_aggregations ty (ac_key v)" if "ty \<noteq> []" "type_changed previous ty"
    using that unfolding q type_changed_def by (cases previous) (auto simp: v5_attribute_def Let_def t split: list.split)
  show "bq_aggregations q' = (case bq_aggregations q of [] \<Rightarrow> []
        | a # _ \<Rightarrow> [AggMetric ((metric_part a)\<lparr> ma_metricName := Some (ac_key v) \<rparr>)])"
      "bq_spaceAggregation q' = bq_spaceAggregation q" if "ty \<noteq> []" "\<not> type_changed previous ty"
    using that unfolding q type_changed_def by (cases previous; auto simp: v5_attribute_def Let_def t split: list.split prod.split)+
qed

text \<open>C20: The metric that the user chooses is the one that is asked for.  Of an unknown type it is averaged; of a
  type that differs from the last one it is aggregated as fits its type; otherwise the aggregation stays as it was.\<close>

theorem chosen_metric_asked:
  assumes "bq_dataSource q = METRICS" "ac_key v \<noteq> []"
  shows "let q' = handleChangeAggregatorAttribute V5 previous False v q; ty = or_text (ac_type v) [] in
    \<exists>m. createAggregation q' pt = [AggMetric m] \<and> ma_metricName m = Some (ac_key v)
      \<and> (ty = [] \<longrightarrow> ma_timeAggregation m = Some ''avg'' \<and> ma_spaceAggregation m = Some ''avg'')
      \<and> (type_changed previous ty \<longrightarrow>
          (ty = ''Sum'' \<longrightarrow> ma_timeAggregation m = Some ''rate'' \<and> ma_spaceAggregation m = Some ''sum'')
          \<and> (ty = ''Gauge'' \<longrightarrow> ma_timeAggregation m = Some ''avg'' \<and> ma_spaceAggregation m = Some ''avg'')
          \<and> (ty = ''Histogram'' \<or> ty = ''ExponentialHistogram'' \<longrightarrow> ma_spaceAggregation m = Some ''p90''))
      \<and> (\<forall>n m0 ms. previous = Some (n, ty) \<and> ty \<noteq> [] \<and> bq_aggregations q = AggMetric m0 # ms \<longrightarrow>
          ma_timeAggregation m = js_or (ma_timeAggregation m0) (bq_timeAggregation q)
          \<and> ma_spaceAggregation m = js_or (ma_spaceAggregation m0) (bq_spaceAggregation q))"
proof -
  let ?ty = "or_text (ac_type v) []" and ?q = "handleChangeAggregatorAttribute V5 previous False v q"
  let ?m = "metric_aggregation ?q pt"
  note chosen = chosen_aggregations [where previous = previous and v = v, OF assms(1) refl refl]
  note m = metric_aggregation_def first_metric_def js_or_def metric_of_def
  have "ma_metricName ?m = Some (ac_key v)"
    using assms(2) chosen by (cases "?ty = []"; cases "type_changed previous ?ty")
      (auto simp: m unknown_aggregations_def fresh_aggregations_def split: list.split)
  moreover have "?ty = [] \<longrightarrow> ma_timeAggregation ?m = Some ''avg'' \<and> ma_spaceAggregation ?m = Some ''avg''"
    using assms(2) by (simp add: m chosen(4) unknown_aggregations_def)
  moreover have "type_changed previous ?ty \<longrightarrow>
      (?ty = ''Sum'' \<longrightarrow> ma_timeAggregation ?m = Some ''rate'' \<and> ma_spaceAggregation ?m = Some ''sum'')
      \<and> (?ty = ''Gauge'' \<longrightarrow> ma_timeAggregation ?m = Some ''avg'' \<and> ma_spaceAggregation ?m = Some ''avg'')
      \<and> (?ty = ''Histogram'' \<or> ?ty = ''ExponentialHistogram'' \<longrightarrow> ma_spaceAggregation ?m = Some ''p90'')"
    using chosen(5) by (auto simp: m fresh_aggregations_def)
  moreover have "ma_timeAggregation ?m = js_or (ma_timeAggregation m0) (bq_timeAggregation q)
        \<and> ma_spaceAggregation ?m = js_or (ma_spaceAggregation m0) (bq_spaceAggregation q)"
    if "previous = Some (n, ?ty)" "?ty \<noteq> []" "bq_aggregations q = AggMetric m0 # ms" for n m0 ms
  proof -
    have "\<not> type_changed previous ?ty" using that(1) by (simp add: type_changed_def)
    then show ?thesis using chosen(2,6,7) that(2,3) by (simp add: metric_aggregation_def first_metric_def metric_part_def)
  qed
  ultimately show ?thesis using asked_metric [OF chosen(1), of pt] unfolding Let_def by blast
qed

definition known_metric :: BaseAutocompleteData where
  "known_metric = initialAutocompleteData\<lparr> ac_key := ''latency'', ac_type := Some ''Histogram'' \<rparr>"

theorem chosen_metric_asked_witness:
  "\<exists>m. createAggregation (handleChangeAggregatorAttribute V5 None False known_metric initialQueryBuilderFormValues) None = [AggMetric m]
     \<and> ma_metricName m = Some ''latency'' \<and> ma_spaceAggregation m = Some ''p90''"
proof -
  have "bq_dataSource initialQueryBuilderFormValues = METRICS" by (simp add: initialQueryBuilderFormValues_def)
  moreover have "ac_key known_metric = ''latency''" "or_text (ac_type known_metric) [] = ''Histogram''"
    by (simp_all add: known_metric_def or_text_def)
  ultimately show ?thesis
    using chosen_metric_asked [of initialQueryBuilderFormValues known_metric None None] by (auto simp: type_changed_def)
qed

section \<open>Data sources\<close>

lemma query_key_source: "getQueryKey n d s pt = getQueryKey n d' s' pt \<Longrightarrow> d = d'"
  by (cases d; cases d') (auto simp: getQueryKey_def data_source_text_def)

lemma query_key_signal: "s \<noteq> Some ''meter'' \<Longrightarrow> s' \<noteq> Some ''meter'' \<Longrightarrow> getQueryKey n d s pt = getQueryKey n d s' pt"
  by (simp add: getQueryKey_def)

lemma obj_get_remove: "obj_get (removeKeyFromPreviousQuery k store) k' = (if k' = k then None else obj_get store k')"
  unfolding removeKeyFromPreviousQuery_def by (induction store) auto

text \<open>C19: Where previous queries are saved, let a query be left for another data source in a panel other than the list and the
  trace, and let neither it nor the query at the time the user comes back have the meter as its source.  When the user comes
  back to the data source it is there again, as it was, whatever was done in between to the query except to its name and
  its data source.\<close>

theorem left_source_restored:
  assumes "handleChangeDataSource True isListViewPanel panelType d q store = (target, q1, store')"
    and "d \<noteq> bq_dataSource q" "bq_queryName q2 = bq_queryName q" "bq_dataSource q2 = d"
    and "bq_source q \<noteq> Some ''meter''" "bq_source q2 \<noteq> Some ''meter''"
    and "panel_or_default panelType \<noteq> LIST" "panel_or_default panelType \<noteq> TRACE"
  shows "fst (snd (handleChangeDataSource True isListViewPanel panelType (bq_dataSource q) q2 store')) = Some q"
proof -
  let ?key = "\<lambda>d. getQueryKey (bq_queryName q) d (bq_source q) panelType"
  have ne: "?key d \<noteq> ?key (bq_dataSource q)" using assms(2) query_key_source by blast
  have "store' = removeKeyFromPreviousQuery (?key d) (saveAsPreviousQuery (?key (bq_dataSource q)) q store)"
    using assms(1) by (simp add: handleChangeDataSource_def Let_def)
  then have s: "obj_get store' (?key (bq_dataSource q)) = Some q"
    using ne by (simp add: obj_get_remove saveAsPreviousQuery_def)
  have k: "getQueryKey (bq_queryName q2) d' (bq_source q2) panelType = ?key d'" for d'
    using query_key_signal [OF assms(6,5)] assms(3) by simp
  obtain ops where "getOperatorsBySourceAndPanelType (bq_dataSource q) (panel_or_default panelType) = (''count'', ''Count'') # ops"
    using first_operator assms(7,8) by blast
  then show ?thesis
    using s ne assms(4) by (simp add: handleChangeDataSource_def Let_def k getPreviousQueryFromKey_def saveAsPreviousQuery_def)
qed

theorem left_source_restored_witness:
  "let q = initialQueryBuilderFormLogsValues; (target, q1, store) = handleChangeDataSource True False (Some TABLE) TRACES q []
   in fst (snd (handleChangeDataSource True False (Some TABLE) LOGS (initialQueryBuilderFormTracesValues\<lparr> bq_legend := Some ''x'' \<rparr>) store))
      = Some initialQueryBuilderFormLogsValues"
proof -
  let ?q = initialQueryBuilderFormLogsValues and ?q2 = "initialQueryBuilderFormTracesValues\<lparr> bq_legend := Some ''x'' \<rparr>"
  obtain target q1 store where r: "handleChangeDataSource True False (Some TABLE) TRACES ?q [] = (target, q1, store)"
    by (rule prod_cases3)
  have "bq_dataSource ?q = LOGS" "bq_dataSource ?q2 = TRACES" "bq_queryName ?q2 = bq_queryName ?q"
      "bq_source ?q = Some []" "bq_source ?q2 = Some []"
    by (simp_all add: initialQueryBuilderFormTracesValues_def initialQueryBuilderFormLogsValues_def initialQueryBuilderFormValues_def)
  then show ?thesis
    using left_source_restored [OF r, of ?q2] by (simp add: r Let_def panel_or_default_def)
qed

text \<open>C26: The change of the data source fails with an error exactly in a list or trace panel, where no operator is
  offered; the address has changed by then.\<close>

theorem source_change_fails_iff:
  "fst (snd (handleChangeDataSource savePreviousQuery isListViewPanel panelType d q store)) = None
     \<longleftrightarrow> panelType = Some LIST \<or> panelType = Some TRACE"
proof (cases "panelType = Some LIST \<or> panelType = Some TRACE")
  case True
  then show ?thesis by (auto simp: handleChangeDataSource_def Let_def panel_or_default_def list_panel_no_operators)
next
  case False
  then have "panel_or_default panelType \<noteq> LIST" "panel_or_default panelType \<noteq> TRACE"
    by (auto simp: panel_or_default_def split: option.split)
  then obtain ops where "getOperatorsBySourceAndPanelType d (panel_or_default panelType) = (''count'', ''Count'') # ops"
    using first_operator by blast
  then show ?thesis using False by (simp add: handleChangeDataSource_def Let_def)
qed

end
