(* ===== verification/Spec2Isabelle.thy ===== *)
theory Spec2Isabelle
  imports FetchProperties VariableOptions VariableSelect VariableUpdate SearchFields LogsReducer
    TraceReducer SpanTree TraceTree RowCollapse GlobalTime StackedSeries ChartData
    Histogram Units ChartScale QueryContextProperties QueryReload QueryTableProperties
    QueryStateProperties QueryEditingProperties
begin

text \<open>
  SigNoz is an observability platform.  Its backend (Go) answers queries over logs, traces and
  metrics; its frontend (TypeScript, \<^verbatim>\<open>frontend/src\<close>) builds the queries, keeps the state of dashboards
  and explorers, and prepares the answers for tables and charts.  This development models the
  logic of the frontend that is not rendering: the stores and reducers, the resolution of dashboard
  variables, the query language of the logs page, the filters of the query builder, the time ranges, the trace forests and the
  tables behind the charts.

  \<^bold>\<open>How the parts interact.\<close>  A dashboard has variables.  Their texts refer to each other; the
  references form a graph, which orders the variables and says who has to be fetched again when a
  value changes.  The variables store derives that graph and hands it, as a context, to the fetch
  store, a state machine with one state per variable.  The drop-downs write values back.  The filters
  of a query are edited as a list of items and as an expression, and each is converted to the other.  The queries of the
  panels are edited in the state of the query builder, go through the address when they are run, and become requests for a time range, which the time stores and the zoom ladder compute; they are saved
  with views, alerts and widgets and read back.  The answers become tables of rows, or series with legends and
  tables with one x axis, with gaps, stacks or buckets; the names of columns, series and units are derived from the query
  in several places, which have to agree.  The logs page parses its own
  query language and edits it in a form.  Traces come as lists of spans and become forests.

  \<^bold>\<open>Theories and sources\<close> (paths under \<^verbatim>\<open>frontend/src\<close>).

  \<^item> \<open>Prelude\<close>, \<open>JsString\<close>, \<open>JsNumber\<close>: what the code uses of JavaScript.  An object used as
    a dictionary is an association list in enumeration order; its laws are the locale
    \<open>dictionary\<close>, interpreted on the model's objects.  Strings are lists of characters below U+0100.
  \<^item> \<open>VariableReference\<close>: \<^verbatim>\<open>lib/dashboardVariables/variableReference.ts\<close>, with the regular
    expressions it builds as data and a matcher for them.
  \<^item> \<open>DashboardVariable\<close>, \<open>DependencyGraph\<close>: the variable record and the graph functions of
    \<^verbatim>\<open>container/DashboardContainer/DashboardVariablesSelection/util.ts\<close>.  \<open>DependencyOrder\<close> and
    \<open>DependencyCycles\<close> hold the lemmas on Kahn's algorithm and on the depth-first search,
    \<open>DependencyProperties\<close> what both promise together.
  \<^item> \<open>DashboardVariablesStore\<close>, \<open>VariableFetchStore\<close>: the two stores under
    \<^verbatim>\<open>providers/Dashboard/store\<close>, one definition per action.  \<open>FetchContext\<close> states the
    interface between them as the locale \<open>dependency_context\<close>, interpreted on the contexts the
    variables store builds; \<open>FetchMachine\<close> turns the actions into a step relation with its invariant,
    and \<open>FetchProperties\<close> has the consequences.
  \<^item> \<open>VariableOptions\<close>, \<open>VariableSelect\<close>, \<open>VariableUpdate\<close>: \<^verbatim>\<open>components/NewSelect/utils.ts\<close> and
    the hooks and strategies next to the selection.
  \<^item> \<open>LogQL\<close>, \<open>LogQLProperties\<close>, \<open>SearchFields\<close>: \<^verbatim>\<open>lib/logql\<close> and
    \<^verbatim>\<open>container/LogsSearchFilter/SearchFields/utils.ts\<close>.
  \<^item> \<open>LogsReducer\<close>, \<open>TraceReducer\<close>: the slices of \<^verbatim>\<open>store/reducers\<close>, one datatype of actions and one
    function per reducer.
  \<^item> \<open>SpanTree\<close>, \<open>TraceTree\<close>: \<^verbatim>\<open>utils/spanToTree.ts\<close>, whose map of shared mutable nodes is an explicit
    store, and the walks of \<^verbatim>\<open>container/GantChart/utils.ts\<close>.
  \<^item> \<open>RowCollapse\<close>: \<^verbatim>\<open>container/GridCardLayout/utils.ts\<close>.
  \<^item> \<open>GlobalTime\<close>: \<^verbatim>\<open>lib/getMinMax.ts\<close>, \<^verbatim>\<open>store/globalTime\<close>, \<^verbatim>\<open>lib/zoomOutUtils.ts\<close> and paging.
  \<^item> \<open>StackedSeries\<close>, \<open>ChartData\<close>, \<open>Histogram\<close>: the tables of the charts, from
    \<^verbatim>\<open>lib/uPlotV2/utils/dataUtils.ts\<close>, \<^verbatim>\<open>lib/uPlotLib/utils/getUplotChartData.ts\<close> and
    \<^verbatim>\<open>container/DashboardContainer/visualization\<close>.
  \<^item> \<open>UnitTables\<close>, \<open>Units\<close>: the units of \<^verbatim>\<open>components/YAxisUnitSelector\<close> and the conversion of
    \<^verbatim>\<open>lib/getConvertedValue.ts\<close>; \<open>ChartScale\<close>: the value axis, from \<^verbatim>\<open>lib/uPlotV2/utils/scale.ts\<close> and
    \<^verbatim>\<open>lib/uPlotLib/utils/getYAxisScale.ts\<close>.  \<^verbatim>\<open>rangeNum\<close> and \<^verbatim>\<open>rangeLog\<close> of the charting package are
    arguments.
  \<^item> \<open>FilterLexer\<close>, \<open>QueryPairs\<close>, \<open>FilterExpression\<close>: the filter expressions of the query builder; the
    lexer rules of \<^verbatim>\<open>grammar/FilterQuery.g4\<close>, the reading of the comparisons in
    \<^verbatim>\<open>utils/queryContextUtils.ts\<close> and the conversions of \<^verbatim>\<open>components/QueryBuilderV2/utils.ts\<close>.
    \<open>FilterPrinting\<close> and \<open>FilterRoundtrip\<close> show what is printed and that it is read back.
    \<open>FilterEditing\<close> has the operations that change an expression in place (merging the filters of the
    form into it, removing keys) with their properties in \<open>FilterEditingProperties\<close>, and
    \<open>QueryContext\<close> the context of the cursor in an expression (\<^verbatim>\<open>utils/queryContextUtils.ts\<close> and
    \<^verbatim>\<open>parser/analyzeQuery.ts\<close>), with \<open>QueryContextProperties\<close>.  The lexer is an argument that has to
    follow the grammar, as a lexer built from the rules does; the tokens that a listener of the generated parser
    collects and the library's \<^verbatim>\<open>sortBy\<close> are arguments too.
  \<^item> \<open>QueryBuilder\<close>, \<open>QueryPayload\<close>, \<open>QueryComposite\<close>: the queries and the envelopes of
    \<^verbatim>\<open>types/api\<close>, the request (\<^verbatim>\<open>api/v5/queryRange/prepareQueryRangePayloadV5.ts\<close>), and saving and reading
    back (\<^verbatim>\<open>lib/newQueryBuilder/queryBuilderMappers\<close>, \<^verbatim>\<open>utils/compositeQueryToQueryEnvelope.ts\<close>).
    \<open>QueryRequestProperties\<close>, \<open>QueryTyping\<close> and \<open>QueryReload\<close> show what is asked for, that
    it has the shape of \<^verbatim>\<open>types/api/v5/queryRange.ts\<close> if what is entered is listed there, and what saving keeps.
  \<^item> \<open>QueryResponse\<close>, \<open>SeriesLegend\<close>, \<open>QueryTable\<close>: the answers (\<^verbatim>\<open>api/v5/queryRange/convertV5Response.ts\<close>),
    the legends (\<^verbatim>\<open>lib/getLabelName.ts\<close>, \<^verbatim>\<open>lib/dashboard/getQueryResults.ts\<close>) and the table of a query
    (\<^verbatim>\<open>lib/query/createTableColumnsFromQuery.ts\<close>), whose columns are threaded through folds where the code
    mutates them.  \<open>QueryTableProperties\<close> follows an answer into its table.
  \<^item> \<open>QueryOperators\<close>, \<open>QueryFields\<close>: the operators on offer (\<^verbatim>\<open>constants/queryBuilderOperators.ts\<close>) and the
    fields a panel uses (\<^verbatim>\<open>container/NewWidget/utils.ts\<close>).  \<open>QueryBuilderState\<close>: the state of the query builder
    (\<^verbatim>\<open>providers/QueryBuilder.tsx\<close>), one function per action; the table of fields, which the code mutates, is part of
    the state, and the address bar is a result and an argument.  \<open>QueryEditing\<close>: the handlers of the fields
    (\<^verbatim>\<open>hooks/queryBuilder/useQueryBuilderOperations.ts\<close>).  \<open>QueryStateProperties\<close> turns the actions into a step relation,
    refines it to the names of the items and shows what editing, running and changing the panel keep;
    \<open>QueryEditingProperties\<close> what the handlers promise.

  \<^bold>\<open>What the lemmas show.\<close>  The theory of a component ends with its properties; each is
  preceded by a text that states it.  Invariants of stores are proved for every sequence of actions;
  the fetch machine also has progress (some variable is always being fetched) and an end of
  every fetch cycle.  Routines that exist twice are proved equal; optimised ones are compared with a
  plain specification; texts that are printed and read are round trips; and where the code does
  something other than it says, a theorem exhibits the input.  What a theorem assumes of its input (plain names, texts
  without quotes, queries with expressions) is in the text before it; the theorems whose names end in \<open>_flawed\<close> or
  \<open>_lossy\<close> show what happens without.

  \<^bold>\<open>Loops and bounds.\<close>  A loop over data is structural recursion or a fold.  The depth-first
  search ends by the number of unvisited nodes and Kahn's loop by the in-degrees still pending: both
  are functions with a measure.  The walk that closes a cycle need not end in the code: it is a
  \<open>partial_function (option)\<close>, \<open>None\<close> being a walk that never returns; one theorem says that
  it returns on acyclic references and where no variable refers to two, and that the check for cycles is exact whenever it
  returns; another exhibits an input on which it hangs.  No
  definition has fuel.  The ladder of the zoom is exhausted after 23 steps.

  \<^bold>\<open>Parameters.\<close>  The clock, generated identifiers and what comes from packages (the list of
  histogram bucket sizes, for example) are arguments of the definitions; so is the query service, a function from
  requests to answers.  Numbers that the
  code adds and divides are rationals or integers: rounding errors of floating point are not modelled.

  \<^bold>\<open>Not modelled.\<close>  Rendering (React components), HTTP clients, the generated grammar of the
  query builder, tables of texts and routes, and the backend, which is another language.  Of the queries,
  the formats older than the fifth version of the service and public dashboards are left out.  Hooks are
  modelled as far as they compute; their subscriptions are not.
\<close>

end
